(* ===== verification/Prelude.thy ===== *)
theory Prelude
  imports Main "HOL-Library.Word" "HOL-Library.Code_Target_Nat"
begin

text \<open>
  Shared vocabulary of the development: the C integer types as words, the memory image of
  an integer on a little-endian host and the network byte order, the C allocator, block
  operations on byte arrays, and the list lemmas every component uses.
\<close>

unbundle bit_operations_syntax

type_synonym u8 = "8 word"
type_synonym u16 = "16 word"
type_synonym u32 = "32 word"
type_synonym u64 = "64 word"
type_synonym bytes = "8 word list"

named_theorems wire_simps "memory images of integers and their network order"
named_theorems mem_simps "block operations on byte arrays"
named_theorems buf_defs "definitions of the buffer operations"

text \<open>Return codes of \<^verbatim>\<open>include/libssh/libssh.h\<close>.\<close>

abbreviation SSH_OK :: int where "SSH_OK \<equiv> 0"
abbreviation SSH_ERROR :: int where "SSH_ERROR \<equiv> - 1"
abbreviation SSH_AGAIN :: int where "SSH_AGAIN \<equiv> - 2"
abbreviation SSH_EOF :: int where "SSH_EOF \<equiv> - 127"

text \<open>Arithmetic of \<^verbatim>\<open>size_t\<close> (64 bits) and of conversions to \<^verbatim>\<open>uint32_t\<close>, on \<^typ>\<open>nat\<close>.\<close>

definition wrap32 :: "nat \<Rightarrow> nat" where
  "wrap32 n = n mod 4294967296"

definition wrap64 :: "nat \<Rightarrow> nat" where
  "wrap64 n = n mod 18446744073709551616"

definition sub64 :: "nat \<Rightarrow> nat \<Rightarrow> nat" where
  "sub64 a b = (if b \<le> a then a - b else wrap64 (a + 18446744073709551616 - b))"

lemma wrap32_small [simp]: "n < 4294967296 \<Longrightarrow> wrap32 n = n"
  by (simp add: wrap32_def)

lemma wrap32_less [simp]: "wrap32 n < 4294967296"
  by (simp add: wrap32_def)

lemma wrap32_le [simp]: "wrap32 n \<le> n"
  by (simp add: wrap32_def)

lemma wrap64_small [simp]: "n < 18446744073709551616 \<Longrightarrow> wrap64 n = n"
  by (simp add: wrap64_def)

lemma sub64_le [simp]: "b \<le> a \<Longrightarrow> sub64 a b = a - b"
  by (simp add: sub64_def)

subsection \<open>Memory images of integers\<close>

text \<open>
  The host is little-endian: the object representation of an integer has its low byte
  first. \<open>le_enc n v\<close> is the \<open>n\<close>-byte image of \<open>v\<close>, \<open>le_dec\<close> reads an image back.
\<close>

fun le_enc :: "nat \<Rightarrow> nat \<Rightarrow> bytes" where
  "le_enc 0 v = []"
| "le_enc (Suc n) v = of_nat v # le_enc n (v div 256)"

fun le_dec :: "bytes \<Rightarrow> nat" where
  "le_dec [] = 0"
| "le_dec (b # bs) = unat b + 256 * le_dec bs"

definition mem_bytes :: "'a::len word \<Rightarrow> bytes" where
  "mem_bytes w = le_enc (LENGTH('a) div 8) (unat w)"

definition load_bytes :: "bytes \<Rightarrow> 'a::len word" where
  "load_bytes bs = of_nat (le_dec bs)"

text \<open>
  \<^verbatim>\<open>htons\<close>, \<^verbatim>\<open>htonl\<close>, \<^verbatim>\<open>htonll\<close> and their inverses reverse the bytes of the image.
\<close>

definition bswap :: "'a::len word \<Rightarrow> 'a word" where
  "bswap w = load_bytes (rev (mem_bytes w))"

text \<open>The network image of an integer: high byte first.\<close>

definition be_bytes :: "'a::len word \<Rightarrow> bytes" where
  "be_bytes w = rev (mem_bytes w)"

lemma unat_less_pow: "unat (w::'a::len word) < 2 ^ LENGTH('a)"
  by (rule unsigned_less)

lemma unat_u8 [simp]: "unat (b::u8) < 256"
  using unat_less_pow [of b] by simp

lemma u8_mult_256 [simp]: "256 * (w::u8) = 0"
proof -
  have "(256::u8) = 0"
    by (rule word_uint_eqI) simp
  then show ?thesis
    by (simp only: mult_zero_left)
qed

lemma length_le_enc [simp]: "length (le_enc n v) = n"
  by (induction n arbitrary: v) auto

lemma le_dec_le_enc [wire_simps]: "le_dec (le_enc n v) = v mod 256 ^ n"
proof (induction n arbitrary: v)
  case (Suc n)
  have "unat (of_nat v :: u8) = v mod 256"
    by (simp add: unat_of_nat)
  with Suc show ?case
    by (simp add: mod_mult2_eq)
qed simp

lemma le_dec_less: "le_dec bs < 256 ^ length bs"
proof (induction bs)
  case (Cons b bs)
  have "unat b < 256"
    by simp
  with Cons have "unat b + 256 * le_dec bs < 256 + 256 * le_dec bs"
    by simp
  also have "\<dots> \<le> 256 * 256 ^ length bs"
    using Cons by (simp add: Suc_leI flip: mult_Suc_right)
  finally show ?case
    by simp
qed simp

lemma le_enc_le_dec [wire_simps]: "le_enc (length bs) (le_dec bs) = bs"
proof (induction bs)
  case (Cons b bs)
  have "unat b < 256"
    by simp
  with Cons show ?case
    by simp
qed simp

lemma pow_256_bytes: "8 dvd n \<Longrightarrow> (256::nat) ^ (n div 8) = 2 ^ n"
proof -
  assume "8 dvd n"
  then have "2 ^ n = (2 ^ 8 :: nat) ^ (n div 8)"
    by (metis dvd_mult_div_cancel power_mult)
  then show ?thesis
    by simp
qed

lemma length_mem_bytes [simp]: "length (mem_bytes (w::'a::len word)) = LENGTH('a) div 8"
  by (simp add: mem_bytes_def)

lemma length_be_bytes [simp]: "length (be_bytes (w::'a::len word)) = LENGTH('a) div 8"
  by (simp add: be_bytes_def)

lemma load_mem_bytes [simp]: "8 dvd LENGTH('a) \<Longrightarrow> load_bytes (mem_bytes w) = (w::'a::len word)"
  using unat_less_pow [of w]
  by (simp add: load_bytes_def mem_bytes_def wire_simps pow_256_bytes)

lemma mem_load_bytes:
  "8 dvd LENGTH('a) \<Longrightarrow> length bs = LENGTH('a) div 8 \<Longrightarrow>
    mem_bytes (load_bytes bs :: 'a::len word) = bs"
  using le_dec_less [of bs] le_enc_le_dec [of bs]
  by (simp add: load_bytes_def mem_bytes_def unat_of_nat pow_256_bytes)

lemma mem_bytes_bswap [wire_simps]:
  "8 dvd LENGTH('a) \<Longrightarrow> mem_bytes (bswap (w::'a::len word)) = be_bytes w"
  by (simp add: bswap_def be_bytes_def mem_load_bytes)

lemma bswap_load_be [wire_simps]:
  "8 dvd LENGTH('a) \<Longrightarrow> bswap (load_bytes (be_bytes w)) = (w::'a::len word)"
  by (simp add: bswap_def be_bytes_def mem_load_bytes)

lemma be_bytes_inj: "8 dvd LENGTH('a) \<Longrightarrow> be_bytes v = be_bytes w \<longleftrightarrow> v = (w::'a::len word)"
  by (metis bswap_load_be)

lemma bswap_bswap [simp]: "8 dvd LENGTH('a) \<Longrightarrow> bswap (bswap w) = (w::'a::len word)"
  by (metis bswap_def be_bytes_def bswap_load_be mem_bytes_bswap rev_rev_ident load_mem_bytes)

subsection \<open>The C allocator\<close>

text \<open>
  An environment decides which requests the allocator grants and what the fresh bytes
  hold; both are arbitrary. \<^verbatim>\<open>realloc\<close> keeps the common prefix.
\<close>

record heap =
  heap_grants :: "nat \<Rightarrow> bool"
  heap_fresh :: "nat \<Rightarrow> u8"

definition malloc :: "heap \<Rightarrow> nat \<Rightarrow> bytes option" where
  "malloc h n = (if heap_grants h n then Some (map (heap_fresh h) [0..<n]) else None)"

definition calloc :: "heap \<Rightarrow> nat \<Rightarrow> bytes option" where
  "calloc h n = (if heap_grants h n then Some (replicate n 0) else None)"

definition realloc :: "heap \<Rightarrow> bytes \<Rightarrow> nat \<Rightarrow> bytes option" where
  "realloc h old n =
     map_option (\<lambda>fresh. take n old @ drop (length old) fresh) (malloc h n)"

text \<open>An allocator that grants every request, for concrete runs.\<close>

definition roomy_heap :: heap where
  "roomy_heap = \<lparr>heap_grants = (\<lambda>_. True), heap_fresh = (\<lambda>_. 204)\<rparr>"

lemma malloc_length: "malloc h n = Some bs \<Longrightarrow> length bs = n"
  by (auto simp: malloc_def split: if_splits)

lemma realloc_length: "realloc h old n = Some bs \<Longrightarrow> length bs = n"
  by (auto simp: realloc_def dest: malloc_length)

lemma realloc_take: "realloc h old n = Some bs \<Longrightarrow> k \<le> n \<Longrightarrow> k \<le> length old \<Longrightarrow> take k bs = take k old"
  by (auto simp: realloc_def min_def dest: malloc_length)

lemma realloc_grants: "realloc h old n = None \<longleftrightarrow> \<not> heap_grants h n"
  by (simp add: realloc_def malloc_def)

lemma malloc_grants: "malloc h n = None \<longleftrightarrow> \<not> heap_grants h n"
  by (simp add: malloc_def)

subsection \<open>C strings\<close>

text \<open>A \<^verbatim>\<open>char *\<close> is the memory from the pointer on; the string ends at the first NUL.\<close>

definition strlen :: "bytes \<Rightarrow> nat" where
  "strlen m = length (takeWhile (\<lambda>b. b \<noteq> 0) m)"

definition cstr :: "bytes \<Rightarrow> bytes" where
  "cstr m = takeWhile (\<lambda>b. b \<noteq> 0) m"

text \<open>The bytes of a literal, with its terminator.\<close>

definition lit :: "string \<Rightarrow> bytes" where
  "lit s = map of_char s @ [0]"

lemma strlen_le [simp]: "strlen m \<le> length m"
  by (simp add: strlen_def length_takeWhile_le)

lemma length_cstr: "length (cstr m) = strlen m"
  by (simp add: cstr_def strlen_def)

lemma take_strlen: "take (strlen m) m = cstr m"
  by (simp add: strlen_def cstr_def flip: takeWhile_eq_take)

lemma cstr_no_nul [simp]: "0 \<notin> set (cstr m)"
  by (auto simp: cstr_def dest: set_takeWhileD)

lemma cstr_terminated [simp]: "0 \<notin> set s \<Longrightarrow> cstr (s @ 0 # rest) = s"
  by (simp add: cstr_def takeWhile_append takeWhile_eq_all_conv)

subsection \<open>Block operations\<close>

text \<open>\<^verbatim>\<open>memcpy(mem + off, src, length src)\<close> and \<^verbatim>\<open>explicit_bzero(mem + off, n)\<close>, for blocks inside the array.\<close>

definition mem_write :: "bytes \<Rightarrow> nat \<Rightarrow> bytes \<Rightarrow> bytes" where
  "mem_write mem off src = take off mem @ src @ drop (off + length src) mem"

definition mem_zero :: "bytes \<Rightarrow> nat \<Rightarrow> nat \<Rightarrow> bytes" where
  "mem_zero mem off n = mem_write mem off (replicate n 0)"

lemma length_mem_write [mem_simps]:
  "off + length src \<le> length mem \<Longrightarrow> length (mem_write mem off src) = length mem"
  by (simp add: mem_write_def)

lemma take_mem_write_end [mem_simps]:
  "off + length src \<le> length mem \<Longrightarrow>
    take (off + length src) (mem_write mem off src) = take off mem @ src"
  by (simp add: mem_write_def)

lemma take_mem_write_start [mem_simps]:
  "k \<le> length src \<Longrightarrow> take k (mem_write mem 0 src) = take k src"
  by (simp add: mem_write_def)

lemma take_mem_write_before [mem_simps]:
  "k \<le> off \<Longrightarrow> off \<le> length mem \<Longrightarrow> take k (mem_write mem off src) = take k mem"
  by (simp add: mem_write_def min_def)

lemma drop_mem_write_after [mem_simps]:
  "off + length src \<le> k \<Longrightarrow> off + length src \<le> length mem \<Longrightarrow>
    drop k (mem_write mem off src) = drop k mem"
  by (simp add: mem_write_def)

lemma length_mem_zero [mem_simps]:
  "off + n \<le> length mem \<Longrightarrow> length (mem_zero mem off n) = length mem"
  by (simp add: mem_zero_def mem_simps)

lemma take_mem_zero_before [mem_simps]:
  "k \<le> off \<Longrightarrow> off \<le> length mem \<Longrightarrow> take k (mem_zero mem off n) = take k mem"
  by (simp add: mem_zero_def mem_simps)

lemma mem_zero_all: "n = length mem \<Longrightarrow> mem_zero mem 0 n = replicate n 0"
  by (simp add: mem_zero_def mem_write_def)

end
