(* ===== verification/SSH_String.thy ===== *)
theory SSH_String
  imports Prelude
begin

text \<open>
  SSH strings (\<^verbatim>\<open>src/libssh/src/string.c\<close>, \<^verbatim>\<open>struct ssh_string_struct\<close> of
  \<^verbatim>\<open>include/libssh/string.h\<close>): a length field kept in network order and a data area one byte
  longer than the length. \<^verbatim>\<open>NULL\<close> is \<^const>\<open>None\<close>; \<^verbatim>\<open>errno\<close> is not part of the state.
\<close>

definition STRING_SIZE_MAX :: nat where
  "STRING_SIZE_MAX = 268435456"

record ssh_string =
  ss_size :: u32
  ss_data :: bytes

text \<open>
  \<^verbatim>\<open>sizeof(struct ssh_string_struct)\<close> is 5: the packed length field and one byte of data. The
  block behind the pointer holds the length field in its first four bytes.
\<close>

definition ssh_string_new :: "heap \<Rightarrow> nat \<Rightarrow> ssh_string option" where
  "ssh_string_new h sz =
     (if sz > STRING_SIZE_MAX then None
      else case malloc h (5 + sz) of
        None \<Rightarrow> None
      | Some m \<Rightarrow> Some \<lparr>ss_size = bswap (of_nat sz), ss_data = (drop 4 m)[0 := 0]\<rparr>)"

definition ssh_string_len :: "ssh_string option \<Rightarrow> nat" where
  "ssh_string_len so =
     (case so of None \<Rightarrow> 0
      | Some s \<Rightarrow>
          let sz = unat (bswap (ss_size s)) in
          if sz > 0 \<and> sz \<le> STRING_SIZE_MAX then sz else 0)"

definition ssh_string_fill :: "ssh_string option \<Rightarrow> bytes option \<Rightarrow> nat \<Rightarrow> int \<times> ssh_string option" where
  "ssh_string_fill so data len =
     (case (so, data) of
        (Some s, Some d) \<Rightarrow>
          if len = 0 \<or> len > ssh_string_len so then (- 1, so)
          else (0, Some (s\<lparr>ss_data := mem_write (ss_data s) 0 (take len d)\<rparr>))
      | _ \<Rightarrow> (- 1, so))"

definition ssh_string_from_char :: "heap \<Rightarrow> bytes option \<Rightarrow> ssh_string option" where
  "ssh_string_from_char h what =
     (case what of None \<Rightarrow> None
      | Some w \<Rightarrow>
          let len = strlen w in
          case ssh_string_new h len of
            None \<Rightarrow> None
          | Some p \<Rightarrow> Some (p\<lparr>ss_data := mem_write (ss_data p) 0 (take len w)\<rparr>))"

text \<open>The pointer \<^verbatim>\<open>ssh_string_get_char\<close> returns is the data area it has just terminated.\<close>

definition ssh_string_get_char :: "ssh_string option \<Rightarrow> bytes option \<times> ssh_string option" where
  "ssh_string_get_char so =
     (case so of None \<Rightarrow> (None, None)
      | Some s \<Rightarrow>
          let d = (ss_data s)[ssh_string_len so := 0] in (Some d, Some (s\<lparr>ss_data := d\<rparr>)))"

definition ssh_string_to_char :: "heap \<Rightarrow> ssh_string option \<Rightarrow> bytes option" where
  "ssh_string_to_char h so =
     (case so of None \<Rightarrow> None
      | Some s \<Rightarrow>
          let len = ssh_string_len so in
          if wrap64 (len + 1) < len then None
          else case malloc h (len + 1) of
              None \<Rightarrow> None
            | Some m \<Rightarrow> Some ((mem_write m 0 (take len (ss_data s)))[len := 0]))"

definition ssh_string_copy :: "heap \<Rightarrow> ssh_string option \<Rightarrow> ssh_string option" where
  "ssh_string_copy h so =
     (case so of None \<Rightarrow> None
      | Some s \<Rightarrow>
          let len = ssh_string_len so in
          if len = 0 then None
          else case ssh_string_new h len of
              None \<Rightarrow> None
            | Some n \<Rightarrow> Some (n\<lparr>ss_data := mem_write (ss_data n) 0 (take len (ss_data s))\<rparr>))"

definition ssh_string_burn :: "ssh_string option \<Rightarrow> ssh_string option" where
  "ssh_string_burn so =
     (case so of None \<Rightarrow> None
      | Some s \<Rightarrow>
          if ss_size s = 0 then so
          else Some (s\<lparr>ss_data := mem_zero (ss_data s) 0 (ssh_string_len so)\<rparr>))"

definition ssh_string_data :: "ssh_string option \<Rightarrow> bytes option" where
  "ssh_string_data so = map_option ss_data so"

subsection \<open>Well-formedness and contents\<close>

definition ssh_string_ok :: "ssh_string \<Rightarrow> bool" where
  "ssh_string_ok s \<longleftrightarrow>
     unat (bswap (ss_size s)) \<le> STRING_SIZE_MAX \<and>
     length (ss_data s) = Suc (unat (bswap (ss_size s)))"

definition ss_contents :: "ssh_string \<Rightarrow> bytes" where
  "ss_contents s = take (ssh_string_len (Some s)) (ss_data s)"

text \<open>The bytes of a string on the wire: its length field and its contents.\<close>

definition ss_wire :: "ssh_string \<Rightarrow> bytes" where
  "ss_wire s = mem_bytes (ss_size s) @ ss_contents s"

lemma ssh_string_len_ok [simp]:
  "ssh_string_ok s \<Longrightarrow> ssh_string_len (Some s) = unat (bswap (ss_size s))"
  by (auto simp: ssh_string_ok_def ssh_string_len_def Let_def)

lemma ssh_string_len_bound [simp]: "ssh_string_len so \<le> STRING_SIZE_MAX"
  by (auto simp: ssh_string_len_def Let_def split: option.splits)

lemma unat_of_nat_string: "n \<le> STRING_SIZE_MAX \<Longrightarrow> unat (of_nat n :: u32) = n"
  by (simp add: STRING_SIZE_MAX_def unat_of_nat)

lemma ssh_string_new_Some:
  assumes "ssh_string_new h n = Some s"
  shows "ssh_string_ok s" and "ssh_string_len (Some s) = n" and "length (ss_data s) = Suc n"
    and "n \<le> STRING_SIZE_MAX" and "ss_size s = bswap (of_nat n)"
  using assms
  by (auto simp: ssh_string_new_def ssh_string_ok_def ssh_string_len_def unat_of_nat_string
      dest!: malloc_length split: if_splits option.splits)

lemma ssh_string_new_None:
  "ssh_string_new h n = None \<longleftrightarrow> n > STRING_SIZE_MAX \<or> \<not> heap_grants h (5 + n)"
  by (simp add: ssh_string_new_def malloc_def)

text \<open>Writing the whole contents of a fresh string: shared by the constructors and the buffer reader.\<close>

lemma ssh_string_new_filled:
  assumes "ssh_string_new h (length d) = Some s"
  defines "t \<equiv> s\<lparr>ss_data := mem_write (ss_data s) 0 d\<rparr>"
  shows "ssh_string_ok t" and "ss_contents t = d"
    and "ss_wire t = be_bytes (of_nat (length d) :: u32) @ d"
proof -
  note new = ssh_string_new_Some [OF assms(1)]
  show ok: "ssh_string_ok t"
    using new by (simp add: t_def ssh_string_ok_def mem_simps)
  have "ssh_string_len (Some t) = length d"
    using ok new by (simp add: t_def unat_of_nat_string)
  then show c: "ss_contents t = d"
    using new by (simp add: t_def ss_contents_def mem_write_def)
  show "ss_wire t = be_bytes (of_nat (length d) :: u32) @ d"
    using c new by (simp add: ss_wire_def t_def wire_simps)
qed

lemma ss_wire_ok:
  "ssh_string_ok s \<Longrightarrow>
    ss_wire s = be_bytes (of_nat (length (ss_contents s)) :: u32) @ ss_contents s"
proof -
  assume ok: "ssh_string_ok s"
  then have len: "length (ss_contents s) = unat (bswap (ss_size s))"
    by (simp add: ss_contents_def) (simp add: ssh_string_ok_def)
  have "be_bytes (bswap (ss_size s)) = mem_bytes (ss_size s)"
    by (simp flip: mem_bytes_bswap)
  then show ?thesis
    by (simp add: ss_wire_def len)
qed

lemma ssh_string_from_char_Some:
  assumes "ssh_string_from_char h (Some w) = Some s"
  shows "ssh_string_ok s" and "ss_contents s = cstr w"
proof -
  obtain p where p: "ssh_string_new h (length (cstr w)) = Some p"
    and s: "s = p\<lparr>ss_data := mem_write (ss_data p) 0 (cstr w)\<rparr>"
    using assms
    by (auto simp: ssh_string_from_char_def Let_def take_strlen length_cstr split: option.splits)
  show "ssh_string_ok s" and "ss_contents s = cstr w"
    using ssh_string_new_filled [OF p] by (simp_all add: s)
qed

lemma ssh_string_to_char_Some:
  assumes "ssh_string_to_char h (Some s) = Some c" and "ssh_string_ok s"
  shows "c = ss_contents s @ [0]"
proof -
  let ?n = "unat (bswap (ss_size s))"
  from assms obtain m where m: "malloc h (Suc ?n) = Some m"
    and c: "c = (mem_write m 0 (take ?n (ss_data s)))[?n := 0]"
    by (auto simp: ssh_string_to_char_def Let_def split: if_splits option.splits)
  have "length m = Suc ?n"
    using m by (rule malloc_length)
  moreover have "length (ss_data s) = Suc ?n"
    using assms(2) by (simp add: ssh_string_ok_def)
  ultimately have "length (drop ?n m) = Suc 0"
    by simp
  then obtain x where "drop ?n m = [x]"
    unfolding length_Suc_conv by auto
  with \<open>length (ss_data s) = Suc ?n\<close> c assms(2) show ?thesis
    by (simp add: mem_write_def ss_contents_def list_update_append min_def)
qed

subsection \<open>Properties\<close>

text \<open>
  Round trip: converting a C string to an SSH string and back yields a fresh block with
  exactly the bytes before the terminator, terminated again, whatever the allocator returns.
\<close>

theorem ssh_string_char_roundtrip:
  assumes "ssh_string_from_char h (Some w) = Some s"
    and "ssh_string_to_char h' (Some s) = Some c"
  shows "c = cstr w @ [0] \<and> strlen c = strlen w"
proof -
  have "c = cstr w @ [0]"
    using ssh_string_to_char_Some [OF assms(2)] ssh_string_from_char_Some [OF assms(1)] by simp
  then show ?thesis
    by (simp flip: length_cstr)
qed

theorem ssh_string_char_roundtrip_witness:
  "ssh_string_to_char roomy_heap (ssh_string_from_char roomy_heap (Some [108, 115, 0, 7])) =
    Some [108, 115, 0]"
proof -
  obtain s c where s: "ssh_string_from_char roomy_heap (Some [108, 115, 0, 7]) = Some s"
    and c: "ssh_string_to_char roomy_heap (Some s) = Some c"
    by (auto simp: ssh_string_from_char_def ssh_string_to_char_def ssh_string_new_def malloc_def
        roomy_heap_def strlen_def STRING_SIZE_MAX_def ssh_string_len_def Let_def)
  moreover have "cstr [108, 115, 0, 7] = [108, 115]"
    by code_simp
  ultimately show ?thesis
    using ssh_string_char_roundtrip [OF s c] by simp
qed

end
