(* ===== verification/Interfaces.thy ===== *)
theory Interfaces
  imports Prelude
begin

text \<open>
  The interfaces components offer each other, as locales over an abstraction: a queue of
  bytes, an encoding that can be read back in front of any rest, and a machine whose steps
  keep an invariant. Each is interpreted on the model of the code that provides it.
\<close>

subsection \<open>Byte queues\<close>

fun put_all :: "('q \<Rightarrow> bytes \<Rightarrow> 'q option) \<Rightarrow> 'q \<Rightarrow> bytes list \<Rightarrow> 'q option" where
  "put_all put q [] = Some q"
| "put_all put q (d # ds) =
     (case put q d of None \<Rightarrow> None | Some q' \<Rightarrow> put_all put q' ds)"

fun get_all :: "('q \<Rightarrow> nat \<Rightarrow> (bytes \<times> 'q) option) \<Rightarrow> 'q \<Rightarrow> nat list \<Rightarrow> (bytes list \<times> 'q) option" where
  "get_all get q [] = Some ([], q)"
| "get_all get q (n # ns) =
     (case get q n of None \<Rightarrow> None
      | Some (d, q') \<Rightarrow>
          (case get_all get q' ns of None \<Rightarrow> None | Some (ds, q'') \<Rightarrow> Some (d # ds, q'')))"

locale byte_queue =
  fixes inv :: "'q \<Rightarrow> bool"
    and content :: "'q \<Rightarrow> bytes"
    and put :: "'q \<Rightarrow> bytes \<Rightarrow> 'q option"
    and get :: "'q \<Rightarrow> nat \<Rightarrow> (bytes \<times> 'q) option"
  assumes put_inv: "inv q \<Longrightarrow> put q d = Some q' \<Longrightarrow> inv q'"
    and put_content: "inv q \<Longrightarrow> put q d = Some q' \<Longrightarrow> content q' = content q @ d"
    and get_enough: "inv q \<Longrightarrow> n \<le> length (content q) \<Longrightarrow>
      \<exists>q'. get q n = Some (take n (content q), q') \<and> inv q' \<and> content q' = drop n (content q)"
    and get_short: "inv q \<Longrightarrow> length (content q) < n \<Longrightarrow> get q n = None"
begin

lemma put_all_content:
  "inv q \<Longrightarrow> put_all put q ds = Some q' \<Longrightarrow> inv q' \<and> content q' = content q @ concat ds"
proof (induction ds arbitrary: q)
  case (Cons d ds)
  then obtain q1 where q1: "put q d = Some q1" and rest: "put_all put q1 ds = Some q'"
    by (auto split: option.splits)
  from Cons.prems(1) q1 have "inv q1" and "content q1 = content q @ d"
    by (rule put_inv, rule put_content)
  with Cons.IH [OF _ rest] show ?case
    by simp
qed simp

lemma get_all_content:
  "inv q \<Longrightarrow> sum_list ns \<le> length (content q) \<Longrightarrow>
    \<exists>ds q'. get_all get q ns = Some (ds, q') \<and> inv q' \<and> map length ds = ns \<and>
      concat ds = take (sum_list ns) (content q) \<and> content q' = drop (sum_list ns) (content q)"
proof (induction ns arbitrary: q)
  case (Cons n ns)
  then have "n \<le> length (content q)"
    by simp
  with get_enough [OF Cons.prems(1)] obtain q1 where
    q1: "get q n = Some (take n (content q), q1)" "inv q1" "content q1 = drop n (content q)"
    by blast
  have "sum_list ns \<le> length (content q1)"
    using Cons.prems(2) q1(3) by simp
  with Cons.IH [OF q1(2)] obtain ds q' where
    "get_all get q1 ns = Some (ds, q')" "inv q'" "map length ds = ns"
    "concat ds = take (sum_list ns) (content q1)" "content q' = drop (sum_list ns) (content q1)"
    by blast
  with q1 Cons.prems(2) show ?case
    by (auto simp: take_add add.commute)
qed simp

text \<open>
  What was written in one chunking is read back in any other: the byte stream does not
  depend on how it was cut into messages.
\<close>

lemma stream_transport:
  assumes "inv q" and "content q = []" and "put_all put q ds = Some q1"
    and "sum_list ns = length (concat ds)"
  shows "\<exists>es q2. get_all get q1 ns = Some (es, q2) \<and> map length es = ns \<and>
    concat es = concat ds \<and> content q2 = []"
proof -
  have "inv q1" and "content q1 = concat ds"
    using put_all_content [OF assms(1,3)] assms(2) by auto
  with get_all_content [of q1 ns] assms(4) show ?thesis
    by auto
qed

end

subsection \<open>Machines with an invariant\<close>

fun run_steps :: "('s \<Rightarrow> 'e \<Rightarrow> 's) \<Rightarrow> 's \<Rightarrow> 'e list \<Rightarrow> 's" where
  "run_steps step s [] = s"
| "run_steps step s (e # es) = run_steps step (step s e) es"

lemma run_steps_append: "run_steps step s (xs @ ys) = run_steps step (run_steps step s xs) ys"
  by (induction xs arbitrary: s) auto

locale safe_machine =
  fixes step :: "'s \<Rightarrow> 'e \<Rightarrow> 's"
    and good :: "'s \<Rightarrow> bool"
  assumes step_good: "good s \<Longrightarrow> good (step s e)"
begin

lemma run_good: "good s \<Longrightarrow> good (run_steps step s es)"
  by (induction es arbitrary: s) (auto intro: step_good)

end

end
