(* ===== verification/SSH_Buffer.thy ===== *)
theory SSH_Buffer
  imports SSH_String Interfaces
begin

text \<open>
  SSH buffers (\<^verbatim>\<open>src/libssh/src/buffer.c\<close>, up to \<^verbatim>\<open>ssh_buffer_get_ssh_string\<close>): the record of
  \<^verbatim>\<open>struct ssh_buffer_struct\<close>, one definition per operation, the invariant \<^verbatim>\<open>buffer_verify\<close>
  checks, the abstraction to the queue of unread bytes and the refinement of a byte queue.

  Sizes are natural numbers with the \<^verbatim>\<open>size_t\<close> and \<^verbatim>\<open>uint32_t\<close> wrap-around written out. The
  field \<open>b_freed\<close> is a ghost: the blocks the operations have handed back to the allocator,
  with the bytes they held at that moment. Buffer arguments are existing objects (the
  \<^verbatim>\<open>NULL\<close> tests on the buffer pointer itself have no state to act on); data arguments may be
  \<^verbatim>\<open>NULL\<close>.
\<close>

definition BUFFER_SIZE_MAX :: nat where
  "BUFFER_SIZE_MAX = 268435456"

record ssh_buffer =
  b_secure :: bool
  b_used :: nat
  b_alloc :: nat
  b_pos :: nat
  b_data :: bytes
  b_freed :: "bytes list"

text \<open>\<^verbatim>\<open>buffer_verify\<close>: \<^const>\<open>False\<close> is the call of \<^verbatim>\<open>abort\<close>.\<close>

definition buffer_verify :: "ssh_buffer \<Rightarrow> bool" where
  "buffer_verify b \<longleftrightarrow>
     b_alloc b = 0 \<or>
     \<not> (b_used b > b_alloc b \<or> b_pos b > b_used b \<or> b_pos b > b_alloc b)"

text \<open>
  The loop of \<^verbatim>\<open>realloc_buffer\<close> that doubles \<^verbatim>\<open>smallest\<close>, a \<^verbatim>\<open>size_t\<close> starting at 1: after
  \<open>k\<close> rounds it is \<open>2 ^ k\<close>, and 0 once the bit is shifted out.
\<close>

function realloc_size :: "nat \<Rightarrow> nat \<Rightarrow> nat option" where
  "realloc_size k needed =
     (let smallest = (if k < 64 then 2 ^ k else 0) in
      if smallest \<le> needed then
        if smallest = 0 then None else realloc_size (Suc k) needed
      else Some smallest)"
  by pat_completeness auto
termination
  by (relation "measure (\<lambda>(k, needed). 65 - k)") (auto split: if_splits)

declare realloc_size.simps [simp del]

definition realloc_buffer :: "heap \<Rightarrow> ssh_buffer \<Rightarrow> nat \<Rightarrow> int \<times> ssh_buffer" where
  "realloc_buffer h b needed =
     (case realloc_size 0 needed of
        None \<Rightarrow> (- 1, b)
      | Some n \<Rightarrow>
          if n > BUFFER_SIZE_MAX then (- 1, b)
          else if b_secure b then
            (case malloc h n of
               None \<Rightarrow> (- 1, b)
             | Some new \<Rightarrow>
                 (0, b\<lparr>b_data := mem_write new 0 (take (b_used b) (b_data b)), b_alloc := n,
                       b_freed := mem_zero (b_data b) 0 (b_used b) # b_freed b\<rparr>))
          else
            (case realloc h (b_data b) n of
               None \<Rightarrow> (- 1, b)
             | Some new \<Rightarrow> (0, b\<lparr>b_data := new, b_alloc := n\<rparr>)))"

definition buffer_shift :: "ssh_buffer \<Rightarrow> ssh_buffer" where
  "buffer_shift b =
     (if b_pos b = 0 then b
      else
        let burn_pos = b_pos b;
            d = mem_write (b_data b) 0 (drop (b_pos b) (take (b_used b) (b_data b)));
            b1 = b\<lparr>b_data := d, b_used := b_used b - b_pos b, b_pos := 0\<rparr>
        in if b_secure b then b1\<lparr>b_data := mem_zero d (b_used b1) burn_pos\<rparr> else b1)"

definition ssh_buffer_set_secure :: "ssh_buffer \<Rightarrow> ssh_buffer" where
  "ssh_buffer_set_secure b = b\<lparr>b_secure := True\<rparr>"

definition ssh_buffer_allocate_size :: "heap \<Rightarrow> ssh_buffer \<Rightarrow> nat \<Rightarrow> int \<times> ssh_buffer" where
  "ssh_buffer_allocate_size h b len0 =
     (let len = wrap32 len0 in
      if b_alloc b < len then
        let b1 = (if b_pos b > 0 then buffer_shift b else b);
            (rc, b2) = realloc_buffer h b1 len
        in if rc < 0 then (- 1, b2) else (0, b2)
      else (0, b))"

text \<open>\<^verbatim>\<open>calloc\<close> of the structure (40 bytes), then 63 bytes requested, which \<^verbatim>\<open>realloc_buffer\<close> rounds to 64.\<close>

definition ssh_buffer_new :: "heap \<Rightarrow> ssh_buffer option" where
  "ssh_buffer_new h =
     (if \<not> heap_grants h 40 then None
      else
        let b = \<lparr>b_secure = False, b_used = 0, b_alloc = 0, b_pos = 0, b_data = [], b_freed = []\<rparr>;
            (rc, b1) = ssh_buffer_allocate_size h b (64 - 1)
        in if rc \<noteq> 0 then None else Some b1)"

text \<open>The blocks of the heap after \<^verbatim>\<open>ssh_buffer_free\<close>.\<close>

definition ssh_buffer_free :: "ssh_buffer option \<Rightarrow> bytes list" where
  "ssh_buffer_free bo =
     (case bo of None \<Rightarrow> []
      | Some b \<Rightarrow>
          if b_secure b \<and> b_alloc b > 0 then mem_zero (b_data b) 0 (b_alloc b) # b_freed b
          else b_data b # b_freed b)"

definition ssh_buffer_reinit :: "heap \<Rightarrow> ssh_buffer \<Rightarrow> int \<times> ssh_buffer" where
  "ssh_buffer_reinit h b =
     (let d = (if b_secure b \<and> b_alloc b > 0 then mem_zero (b_data b) 0 (b_alloc b) else b_data b);
          b1 = b\<lparr>b_data := d, b_used := 0, b_pos := 0\<rparr>
      in if b_alloc b > 65536 then
           let (rc, b2) = realloc_buffer h b1 (65536 - 1) in
           if rc \<noteq> 0 then (- 1, b2) else (0, b2)
         else (0, b1))"

text \<open>
  The block \<^verbatim>\<open>ssh_buffer_add_data\<close> and \<^verbatim>\<open>ssh_buffer_allocate\<close> share: the overflow test, then
  shifting and growing when the tail does not fit.
\<close>

definition buffer_make_room :: "heap \<Rightarrow> ssh_buffer \<Rightarrow> nat \<Rightarrow> int \<times> ssh_buffer" where
  "buffer_make_room h b len =
     (if wrap64 (b_used b + len) < len then (- 1, b)
      else if b_alloc b < wrap64 (b_used b + len) then
        let b1 = (if b_pos b > 0 then buffer_shift b else b) in
        realloc_buffer h b1 (wrap64 (b_used b1 + len))
      else (0, b))"

definition ssh_buffer_add_data :: "heap \<Rightarrow> ssh_buffer \<Rightarrow> bytes option \<Rightarrow> nat \<Rightarrow> int \<times> ssh_buffer" where
  "ssh_buffer_add_data h b data len0 =
     (case data of
        None \<Rightarrow> (- 1, b)
      | Some d \<Rightarrow>
          let len = wrap32 len0; (rc, b1) = buffer_make_room h b len in
          if rc < 0 then (- 1, b1)
          else (0, b1\<lparr>b_data := mem_write (b_data b1) (b_used b1) (take len d),
                      b_used := b_used b1 + len\<rparr>))"

text \<open>The pointer \<^verbatim>\<open>ssh_buffer_allocate\<close> returns is an offset into the data.\<close>

definition ssh_buffer_allocate :: "heap \<Rightarrow> ssh_buffer \<Rightarrow> nat \<Rightarrow> nat option \<times> ssh_buffer" where
  "ssh_buffer_allocate h b len0 =
     (let len = wrap32 len0; (rc, b1) = buffer_make_room h b len in
      if rc < 0 then (None, b1)
      else (Some (b_used b1), b1\<lparr>b_used := b_used b1 + len\<rparr>))"

definition ssh_buffer_add_ssh_string :: "heap \<Rightarrow> ssh_buffer \<Rightarrow> ssh_string option \<Rightarrow> int \<times> ssh_buffer" where
  "ssh_buffer_add_ssh_string h b string =
     (case string of
        None \<Rightarrow> (- 1, b)
      | Some s \<Rightarrow>
          let len = wrap32 (ssh_string_len string);
              (rc, b1) = ssh_buffer_add_data h b (Some (mem_bytes (ss_size s) @ ss_data s)) (len + 4)
          in if rc < 0 then (- 1, b1) else (0, b1))"

definition ssh_buffer_add_u32 :: "heap \<Rightarrow> ssh_buffer \<Rightarrow> u32 \<Rightarrow> int \<times> ssh_buffer" where
  "ssh_buffer_add_u32 h b x =
     (let (rc, b1) = ssh_buffer_add_data h b (Some (mem_bytes x)) 4
      in if rc < 0 then (- 1, b1) else (0, b1))"

definition ssh_buffer_add_u16 :: "heap \<Rightarrow> ssh_buffer \<Rightarrow> u16 \<Rightarrow> int \<times> ssh_buffer" where
  "ssh_buffer_add_u16 h b x =
     (let (rc, b1) = ssh_buffer_add_data h b (Some (mem_bytes x)) 2
      in if rc < 0 then (- 1, b1) else (0, b1))"

definition ssh_buffer_add_u64 :: "heap \<Rightarrow> ssh_buffer \<Rightarrow> u64 \<Rightarrow> int \<times> ssh_buffer" where
  "ssh_buffer_add_u64 h b x =
     (let (rc, b1) = ssh_buffer_add_data h b (Some (mem_bytes x)) 8
      in if rc < 0 then (- 1, b1) else (0, b1))"

definition ssh_buffer_add_u8 :: "heap \<Rightarrow> ssh_buffer \<Rightarrow> u8 \<Rightarrow> int \<times> ssh_buffer" where
  "ssh_buffer_add_u8 h b x =
     (let (rc, b1) = ssh_buffer_add_data h b (Some (mem_bytes x)) 1
      in if rc < 0 then (- 1, b1) else (0, b1))"

definition ssh_buffer_prepend_data :: "heap \<Rightarrow> ssh_buffer \<Rightarrow> bytes \<Rightarrow> nat \<Rightarrow> int \<times> ssh_buffer" where
  "ssh_buffer_prepend_data h b d len0 =
     (let len = wrap32 len0 in
      if len \<le> b_pos b then
        (0, b\<lparr>b_data := mem_write (b_data b) (b_pos b - len) (take len d), b_pos := b_pos b - len\<rparr>)
      else if wrap64 (sub64 (b_used b) (b_pos b) + len) < len then (- 1, b)
      else
        let (rc, b1) =
              (if b_alloc b < wrap64 (sub64 (b_used b) (b_pos b) + len)
               then realloc_buffer h b (wrap64 (sub64 (b_used b) (b_pos b) + len)) else (0, b))
        in if rc < 0 then (- 1, b1)
           else
             let moved = mem_write (b_data b1) len (drop (b_pos b1) (take (b_used b1) (b_data b1)))
             in (0, b1\<lparr>b_data := mem_write moved 0 (take len d),
                       b_used := b_used b1 + (len - b_pos b1), b_pos := 0\<rparr>))"

definition ssh_buffer_get :: "ssh_buffer \<Rightarrow> bytes option" where
  "ssh_buffer_get b = (if b_alloc b = 0 then None else Some (drop (b_pos b) (b_data b)))"

definition ssh_buffer_get_len :: "ssh_buffer \<Rightarrow> nat" where
  "ssh_buffer_get_len b = wrap32 (sub64 (b_used b) (b_pos b))"

definition ssh_buffer_add_buffer :: "heap \<Rightarrow> ssh_buffer \<Rightarrow> ssh_buffer \<Rightarrow> int \<times> ssh_buffer" where
  "ssh_buffer_add_buffer h b src =
     (let (rc, b1) = ssh_buffer_add_data h b (ssh_buffer_get src) (ssh_buffer_get_len src)
      in if rc < 0 then (- 1, b1) else (0, b1))"

definition ssh_buffer_pass_bytes :: "ssh_buffer \<Rightarrow> nat \<Rightarrow> nat \<times> ssh_buffer" where
  "ssh_buffer_pass_bytes b len0 =
     (let len = wrap32 len0 in
      if wrap64 (b_pos b + len) < len \<or> b_used b < wrap64 (b_pos b + len) then (0, b)
      else
        let b1 = b\<lparr>b_pos := b_pos b + len\<rparr>
        in (len, if b_pos b1 = b_used b1 then b1\<lparr>b_pos := 0, b_used := 0\<rparr> else b1))"

definition ssh_buffer_pass_bytes_end :: "ssh_buffer \<Rightarrow> nat \<Rightarrow> nat \<times> ssh_buffer" where
  "ssh_buffer_pass_bytes_end b len0 =
     (let len = wrap32 len0 in
      if b_used b < len then (0, b) else (len, b\<lparr>b_used := b_used b - len\<rparr>))"

definition ssh_buffer_validate_length :: "ssh_buffer \<Rightarrow> nat \<Rightarrow> int" where
  "ssh_buffer_validate_length b len =
     (if wrap64 (b_pos b + len) < len \<or> wrap64 (b_pos b + len) > b_used b then SSH_ERROR
      else SSH_OK)"

text \<open>
  The destination of \<^verbatim>\<open>ssh_buffer_get_data\<close> is returned as the list of bytes copied to it;
  it is left alone when the read fails.
\<close>

definition ssh_buffer_get_data :: "ssh_buffer \<Rightarrow> nat \<Rightarrow> nat \<times> bytes \<times> ssh_buffer" where
  "ssh_buffer_get_data b len0 =
     (let len = wrap32 len0 in
      if ssh_buffer_validate_length b len \<noteq> SSH_OK then (0, [], b)
      else (len, take len (drop (b_pos b) (b_data b)), b\<lparr>b_pos := b_pos b + len\<rparr>))"

text \<open>The integer readers write the host's image of the destination, in the order the bytes have in the buffer.\<close>

definition ssh_buffer_get_u8 :: "ssh_buffer \<Rightarrow> nat \<times> u8 option \<times> ssh_buffer" where
  "ssh_buffer_get_u8 b =
     (let (n, d, b1) = ssh_buffer_get_data b 1
      in (n, if n = 0 then None else Some (load_bytes d), b1))"

definition ssh_buffer_get_u32 :: "ssh_buffer \<Rightarrow> nat \<times> u32 option \<times> ssh_buffer" where
  "ssh_buffer_get_u32 b =
     (let (n, d, b1) = ssh_buffer_get_data b 4
      in (n, if n = 0 then None else Some (load_bytes d), b1))"

definition ssh_buffer_get_u64 :: "ssh_buffer \<Rightarrow> nat \<times> u64 option \<times> ssh_buffer" where
  "ssh_buffer_get_u64 b =
     (let (n, d, b1) = ssh_buffer_get_data b 8
      in (n, if n = 0 then None else Some (load_bytes d), b1))"

definition ssh_buffer_get_ssh_string :: "heap \<Rightarrow> ssh_buffer \<Rightarrow> ssh_string option \<times> ssh_buffer" where
  "ssh_buffer_get_ssh_string h b =
     (let (rc, stringlen, b1) = ssh_buffer_get_u32 b in
      case stringlen of
        None \<Rightarrow> (None, b1)
      | Some sl \<Rightarrow>
          let hostlen = unat (bswap sl) in
          if ssh_buffer_validate_length b1 hostlen \<noteq> SSH_OK then (None, b1)
          else case ssh_string_new h hostlen of
              None \<Rightarrow> (None, b1)
            | Some str \<Rightarrow>
                let (n, d, b2) = ssh_buffer_get_data b1 hostlen in
                if n \<noteq> hostlen then (None, b2)
                else (Some (str\<lparr>ss_data := mem_write (ss_data str) 0 d\<rparr>), b2))"

subsection \<open>Invariant and abstraction\<close>

definition buffer_inv :: "ssh_buffer \<Rightarrow> bool" where
  "buffer_inv b \<longleftrightarrow>
     length (b_data b) = b_alloc b \<and> b_used b \<le> b_alloc b \<and> b_pos b \<le> b_used b \<and>
     b_alloc b \<le> BUFFER_SIZE_MAX"

text \<open>The unread bytes: the payload between \<^verbatim>\<open>pos\<close> and \<^verbatim>\<open>used\<close>.\<close>

definition buf_content :: "ssh_buffer \<Rightarrow> bytes" where
  "buf_content b = drop (b_pos b) (take (b_used b) (b_data b))"

lemma buffer_inv_verify: "buffer_inv b \<Longrightarrow> buffer_verify b"
  by (auto simp: buffer_inv_def buffer_verify_def)

lemma length_buf_content: "buffer_inv b \<Longrightarrow> length (buf_content b) = b_used b - b_pos b"
  by (simp add: buf_content_def buffer_inv_def)

lemma buffer_inv_bounds:
  assumes "buffer_inv b"
  shows "b_used b \<le> 268435456" and "b_pos b \<le> 268435456" and "b_alloc b \<le> 268435456"
    and "b_pos b \<le> b_used b" and "b_used b \<le> b_alloc b" and "length (b_data b) = b_alloc b"
  using assms by (auto simp: buffer_inv_def BUFFER_SIZE_MAX_def)

lemma get_len_content: "buffer_inv b \<Longrightarrow> ssh_buffer_get_len b = length (buf_content b)"
  using buffer_inv_bounds [of b] by (simp add: ssh_buffer_get_len_def length_buf_content)

subsection \<open>Growing and shifting\<close>

lemma realloc_size_greater: "realloc_size k needed = Some n \<Longrightarrow> needed < n"
proof (induction k needed rule: realloc_size.induct)
  case (1 k needed)
  then show ?case
    by (auto simp: realloc_size.simps [of k needed] Let_def split: if_splits)
qed

lemma realloc_size_least:
  assumes "needed < 2 ^ m" and "m < 64" and "k \<le> m"
  shows "\<exists>j\<le>m. realloc_size k needed = Some (2 ^ j)"
  using assms(3)
proof (induction rule: inc_induct)
  case base
  with assms show ?case
    by (intro exI [of _ m]) (simp add: realloc_size.simps [of m])
next
  case (step k)
  with assms(2) show ?case
    by (cases "2 ^ k \<le> needed") (auto simp: realloc_size.simps [of k] intro: less_imp_le)
qed

lemma realloc_size_Some:
  assumes "needed < BUFFER_SIZE_MAX"
  obtains n where "realloc_size 0 needed = Some n" and "n \<le> BUFFER_SIZE_MAX"
proof -
  have "needed < 2 ^ 28"
    using assms by (simp add: BUFFER_SIZE_MAX_def)
  then obtain j where j: "j \<le> 28" "realloc_size 0 needed = Some (2 ^ j)"
    using realloc_size_least [of needed 28 0] by auto
  have "(2::nat) ^ j \<le> 2 ^ 28"
    using j(1) by (intro power_increasing) auto
  with j(2) that show thesis
    by (simp add: BUFFER_SIZE_MAX_def)
qed

text \<open>
  Growing keeps everything but the allocation, which exceeds the request; a failed request
  changes nothing. It fails only when the allocator refuses or the request is 256 MiB or more.
\<close>

lemma realloc_buffer_cases:
  assumes inv: "buffer_inv b" and le: "b_used b \<le> needed"
  obtains (grown) b' where "realloc_buffer h b needed = (0, b')" and "buffer_inv b'"
      and "needed < b_alloc b'" and "b_used b' = b_used b" and "b_pos b' = b_pos b"
      and "b_secure b' = b_secure b" and "take (b_used b) (b_data b') = take (b_used b) (b_data b)"
  | (refused) "realloc_buffer h b needed = (- 1, b)"
proof (cases "realloc_size 0 needed")
  case None
  then show thesis
    using refused by (simp add: realloc_buffer_def)
next
  case (Some n)
  note n = this
  have gt: "needed < n"
    using n by (rule realloc_size_greater)
  note bounds = buffer_inv_bounds [OF inv]
  show thesis
  proof (cases "n > BUFFER_SIZE_MAX \<or> \<not> heap_grants h n")
    case True
    then show thesis
      using refused n by (auto simp: realloc_buffer_def malloc_def realloc_def)
  next
    case False
    then obtain new where new: "malloc h n = Some new"
      by (simp add: malloc_def)
    let ?r = "realloc_buffer h b needed"
    have len: "length new = n"
      using new by (rule malloc_length)
    show thesis
    proof (rule grown [of "snd ?r"])
      show "?r = (0, snd ?r)"
        using False n new by (auto simp: realloc_buffer_def realloc_def)
      show "buffer_inv (snd ?r)"
        using False n new len gt le bounds inv
        by (auto simp: realloc_buffer_def realloc_def buffer_inv_def mem_write_def)
      show "take (b_used b) (b_data (snd ?r)) = take (b_used b) (b_data b)"
        using False n new len gt le bounds
        by (auto simp: realloc_buffer_def realloc_def mem_write_def min_def)
    qed (use False n new gt in \<open>auto simp: realloc_buffer_def realloc_def\<close>)
  qed
qed

lemma realloc_buffer_succeeds:
  assumes "needed < BUFFER_SIZE_MAX" and "\<forall>n. heap_grants h n"
  shows "fst (realloc_buffer h b needed) = 0"
proof -
  obtain n where "realloc_size 0 needed = Some n" and "n \<le> BUFFER_SIZE_MAX"
    using assms(1) by (rule realloc_size_Some)
  with assms(2) show ?thesis
    by (simp add: realloc_buffer_def malloc_def realloc_def)
qed

lemma buffer_shift_props:
  assumes inv: "buffer_inv b"
  shows "buffer_inv (buffer_shift b)" and "buf_content (buffer_shift b) = buf_content b"
    and "b_pos (buffer_shift b) = 0" and "b_used (buffer_shift b) = length (buf_content b)"
    and "b_secure (buffer_shift b) = b_secure b" and "b_alloc (buffer_shift b) = b_alloc b"
proof -
  let ?c = "drop (b_pos b) (take (b_used b) (b_data b))"
  note bounds = buffer_inv_bounds [OF inv]
  have len: "length ?c = b_used b - b_pos b"
    using bounds by simp
  have d: "length (mem_write (b_data b) 0 ?c) = b_alloc b"
    using bounds by (simp add: mem_simps)
  have z: "length (mem_zero (mem_write (b_data b) 0 ?c) (b_used b - b_pos b) (b_pos b)) = b_alloc b"
    using bounds d by (simp add: mem_simps)
  have t: "take (b_used b - b_pos b) (mem_write (b_data b) 0 ?c) = ?c"
    using len by (simp add: mem_simps)
  have tz: "take (b_used b - b_pos b)
      (mem_zero (mem_write (b_data b) 0 ?c) (b_used b - b_pos b) (b_pos b)) = ?c"
    using bounds d t by (simp add: mem_simps)
  show "buffer_inv (buffer_shift b)"
    using inv d z bounds by (auto simp: buffer_shift_def buffer_inv_def Let_def)
  show "buf_content (buffer_shift b) = buf_content b"
    using t tz by (simp add: buffer_shift_def buf_content_def Let_def)
  show "b_pos (buffer_shift b) = 0" and "b_used (buffer_shift b) = length (buf_content b)"
    and "b_secure (buffer_shift b) = b_secure b" and "b_alloc (buffer_shift b) = b_alloc b"
    using bounds len by (simp_all add: buffer_shift_def buf_content_def Let_def)
qed

lemma buffer_make_room_cases:
  assumes inv: "buffer_inv b" and len: "len < 4294967296"
  obtains (room) b' where "buffer_make_room h b len = (0, b')" and "buffer_inv b'"
      and "buf_content b' = buf_content b" and "b_used b' + len \<le> b_alloc b'"
      and "b_secure b' = b_secure b"
  | (refused) b' where "buffer_make_room h b len = (- 1, b')" and "buffer_inv b'"
      and "buf_content b' = buf_content b"
proof (cases "b_alloc b < b_used b + len")
  case False
  with inv len buffer_inv_bounds [OF inv] show thesis
    by (intro room [of b]) (auto simp: buffer_make_room_def)
next
  case True
  define b1 where "b1 = (if b_pos b > 0 then buffer_shift b else b)"
  have b1: "buffer_inv b1" "buf_content b1 = buf_content b" "b_pos b1 = 0" "b_secure b1 = b_secure b"
    using buffer_shift_props [OF inv] inv by (auto simp: b1_def)
  have room_def: "buffer_make_room h b len = realloc_buffer h b1 (b_used b1 + len)"
    using True len buffer_inv_bounds [OF inv] buffer_inv_bounds [OF b1(1)]
    by (simp add: buffer_make_room_def b1_def Let_def)
  show thesis
    using b1(1) le_add1 [of "b_used b1" len]
  proof (cases rule: realloc_buffer_cases [where h = h])
    case (grown b')
    then show thesis
      using b1 room_def by (intro room [of b']) (auto simp: buf_content_def)
  next
    case refused
    then show thesis
      using b1 room_def that(2) [of b1] by simp
  qed
qed

lemma buffer_make_room_succeeds:
  assumes inv: "buffer_inv b" and grants: "\<forall>n. heap_grants h n"
    and fits: "length (buf_content b) + len < BUFFER_SIZE_MAX"
  shows "fst (buffer_make_room h b len) = 0"
proof -
  define b1 where "b1 = (if b_pos b > 0 then buffer_shift b else b)"
  have "b_used b1 = length (buf_content b)"
    using buffer_shift_props [OF inv] length_buf_content [OF inv] by (auto simp: b1_def)
  with fits have "fst (realloc_buffer h b1 (wrap64 (b_used b1 + len))) = 0"
    using grants by (intro realloc_buffer_succeeds) (auto simp: BUFFER_SIZE_MAX_def)
  with buffer_inv_bounds [OF inv] fits show ?thesis
    by (simp add: buffer_make_room_def b1_def Let_def BUFFER_SIZE_MAX_def)
qed

subsection \<open>Writing\<close>

lemma add_data_cases:
  assumes inv: "buffer_inv b" and len: "len < 4294967296" and d: "len \<le> length d"
  obtains (added) b' where "ssh_buffer_add_data h b (Some d) len = (0, b')" and "buffer_inv b'"
      and "buf_content b' = buf_content b @ take len d" and "b_secure b' = b_secure b"
  | (failed) b' where "ssh_buffer_add_data h b (Some d) len = (- 1, b')" and "buffer_inv b'"
      and "buf_content b' = buf_content b"
  using inv len
proof (cases rule: buffer_make_room_cases [where h = h])
  case (room b1)
  note bounds = buffer_inv_bounds [OF room(2)]
  let ?d = "mem_write (b_data b1) (b_used b1) (take len d)"
  have "length ?d = b_alloc b1" and "take (b_used b1 + len) ?d = take (b_used b1) (b_data b1) @ take len d"
    using room(4) bounds d
    using take_mem_write_end [of "b_used b1" "take len d" "b_data b1"]
    by (simp_all add: mem_simps min_absorb2)
  with room bounds len d show thesis
    by (intro added [of "b1\<lparr>b_data := ?d, b_used := b_used b1 + len\<rparr>"])
      (auto simp: ssh_buffer_add_data_def buffer_inv_def buf_content_def)
next
  case (refused b1)
  with len show thesis
    by (intro failed [of b1]) (auto simp: ssh_buffer_add_data_def)
qed

lemma add_data_succeeds:
  assumes "buffer_inv b" and "\<forall>n. heap_grants h n" and "len \<le> length d"
    and "length (buf_content b) + len < BUFFER_SIZE_MAX"
  shows "fst (ssh_buffer_add_data h b (Some d) len) = 0"
  using buffer_make_room_succeeds [OF assms(1,2,4)] assms(4)
  by (auto simp: ssh_buffer_add_data_def Let_def BUFFER_SIZE_MAX_def split: prod.splits)

subsection \<open>Reading\<close>

lemma get_data_enough:
  assumes inv: "buffer_inv b" and n: "n \<le> length (buf_content b)"
  shows "ssh_buffer_get_data b n = (n, take n (buf_content b), b\<lparr>b_pos := b_pos b + n\<rparr>)"
    and "buffer_inv (b\<lparr>b_pos := b_pos b + n\<rparr>)"
    and "buf_content (b\<lparr>b_pos := b_pos b + n\<rparr>) = drop n (buf_content b)"
proof -
  note bounds = buffer_inv_bounds [OF inv]
  have n': "b_pos b + n \<le> b_used b"
    using n bounds by (simp add: length_buf_content [OF inv])
  then show "ssh_buffer_get_data b n = (n, take n (buf_content b), b\<lparr>b_pos := b_pos b + n\<rparr>)"
    using bounds
    by (simp add: ssh_buffer_get_data_def ssh_buffer_validate_length_def buf_content_def take_drop)
  show "buffer_inv (b\<lparr>b_pos := b_pos b + n\<rparr>)"
    using inv n' by (simp add: buffer_inv_def)
  show "buf_content (b\<lparr>b_pos := b_pos b + n\<rparr>) = drop n (buf_content b)"
    by (simp add: buf_content_def add.commute)
qed

lemma get_data_short:
  assumes inv: "buffer_inv b" and n: "n < 4294967296" "length (buf_content b) < n"
  shows "ssh_buffer_get_data b n = (0, [], b)"
  using n buffer_inv_bounds [OF inv]
  by (simp add: ssh_buffer_get_data_def ssh_buffer_validate_length_def length_buf_content [OF inv])

subsection \<open>The buffer is a byte queue\<close>

definition buf_put :: "heap \<Rightarrow> ssh_buffer \<Rightarrow> bytes \<Rightarrow> ssh_buffer option" where
  "buf_put h b d =
     (if length d < 4294967296 then
        (case ssh_buffer_add_data h b (Some d) (length d) of
           (rc, b') \<Rightarrow> if rc = 0 then Some b' else None)
      else None)"

definition buf_take :: "ssh_buffer \<Rightarrow> nat \<Rightarrow> (bytes \<times> ssh_buffer) option" where
  "buf_take b n =
     (if n < 4294967296 then
        (case ssh_buffer_get_data b n of
           (k, d, b') \<Rightarrow> if k = n then Some (d, b') else None)
      else None)"

lemma buf_put_Some:
  assumes "buffer_inv b" and "buf_put h b d = Some b'"
  shows "buffer_inv b'" and "buf_content b' = buf_content b @ d"
proof -
  have len: "length d < 4294967296"
    using assms(2) by (auto simp: buf_put_def split: if_splits)
  have "buffer_inv b' \<and> buf_content b' = buf_content b @ d"
    using assms(1) len order_refl [of "length d"]
  proof (cases rule: add_data_cases [where h = h])
    case (added b1)
    with assms(2) len show ?thesis
      by (simp add: buf_put_def)
  next
    case (failed b1)
    with assms(2) len show ?thesis
      by (simp add: buf_put_def)
  qed
  then show "buffer_inv b'" and "buf_content b' = buf_content b @ d"
    by simp_all
qed

interpretation bq: byte_queue buffer_inv buf_content "buf_put h" buf_take for h
proof
  fix q q' d
  assume "buffer_inv q" and "buf_put h q d = Some q'"
  then show "buffer_inv q'" and "buf_content q' = buf_content q @ d"
    by (rule buf_put_Some)+
next
  fix q n
  assume inv: "buffer_inv q" and n: "n \<le> length (buf_content q)"
  have "n < 4294967296"
    using n buffer_inv_bounds [OF inv] by (simp add: length_buf_content [OF inv])
  then show "\<exists>q'. buf_take q n = Some (take n (buf_content q), q') \<and> buffer_inv q' \<and>
      buf_content q' = drop n (buf_content q)"
    using get_data_enough [OF inv n] by (simp add: buf_take_def)
next
  fix q n
  assume "buffer_inv q" and "length (buf_content q) < n"
  then show "buf_take q n = None"
    by (simp add: buf_take_def get_data_short)
qed

subsection \<open>The other operations\<close>

lemma allocate_size_props:
  assumes inv: "buffer_inv b" and call: "ssh_buffer_allocate_size h b len = (rc, b')"
  shows "buffer_inv b'" and "buf_content b' = buf_content b" and "b_secure b' = b_secure b"
    and "rc = 0 \<or> rc = - 1" and "rc = 0 \<Longrightarrow> wrap32 len \<le> b_alloc b'"
proof -
  define b1 where "b1 = (if b_pos b > 0 then buffer_shift b else b)"
  have b1: "buffer_inv b1" "buf_content b1 = buf_content b" "b_secure b1 = b_secure b"
    "b_alloc b1 = b_alloc b"
    using buffer_shift_props [OF inv] inv by (auto simp: b1_def)
  have "(buffer_inv b' \<and> buf_content b' = buf_content b \<and> b_secure b' = b_secure b) \<and>
    (rc = 0 \<and> wrap32 len \<le> b_alloc b' \<or> rc = - 1)"
  proof (cases "b_alloc b < wrap32 len")
    case False
    with call inv show ?thesis
      by (auto simp: ssh_buffer_allocate_size_def)
  next
    case True
    then have le: "b_used b1 \<le> wrap32 len"
      using buffer_inv_bounds [OF b1(1)] b1(4) by simp
    show ?thesis
      using b1(1) le
    proof (cases rule: realloc_buffer_cases [where h = h])
      case (grown b2)
      with True call b1 show ?thesis
        by (auto simp: ssh_buffer_allocate_size_def b1_def Let_def buf_content_def)
    next
      case refused
      with True call b1 show ?thesis
        by (auto simp: ssh_buffer_allocate_size_def b1_def Let_def)
    qed
  qed
  then show "buffer_inv b'" and "buf_content b' = buf_content b" and "b_secure b' = b_secure b"
    and "rc = 0 \<or> rc = - 1" and "rc = 0 \<Longrightarrow> wrap32 len \<le> b_alloc b'"
    by auto
qed

lemma buffer_new_Some:
  assumes "ssh_buffer_new h = Some b"
  shows "buffer_inv b" and "buf_content b = []" and "\<not> b_secure b"
proof -
  let ?b = "\<lparr>b_secure = False, b_used = 0, b_alloc = 0, b_pos = 0, b_data = [], b_freed = []\<rparr>"
  have inv: "buffer_inv ?b"
    by (simp add: buffer_inv_def)
  obtain rc where call: "ssh_buffer_allocate_size h ?b 63 = (rc, b)"
    using assms by (auto simp: ssh_buffer_new_def Let_def split: if_splits prod.splits)
  show "buffer_inv b" and "buf_content b = []" and "\<not> b_secure b"
    using allocate_size_props [OF inv call] by (simp_all add: buf_content_def)
qed

lemma buffer_new_granted: "\<forall>n. heap_grants h n \<Longrightarrow> \<exists>b. ssh_buffer_new h = Some b"
  using realloc_buffer_succeeds [of 63 h]
  by (auto simp: ssh_buffer_new_def ssh_buffer_allocate_size_def Let_def BUFFER_SIZE_MAX_def
      split: prod.splits if_splits) (metis fst_conv less_irrefl)

lemma reinit_props:
  assumes inv: "buffer_inv b" and call: "ssh_buffer_reinit h b = (rc, b')"
  shows "buffer_inv b'" and "buf_content b' = []" and "b_secure b' = b_secure b"
    and "rc = 0 \<Longrightarrow> b_alloc b' \<le> 65536"
proof -
  define b1 where "b1 = b\<lparr>b_data := (if b_secure b \<and> b_alloc b > 0
      then mem_zero (b_data b) 0 (b_alloc b) else b_data b), b_used := 0, b_pos := 0\<rparr>"
  have b1: "buffer_inv b1" "b_used b1 = 0" "b_pos b1 = 0" "b_secure b1 = b_secure b"
    "b_alloc b1 = b_alloc b"
    using buffer_inv_bounds [OF inv] by (auto simp: b1_def buffer_inv_def BUFFER_SIZE_MAX_def mem_simps)
  have size: "realloc_size 0 65535 = Some 65536"
    by (simp add: realloc_size.simps)
  have "(buffer_inv b' \<and> buf_content b' = [] \<and> b_secure b' = b_secure b) \<and>
    (rc = 0 \<longrightarrow> b_alloc b' \<le> 65536)"
  proof (cases "b_alloc b > 65536")
    case False
    with call b1 show ?thesis
      by (auto simp: ssh_buffer_reinit_def b1_def Let_def buf_content_def)
  next
    case True
    have alloc: "fst r = 0 \<Longrightarrow> b_alloc (snd r) = 65536" if "r = realloc_buffer h b1 65535" for r
      using that size
      by (auto simp: realloc_buffer_def split: if_splits option.splits)
    have "b_used b1 \<le> 65535"
      using b1(2) by simp
    with b1(1) show ?thesis
    proof (cases rule: realloc_buffer_cases [where h = h])
      case (grown b2)
      with True call b1 alloc show ?thesis
        by (auto simp: ssh_buffer_reinit_def b1_def Let_def buf_content_def)
    next
      case refused
      with True call b1 show ?thesis
        by (auto simp: ssh_buffer_reinit_def b1_def Let_def buf_content_def)
    qed
  qed
  then show "buffer_inv b'" and "buf_content b' = []" and "b_secure b' = b_secure b"
    and "rc = 0 \<Longrightarrow> b_alloc b' \<le> 65536"
    by auto
qed

lemma pass_bytes_enough:
  assumes inv: "buffer_inv b" and n: "n \<le> length (buf_content b)"
    and call: "ssh_buffer_pass_bytes b n = (k, b')"
  shows "k = n" and "buffer_inv b'" and "buf_content b' = drop n (buf_content b)"
    and "b_secure b' = b_secure b"
  using n call inv buffer_inv_bounds [OF inv]
  by (auto simp: ssh_buffer_pass_bytes_def Let_def length_buf_content [OF inv] buffer_inv_def
      buf_content_def add.commute split: if_splits)

lemma pass_bytes_short:
  assumes inv: "buffer_inv b" and "length (buf_content b) < n" and "n < 4294967296"
  shows "ssh_buffer_pass_bytes b n = (0, b)"
  using assms buffer_inv_bounds [OF inv]
  by (auto simp: ssh_buffer_pass_bytes_def length_buf_content [OF inv])

lemma pass_bytes_end_enough:
  assumes inv: "buffer_inv b" and n: "n \<le> length (buf_content b)"
    and call: "ssh_buffer_pass_bytes_end b n = (k, b')"
  shows "k = n" and "buffer_inv b'"
    and "buf_content b' = take (length (buf_content b) - n) (buf_content b)"
    and "b_secure b' = b_secure b"
  using n call inv buffer_inv_bounds [OF inv]
  by (auto simp: ssh_buffer_pass_bytes_end_def Let_def length_buf_content [OF inv] buffer_inv_def
      buf_content_def take_drop min_def split: if_splits)

lemma mem_prepend:
  "length d + length c \<le> length mem \<Longrightarrow>
    take (length d + length c) (mem_write (mem_write mem (length d) c) 0 d) = d @ c \<and>
    length (mem_write (mem_write mem (length d) c) 0 d) = length mem"
  by (simp add: mem_write_def)

text \<open>Prepending into the gap before \<^verbatim>\<open>pos\<close>, and prepending by moving the payload.\<close>

lemma prepend_in_gap:
  assumes inv: "buffer_inv b" and len: "len < 4294967296" and d: "len \<le> length d"
    and gap: "len \<le> b_pos b"
  shows "\<exists>b'. ssh_buffer_prepend_data h b d len = (0, b') \<and> buffer_inv b' \<and>
    buf_content b' = take len d @ buf_content b \<and> b_secure b' = b_secure b"
proof -
  note bounds = buffer_inv_bounds [OF inv]
  let ?p = "b_pos b - len"
  let ?d = "mem_write (b_data b) ?p (take len d)"
  have "length ?d = b_alloc b"
    using bounds gap d by (simp add: mem_simps)
  moreover have "drop ?p (take (b_used b) ?d) = take len d @ buf_content b"
    using bounds gap d by (simp add: mem_write_def buf_content_def drop_take)
  ultimately show ?thesis
    using inv gap len bounds
    by (auto simp: ssh_buffer_prepend_data_def buffer_inv_def buf_content_def)
qed

lemma prepend_by_moving:
  assumes inv: "buffer_inv b" and len: "len < 4294967296" and d: "len \<le> length d"
    and gap: "b_pos b < len" and room: "b_used b - b_pos b + len \<le> b_alloc b"
  defines "b' \<equiv> b\<lparr>b_data := mem_write (mem_write (b_data b) len
      (drop (b_pos b) (take (b_used b) (b_data b)))) 0 (take len d),
      b_used := b_used b + (len - b_pos b), b_pos := 0\<rparr>"
  shows "buffer_inv b'" and "buf_content b' = take len d @ buf_content b"
proof -
  note bounds = buffer_inv_bounds [OF inv]
  let ?c = "drop (b_pos b) (take (b_used b) (b_data b))"
  have sz: "length (take len d) + length ?c \<le> length (b_data b)"
    using room bounds d by simp
  have used: "b_used b + (len - b_pos b) = length (take len d) + length ?c"
    using gap bounds d by simp
  show "buffer_inv b'"
    using mem_prepend [OF sz] inv sz used d by (simp add: b'_def buffer_inv_def min_absorb2)
  show "buf_content b' = take len d @ buf_content b"
    using mem_prepend [OF sz] used d by (simp add: b'_def buf_content_def min_absorb2)
qed

lemma prepend_data_cases:
  assumes inv: "buffer_inv b" and len: "len < 4294967296" and d: "len \<le> length d"
  obtains (prepended) b' where "ssh_buffer_prepend_data h b d len = (0, b')" and "buffer_inv b'"
      and "buf_content b' = take len d @ buf_content b" and "b_secure b' = b_secure b"
  | (failed) "ssh_buffer_prepend_data h b d len = (- 1, b)"
proof (cases "len \<le> b_pos b")
  case True
  with prepend_in_gap [OF inv len d] prepended show thesis
    by blast
next
  case False
  note bounds = buffer_inv_bounds [OF inv]
  let ?n = "b_used b - b_pos b + len"
  define r where "r = (if b_alloc b < ?n then realloc_buffer h b ?n else (0, b))"
  have call: "ssh_buffer_prepend_data h b d len =
      (if fst r < 0 then (- 1, snd r)
       else (0, (snd r)\<lparr>b_data := mem_write (mem_write (b_data (snd r)) len
         (drop (b_pos (snd r)) (take (b_used (snd r)) (b_data (snd r))))) 0 (take len d),
         b_used := b_used (snd r) + (len - b_pos (snd r)), b_pos := 0\<rparr>))"
    using False len bounds
    by (cases "b_alloc b < ?n"; cases "realloc_buffer h b ?n")
      (auto simp: ssh_buffer_prepend_data_def r_def)
  have le: "b_used b \<le> ?n"
    using False by simp
  have ready: "fst r = - 1 \<and> snd r = b \<or>
      fst r = 0 \<and> buffer_inv (snd r) \<and> ?n \<le> b_alloc (snd r) \<and> b_used (snd r) = b_used b \<and>
      b_pos (snd r) = b_pos b \<and> b_secure (snd r) = b_secure b \<and> buf_content (snd r) = buf_content b"
  proof (cases "b_alloc b < ?n")
    case False
    with inv show ?thesis
      by (simp add: r_def)
  next
    case grow: True
    show ?thesis
      using inv le
    proof (cases rule: realloc_buffer_cases [where h = h])
      case (grown b')
      with grow show ?thesis
        by (simp add: r_def buf_content_def)
    next
      case refused
      with grow show ?thesis
        by (simp add: r_def)
    qed
  qed
  show thesis
  proof (cases "fst r = - 1")
    case True
    with ready call failed show thesis
      by auto
  next
    case ok: False
    with ready have r: "buffer_inv (snd r)" "b_pos (snd r) < len"
        "b_used (snd r) - b_pos (snd r) + len \<le> b_alloc (snd r)"
      using False by auto
    from ready ok call have "fst (ssh_buffer_prepend_data h b d len) = 0"
      by auto
    with prepend_by_moving [OF r(1) len d r(2,3)] ready ok call show thesis
      by (intro prepended [of "snd (ssh_buffer_prepend_data h b d len)"]) auto
  qed
qed

text \<open>Strings: what \<^verbatim>\<open>ssh_buffer_get_ssh_string\<close> reads back.\<close>

lemma get_u32_enough:
  assumes "buffer_inv b" and "4 \<le> length (buf_content b)"
  shows "ssh_buffer_get_u32 b =
    (4, Some (load_bytes (take 4 (buf_content b))), b\<lparr>b_pos := b_pos b + 4\<rparr>)"
  using get_data_enough(1) [OF assms] by (simp add: ssh_buffer_get_u32_def)

lemma get_u32_short:
  "buffer_inv b \<Longrightarrow> length (buf_content b) < 4 \<Longrightarrow> ssh_buffer_get_u32 b = (0, None, b)"
  by (simp add: ssh_buffer_get_u32_def get_data_short)

lemma validate_length_iff:
  assumes inv: "buffer_inv b" and "n < 4294967296"
  shows "ssh_buffer_validate_length b n = (if n \<le> length (buf_content b) then SSH_OK else SSH_ERROR)"
  using assms(2) buffer_inv_bounds [OF inv]
  by (auto simp: ssh_buffer_validate_length_def length_buf_content [OF inv])

lemma get_ssh_string_enough:
  assumes inv: "buffer_inv b" and c: "buf_content b = be_bytes (of_nat (length d) :: u32) @ d @ rest"
    and small: "length d \<le> STRING_SIZE_MAX" and grants: "heap_grants h (5 + length d)"
  shows "\<exists>s b'. ssh_buffer_get_ssh_string h b = (Some s, b') \<and> ssh_string_ok s \<and>
    ss_contents s = d \<and> buffer_inv b' \<and> buf_content b' = rest \<and> b_secure b' = b_secure b"
proof -
  define b1 where "b1 = b\<lparr>b_pos := b_pos b + 4\<rparr>"
  have four: "4 \<le> length (buf_content b)"
    using c by simp
  have b1: "buffer_inv b1" "buf_content b1 = d @ rest"
    using get_data_enough(2,3) [OF inv four] c by (simp_all add: b1_def)
  have u32: "ssh_buffer_get_u32 b = (4, Some (load_bytes (be_bytes (of_nat (length d) :: u32))), b1)"
    using get_u32_enough [OF inv four] c by (simp add: b1_def)
  have host: "unat (bswap (load_bytes (be_bytes (of_nat (length d) :: u32))) :: u32) = length d"
    using small by (simp add: wire_simps unat_of_nat_string)
  have d32: "length d < 4294967296"
    using small by (simp add: STRING_SIZE_MAX_def)
  have le: "length d \<le> length (buf_content b1)"
    using b1(2) by simp
  obtain s where s: "ssh_string_new h (length d) = Some s"
    using small grants ssh_string_new_None [of h "length d"] by (cases "ssh_string_new h (length d)") auto
  show ?thesis
    using ssh_string_new_filled [OF s] get_data_enough [OF b1(1) le] b1
      validate_length_iff [OF b1(1) d32] u32 host s
    by (simp add: ssh_buffer_get_ssh_string_def Let_def b1_def)
qed

subsection \<open>Sequences of operations\<close>

text \<open>
  One call on a buffer, with the arguments a caller passes: the length that belongs to the
  data, and for \<^verbatim>\<open>ssh_buffer_pass_bytes_end\<close> the test its caller in \<^verbatim>\<open>packet.c\<close> makes first.
\<close>

datatype buf_op =
    OpAdd bytes
  | OpAddString "ssh_string option"
  | OpPrepend bytes
  | OpAllocate nat
  | OpAllocateSize nat
  | OpGet nat
  | OpPass nat
  | OpPassEnd nat
  | OpReinit
  | OpSetSecure

fun buf_step :: "heap \<Rightarrow> ssh_buffer \<Rightarrow> buf_op \<Rightarrow> ssh_buffer" where
  "buf_step h b (OpAdd d) =
     (if length d < 4294967296 then snd (ssh_buffer_add_data h b (Some d) (length d)) else b)"
| "buf_step h b (OpAddString s) =
     (if pred_option ssh_string_ok s then snd (ssh_buffer_add_ssh_string h b s) else b)"
| "buf_step h b (OpPrepend d) =
     (if length d < 4294967296 then snd (ssh_buffer_prepend_data h b d (length d)) else b)"
| "buf_step h b (OpAllocate n) = snd (ssh_buffer_allocate h b n)"
| "buf_step h b (OpAllocateSize n) = snd (ssh_buffer_allocate_size h b n)"
| "buf_step h b (OpGet n) = snd (snd (ssh_buffer_get_data b n))"
| "buf_step h b (OpPass n) = snd (ssh_buffer_pass_bytes b n)"
| "buf_step h b (OpPassEnd n) =
     (if n \<le> ssh_buffer_get_len b then snd (ssh_buffer_pass_bytes_end b n) else b)"
| "buf_step h b OpReinit = snd (ssh_buffer_reinit h b)"
| "buf_step h b OpSetSecure = ssh_buffer_set_secure b"

lemma add_data_inv:
  assumes "buffer_inv b" and "len < 4294967296" and "len \<le> length d"
  shows "buffer_inv (snd (ssh_buffer_add_data h b (Some d) len))"
  using assms by (cases rule: add_data_cases [where h = h]) simp_all

lemma add_ssh_string_as_data:
  assumes "ssh_string_ok s"
  shows "ssh_buffer_add_ssh_string h b (Some s) =
    ssh_buffer_add_data h b (Some (mem_bytes (ss_size s) @ ss_data s)) (length (ss_contents s) + 4)"
proof -
  have len: "length (ss_contents s) = ssh_string_len (Some s)"
    using assms by (simp add: ss_contents_def) (simp add: ssh_string_ok_def)
  have small: "wrap32 (ssh_string_len (Some s)) = ssh_string_len (Some s)"
    using ssh_string_len_bound [of "Some s"] by (simp add: STRING_SIZE_MAX_def)
  have rc: "fst (ssh_buffer_add_data h b (Some d) n) = 0 \<or>
      fst (ssh_buffer_add_data h b (Some d) n) = - 1" for d n
    by (simp add: ssh_buffer_add_data_def Let_def split: prod.splits)
  show ?thesis
    unfolding ssh_buffer_add_ssh_string_def option.case len small Let_def
    using rc [of "mem_bytes (ss_size s) @ ss_data s" "ssh_string_len (Some s) + 4"]
    by (auto simp: case_prod_beta prod_eq_iff)
qed

lemma add_ssh_string_cases:
  assumes inv: "buffer_inv b" and ok: "ssh_string_ok s"
  obtains (added) b' where "ssh_buffer_add_ssh_string h b (Some s) = (0, b')" and "buffer_inv b'"
      and "buf_content b' = buf_content b @ ss_wire s" and "b_secure b' = b_secure b"
  | (failed) b' where "ssh_buffer_add_ssh_string h b (Some s) = (- 1, b')" and "buffer_inv b'"
      and "buf_content b' = buf_content b"
proof -
  let ?d = "mem_bytes (ss_size s) @ ss_data s" and ?n = "length (ss_contents s) + 4"
  have bound: "length (ss_contents s) \<le> STRING_SIZE_MAX"
    by (simp add: ss_contents_def min.coboundedI2)
  have n: "?n < 4294967296"
    using bound by (simp add: STRING_SIZE_MAX_def)
  have sub: "ssh_string_len (Some s) \<le> length (ss_data s)"
    using ok by (simp add: ssh_string_ok_def)
  then have le: "?n \<le> length ?d"
    using ok by (simp add: ss_contents_def)
  have wire: "take ?n ?d = ss_wire s"
    using sub by (simp add: ss_wire_def ss_contents_def)
  from inv n le show thesis
  proof (cases rule: add_data_cases [where h = h])
    case (added b')
    then show thesis
      using that(1) [of b'] wire by (simp add: add_ssh_string_as_data [OF ok])
  next
    case (failed b')
    then show thesis
      using that(2) [of b'] by (simp add: add_ssh_string_as_data [OF ok])
  qed
qed

lemma allocate_inv: "buffer_inv b \<Longrightarrow> buffer_inv (snd (ssh_buffer_allocate h b n))"
proof -
  assume inv: "buffer_inv b"
  have "wrap32 n < 4294967296"
    by simp
  with inv show ?thesis
    by (cases rule: buffer_make_room_cases [where h = h])
      (auto simp: ssh_buffer_allocate_def buffer_inv_def)
qed

lemma get_data_inv: "buffer_inv b \<Longrightarrow> buffer_inv (snd (snd (ssh_buffer_get_data b n)))"
proof -
  assume inv: "buffer_inv b"
  have w: "ssh_buffer_get_data b n = ssh_buffer_get_data b (wrap32 n)"
    by (simp add: ssh_buffer_get_data_def)
  show ?thesis
    using get_data_enough [OF inv, of "wrap32 n"] get_data_short [OF inv, of "wrap32 n"] inv
    by (cases "wrap32 n \<le> length (buf_content b)") (simp_all add: w)
qed

lemma pass_bytes_inv: "buffer_inv b \<Longrightarrow> buffer_inv (snd (ssh_buffer_pass_bytes b n))"
proof -
  assume inv: "buffer_inv b"
  have w: "ssh_buffer_pass_bytes b n = ssh_buffer_pass_bytes b (wrap32 n)"
    by (simp add: ssh_buffer_pass_bytes_def)
  show ?thesis
    using pass_bytes_enough(2) [OF inv, of "wrap32 n"] pass_bytes_short [OF inv, of "wrap32 n"] inv
    by (cases "wrap32 n \<le> length (buf_content b)"; cases "ssh_buffer_pass_bytes b (wrap32 n)")
      (simp_all add: w)
qed

lemma buf_step_inv: "buffer_inv b \<Longrightarrow> buffer_inv (buf_step h b op)"
proof (cases op)
  case (OpAdd d)
  assume "buffer_inv b"
  with OpAdd show ?thesis
    by (simp add: add_data_inv)
next
  case (OpAddString so)
  assume inv: "buffer_inv b"
  show ?thesis
  proof (cases so)
    case None
    with inv OpAddString show ?thesis
      by (simp add: ssh_buffer_add_ssh_string_def)
  next
    case (Some s)
    show ?thesis
    proof (cases "ssh_string_ok s")
      case True
      with inv show ?thesis
        by (cases rule: add_ssh_string_cases [where h = h]) (simp_all add: OpAddString Some inv)
    qed (use inv OpAddString Some in simp)
  qed
next
  case (OpPrepend d)
  assume inv: "buffer_inv b"
  show ?thesis
  proof (cases "length d < 4294967296")
    case True
    with inv show ?thesis
      using order_refl [of "length d"]
      by (cases rule: prepend_data_cases [where h = h]) (simp_all add: OpPrepend inv)
  qed (use inv OpPrepend in simp)
next
  case (OpPassEnd n)
  assume inv: "buffer_inv b"
  with OpPassEnd pass_bytes_end_enough(2) [OF inv] show ?thesis
    by (cases "ssh_buffer_pass_bytes_end b n") (auto simp: get_len_content)
next
  case (OpAllocateSize n)
  assume inv: "buffer_inv b"
  with OpAllocateSize allocate_size_props(1) [OF inv] show ?thesis
    by (cases "ssh_buffer_allocate_size h b n") auto
next
  case OpReinit
  assume inv: "buffer_inv b"
  with OpReinit reinit_props(1) [OF inv] show ?thesis
    by (cases "ssh_buffer_reinit h b") auto
next
  case OpSetSecure
  assume "buffer_inv b"
  with OpSetSecure show ?thesis
    by (simp add: ssh_buffer_set_secure_def buffer_inv_def)
qed (simp_all add: allocate_inv get_data_inv pass_bytes_inv)

interpretation buf_machine: safe_machine "buf_step h" buffer_inv for h
  by unfold_locales (rule buf_step_inv)

subsection \<open>Concrete buffers\<close>

definition roomy_buffer :: ssh_buffer where
  "roomy_buffer =
     \<lparr>b_secure = False, b_used = 0, b_alloc = 64, b_pos = 0, b_data = replicate 64 204, b_freed = []\<rparr>"

lemma roomy_grants [simp]: "heap_grants roomy_heap n"
  by (simp add: roomy_heap_def)

lemma roomy_buffer_inv [simp]: "buffer_inv roomy_buffer"
  by (simp add: roomy_buffer_def buffer_inv_def BUFFER_SIZE_MAX_def)

lemma roomy_buffer_content [simp]: "buf_content roomy_buffer = []"
  by (simp add: roomy_buffer_def buf_content_def)

lemma new_roomy_buffer: "ssh_buffer_new roomy_heap = Some roomy_buffer"
  by code_simp

subsection \<open>Properties\<close>

text \<open>
  C34. Refinement: a fresh buffer transports a byte stream. Whatever chunks
  \<^verbatim>\<open>ssh_buffer_add_data\<close> accepted, reading their total length back with
  \<^verbatim>\<open>ssh_buffer_get_data\<close> in any other chunking succeeds, yields the same bytes in the same
  order, and leaves nothing unread.
\<close>

theorem buffer_stream_transport:
  assumes "ssh_buffer_new h = Some b" and "put_all (buf_put h) b ds = Some b1"
    and "sum_list ns = length (concat ds)"
  shows "\<exists>es b2. get_all buf_take b1 ns = Some (es, b2) \<and> map length es = ns \<and>
    concat es = concat ds \<and> buf_content b2 = []"
  using buffer_new_Some(1,2) [OF assms(1)] assms(2,3) by (rule bq.stream_transport)

theorem buffer_stream_transport_witness:
  "\<exists>es b2. get_all buf_take (the (put_all (buf_put roomy_heap) roomy_buffer [[1, 2, 3], [4]])) [2, 2] =
      Some (es, b2) \<and> map length es = [2, 2] \<and> concat es = [1, 2, 3, 4] \<and> buf_content b2 = []"
proof -
  have "put_all (buf_put roomy_heap) roomy_buffer [[1, 2, 3], [4]] \<noteq> None"
    by code_simp
  then show ?thesis
    using buffer_stream_transport [OF new_roomy_buffer, of "[[1, 2, 3], [4]]" _ "[2, 2]"] by auto
qed

text \<open>
  Appending succeeds and appends exactly the given bytes whenever the allocator grants
  its requests and the payload stays below the 256 MiB limit; otherwise the call fails with
  -1 and the unread bytes are untouched. The invariant holds after the call in every case.
\<close>

theorem ssh_buffer_add_data_correct:
  assumes "buffer_inv b" and "len < 4294967296" and "len \<le> length d"
  shows "case ssh_buffer_add_data h b (Some d) len of (rc, b') \<Rightarrow>
      buffer_inv b' \<and>
      (rc = 0 \<and> buf_content b' = buf_content b @ take len d \<or>
       rc = - 1 \<and> buf_content b' = buf_content b) \<and>
      ((\<forall>n. heap_grants h n) \<and> length (buf_content b) + len < BUFFER_SIZE_MAX \<longrightarrow> rc = 0)"
  using assms
proof (cases rule: add_data_cases [where h = h])
  case (added b')
  then show ?thesis
    by simp
next
  case (failed b')
  with add_data_succeeds [OF assms(1) _ assms(3), of h] show ?thesis
    by auto
qed

theorem ssh_buffer_add_data_correct_witness:
  "buf_content (snd (ssh_buffer_add_data roomy_heap roomy_buffer (Some [7, 8, 9]) 2)) = [7, 8] \<and>
    fst (ssh_buffer_add_data roomy_heap roomy_buffer (Some [7, 8, 9]) 2) = 0"
  using ssh_buffer_add_data_correct [of roomy_buffer 2 "[7, 8, 9]" roomy_heap]
  by (auto simp: BUFFER_SIZE_MAX_def split: prod.splits)

text \<open>
  Prepending puts the bytes in front of the payload, whether they fit into the gap of
  consumed bytes or the payload has to be moved; a refused reallocation changes nothing.
\<close>

theorem ssh_buffer_prepend_data_correct:
  assumes "buffer_inv b" and "len < 4294967296" and "len \<le> length d"
  shows "case ssh_buffer_prepend_data h b d len of (rc, b') \<Rightarrow>
      rc = 0 \<and> buffer_inv b' \<and> buf_content b' = take len d @ buf_content b \<or> rc = - 1 \<and> b' = b"
  using assms by (cases rule: prepend_data_cases [where h = h]) simp_all

theorem ssh_buffer_prepend_data_correct_witness:
  "case ssh_buffer_prepend_data roomy_heap
       (snd (ssh_buffer_add_data roomy_heap roomy_buffer (Some [3, 4]) 2)) [1, 2] 2 of (rc, b') \<Rightarrow>
     rc = 0 \<and> buf_content b' = [1, 2, 3, 4]"
proof -
  let ?b = "snd (ssh_buffer_add_data roomy_heap roomy_buffer (Some [3, 4]) 2)"
  have "buffer_inv ?b" and "buf_content ?b = [3, 4]"
    and "fst (ssh_buffer_prepend_data roomy_heap ?b [1, 2] 2) = 0"
    by code_simp+
  then show ?thesis
    using ssh_buffer_prepend_data_correct [of ?b 2 "[1, 2]" roomy_heap] by (auto split: prod.splits)
qed

text \<open>
  Reading is exact: a request that the payload can serve returns its first bytes and
  advances past them; a longer request returns 0 and changes nothing. No request reads
  outside the payload.
\<close>

theorem ssh_buffer_get_data_correct:
  assumes "buffer_inv b" and "len < 4294967296"
  shows "case ssh_buffer_get_data b len of (n, d, b') \<Rightarrow>
      if len \<le> length (buf_content b)
      then n = len \<and> d = take len (buf_content b) \<and> buffer_inv b' \<and>
           buf_content b' = drop len (buf_content b)
      else n = 0 \<and> d = [] \<and> b' = b"
  using get_data_enough [OF assms(1), of len] get_data_short [OF assms(1,2)]
  by (cases "len \<le> length (buf_content b)") simp_all

theorem ssh_buffer_get_data_correct_witness:
  "case ssh_buffer_get_data (snd (ssh_buffer_add_data roomy_heap roomy_buffer (Some [3, 4]) 2)) 1 of
     (n, d, b') \<Rightarrow> n = 1 \<and> d = [3] \<and> buf_content b' = [4]"
proof -
  let ?b = "snd (ssh_buffer_add_data roomy_heap roomy_buffer (Some [3, 4]) 2)"
  have "buffer_inv ?b" and "buf_content ?b = [3, 4]"
    by code_simp+
  then show ?thesis
    using ssh_buffer_get_data_correct [of ?b 1] by (auto split: prod.splits)
qed

text \<open>
  C35. Every sequence of buffer operations, called as their callers call them, keeps the
  invariant: the checks of \<^verbatim>\<open>buffer_verify\<close> never abort, and the allocation never exceeds
  256 MiB.
\<close>

theorem buffer_ops_keep_invariant:
  assumes "buffer_inv b"
  shows "buffer_inv (run_steps (buf_step h) b ops) \<and> buffer_verify (run_steps (buf_step h) b ops)"
  using buf_machine.run_good [OF assms, of h ops] by (simp add: buffer_inv_verify)

theorem buffer_ops_keep_invariant_witness:
  "buffer_verify (run_steps (buf_step roomy_heap) roomy_buffer
     [OpAdd [1, 2, 3, 4, 5], OpGet 2, OpPrepend [9], OpPassEnd 1, OpPass 3, OpReinit])"
  using buffer_ops_keep_invariant [OF roomy_buffer_inv] by blast

text \<open>
  Round trip of SSH strings through a buffer: a well-formed string that was added is the
  string read back, and the bytes behind it are left for the next reader.
\<close>

theorem ssh_string_buffer_roundtrip:
  assumes "buffer_inv b" and "buf_content b = []" and "ssh_string_ok s"
    and "ssh_buffer_add_ssh_string h b (Some s) = (0, b1)"
    and "ssh_buffer_add_data h b1 (Some rest) (length rest) = (0, b2)" and "length rest < 4294967296"
    and "heap_grants h' (5 + length (ss_contents s))"
  shows "\<exists>t b3. ssh_buffer_get_ssh_string h' b2 = (Some t, b3) \<and>
    ss_contents t = ss_contents s \<and> buf_content b3 = rest"
proof -
  have b1: "buffer_inv b1" "buf_content b1 = ss_wire s"
    using assms(1,3) by (cases rule: add_ssh_string_cases [where h = h]; use assms(2,4) in simp)+
  have b2: "buffer_inv b2" "buf_content b2 = ss_wire s @ rest"
    using b1(1) assms(6) order_refl [of "length rest"]
    by (cases rule: add_data_cases [where h = h]; use b1(2) assms(5) in simp)+
  have "length (ss_contents s) \<le> STRING_SIZE_MAX"
    by (simp add: ss_contents_def min.coboundedI2)
  then show ?thesis
    using get_ssh_string_enough [OF b2(1), of "ss_contents s" rest h'] b2(2) assms(3,7)
    by (auto simp: ss_wire_ok)
qed

definition abc_string :: ssh_string where
  "abc_string = the (ssh_string_from_char roomy_heap (Some (lit ''abc'')))"

theorem ssh_string_buffer_roundtrip_witness:
  "\<exists>t b3. ssh_buffer_get_ssh_string roomy_heap
      (snd (ssh_buffer_add_data roomy_heap
        (snd (ssh_buffer_add_ssh_string roomy_heap roomy_buffer (Some abc_string))) (Some [5]) 1)) =
      (Some t, b3) \<and> ss_contents t = [97, 98, 99] \<and> buf_content b3 = [5]"
proof -
  let ?b1 = "snd (ssh_buffer_add_ssh_string roomy_heap roomy_buffer (Some abc_string))"
  have "ssh_string_ok abc_string" and "ss_contents abc_string = [97, 98, 99]"
    and "ssh_buffer_add_ssh_string roomy_heap roomy_buffer (Some abc_string) = (0, ?b1)"
    and "ssh_buffer_add_data roomy_heap ?b1 (Some [5]) (length [5 :: u8]) =
      (0, snd (ssh_buffer_add_data roomy_heap ?b1 (Some [5]) 1))"
    by code_simp+
  then show ?thesis
    using ssh_string_buffer_roundtrip [of roomy_buffer abc_string roomy_heap ?b1 "[5]" _ roomy_heap]
    by simp
qed

text \<open>
  C36. A secure buffer is burnt when it is freed: the block handed back to the allocator
  holds zeroes only.
\<close>

theorem secure_buffer_free_burns:
  assumes "buffer_inv b" and "b_secure b"
  shows "hd (ssh_buffer_free (Some b)) = replicate (b_alloc b) 0"
  using assms by (auto simp: ssh_buffer_free_def mem_zero_all buffer_inv_def)

theorem secure_buffer_free_burns_witness:
  "hd (ssh_buffer_free (Some (snd (ssh_buffer_add_data roomy_heap
     (ssh_buffer_set_secure roomy_buffer) (Some [1, 2, 3]) 3)))) = replicate 64 0"
proof -
  let ?b = "snd (ssh_buffer_add_data roomy_heap (ssh_buffer_set_secure roomy_buffer) (Some [1, 2, 3]) 3)"
  have "buffer_inv ?b" and "b_secure ?b" and "b_alloc ?b = 64"
    by code_simp+
  then show ?thesis
    using secure_buffer_free_burns [of ?b] by simp
qed

text \<open>
  Two deviations the model shows. \<^verbatim>\<open>ssh_buffer_pass_bytes_end\<close> does not compare with \<^verbatim>\<open>pos\<close>, so
  on its own it can leave \<^verbatim>\<open>used\<close> before \<^verbatim>\<open>pos\<close>; and a secure buffer that was consumed and
  then grows hands the consumed bytes back unburnt, since only the first \<^verbatim>\<open>used\<close> bytes are
  cleared and consuming everything resets \<^verbatim>\<open>used\<close> to 0.
\<close>

lemma pass_bytes_end_can_break_invariant:
  "\<exists>b n. buffer_inv b \<and> \<not> buffer_verify (snd (ssh_buffer_pass_bytes_end b n))"
proof -
  let ?b = "roomy_buffer\<lparr>b_used := 4, b_pos := 3\<rparr>"
  have "buffer_inv ?b" and "\<not> buffer_verify (snd (ssh_buffer_pass_bytes_end ?b 2))"
    by code_simp+
  then show ?thesis
    by blast
qed

lemma secure_buffer_growth_leaves_consumed_bytes:
  "\<exists>b. buffer_inv b \<and> b_secure b \<and>
    map (take 3) (b_freed (run_steps (buf_step roomy_heap) b
      [OpAdd [115, 51, 99], OpPass 3, OpAdd (replicate 100 0)])) = [[115, 51, 99]]"
proof -
  let ?b = "ssh_buffer_set_secure roomy_buffer"
  have "buffer_inv ?b" and "b_secure ?b"
    and "map (take 3) (b_freed (run_steps (buf_step roomy_heap) ?b
        [OpAdd [115, 51, 99], OpPass 3, OpAdd (replicate 100 0)])) = [[115, 51, 99]]"
    by code_simp+
  then show ?thesis
    by (intro exI [of _ ?b] conjI)
qed

end
