(* ===== verification/Base64.thy ===== *)
theory Base64
  imports SSH_Buffer
begin

text \<open>
  Base64 (\<^verbatim>\<open>src/libssh/src/base64.c\<close>): the encoder, which writes four characters per three
  bytes into a block it has sized beforehand, and the decoder, which collects the decoded
  blocks in a secure buffer. \<^verbatim>\<open>char\<close> and \<^verbatim>\<open>uint8_t\<close> are bytes; the \<^verbatim>\<open>unsigned long\<close> block has
  64 bits.
\<close>

definition alphabet :: bytes where
  "alphabet = lit ''ABCDEFGHIJKLMNOPQRSTUVWXYZabcdefghijklmnopqrstuvwxyz0123456789+/''"

abbreviation equals_sign :: u8 where "equals_sign \<equiv> 61"

text \<open>\<^verbatim>\<open>strchr\<close>: the offset of the first occurrence, the terminator included.\<close>

fun strchr :: "bytes \<Rightarrow> u8 \<Rightarrow> nat option" where
  "strchr [] c = None"
| "strchr (x # xs) c = (if x = c then Some 0 else if x = 0 then None else map_option Suc (strchr xs c))"

text \<open>The macro \<^verbatim>\<open>BLOCK\<close>: look a character up and set its six bits at their place.\<close>

definition block_step :: "nat \<Rightarrow> u8 \<Rightarrow> u64 \<Rightarrow> u64 option" where
  "block_step shift c block =
     map_option (\<lambda>i. block OR ucast (push_bit shift ((of_nat i :: u32) AND 63))) (strchr alphabet c)"

definition to_block4 :: "bytes \<Rightarrow> nat \<Rightarrow> u64 option" where
  "to_block4 source num =
     (if num < 1 then Some 0
      else
        case block_step 18 (source ! 0) 0 of None \<Rightarrow> None | Some ba \<Rightarrow>
        (case block_step 12 (source ! 1) ba of None \<Rightarrow> None | Some bb \<Rightarrow>
          if num < 2 then Some bb
          else (case block_step 6 (source ! 2) bb of None \<Rightarrow> None | Some bc \<Rightarrow>
            if num < 3 then Some bc
            else block_step 0 (source ! 3) bc)))"

definition base64_to_bin_block :: "bytes \<Rightarrow> nat \<Rightarrow> bytes option" where
  "base64_to_bin_block source num =
     map_option (\<lambda>n. [ucast (drop_bit 16 (n AND 16711680)), ucast (drop_bit 8 (n AND 65280)),
                      ucast (n AND 255)]) (to_block4 source num)"

fun get_equals :: "bytes \<Rightarrow> nat \<times> bytes" where
  "get_equals [] = (0, [])"
| "get_equals (x # xs) =
     (if x = 0 then (0, x # xs)
      else case get_equals xs of (n, ys) \<Rightarrow>
        if x = equals_sign then (Suc n, 0 # ys) else (n, x # ys))"

text \<open>Decode one block and append its first \<open>n\<close> bytes, as every case of the decoder does.\<close>

definition decode_into :: "heap \<Rightarrow> ssh_buffer \<Rightarrow> bytes \<Rightarrow> nat \<Rightarrow> ssh_buffer option" where
  "decode_into h b ptr n =
     (case base64_to_bin_block ptr n of
        None \<Rightarrow> None
      | Some block \<Rightarrow>
          (case ssh_buffer_add_data h b (Some block) n of
             (rc, b1) \<Rightarrow> if rc < 0 then None else Some b1))"

fun base64_to_bin_loop :: "heap \<Rightarrow> ssh_buffer \<Rightarrow> bytes \<Rightarrow> nat \<Rightarrow> (ssh_buffer \<times> bytes \<times> nat) option" where
  "base64_to_bin_loop h b ptr len =
     (if len > 4 then
        (case decode_into h b ptr 3 of
           None \<Rightarrow> None
         | Some b1 \<Rightarrow> base64_to_bin_loop h b1 (drop 4 ptr) (len - 4))
      else Some (b, ptr, len))"

declare base64_to_bin_loop.simps [simp del]

definition base64_to_bin :: "heap \<Rightarrow> bytes \<Rightarrow> ssh_buffer option" where
  "base64_to_bin h source =
     (if \<not> heap_grants h (strlen source + 1) then None
      else case get_equals (cstr source @ [0]) of (equals, ptr) \<Rightarrow>
        if equals > 2 then None
        else case ssh_buffer_new h of
            None \<Rightarrow> None
          | Some buffer \<Rightarrow>
              (case base64_to_bin_loop h (ssh_buffer_set_secure buffer) ptr (strlen ptr) of
                 None \<Rightarrow> None
               | Some (b, p, len) \<Rightarrow>
                   if len = 4 then if equals \<noteq> 0 then None else decode_into h b p 3
                   else if len = 2 then if equals \<noteq> 2 then None else decode_into h b p 1
                   else if len = 3 then if equals \<noteq> 1 then None else decode_into h b p 2
                   else None))"

definition bin_to_base64_block :: "bytes \<Rightarrow> nat \<Rightarrow> bytes" where
  "bin_to_base64_block source len =
     (if len = 1 then
        [alphabet ! unat (drop_bit 2 (source ! 0)),
         alphabet ! unat (push_bit 4 (source ! 0 AND 3)), equals_sign, equals_sign]
      else if len = 2 then
        [alphabet ! unat (drop_bit 2 (source ! 0)),
         alphabet ! unat (drop_bit 4 (source ! 1) OR push_bit 4 (source ! 0 AND 3)),
         alphabet ! unat (push_bit 2 (source ! 1 AND 15)), equals_sign]
      else if len = 3 then
        [alphabet ! unat (drop_bit 2 (source ! 0)),
         alphabet ! unat (drop_bit 4 (source ! 1) OR push_bit 4 (source ! 0 AND 3)),
         alphabet ! unat (drop_bit 6 (source ! 2) OR push_bit 2 (source ! 1 AND 15)),
         alphabet ! unat (source ! 2 AND 63)]
      else [])"

fun bin_to_base64_loop :: "bytes \<Rightarrow> nat \<Rightarrow> bytes \<Rightarrow> nat \<Rightarrow> bytes \<times> nat" where
  "bin_to_base64_loop mem ptr source len =
     (if len > 0 then
        let mem1 = mem_write mem ptr (bin_to_base64_block source (if len > 3 then 3 else len)) in
        if len < 3 then (mem1, ptr + 4)
        else bin_to_base64_loop mem1 (ptr + 4) (drop 3 source) (len - 3)
      else (mem, ptr))"

declare bin_to_base64_loop.simps [simp del]

definition base64_size :: "nat \<Rightarrow> nat" where
  "base64_size len =
     (let flen = wrap64 (len + (3 - len mod 3)) in wrap64 (wrap64 (4 * flen) div 3 + 1))"

definition bin_to_base64 :: "heap \<Rightarrow> bytes \<Rightarrow> nat \<Rightarrow> bytes option" where
  "bin_to_base64 h source len =
     (case malloc h (base64_size len) of
        None \<Rightarrow> None
      | Some base64 \<Rightarrow>
          (case bin_to_base64_loop base64 0 source len of (mem, ptr) \<Rightarrow> Some (mem[ptr := 0])))"

subsection \<open>The alphabet\<close>

lemma alphabet_bytes [code]:
  "alphabet = [65, 66, 67, 68, 69, 70, 71, 72, 73, 74, 75, 76, 77, 78, 79, 80,
    81, 82, 83, 84, 85, 86, 87, 88, 89, 90, 97, 98, 99, 100, 101, 102,
    103, 104, 105, 106, 107, 108, 109, 110, 111, 112, 113, 114, 115, 116, 117, 118,
    119, 120, 121, 122, 48, 49, 50, 51, 52, 53, 54, 55, 56, 57, 43, 47,
    0]"
  by (simp add: alphabet_def lit_def of_char_def)

lemma strchr_nth:
  "distinct xs \<Longrightarrow> i < length xs \<Longrightarrow> 0 \<notin> set (take i xs) \<Longrightarrow> strchr xs (xs ! i) = Some i"
proof (induction xs arbitrary: i)
  case (Cons x xs)
  then show ?case
    by (cases i) auto
qed simp

lemma alphabet_facts:
  "distinct alphabet" "length alphabet = 65" "0 \<notin> set (take 64 alphabet)" "61 \<notin> set (take 64 alphabet)"
  by (simp_all add: alphabet_bytes)

text \<open>A value of six bits, and the character that stands for it.\<close>

lemma no_bit_8: "8 \<le> n \<Longrightarrow> \<not> bit (w::u8) n"
  using bit_imp_le_length [of w n] by auto

lemma sextetI: "\<not> bit w 6 \<Longrightarrow> \<not> bit w 7 \<Longrightarrow> unat (w::u8) < 64"
proof -
  assume "\<not> bit w 6" and "\<not> bit w 7"
  then have "\<not> bit w n" if "6 \<le> n" for n
    using that bit_imp_le_length [of w n] by (cases "n = 6"; cases "n = 7") auto
  then have "take_bit 6 w = w"
    by (intro bit_word_eqI) (auto simp: bit_take_bit_iff intro: leI)
  then have "unat w = take_bit 6 (unat w)"
    by (metis unsigned_take_bit_eq)
  also have "\<dots> < 64"
    by (simp add: take_bit_eq_mod)
  finally show ?thesis .
qed

lemma sextet_char:
  assumes "unat (w::u8) < 64"
  shows "strchr alphabet (alphabet ! unat w) = Some (unat w)"
    and "alphabet ! unat w \<noteq> 0" and "alphabet ! unat w \<noteq> equals_sign"
proof -
  have "0 \<notin> set (take (unat w) alphabet)"
    using alphabet_facts(3) assms set_take_subset_set_take [of "unat w" 64 alphabet] by auto
  with alphabet_facts assms show "strchr alphabet (alphabet ! unat w) = Some (unat w)"
    by (intro strchr_nth) auto
  have "alphabet ! unat w \<in> set (take 64 alphabet)"
    using assms alphabet_facts(2) by (auto simp: in_set_conv_nth intro!: exI [of _ "unat w"])
  then show "alphabet ! unat w \<noteq> 0" and "alphabet ! unat w \<noteq> equals_sign"
    using alphabet_facts(3,4) by metis+
qed

lemma block_step_char:
  "unat (w::u8) < 64 \<Longrightarrow>
    block_step shift (alphabet ! unat w) block = Some (block OR ucast (push_bit shift (ucast w AND 63 :: u32)))"
  by (simp add: block_step_def sextet_char(1))

text \<open>The four six-bit groups of three bytes.\<close>

definition sx0 :: "u8 \<Rightarrow> u8" where "sx0 a = drop_bit 2 a"
definition sx1 :: "u8 \<Rightarrow> u8 \<Rightarrow> u8" where "sx1 a b = drop_bit 4 b OR push_bit 4 (a AND 3)"
definition sx2 :: "u8 \<Rightarrow> u8 \<Rightarrow> u8" where "sx2 b c = drop_bit 6 c OR push_bit 2 (b AND 15)"
definition sx3 :: "u8 \<Rightarrow> u8" where "sx3 c = c AND 63"

lemmas sx_defs = sx0_def sx1_def sx2_def sx3_def

lemma sx_less [simp]: "unat (sx0 a) < 64" "unat (sx1 a b) < 64" "unat (sx2 b c) < 64" "unat (sx3 c) < 64"
  by (rule sextetI; simp add: sx_defs bit_simps no_bit_8)+

lemma less_8_cases: "(n::nat) < LENGTH(8) \<Longrightarrow> n = 0 \<or> n = 1 \<or> n = 2 \<or> n = 3 \<or> n = 4 \<or> n = 5 \<or> n = 6 \<or> n = 7"
  by auto

lemma regroup:
  fixes a b c :: u8
  defines "n \<equiv> (((0 OR ucast (push_bit 18 (ucast (sx0 a) AND 63 :: u32))) OR
      ucast (push_bit 12 (ucast (sx1 a b) AND 63 :: u32))) OR
      ucast (push_bit 6 (ucast (sx2 b c) AND 63 :: u32))) OR
      (ucast (push_bit 0 (ucast (sx3 c) AND 63 :: u32)) :: u64)"
  shows "ucast (drop_bit 16 (n AND 16711680)) = a" and "ucast (drop_bit 8 (n AND 65280)) = b"
    and "ucast (n AND 255) = c"
proof -
  show "ucast (drop_bit 16 (n AND 16711680)) = a"
    by (rule bit_word_eqI, drule less_8_cases, elim disjE; simp add: n_def sx_defs bit_simps no_bit_8)
  show "ucast (drop_bit 8 (n AND 65280)) = b"
    by (rule bit_word_eqI, drule less_8_cases, elim disjE; simp add: n_def sx_defs bit_simps no_bit_8)
  show "ucast (n AND 255) = c"
    by (rule bit_word_eqI, drule less_8_cases, elim disjE; simp add: n_def sx_defs bit_simps no_bit_8)
qed

subsection \<open>Blocks\<close>

text \<open>The characters of an encoding before the padding, and the padding.\<close>

fun sx_chars :: "bytes \<Rightarrow> bytes" where
  "sx_chars [] = []"
| "sx_chars [a] = [alphabet ! unat (sx0 a), alphabet ! unat (sx1 a 0)]"
| "sx_chars [a, b] = [alphabet ! unat (sx0 a), alphabet ! unat (sx1 a b), alphabet ! unat (sx2 b 0)]"
| "sx_chars (a # b # c # r) =
     [alphabet ! unat (sx0 a), alphabet ! unat (sx1 a b), alphabet ! unat (sx2 b c), alphabet ! unat (sx3 c)] @
     sx_chars r"

definition pads :: "nat \<Rightarrow> nat" where
  "pads n = (3 - n mod 3) mod 3"

definition b64 :: "bytes \<Rightarrow> bytes" where
  "b64 src = sx_chars src @ replicate (pads (length src)) equals_sign"

lemma pads_simps [simp]: "pads 0 = 0" "pads (Suc 0) = 2" "pads (Suc (Suc 0)) = 1" "pads (Suc (Suc (Suc n))) = pads n"
  by (simp_all add: pads_def mod_Suc)

lemma length_b64: "length (b64 src) = 4 * ((length src + 2) div 3)"
proof (induction src rule: sx_chars.induct)
  case (4 a b c r)
  have "(length (a # b # c # r) + 2) div 3 = Suc ((length r + 2) div 3)"
    using div_add_self2 [of 3 "length r + 2"] by simp
  with 4 show ?case
    by (simp add: b64_def)
qed (simp_all add: b64_def)

lemma sx_chars_plain: "0 \<notin> set (sx_chars src) \<and> equals_sign \<notin> set (sx_chars src)"
  by (induction src rule: sx_chars.induct) (auto simp: sextet_char eq_commute [of 0] eq_commute [of equals_sign])

lemma sx_zero [simp]: "sx2 0 0 = 0" "sx3 0 = 0"
  by (simp_all add: sx_defs)

lemma decode_block:
  "base64_to_bin_block (sx_chars [a] @ z) 1 = Some [a, 0, 0]"
  "base64_to_bin_block (sx_chars [a, b] @ z) 2 = Some [a, b, 0]"
  "base64_to_bin_block (sx_chars (a # b # c # r) @ z) 3 = Some [a, b, c]"
  using regroup [of a 0 0] regroup [of a b 0] regroup [of a b c]
  by (simp_all add: base64_to_bin_block_def to_block4_def block_step_char)

lemma encode_block:
  "bin_to_base64_block [a] 1 = b64 [a]"
  "bin_to_base64_block [a, b] 2 = b64 [a, b]"
  "bin_to_base64_block (a # b # c # r) 3 = b64 [a, b, c]"
  by (simp_all add: bin_to_base64_block_def b64_def sx_defs numeral_2_eq_2)

lemma b64_Cons3: "b64 (a # b # c # r) = b64 [a, b, c] @ b64 r"
  by (simp add: b64_def)

lemma mem_write_append:
  "off + length xs + length ys \<le> length mem \<Longrightarrow>
    mem_write (mem_write mem off xs) (off + length xs) ys = mem_write mem off (xs @ ys)"
  by (simp add: mem_write_def ac_simps)

lemma bin_to_base64_loop_block:
  "3 \<le> len \<Longrightarrow> bin_to_base64_loop mem ptr source len =
    bin_to_base64_loop (mem_write mem ptr (bin_to_base64_block source 3)) (ptr + 4) (drop 3 source) (len - 3)"
proof -
  assume "3 \<le> len"
  then have "(if len > 3 then 3 else len) = 3" and "\<not> len < 3" and "len > 0"
    by auto
  then show ?thesis
    by (subst bin_to_base64_loop.simps) (simp only: Let_def if_True if_False simp_thms)
qed

lemma bin_to_base64_loop_b64:
  "ptr + length (b64 src) \<le> length mem \<Longrightarrow>
    bin_to_base64_loop mem ptr src (length src) = (mem_write mem ptr (b64 src), ptr + length (b64 src))"
proof (induction src arbitrary: mem ptr rule: sx_chars.induct)
  case 1
  then show ?case
    by (simp add: bin_to_base64_loop.simps b64_def mem_write_def)
next
  case (2 a)
  then show ?case
    using encode_block(1) [of a] by (simp add: bin_to_base64_loop.simps length_b64)
next
  case (3 a b)
  then show ?case
    using encode_block(2) [of a b] by (simp add: bin_to_base64_loop.simps length_b64 numeral_2_eq_2)
next
  case (4 a b c r)
  let ?m = "mem_write mem ptr (b64 [a, b, c])"
  have len: "length (b64 [a, b, c]) = 4"
    by (simp add: length_b64)
  have fits: "ptr + 4 + length (b64 r) \<le> length mem"
    using "4.prems" len by (simp only: b64_Cons3 [of a b c r]) simp
  then have "length ?m = length mem"
    using len by (simp add: mem_simps)
  with fits "4.IH" [of "ptr + 4" ?m] have
    "bin_to_base64_loop ?m (ptr + 4) r (length r) = (mem_write ?m (ptr + 4) (b64 r), ptr + 4 + length (b64 r))"
    by simp
  moreover have "mem_write ?m (ptr + 4) (b64 r) = mem_write mem ptr (b64 (a # b # c # r))"
    using mem_write_append [of ptr "b64 [a, b, c]" "b64 r" mem] fits len by (simp only: b64_Cons3 [of a b c r])
  moreover have "bin_to_base64_loop mem ptr (a # b # c # r) (length (a # b # c # r)) =
      bin_to_base64_loop ?m (ptr + 4) r (length r)"
    using bin_to_base64_loop_block [of "length (a # b # c # r)" mem ptr "a # b # c # r"]
    by (simp only: encode_block(3)) simp
  ultimately show ?case
    using len by (simp only: b64_Cons3 [of a b c r]) simp
qed

lemma base64_size_fits:
  assumes "length src < 2 ^ 60"
  shows "length (b64 src) < base64_size (length src)"
proof -
  define len where "len = length src"
  obtain q r where qr: "len = 3 * q + r" "r < 3"
    by (metis mod_less_divisor mult_div_mod_eq zero_less_numeral)
  then have size: "len + (3 - len mod 3) = 3 * (q + 1)"
    by (simp add: mod_simps)
  have small: "12 * (q + 1) < 18446744073709551616"
    using assms qr(1) len_def by simp
  then have "base64_size len = 4 * (q + 1) + 1"
    by (simp add: base64_size_def size Let_def)
  moreover have "length (b64 src) = 4 * ((3 * q + r + 2) div 3)"
    using qr len_def by (simp add: length_b64)
  moreover have "(3 * q + r + 2) div 3 \<le> q + 1"
    using qr(2) by simp
  ultimately show ?thesis
    by (simp add: len_def)
qed

lemma bin_to_base64_Some:
  assumes "bin_to_base64 h src (length src) = Some out" and "length src < 2 ^ 60"
  shows "length out = base64_size (length src)" and "cstr out = b64 src"
    and "length (b64 src) < length out"
proof -
  let ?n = "length (b64 src)"
  obtain mem where mem: "malloc h (base64_size (length src)) = Some mem"
    using assms(1) by (auto simp: bin_to_base64_def split: option.splits)
  have len: "length mem = base64_size (length src)"
    using mem by (rule malloc_length)
  have fits: "?n < length mem"
    using base64_size_fits [OF assms(2)] len by simp
  then have out: "out = (mem_write mem 0 (b64 src))[?n := 0]"
    using assms(1) mem bin_to_base64_loop_b64 [of 0 src mem] by (simp add: bin_to_base64_def)
  then show "length out = base64_size (length src)"
    using len fits by (simp add: mem_simps)
  then show "?n < length out"
    using fits len by simp
  have "out = b64 src @ 0 # drop (Suc ?n) mem"
    using fits out by (simp add: mem_write_def list_update_append Cons_nth_drop_Suc [symmetric])
  moreover have "0 \<notin> set (b64 src)"
    using sx_chars_plain [of src] by (auto simp: b64_def)
  ultimately show "cstr out = b64 src"
    by simp
qed

subsection \<open>Decoding an encoding\<close>

lemma get_equals_padded:
  "0 \<notin> set xs \<Longrightarrow> equals_sign \<notin> set xs \<Longrightarrow>
    get_equals (xs @ replicate k equals_sign @ [0]) = (k, xs @ replicate k 0 @ [0])"
proof (induction xs)
  case Nil
  show ?case
    by (induction k) auto
qed auto

lemma decode_into_block:
  assumes "buffer_inv b" and "\<forall>n. heap_grants h n" and "base64_to_bin_block ptr n = Some block"
    and "n \<le> length block" and "length (buf_content b) + n < BUFFER_SIZE_MAX"
  obtains b' where "decode_into h b ptr n = Some b'" and "buffer_inv b'"
    and "buf_content b' = buf_content b @ take n block" and "b_secure b' = b_secure b"
proof -
  have "n < 4294967296"
    using assms(5) by (simp add: BUFFER_SIZE_MAX_def)
  from assms(1) this assms(4) show thesis
  proof (cases rule: add_data_cases [where h = h])
    case (added b')
    with assms(3) show thesis
      by (intro that [of b']) (simp_all add: decode_into_def)
  next
    case (failed b')
    with add_data_succeeds [OF assms(1,2,4,5)] show thesis
      by simp
  qed
qed

text \<open>
  The loop consumes whole blocks and stops before the last one, which has one, two or three
  bytes of the source.
\<close>

lemma base64_to_bin_loop_chars:
  assumes "buffer_inv b" and "\<forall>n. heap_grants h n" and "src \<noteq> []"
    and "length (buf_content b) + length src < BUFFER_SIZE_MAX"
  shows "\<exists>b' tl. base64_to_bin_loop h b (sx_chars src @ z) (length (sx_chars src)) =
      Some (b', sx_chars tl @ z, length (sx_chars tl)) \<and>
    buffer_inv b' \<and> b_secure b' = b_secure b \<and> buf_content b' @ tl = buf_content b @ src \<and>
    0 < length tl \<and> length tl \<le> 3 \<and> pads (length tl) = pads (length src)"
  using assms
proof (induction src arbitrary: b rule: sx_chars.induct)
  case (4 a b1 c r)
  show ?case
  proof (cases "r = []")
    case True
    with "4.prems" show ?thesis
      by (intro exI [of _ b] exI [of _ "[a, b1, c]"]) (simp add: base64_to_bin_loop.simps)
  next
    case False
    let ?ptr = "sx_chars (a # b1 # c # r) @ z"
    obtain b' where b': "decode_into h b ?ptr 3 = Some b'" "buffer_inv b'"
      "buf_content b' = buf_content b @ [a, b1, c]" "b_secure b' = b_secure b"
      by (rule decode_into_block [OF "4.prems"(1,2) decode_block(3)]) (use "4.prems"(4) in auto)
    have "0 < length (sx_chars r)"
      using False by (cases r rule: sx_chars.cases) auto
    then have "base64_to_bin_loop h b ?ptr (length (sx_chars (a # b1 # c # r))) =
        base64_to_bin_loop h b' (sx_chars r @ z) (length (sx_chars r))"
      using b'(1) by (subst base64_to_bin_loop.simps) simp
    with "4.IH" [OF b'(2) "4.prems"(2) False] b' "4.prems"(4) show ?thesis
      by auto
  qed
next
  case (2 a)
  then show ?case
    by (intro exI [of _ b] exI [of _ "[a]"]) (simp add: base64_to_bin_loop.simps)
next
  case (3 a b1)
  then show ?case
    by (intro exI [of _ b] exI [of _ "[a, b1]"]) (simp add: base64_to_bin_loop.simps)
qed simp

lemma base64_to_bin_b64:
  assumes grants: "\<forall>n. heap_grants h n" and "src \<noteq> []" and "length src < BUFFER_SIZE_MAX"
    and c: "cstr text = b64 src"
  obtains b where "base64_to_bin h text = Some b" and "buffer_inv b" and "b_secure b"
    and "buf_content b = src"
proof -
  let ?k = "pads (length src)"
  obtain b0 where b0: "ssh_buffer_new h = Some b0"
    using buffer_new_granted [OF grants] by blast
  let ?b0 = "ssh_buffer_set_secure b0"
  have new: "buffer_inv ?b0" "buf_content ?b0 = []" "b_secure ?b0"
    using buffer_new_Some [OF b0]
    by (simp_all add: ssh_buffer_set_secure_def buffer_inv_def buf_content_def)
  have eq: "get_equals (cstr text @ [0]) = (?k, sx_chars src @ replicate ?k 0 @ [0])"
    using get_equals_padded [of "sx_chars src" ?k] sx_chars_plain [of src] by (simp add: c b64_def)
  have len: "strlen (sx_chars src @ replicate ?k 0 @ [0]) = length (sx_chars src)"
    using cstr_terminated [of "sx_chars src"] sx_chars_plain [of src]
    by (cases ?k) (simp_all flip: length_cstr)
  obtain b1 tl where b1: "base64_to_bin_loop h ?b0 (sx_chars src @ replicate ?k 0 @ [0]) (length (sx_chars src)) =
      Some (b1, sx_chars tl @ replicate ?k 0 @ [0], length (sx_chars tl))"
    "buffer_inv b1" "b_secure b1" "buf_content b1 @ tl = src" "0 < length tl" "length tl \<le> 3"
    "pads (length tl) = ?k"
    using base64_to_bin_loop_chars [OF new(1) grants assms(2), of "replicate ?k 0 @ [0]"] new assms(3)
    by auto
  have k: "\<not> ?k > 2"
    by (simp add: pads_def)
  have room: "length (buf_content b1) + length tl < BUFFER_SIZE_MAX"
    using b1(4) assms(3) by (metis length_append)
  have block: "\<exists>d. base64_to_bin_block (sx_chars tl @ replicate ?k 0 @ [0]) (length tl) = Some d \<and>
      take (length tl) d = tl \<and> length tl \<le> length d"
    using b1(5,6) decode_block decode_block(3) [where r = "[]"]
    by (cases tl rule: sx_chars.cases) (simp_all add: numeral_2_eq_2 numeral_3_eq_3)
  then obtain d where d: "base64_to_bin_block (sx_chars tl @ replicate ?k 0 @ [0]) (length tl) = Some d"
    "take (length tl) d = tl" "length tl \<le> length d"
    by blast
  obtain b2 where b2: "decode_into h b1 (sx_chars tl @ replicate ?k 0 @ [0]) (length tl) = Some b2"
    "buffer_inv b2" "buf_content b2 = src" "b_secure b2"
    by (rule decode_into_block [OF b1(2) grants d(1,3) room]) (use b1(3,4) d(2) in auto)
  have "base64_to_bin h text = decode_into h b1 (sx_chars tl @ replicate ?k 0 @ [0]) (length tl)"
    using b1(5,6) b1(7) [symmetric] eq len b0 b1(1) k grants
    by (cases tl rule: sx_chars.cases) (simp_all add: base64_to_bin_def numeral_2_eq_2 numeral_3_eq_3)
  with b2 show thesis
    by (intro that) simp_all
qed

subsection \<open>Properties\<close>

text \<open>
  C39. Round trip and bounds: for every non-empty input the encoder writes within the block
  it allocated, its output has four characters per started group of three bytes, and the
  decoder reads the very bytes back into a buffer that is marked secure.
\<close>

theorem base64_roundtrip:
  assumes "bin_to_base64 h src (length src) = Some out" and "src \<noteq> []"
    and "length src < BUFFER_SIZE_MAX" and "\<forall>n. heap_grants h' n"
  shows "length out = base64_size (length src) \<and> strlen out < length out \<and>
    strlen out = 4 * ((length src + 2) div 3) \<and>
    (\<exists>b. base64_to_bin h' out = Some b \<and> b_secure b \<and> buf_content b = src)"
proof -
  have "length src < 2 ^ 60"
    using assms(3) by (simp add: BUFFER_SIZE_MAX_def)
  note enc = bin_to_base64_Some [OF assms(1) this]
  have "strlen out = length (b64 src)"
    by (simp flip: length_cstr add: enc(2))
  moreover have "\<exists>b. base64_to_bin h' out = Some b \<and> b_secure b \<and> buf_content b = src"
    by (rule base64_to_bin_b64 [OF assms(4,2,3) enc(2)]) blast
  ultimately show ?thesis
    using enc by (simp add: length_b64)
qed

theorem base64_roundtrip_witness:
  "bin_to_base64 roomy_heap [77, 97, 110, 33] 4 = Some [84, 87, 70, 117, 73, 81, 61, 61, 0] \<and>
   (\<exists>b. base64_to_bin roomy_heap [84, 87, 70, 117, 73, 81, 61, 61, 0] = Some b \<and>
     buf_content b = [77, 97, 110, 33])"
proof -
  have run: "bin_to_base64 roomy_heap [77, 97, 110, 33] 4 = Some [84, 87, 70, 117, 73, 81, 61, 61, 0]"
    by code_simp
  have "length [77, 97, 110, 33 :: u8] = 4"
    by simp
  with run have "bin_to_base64 roomy_heap [77, 97, 110, 33] (length [77, 97, 110, 33 :: u8]) =
      Some [84, 87, 70, 117, 73, 81, 61, 61, 0]"
    by (simp only:)
  from base64_roundtrip [OF this, of roomy_heap] obtain b where
    "base64_to_bin roomy_heap [84, 87, 70, 117, 73, 81, 61, 61, 0] = Some b" "buf_content b = [77, 97, 110, 33]"
    by (auto simp: BUFFER_SIZE_MAX_def)
  with run show ?thesis
    by blast
qed

text \<open>
  The decoder counts every \<^verbatim>\<open>=\<close> of the input but stops at the first, so characters after the
  padding are ignored; and it has no decoding for the empty string, which is what the encoder
  makes of no bytes.
\<close>

lemma base64_ignores_text_after_padding:
  "map_option buf_content (base64_to_bin roomy_heap (lit ''QQ==XYZ'')) = Some [65]"
  "base64_to_bin roomy_heap (lit []) = None"
  by code_simp+

end
