(* ===== verification/Tokens.thy ===== *)
theory Tokens
  imports Prelude
begin

text \<open>
  Comma-separated lists (\<^verbatim>\<open>src/libssh/src/token.c\<close>), which the key exchange and the options use
  for algorithm names. A tokens structure is the copied chain and an array of pointers into
  it, as offsets; \<^verbatim>\<open>NULL\<close> is \<^const>\<open>None\<close>. Writes into the result blocks are checked against
  the size of the block: leaving it is the outcome \<open>Overflow\<close>.
\<close>

abbreviation comma :: u8 where "comma \<equiv> 44"

record ssh_tokens_st =
  tok_buffer :: bytes
  tok_tokens :: "nat option list"

text \<open>\<^verbatim>\<open>strchr\<close> of a separator, which is not the terminator.\<close>

fun find_sep :: "bytes \<Rightarrow> u8 \<Rightarrow> nat option" where
  "find_sep [] sep = None"
| "find_sep (x # xs) sep =
     (if x = sep then Some 0 else if x = 0 then None else map_option Suc (find_sep xs sep))"

fun count_tokens :: "nat \<Rightarrow> bytes \<Rightarrow> u8 \<Rightarrow> nat" where
  "count_tokens 0 c sep = 1"
| "count_tokens (Suc n) c sep =
     (case find_sep c sep of None \<Rightarrow> 1 | Some k \<Rightarrow> Suc (count_tokens n (drop (Suc k) c) sep))"

text \<open>The loop that cuts the chain; \<open>todo\<close> is the number of tokens still expected.\<close>

fun tokenize_loop :: "nat \<Rightarrow> u8 \<Rightarrow> bytes \<Rightarrow> nat \<Rightarrow> nat \<Rightarrow> nat option list \<Rightarrow> bytes \<times> nat option list" where
  "tokenize_loop 0 sep buf c i toks = (buf, toks)"
| "tokenize_loop (Suc todo) sep buf c i toks =
     (case find_sep (drop c buf) sep of
        None \<Rightarrow> (buf, toks)
      | Some k \<Rightarrow>
          let buf1 = buf[c + k := 0]; c1 = c + k + 1 in
          if buf1 ! c1 \<noteq> 0 then tokenize_loop todo sep buf1 c1 (Suc i) (toks[i := Some c1])
          else (buf1, toks))"

definition ssh_tokenize :: "heap \<Rightarrow> bytes option \<Rightarrow> u8 \<Rightarrow> ssh_tokens_st option" where
  "ssh_tokenize h chain sep =
     (case chain of None \<Rightarrow> None
      | Some m \<Rightarrow>
          if \<not> heap_grants h 16 \<or> \<not> heap_grants h (strlen m + 1) then None
          else
            let buffer = cstr m @ [0]; num_tokens = count_tokens (length buffer) buffer sep in
            if \<not> heap_grants h (8 * (num_tokens + 1)) then None
            else
              let (buf, toks) = tokenize_loop (num_tokens - 1) sep buffer 0 1
                    ((replicate (num_tokens + 1) None)[0 := Some 0])
              in Some \<lparr>tok_buffer = buf, tok_tokens = toks\<rparr>)"

text \<open>The tokens a loop over \<^verbatim>\<open>tokens[i]\<close> up to \<^verbatim>\<open>NULL\<close> sees, as strings.\<close>

fun pointers :: "nat option list \<Rightarrow> nat list" where
  "pointers (Some p # ps) = p # pointers ps"
| "pointers _ = []"

definition token_strings :: "ssh_tokens_st \<Rightarrow> bytes list" where
  "token_strings t = map (\<lambda>p. cstr (drop p (tok_buffer t))) (pointers (tok_tokens t))"

text \<open>\<^verbatim>\<open>ssh_tokens_free\<close>: the buffer as it is handed back to the allocator.\<close>

definition ssh_tokens_free :: "ssh_tokens_st \<Rightarrow> bytes" where
  "ssh_tokens_free t =
     fold (\<lambda>p buf. mem_zero buf p (strlen (drop p buf))) (pointers (tok_tokens t)) (tok_buffer t)"

text \<open>The nested loops: the inner one over the available tokens, for each preferred token.\<close>

fun match_in :: "bytes \<Rightarrow> bytes list \<Rightarrow> bytes option" where
  "match_in p [] = None"
| "match_in p (a # as) = (if a = p then Some a else match_in p as)"

fun first_match :: "bytes list \<Rightarrow> bytes list \<Rightarrow> bytes option" where
  "first_match as [] = None"
| "first_match as (p # ps) = (case match_in p as of Some a \<Rightarrow> Some a | None \<Rightarrow> first_match as ps)"

definition strdup :: "heap \<Rightarrow> bytes \<Rightarrow> bytes option" where
  "strdup h s = (if heap_grants h (length s + 1) then Some (s @ [0]) else None)"

definition ssh_find_matching :: "heap \<Rightarrow> bytes option \<Rightarrow> bytes option \<Rightarrow> bytes option" where
  "ssh_find_matching h available preferred =
     (if available = None \<or> preferred = None then None
      else case ssh_tokenize h available comma of
          None \<Rightarrow> None
        | Some a_tok \<Rightarrow>
            (case ssh_tokenize h preferred comma of
               None \<Rightarrow> None
             | Some p_tok \<Rightarrow>
                 (case first_match (token_strings a_tok) (token_strings p_tok) of
                    None \<Rightarrow> None
                  | Some s \<Rightarrow> strdup h s)))"

datatype 'a run = Ret 'a | Overflow

text \<open>A write of \<open>bs\<close> at \<open>pos\<close>, checked against the block.\<close>

definition put_at :: "bytes \<Rightarrow> nat \<Rightarrow> bytes \<Rightarrow> bytes run" where
  "put_at m pos bs = (if pos + length bs \<le> length m then Ret (mem_write m pos bs) else Overflow)"

definition append_match :: "bytes \<Rightarrow> nat \<Rightarrow> bytes \<Rightarrow> (bytes \<times> nat) run" where
  "append_match ret pos a =
     (case (if pos \<noteq> 0 then put_at ret pos [comma] else Ret ret) of
        Overflow \<Rightarrow> Overflow
      | Ret ret1 \<Rightarrow>
          let pos1 = (if pos \<noteq> 0 then pos + 1 else pos) in
          (case put_at ret1 pos1 a of
             Overflow \<Rightarrow> Overflow
           | Ret ret2 \<Rightarrow>
               (case put_at ret2 (pos1 + length a) [0] of
                  Overflow \<Rightarrow> Overflow
                | Ret ret3 \<Rightarrow> Ret (ret3, pos1 + length a))))"

fun all_match_inner :: "bytes \<Rightarrow> bytes list \<Rightarrow> bytes \<Rightarrow> nat \<Rightarrow> (bytes \<times> nat) run" where
  "all_match_inner p [] ret pos = Ret (ret, pos)"
| "all_match_inner p (a # as) ret pos =
     (if a = p then
        (case append_match ret pos a of
           Overflow \<Rightarrow> Overflow
         | Ret (ret1, pos1) \<Rightarrow> all_match_inner p as ret1 pos1)
      else all_match_inner p as ret pos)"

fun all_match_outer :: "bytes list \<Rightarrow> bytes list \<Rightarrow> bytes \<Rightarrow> nat \<Rightarrow> (bytes \<times> nat) run" where
  "all_match_outer [] as ret pos = Ret (ret, pos)"
| "all_match_outer (p # ps) as ret pos =
     (case all_match_inner p as ret pos of
        Overflow \<Rightarrow> Overflow
      | Ret (ret1, pos1) \<Rightarrow> all_match_outer ps as ret1 pos1)"

definition ssh_find_all_matching :: "heap \<Rightarrow> bytes option \<Rightarrow> bytes option \<Rightarrow> bytes option run" where
  "ssh_find_all_matching h available preferred =
     (case (available, preferred) of
        (Some am, Some pm) \<Rightarrow>
          (case calloc h (max (strlen am) (strlen pm) + 1) of
             None \<Rightarrow> Ret None
           | Some ret \<Rightarrow>
               (case ssh_tokenize h available comma of
                  None \<Rightarrow> Ret None
                | Some a_tok \<Rightarrow>
                    (case ssh_tokenize h preferred comma of
                       None \<Rightarrow> Ret None
                     | Some p_tok \<Rightarrow>
                         (case all_match_outer (token_strings p_tok) (token_strings a_tok) ret 0 of
                            Overflow \<Rightarrow> Overflow
                          | Ret (ret1, _) \<Rightarrow> Ret (if ret1 ! 0 = 0 then None else Some ret1)))))
      | _ \<Rightarrow> Ret None)"

text \<open>\<^verbatim>\<open>strncat\<close>: at most \<open>n\<close> characters of the source and a terminator behind the string.\<close>

definition strncat :: "bytes \<Rightarrow> bytes \<Rightarrow> nat \<Rightarrow> bytes run" where
  "strncat m s n = put_at m (strlen m) (take n (cstr s) @ [0])"

text \<open>
  The array \<^verbatim>\<open>should_copy\<close>: token \<open>i\<close> is copied when no earlier token equals it and it is not
  empty.
\<close>

definition dup_before :: "bytes list \<Rightarrow> nat \<Rightarrow> bool" where
  "dup_before ts i = list_ex (\<lambda>j. ts ! i = ts ! j) [0..<i]"

definition should_copy :: "bytes list \<Rightarrow> nat \<Rightarrow> bool" where
  "should_copy ts i =
     (if i = 0 then length (ts ! 0) > 0
      else if dup_before ts i then False
      else length (ts ! i) > 0)"

fun copy_tokens :: "nat \<Rightarrow> (bytes \<times> bool) list \<Rightarrow> bytes \<Rightarrow> bool \<Rightarrow> (bytes \<times> bool) run" where
  "copy_tokens max_len [] ret need_comma = Ret (ret, need_comma)"
| "copy_tokens max_len ((t, cp) # ts) ret need_comma =
     (if cp then
        (case (if need_comma then strncat ret (lit '','') (sub64 (sub64 max_len (strlen ret)) 1) else Ret ret) of
           Overflow \<Rightarrow> Overflow
         | Ret ret1 \<Rightarrow>
             (case strncat ret1 t (sub64 (sub64 max_len (strlen ret1)) 1) of
                Overflow \<Rightarrow> Overflow
              | Ret ret2 \<Rightarrow> copy_tokens max_len ts ret2 True))
      else copy_tokens max_len ts ret need_comma)"

definition ssh_remove_duplicates :: "heap \<Rightarrow> bytes option \<Rightarrow> bytes option run" where
  "ssh_remove_duplicates h lst =
     (case lst of None \<Rightarrow> Ret None
      | Some m \<Rightarrow>
          if strlen m = 0 then Ret None
          else
            let max_len = strlen m + 1 in
            case ssh_tokenize h lst comma of
              None \<Rightarrow> Ret None
            | Some tok \<Rightarrow>
                let ts = token_strings tok in
                if ts = [] then Ret None
                else
                  (case calloc h max_len of
                     None \<Rightarrow> Ret None
                   | Some _ \<Rightarrow>
                       if length ts > max_len then Overflow
                       else
                         (case calloc h max_len of
                            None \<Rightarrow> Ret None
                          | Some ret \<Rightarrow>
                              (case copy_tokens max_len
                                  (map (\<lambda>i. (ts ! i @ [0], should_copy ts i)) [0..<length ts]) ret False of
                                 Overflow \<Rightarrow> Overflow
                               | Ret (ret1, need_comma) \<Rightarrow> Ret (if need_comma then Some ret1 else None)))))"

definition ssh_append_without_duplicates :: "heap \<Rightarrow> bytes option \<Rightarrow> bytes option \<Rightarrow> bytes option run" where
  "ssh_append_without_duplicates h lst appended =
     (let n = (case lst of None \<Rightarrow> 0 | Some m \<Rightarrow> strlen m) +
              (case appended of None \<Rightarrow> 0 | Some m \<Rightarrow> strlen m) in
      if n = 0 then Ret None
      else
        let concat_len = n + 2 in
        case calloc h concat_len of
          None \<Rightarrow> Ret None
        | Some buf0 \<Rightarrow>
            (case (case lst of
                     None \<Rightarrow> Ret buf0
                   | Some m \<Rightarrow>
                       (case put_at buf0 0 (cstr m @ [0]) of
                          Overflow \<Rightarrow> Overflow
                        | Ret c1 \<Rightarrow> strncat c1 (lit '','') (sub64 (sub64 concat_len (strlen c1)) 1))) of
               Overflow \<Rightarrow> Overflow
             | Ret c2 \<Rightarrow>
                 (case (case appended of
                          None \<Rightarrow> Ret c2
                        | Some m \<Rightarrow> strncat c2 m (sub64 (sub64 concat_len (strlen c2)) 1)) of
                    Overflow \<Rightarrow> Overflow
                  | Ret c3 \<Rightarrow> ssh_remove_duplicates h (Some c3))))"

subsection \<open>Cutting a list\<close>

text \<open>
  The reference: the pieces between separators, where nothing after a final separator counts
  as a piece.
\<close>

function tokens_of :: "u8 \<Rightarrow> bytes \<Rightarrow> bytes list" where
  "tokens_of sep s =
     takeWhile (\<lambda>x. x \<noteq> sep) s #
     (case dropWhile (\<lambda>x. x \<noteq> sep) s of
        [] \<Rightarrow> []
      | _ # rest \<Rightarrow> if rest = [] then [] else tokens_of sep rest)"
  by pat_completeness auto
termination
proof (relation "measure (\<lambda>(sep, s). length s)", goal_cases)
  case (2 sep s x rest)
  then show ?case
    using length_dropWhile_le [of "\<lambda>x. x \<noteq> sep" s] by simp
qed simp

declare tokens_of.simps [simp del]

lemma tokens_of_plain: "sep \<notin> set s \<Longrightarrow> tokens_of sep s = [s]"
proof -
  assume "sep \<notin> set s"
  then have "takeWhile (\<lambda>x. x \<noteq> sep) s = s" and "dropWhile (\<lambda>x. x \<noteq> sep) s = []"
    by (auto simp: takeWhile_eq_all_conv dropWhile_eq_Nil_conv)
  then show ?thesis
    by (simp only: tokens_of.simps [of sep s] list.case)
qed

lemma tokens_of_cut:
  "sep \<notin> set t \<Longrightarrow>
    tokens_of sep (t @ sep # rest) = t # (if rest = [] then [] else tokens_of sep rest)"
proof -
  assume "sep \<notin> set t"
  then have "takeWhile (\<lambda>x. x \<noteq> sep) (t @ sep # rest) = t"
    and "dropWhile (\<lambda>x. x \<noteq> sep) (t @ sep # rest) = sep # rest"
    by (auto simp: takeWhile_tail dropWhile_append takeWhile_append)
  then show ?thesis
    by (simp add: tokens_of.simps [of sep "t @ sep # rest"])
qed

lemma tokens_induct [case_names plain last cut]:
  assumes "\<And>s. sep \<notin> set s \<Longrightarrow> P s" and "\<And>t. sep \<notin> set t \<Longrightarrow> P (t @ [sep])"
    and "\<And>t rest. sep \<notin> set t \<Longrightarrow> rest \<noteq> [] \<Longrightarrow> P rest \<Longrightarrow> P (t @ sep # rest)"
  shows "P s"
proof (induction "length s" arbitrary: s rule: less_induct)
  case less
  show ?case
  proof (cases "sep \<in> set s")
    case True
    then obtain t rest where "s = t @ sep # rest" and "sep \<notin> set t"
      by (meson split_list_first)
    with less assms(2,3) show ?thesis
      by (cases "rest = []") auto
  qed (use assms(1) in simp)
qed

lemma find_sep_plain: "sep \<notin> set s \<Longrightarrow> 0 \<notin> set s \<Longrightarrow> sep \<noteq> 0 \<Longrightarrow> find_sep (s @ 0 # z) sep = None"
  by (induction s) auto

lemma find_sep_cut: "sep \<notin> set t \<Longrightarrow> 0 \<notin> set t \<Longrightarrow> find_sep (t @ sep # z) sep = Some (length t)"
  by (induction t) auto

lemma count_tokens_seps:
  "0 \<notin> set s \<Longrightarrow> sep \<noteq> 0 \<Longrightarrow> length s < n \<Longrightarrow> count_tokens n (s @ [0]) sep = Suc (count_list s sep)"
proof (induction s arbitrary: n rule: tokens_induct [where sep = sep])
  case (plain s)
  then show ?case
    by (cases n) (simp_all add: find_sep_plain)
next
  case (last t)
  then show ?case
    by (cases n) (simp_all add: find_sep_cut, cases "n - 1", auto)
next
  case (cut t rest)
  then show ?case
    by (cases n) (simp_all add: find_sep_cut)
qed

definition cut_marks :: "u8 \<Rightarrow> bytes \<Rightarrow> bytes" where
  "cut_marks sep s = map (\<lambda>x. if x = sep then 0 else x) s"

lemma cut_marks_simps [simp]:
  "sep \<notin> set s \<Longrightarrow> cut_marks sep s = s"
  "cut_marks sep (t @ r) = cut_marks sep t @ cut_marks sep r"
  "cut_marks sep (sep # r) = 0 # cut_marks sep r"
  "length (cut_marks sep s) = length s"
  by (auto simp: cut_marks_def intro: map_idI)

lemma mem_zero_token:
  "0 \<notin> set t \<Longrightarrow> n = length pre \<Longrightarrow>
    mem_zero (pre @ t @ 0 # z) n (strlen (t @ 0 # z)) = pre @ replicate (length t) 0 @ 0 # z"
  by (simp add: mem_zero_def mem_write_def flip: length_cstr)

text \<open>
  One induction gives what the cutting loop leaves: the buffer with every separator replaced,
  pointers to the pieces, and that zeroing the pieces zeroes the whole chain.
\<close>

lemma tokenize_loop_cuts:
  assumes "0 \<notin> set s" and "sep \<noteq> 0" and "count_list s sep < m"
  shows "\<exists>ps. tokenize_loop (count_list s sep) sep (pre @ s @ [0]) (length pre) (length tk)
        (tk @ replicate m None) =
      (pre @ cut_marks sep s @ [0], tk @ map Some ps @ replicate (m - length ps) None) \<and>
    length ps < m \<and>
    (\<forall>pre'. length pre' = length pre \<longrightarrow>
      map (\<lambda>p. cstr (drop p (pre' @ cut_marks sep s @ [0]))) (length pre # ps) = tokens_of sep s \<and>
      fold (\<lambda>p buf. mem_zero buf p (strlen (drop p buf))) (length pre # ps) (pre' @ cut_marks sep s @ [0]) =
        pre' @ replicate (length s) 0 @ [0])"
  using assms
proof (induction s arbitrary: pre tk m rule: tokens_induct [where sep = sep])
  case (plain s)
  then have "count_list s sep = 0" and "0 < m"
    by (simp_all add: count_list_0_iff)
  with plain show ?case
    by (intro exI [of _ "[]"]) (auto simp: tokens_of_plain mem_zero_token)
next
  case (last t)
  then have "count_list t sep = 0"
    by (simp add: count_list_0_iff)
  with last show ?case
    by (intro exI [of _ "[]"])
      (auto simp: tokens_of_cut find_sep_cut list_update_append nth_append mem_zero_token replicate_app_Cons_same)
next
  case (cut t rest)
  have "count_list t sep = 0"
    using cut by (simp add: count_list_0_iff)
  then have cnt: "count_list (t @ sep # rest) sep = Suc (count_list rest sep)"
    by simp
  let ?pre = "pre @ t @ [0]" and ?c = "length pre + length t + 1"
  obtain m' where m: "m = Suc m'"
    using cut.prems(3) by (cases m) auto
  have "0 \<notin> set rest" and "count_list rest sep < m'"
    using cut.prems cnt m by simp_all
  with cut.IH [OF _ cut.prems(2), of m' ?pre "tk @ [Some ?c]"] obtain ps where
    ps: "tokenize_loop (count_list rest sep) sep (?pre @ rest @ [0]) (length ?pre) (length (tk @ [Some ?c]))
          ((tk @ [Some ?c]) @ replicate m' None) =
        (?pre @ cut_marks sep rest @ [0], (tk @ [Some ?c]) @ map Some ps @ replicate (m' - length ps) None)"
      "length ps < m'"
    and all: "\<And>pre'. length pre' = length ?pre \<Longrightarrow>
      map (\<lambda>p. cstr (drop p (pre' @ cut_marks sep rest @ [0]))) (length ?pre # ps) = tokens_of sep rest \<and>
      fold (\<lambda>p buf. mem_zero buf p (strlen (drop p buf))) (length ?pre # ps) (pre' @ cut_marks sep rest @ [0]) =
        pre' @ replicate (length rest) 0 @ [0]"
    by blast
  have "rest ! 0 \<noteq> 0"
    using \<open>0 \<notin> set rest\<close> cut.hyps(2) by (cases rest) auto
  then have step: "tokenize_loop (count_list (t @ sep # rest) sep) sep (pre @ (t @ sep # rest) @ [0]) (length pre)
      (length tk) (tk @ replicate m None) =
    tokenize_loop (count_list rest sep) sep (?pre @ rest @ [0]) (length ?pre) (length (tk @ [Some ?c]))
      ((tk @ [Some ?c]) @ replicate m' None)"
    using cut.hyps cut.prems
    by (simp add: cnt m find_sep_cut list_update_append nth_append)
  show ?case
  proof (intro exI [of _ "?c # ps"] conjI allI impI)
    fix pre' :: bytes
    assume len: "length pre' = length pre"
    have zeros: "replicate (length (t @ sep # rest)) (0::u8) @ [0] =
        replicate (length t) 0 @ 0 # replicate (length rest) 0 @ [0]"
      by (simp add: replicate_app_Cons_same replicate_add)
    have m1: "map (\<lambda>p. cstr (drop p (pre' @ t @ 0 # cut_marks sep rest @ [0]))) (?c # ps) = tokens_of sep rest"
      using all [of "pre' @ t @ [0]"] len by simp
    show "map (\<lambda>p. cstr (drop p (pre' @ cut_marks sep (t @ sep # rest) @ [0]))) (length pre # ?c # ps) =
        tokens_of sep (t @ sep # rest)"
      using m1 cut.hyps cut.prems len by (simp add: tokens_of_cut)
    show "fold (\<lambda>p buf. mem_zero buf p (strlen (drop p buf))) (length pre # ?c # ps)
          (pre' @ cut_marks sep (t @ sep # rest) @ [0]) =
        pre' @ replicate (length (t @ sep # rest)) 0 @ [0]"
      unfolding zeros
      using all [of "pre' @ replicate (length t) 0 @ [0]"] len cut.hyps cut.prems
        mem_zero_token [of t "length pre" pre' "cut_marks sep rest @ [0]"]
      by simp
  qed (use step ps m cut.hyps in auto)
qed

lemma pointers_map [simp]: "pointers (map Some ps @ replicate n None) = ps"
  by (induction ps) (cases n; simp)+

lemma ssh_tokenize_Some:
  assumes "ssh_tokenize h (Some m) sep = Some t" and "sep \<noteq> 0"
  shows "token_strings t = tokens_of sep (cstr m)"
    and "ssh_tokens_free t = replicate (strlen m + 1) 0"
proof -
  let ?s = "cstr m"
  let ?n = "count_list ?s sep"
  have num: "count_tokens (length (?s @ [0])) (?s @ [0]) sep = Suc ?n"
    using assms(2) by (intro count_tokens_seps) auto
  obtain ps where ps: "tokenize_loop ?n sep ([] @ ?s @ [0]) (length ([]::bytes)) (length [Some (0::nat)])
        ([Some 0] @ replicate (Suc ?n) None) =
      ([] @ cut_marks sep ?s @ [0], [Some 0] @ map Some ps @ replicate (Suc ?n - length ps) None)"
    and all: "\<And>pre'. length pre' = length ([]::bytes) \<Longrightarrow>
      map (\<lambda>p. cstr (drop p (pre' @ cut_marks sep ?s @ [0]))) (length ([]::bytes) # ps) = tokens_of sep ?s \<and>
      fold (\<lambda>p buf. mem_zero buf p (strlen (drop p buf))) (length ([]::bytes) # ps) (pre' @ cut_marks sep ?s @ [0]) =
        pre' @ replicate (length ?s) 0 @ [0]"
    using tokenize_loop_cuts [of ?s sep "Suc ?n" "[]" "[Some 0]"] assms(2) by auto
  have t: "t = \<lparr>tok_buffer = cut_marks sep ?s @ [0],
      tok_tokens = map Some (0 # ps) @ replicate (Suc ?n - length ps) None\<rparr>"
    using assms(1) ps num by (auto simp: ssh_tokenize_def Let_def split: if_splits)
  have ptr: "pointers (tok_tokens t) = 0 # ps"
    unfolding t ssh_tokens_st.simps by (rule pointers_map)
  show "token_strings t = tokens_of sep ?s"
    using all [of "[]"] unfolding token_strings_def ptr by (simp add: t)
  show "ssh_tokens_free t = replicate (strlen m + 1) 0"
    using all [of "[]"] unfolding ssh_tokens_free_def ptr
    by (simp add: t length_cstr replicate_append_same)
qed

lemma ssh_tokenize_granted: "\<forall>n. heap_grants h n \<Longrightarrow> \<exists>t. ssh_tokenize h (Some m) sep = Some t"
  by (simp add: ssh_tokenize_def Let_def split: prod.splits)

subsection \<open>Matching\<close>

lemma match_in_iff: "match_in p as = (if p \<in> set as then Some p else None)"
  by (induction as) auto

lemma first_match_find: "first_match as ps = List.find (\<lambda>p. p \<in> set as) ps"
  by (induction ps) (auto simp: match_in_iff)

text \<open>What the nested loops append, in order, and how it is joined.\<close>

definition all_matches :: "bytes list \<Rightarrow> bytes list \<Rightarrow> bytes list" where
  "all_matches as ps = concat (map (\<lambda>p. filter (\<lambda>a. a = p) as) ps)"

definition join_token :: "bytes \<Rightarrow> bytes \<Rightarrow> bytes" where
  "join_token acc t = (if acc = [] then t else acc @ comma # t)"

definition weight :: "bytes list \<Rightarrow> nat" where
  "weight ts = sum_list (map (\<lambda>t. Suc (length t)) ts)"

lemma weight_simps [simp]: "weight [] = 0" "weight (t # ts) = Suc (length t) + weight ts"
  "weight (xs @ ys) = weight xs + weight ys"
  by (simp_all add: weight_def)

lemma weight_tokens_of: "weight (tokens_of sep s) \<le> length s + 1"
  by (induction s rule: tokens_induct [where sep = sep]) (auto simp: tokens_of_plain tokens_of_cut)

lemma join_length: "length (join_token acc t) \<le> length acc + Suc (length t)"
  by (simp add: join_token_def)

lemma foldl_join_length: "length (foldl join_token acc ts) \<le> length acc + weight ts"
proof (induction ts arbitrary: acc)
  case (Cons t ts)
  from Cons [of "join_token acc t"] join_length [of acc t] show ?case
    by simp
qed simp

lemma foldl_join_length_Nil: "length (foldl join_token [] ts) \<le> weight ts - 1"
  using foldl_join_length [of "hd ts" "tl ts"] by (cases ts) (auto simp: join_token_def)

text \<open>The result block holds the text so far, terminated, and zeroes behind it.\<close>

definition holds_text :: "nat \<Rightarrow> bytes \<Rightarrow> bytes \<Rightarrow> bool" where
  "holds_text n ret acc \<longleftrightarrow> length acc < n \<and> ret = acc @ replicate (n - length acc) 0"

lemma put_at_zeros:
  "length bs \<le> n \<Longrightarrow>
    put_at (acc @ replicate n 0) (length acc) bs = Ret ((acc @ bs) @ replicate (n - length bs) 0)"
  by (simp add: put_at_def mem_write_def)

lemma append_match_join:
  assumes "holds_text n ret acc" and "length (join_token acc a) < n"
  shows "\<exists>ret'. append_match ret (length acc) a = Ret (ret', length (join_token acc a)) \<and>
    holds_text n ret' (join_token acc a)"
proof -
  define acc1 where "acc1 = (if acc = [] then [] else acc @ [comma])"
  have j: "join_token acc a = acc1 @ a"
    by (simp add: acc1_def join_token_def)
  have fits: "length acc1 + length a < n"
    using assms(2) by (simp add: j)
  have ret: "ret = acc @ replicate (n - length acc) 0"
    using assms(1) by (simp add: holds_text_def)
  have "(if length acc \<noteq> 0 then put_at ret (length acc) [comma] else Ret ret) =
      Ret (acc1 @ replicate (n - length acc1) 0)"
    using fits put_at_zeros [of "[comma]" "n - length acc" acc]
    by (cases "acc = []") (simp_all add: ret acc1_def)
  moreover have "(if length acc \<noteq> 0 then length acc + 1 else length acc) = length acc1"
    by (simp add: acc1_def)
  moreover have "put_at (acc1 @ replicate (n - length acc1) 0) (length acc1) a =
      Ret ((acc1 @ a) @ replicate (n - length acc1 - length a) 0)"
    using fits by (intro put_at_zeros) simp
  moreover have "put_at ((acc1 @ a) @ replicate (n - length acc1 - length a) 0) (length acc1 + length a) [0] =
      Ret ((acc1 @ a) @ replicate (n - length acc1 - length a) 0)"
    using fits put_at_zeros [of "[0]" "n - length acc1 - length a" "acc1 @ a"]
    by (simp add: replicate_Suc [symmetric] Suc_diff_Suc del: replicate_Suc)
  ultimately have "append_match ret (length acc) a =
      Ret ((acc1 @ a) @ replicate (n - length acc1 - length a) 0, length acc1 + length a)"
    unfolding append_match_def by (simp only: run.case Let_def)
  with fits show ?thesis
    by (simp add: j holds_text_def)
qed

lemma foldl_join_mono: "length acc \<le> length (foldl join_token acc ts)"
proof (induction ts arbitrary: acc)
  case (Cons t ts)
  have "length acc \<le> length (join_token acc t)"
    by (simp add: join_token_def)
  with Cons [of "join_token acc t"] show ?case
    by simp
qed simp

lemma all_match_inner_join:
  assumes "holds_text n ret acc" and "length (foldl join_token acc (filter (\<lambda>a. a = p) as)) < n"
  shows "\<exists>ret'. all_match_inner p as ret (length acc) =
      Ret (ret', length (foldl join_token acc (filter (\<lambda>a. a = p) as))) \<and>
    holds_text n ret' (foldl join_token acc (filter (\<lambda>a. a = p) as))"
  using assms
proof (induction "as" arbitrary: ret acc)
  case (Cons a as)
  show ?case
  proof (cases "a = p")
    case True
    have "length (join_token acc a) < n"
      using Cons.prems(2) True foldl_join_mono [of "join_token acc p" "filter (\<lambda>a. a = p) as"] by simp
    with append_match_join [OF Cons.prems(1)] obtain ret1 where
      "append_match ret (length acc) a = Ret (ret1, length (join_token acc a))"
      "holds_text n ret1 (join_token acc a)"
      by blast
    with Cons.IH [of ret1 "join_token acc a"] Cons.prems(2) True show ?thesis
      by simp
  qed (use Cons in simp)
qed simp

lemma all_match_outer_join:
  assumes "holds_text n ret acc" and "length (foldl join_token acc (all_matches as ps)) < n"
  shows "\<exists>ret'. all_match_outer ps as ret (length acc) =
      Ret (ret', length (foldl join_token acc (all_matches as ps))) \<and>
    holds_text n ret' (foldl join_token acc (all_matches as ps))"
  using assms
proof (induction ps arbitrary: ret acc)
  case (Cons p ps)
  let ?acc = "foldl join_token acc (filter (\<lambda>a. a = p) as)"
  have split: "foldl join_token acc (all_matches as (p # ps)) = foldl join_token ?acc (all_matches as ps)"
    by (simp add: all_matches_def)
  have "length ?acc < n"
    using Cons.prems(2) foldl_join_mono [of ?acc "all_matches as ps"] by (simp add: split)
  with all_match_inner_join [OF Cons.prems(1)] obtain ret1 where
    "all_match_inner p as ret (length acc) = Ret (ret1, length ?acc)" "holds_text n ret1 ?acc"
    by blast
  with Cons.IH [of ret1 ?acc] Cons.prems(2) show ?case
    by (simp add: split)
qed (simp add: all_matches_def)

text \<open>
  The matches weigh no more than a list one of whose sides has no duplicates: each available
  token is matched at most once, or each preferred token matches at most once.
\<close>

lemma weight_filter: "weight (filter P ts) \<le> weight ts"
  by (induction ts) auto

lemma filter_eq_distinct: "distinct as \<Longrightarrow> filter (\<lambda>a. a = p) as = (if p \<in> set as then [p] else [])"
  by (induction "as") auto

lemma weight_matches_distinct_available: "distinct as \<Longrightarrow> weight (all_matches as ps) \<le> weight ps"
proof (induction ps)
  case (Cons p ps)
  have "weight (filter (\<lambda>a. a = p) as) \<le> Suc (length p)"
    using Cons.prems by (simp add: filter_eq_distinct)
  with Cons show ?case
    by (simp add: all_matches_def)
qed (simp add: all_matches_def)

lemma weight_matches_distinct_preferred: "distinct ps \<Longrightarrow> weight (all_matches as ps) \<le> weight as"
proof -
  assume d: "distinct ps"
  have split: "weight (filter (\<lambda>a. a \<in> set ps) as) = weight (all_matches as ps)" if "distinct ps" for ps
    using that
  proof (induction ps)
    case (Cons p ps)
    have "weight (filter (\<lambda>a. a = p \<or> a \<in> set ps) as) =
        weight (filter (\<lambda>a. a = p) as) + weight (filter (\<lambda>a. a \<in> set ps) as)"
      using Cons.prems by (induction "as") auto
    with Cons show ?case
      by (simp add: all_matches_def)
  qed (simp add: all_matches_def)
  show ?thesis
    using split [OF d] weight_filter [of "\<lambda>a. a \<in> set ps" "as"] by simp
qed

lemma ssh_find_all_matching_text:
  assumes grants: "\<forall>n. heap_grants h n"
    and "distinct (tokens_of comma (cstr am)) \<or> distinct (tokens_of comma (cstr pm))"
  defines "out \<equiv> foldl join_token [] (all_matches (tokens_of comma (cstr am)) (tokens_of comma (cstr pm)))"
  shows "\<exists>ret. ssh_find_all_matching h (Some am) (Some pm) = Ret (if ret ! 0 = 0 then None else Some ret) \<and>
    holds_text (max (strlen am) (strlen pm) + 1) ret out"
proof -
  let ?as = "tokens_of comma (cstr am)" and ?ps = "tokens_of comma (cstr pm)"
  let ?n = "max (strlen am) (strlen pm) + 1"
  have "weight (all_matches ?as ?ps) \<le> max (weight ?as) (weight ?ps)"
    using assms(2) weight_matches_distinct_available [of ?as ?ps]
      weight_matches_distinct_preferred [of ?ps ?as] by auto
  also have "\<dots> \<le> ?n"
    using weight_tokens_of [of comma "cstr am"] weight_tokens_of [of comma "cstr pm"]
    by (auto simp: length_cstr)
  finally have "length out < ?n"
    using foldl_join_length_Nil [of "all_matches ?as ?ps"] by (auto simp: out_def)
  moreover have "holds_text ?n (replicate ?n 0) []"
    by (simp add: holds_text_def)
  ultimately obtain ret where ret: "all_match_outer ?ps ?as (replicate ?n 0) (length ([]::bytes)) = Ret (ret, length out)"
    "holds_text ?n ret out"
    using all_match_outer_join [of ?n "replicate ?n 0" "[]" ?as ?ps] by (auto simp: out_def)
  obtain a_tok p_tok where tok: "ssh_tokenize h (Some am) comma = Some a_tok"
    "ssh_tokenize h (Some pm) comma = Some p_tok"
    using ssh_tokenize_granted [OF grants] by metis
  have strs: "token_strings a_tok = ?as" "token_strings p_tok = ?ps"
    using tok by (auto intro: ssh_tokenize_Some(1))
  have "ssh_find_all_matching h (Some am) (Some pm) = Ret (if ret ! 0 = 0 then None else Some ret)"
    using grants tok ret(1) by (simp add: ssh_find_all_matching_def calloc_def strs)
  with ret(2) show ?thesis
    by blast
qed

subsection \<open>Removing duplicates\<close>

text \<open>The tokens that survive: not empty, and not seen before.\<close>

fun keep_first :: "bytes list \<Rightarrow> bytes list \<Rightarrow> bytes list" where
  "keep_first seen [] = []"
| "keep_first seen (t # ts) =
     (if t = [] \<or> t \<in> set seen then keep_first (t # seen) ts else t # keep_first (t # seen) ts)"

lemma keep_first_cong: "set seen = set seen' \<Longrightarrow> keep_first seen ts = keep_first seen' ts"
proof (induction ts arbitrary: seen seen')
  case (Cons t ts)
  then have "keep_first (t # seen) ts = keep_first (t # seen') ts"
    by (intro Cons.IH) simp
  with Cons.prems show ?case
    by simp
qed simp

lemma should_copy_iff:
  "should_copy ts i \<longleftrightarrow> ts ! i \<noteq> [] \<and> \<not> (\<exists>j<i. ts ! i = ts ! j)"
  by (auto simp: should_copy_def dup_before_def list_ex_iff)

lemma copied_tokens:
  "map fst (filter snd (map (\<lambda>i. (ts ! i, should_copy ts i)) [k..<length ts])) =
    keep_first (take k ts) (drop k ts)"
proof (induction "length ts - k" arbitrary: k)
  case (Suc d)
  then have k: "k < length ts"
    by simp
  have "ts ! k \<in> set (take k ts) \<longleftrightarrow> (\<exists>j<k. ts ! k = ts ! j)"
    using k by (auto simp: in_set_conv_nth)
  moreover have "drop k ts = ts ! k # drop (Suc k) ts" and "take (Suc k) ts = take k ts @ [ts ! k]"
    using k by (simp_all add: Cons_nth_drop_Suc take_Suc_conv_app_nth)
  moreover have "keep_first (take k ts @ [t]) xs = keep_first (t # take k ts) xs" for t xs
    by (rule keep_first_cong) auto
  ultimately show ?case
    using Suc k by (simp add: upt_conv_Cons should_copy_iff)
qed simp

lemma strncat_zeros:
  assumes "0 \<notin> set acc" and "holds_text n ret acc" and "0 \<notin> set t" and "length acc + length t < n"
    and "n < 18446744073709551616"
  shows "strncat ret (t @ [0]) (sub64 (sub64 n (strlen ret)) 1) = Ret ((acc @ t) @ replicate (n - length acc - length t) 0)"
    and "strlen ret = length acc"
proof -
  obtain k where k: "n - length acc = Suc k"
    using assms(4) by (metis Suc_diff_Suc add_lessD1)
  have ret: "ret = acc @ replicate (n - length acc) 0"
    using assms(2) by (simp add: holds_text_def)
  then show len: "strlen ret = length acc"
    using assms(1) by (simp add: k flip: length_cstr)
  have "sub64 (sub64 n (strlen ret)) 1 = n - length acc - 1"
    using assms(4) by (simp add: len)
  then have "take (sub64 (sub64 n (strlen ret)) 1) (cstr (t @ [0])) = t"
    using assms(3,4) by simp
  moreover have "put_at (acc @ replicate (n - length acc) 0) (length acc) (t @ [0]) =
      Ret ((acc @ t) @ replicate (n - length acc - length t) 0)"
    using assms(4) put_at_zeros [of "t @ [0]" "n - length acc" acc]
    by (simp add: replicate_Suc [symmetric] Suc_diff_Suc del: replicate_Suc)
  ultimately show "strncat ret (t @ [0]) (sub64 (sub64 n (strlen ret)) 1) =
      Ret ((acc @ t) @ replicate (n - length acc - length t) 0)"
    using len ret by (simp add: strncat_def)
qed

lemma copy_tokens_join:
  assumes "holds_text n ret acc" and "0 \<notin> set acc" and "nc \<longleftrightarrow> acc \<noteq> []"
    and "\<forall>(t, c)\<in>set ts. 0 \<notin> set t \<and> (c \<longrightarrow> t \<noteq> [])" and "n < 18446744073709551616"
    and "length (foldl join_token acc (map fst (filter snd ts))) < n"
  shows "\<exists>ret'. copy_tokens n (map (\<lambda>(t, c). (t @ [0], c)) ts) ret nc =
      Ret (ret', foldl join_token acc (map fst (filter snd ts)) \<noteq> []) \<and>
    holds_text n ret' (foldl join_token acc (map fst (filter snd ts)))"
  using assms
proof (induction ts arbitrary: ret acc nc)
  case (Cons tc ts)
  obtain t c where tc: "tc = (t, c)"
    by (cases tc)
  show ?case
  proof (cases c)
    case True
    define acc1 where "acc1 = (if nc then acc @ [comma] else acc)"
    have t: "0 \<notin> set t" "t \<noteq> []"
      using Cons.prems(4) True tc by auto
    have j: "join_token acc t = acc1 @ t"
      using Cons.prems(3) by (simp add: acc1_def join_token_def)
    have fits: "length acc1 + length t < n"
      using Cons.prems(6) True tc foldl_join_mono [of "join_token acc t" "map fst (filter snd ts)"] by (simp add: j)
    define ret1 where "ret1 = acc1 @ replicate (n - length acc1) (0::u8)"
    have h1: "holds_text n ret1 acc1"
      using fits by (simp add: holds_text_def ret1_def)
    have z1: "0 \<notin> set acc1"
      using Cons.prems(2) by (simp add: acc1_def)
    have step1: "(if nc then strncat ret (lit '','') (sub64 (sub64 n (strlen ret)) 1) else Ret ret) = Ret ret1"
    proof (cases nc)
      case True
      have "lit '','' = [comma] @ [0]"
        by code_simp
      then show ?thesis
        using strncat_zeros(1) [OF Cons.prems(2,1), of "[comma]"] fits Cons.prems(5) True
        by (simp add: acc1_def ret1_def)
    next
      case False
      with Cons.prems(1) show ?thesis
        by (simp add: ret1_def acc1_def holds_text_def)
    qed
    define ret2 where "ret2 = (acc1 @ t) @ replicate (n - length acc1 - length t) (0::u8)"
    have step2: "strncat ret1 (t @ [0]) (sub64 (sub64 n (strlen ret1)) 1) = Ret ret2"
      using strncat_zeros(1) [OF z1 h1 t(1) fits Cons.prems(5)] by (simp add: ret2_def)
    have "holds_text n ret2 (join_token acc t)"
      using fits by (simp add: holds_text_def ret2_def j)
    moreover have "0 \<notin> set (join_token acc t)" and "join_token acc t \<noteq> []"
      using z1 t by (auto simp: j)
    ultimately show ?thesis
      using Cons.IH [of ret2 "join_token acc t" True] Cons.prems(4-6) True tc step1 step2 by auto
  qed (use Cons tc in auto)
qed simp

lemma tokens_no_nul: "0 \<notin> set s \<Longrightarrow> t \<in> set (tokens_of sep s) \<Longrightarrow> 0 \<notin> set t"
  by (induction s rule: tokens_induct [where sep = sep])
    (auto simp: tokens_of_plain tokens_of_cut split: if_splits)

lemma tokens_no_sep: "t \<in> set (tokens_of sep s) \<Longrightarrow> sep \<notin> set t"
  by (induction s rule: tokens_induct [where sep = sep])
    (auto simp: tokens_of_plain tokens_of_cut split: if_splits)

lemma weight_keep_first: "weight (keep_first seen ts) \<le> weight ts"
proof (induction ts arbitrary: seen)
  case (Cons t ts)
  from Cons [of "t # seen"] show ?case
    by auto
qed simp

lemma set_keep_first: "set (keep_first seen ts) = set ts - set seen - {[]}"
  by (induction ts arbitrary: seen) auto

lemma distinct_keep_first: "distinct (keep_first seen ts)"
  by (induction ts arbitrary: seen) (auto simp: set_keep_first)

lemma foldl_join_text: "acc \<noteq> [] \<Longrightarrow> foldl join_token acc ts = acc @ concat (map (\<lambda>t. comma # t) ts)"
  by (induction ts arbitrary: acc) (auto simp: join_token_def)

lemma tokens_of_text:
  "comma \<notin> set t \<Longrightarrow> \<forall>x\<in>set ts. x \<noteq> [] \<and> comma \<notin> set x \<Longrightarrow>
    tokens_of comma (t @ concat (map (\<lambda>t. comma # t) ts)) = t # ts"
proof (induction ts arbitrary: t)
  case (Cons x xs)
  then show ?case
    by (simp add: tokens_of_cut)
qed (simp add: tokens_of_plain)

lemma tokens_of_joined:
  assumes "ts \<noteq> []" and "\<forall>x\<in>set ts. x \<noteq> [] \<and> comma \<notin> set x"
  shows "tokens_of comma (foldl join_token [] ts) = ts"
proof (cases ts)
  case (Cons t r)
  with assms have "foldl join_token [] ts = t @ concat (map (\<lambda>t. comma # t) r)"
    using foldl_join_text [of t r] by (simp add: join_token_def)
  with Cons assms(2) tokens_of_text [of t r] show ?thesis
    by simp
qed (use assms in simp)

lemma holds_text_cstr: "holds_text n ret acc \<Longrightarrow> 0 \<notin> set acc \<Longrightarrow> cstr ret = acc"
proof -
  assume h: "holds_text n ret acc" and z: "0 \<notin> set acc"
  obtain k where "n - length acc = Suc k"
    using h by (metis Suc_diff_Suc holds_text_def)
  with h z show ?thesis
    by (simp add: holds_text_def)
qed

lemma foldl_join_no_nul: "0 \<notin> set acc \<Longrightarrow> \<forall>t\<in>set ts. 0 \<notin> set t \<Longrightarrow> 0 \<notin> set (foldl join_token acc ts)"
  by (induction ts arbitrary: acc) (auto simp: join_token_def)

lemma remove_duplicates_text:
  assumes grants: "\<forall>n. heap_grants h n" and small: "strlen m < 2 ^ 60"
  defines "kept \<equiv> keep_first [] (tokens_of comma (cstr m))"
  shows "\<exists>r. ssh_remove_duplicates h (Some m) = Ret r \<and>
    map_option cstr r = (if kept = [] then None else Some (foldl join_token [] kept))"
proof (cases "strlen m = 0")
  case True
  then have "cstr m = []"
    by (simp flip: length_cstr)
  with True show ?thesis
    by (simp add: ssh_remove_duplicates_def kept_def tokens_of_plain)
next
  case False
  let ?ts = "tokens_of comma (cstr m)" and ?n = "strlen m + 1"
  let ?pairs = "map (\<lambda>i. (?ts ! i, should_copy ?ts i)) [0..<length ?ts]"
  obtain tok where tok: "ssh_tokenize h (Some m) comma = Some tok"
    using ssh_tokenize_granted [OF grants] by blast
  have strs: "token_strings tok = ?ts"
    using tok by (auto intro: ssh_tokenize_Some(1))
  have ne: "?ts \<noteq> []"
    by (simp add: tokens_of.simps)
  have w: "weight ?ts \<le> ?n"
    using weight_tokens_of [of comma "cstr m"] by (simp add: length_cstr)
  have "length ts \<le> weight ts" for ts
    by (induction ts) auto
  with w have cnt: "length ?ts \<le> ?n"
    using le_trans by blast
  have kept: "map fst (filter snd ?pairs) = kept"
    using copied_tokens [of ?ts 0] by (simp add: kept_def)
  have "weight kept \<le> ?n"
    using weight_keep_first [of "[]" ?ts] w by (simp add: kept_def)
  then have fits: "length (foldl join_token [] kept) < ?n"
    using foldl_join_length_Nil [of kept] False by linarith
  have nul: "0 \<notin> set t" if "t \<in> set ?ts" for t
    using tokens_no_nul [OF _ that] by simp
  have ok: "\<forall>(t, c)\<in>set ?pairs. 0 \<notin> set t \<and> (c \<longrightarrow> t \<noteq> [])"
    using nul by (auto simp: should_copy_iff)
  have blank: "holds_text ?n (replicate ?n 0) []"
    by (simp add: holds_text_def)
  obtain ret where ret: "copy_tokens ?n (map (\<lambda>(t, c). (t @ [0], c)) ?pairs) (replicate ?n 0) False =
      Ret (ret, foldl join_token [] kept \<noteq> [])" "holds_text ?n ret (foldl join_token [] kept)"
    using copy_tokens_join [OF blank _ _ ok] fits small kept by auto
  have pairs: "map (\<lambda>(t, c). (t @ [0], c)) ?pairs = map (\<lambda>i. (?ts ! i @ [0], should_copy ?ts i)) [0..<length ?ts]"
    by simp
  have joined: "foldl join_token [] kept = [] \<longleftrightarrow> kept = []"
  proof (cases kept)
    case (Cons t r)
    have "t \<noteq> []"
      using set_keep_first [of "[]" ?ts] Cons by (auto simp: kept_def)
    then show ?thesis
      using Cons foldl_join_mono [of t r] by (auto simp: join_token_def)
  qed simp
  have "\<forall>t\<in>set kept. 0 \<notin> set t"
    using nul set_keep_first [of "[]" ?ts] by (auto simp: kept_def)
  then have "cstr ret = foldl join_token [] kept"
    using holds_text_cstr [OF ret(2)] foldl_join_no_nul [of "[]" kept] by simp
  moreover have "ssh_remove_duplicates h (Some m) = Ret (if kept = [] then None else Some ret)"
    using False tok ne cnt grants ret(1) [unfolded pairs]
    by (simp add: ssh_remove_duplicates_def strs calloc_def joined Let_def not_less)
  ultimately show ?thesis
    by simp
qed

lemma ssh_find_matching_find:
  assumes "\<forall>n. heap_grants h n"
  shows "map_option cstr (ssh_find_matching h (Some am) (Some pm)) =
    List.find (\<lambda>p. p \<in> set (tokens_of comma (cstr am))) (tokens_of comma (cstr pm))"
proof -
  obtain a_tok p_tok where tok: "ssh_tokenize h (Some am) comma = Some a_tok"
    "ssh_tokenize h (Some pm) comma = Some p_tok"
    using ssh_tokenize_granted [OF assms] by metis
  have "token_strings a_tok = tokens_of comma (cstr am)" "token_strings p_tok = tokens_of comma (cstr pm)"
    using tok by (auto intro: ssh_tokenize_Some(1))
  moreover have "0 \<notin> set t" if "List.find P (tokens_of comma (cstr pm)) = Some t" for P t
    using that tokens_no_nul [of "cstr pm" t comma] by (auto simp: find_Some_iff)
  ultimately show ?thesis
    using tok assms
    by (auto simp: ssh_find_matching_def first_match_find strdup_def split: option.splits)
qed

lemma find_all_matching_joined:
  assumes "\<forall>n. heap_grants h n"
    and "distinct (tokens_of comma (cstr am)) \<or> distinct (tokens_of comma (cstr pm))"
  defines "out \<equiv> foldl join_token [] (all_matches (tokens_of comma (cstr am)) (tokens_of comma (cstr pm)))"
  shows "\<exists>r. ssh_find_all_matching h (Some am) (Some pm) = Ret r \<and>
    map_option cstr r = (if out = [] then None else Some out)"
proof -
  obtain ret where ret: "ssh_find_all_matching h (Some am) (Some pm) = Ret (if ret ! 0 = 0 then None else Some ret)"
    "holds_text (max (strlen am) (strlen pm) + 1) ret out"
    using ssh_find_all_matching_text [OF assms(1,2)] unfolding out_def by blast
  have "\<forall>t\<in>set (all_matches (tokens_of comma (cstr am)) (tokens_of comma (cstr pm))). 0 \<notin> set t"
    using tokens_no_nul [of "cstr am" _ comma] by (auto simp: all_matches_def)
  then have z: "0 \<notin> set out"
    unfolding out_def by (intro foldl_join_no_nul) auto
  then have "cstr ret = out"
    using holds_text_cstr [OF ret(2)] by simp
  moreover have "ret ! 0 = 0 \<longleftrightarrow> out = []"
    using ret(2) z by (cases out) (auto simp: holds_text_def nth_append)
  ultimately show ?thesis
    using ret(1) by auto
qed

lemma all_matches_distinct: "distinct as \<Longrightarrow> all_matches as ps = filter (\<lambda>p. p \<in> set as) ps"
  by (induction ps) (auto simp: all_matches_def filter_eq_distinct)

lemma joined_empty: "\<forall>t\<in>set ts. t \<noteq> [] \<Longrightarrow> foldl join_token [] ts = [] \<longleftrightarrow> ts = []"
proof (cases ts)
  case (Cons t r)
  assume "\<forall>t\<in>set ts. t \<noteq> []"
  then show ?thesis
    using Cons foldl_join_mono [of t r] by (auto simp: join_token_def)
qed simp

lemma joined_append:
  assumes "us \<noteq> []" and "vs \<noteq> []" and "\<forall>t\<in>set (us @ vs). t \<noteq> []"
  shows "foldl join_token [] us @ comma # foldl join_token [] vs = foldl join_token [] (us @ vs)"
proof -
  have step: "foldl join_token [] (t # ts) = t @ concat (map (\<lambda>t. comma # t) ts)" if "t \<noteq> []" for t ts
    using foldl_join_text [OF that] by (simp add: join_token_def)
  obtain u us' v vs' where "us = u # us'" and "vs = v # vs'"
    using assms(1,2) by (metis list.exhaust)
  with assms(3) show ?thesis
    by (simp add: step del: foldl_Cons)
qed

text \<open>When one list has no repeated token, the result lists the matches.\<close>

lemma find_all_matching_tokens:
  assumes "\<forall>n. heap_grants h n" and "distinct (tokens_of comma (cstr am))" and "[] \<notin> set (tokens_of comma (cstr am))"
    and ms_def: "ms = filter (\<lambda>p. p \<in> set (tokens_of comma (cstr am))) (tokens_of comma (cstr pm))"
  shows "\<exists>r. ssh_find_all_matching h (Some am) (Some pm) = Ret r \<and>
    map_option cstr r = (if ms = [] then None else Some (foldl join_token [] ms)) \<and>
    (case r of None \<Rightarrow> ms = [] | Some ret \<Rightarrow> ms \<noteq> [] \<and> tokens_of comma (cstr ret) = ms)"
proof -
  have ms: "\<forall>t\<in>set ms. t \<noteq> [] \<and> comma \<notin> set t"
    using assms(3) tokens_no_sep by (auto simp: ms_def)
  then have "foldl join_token [] ms = [] \<longleftrightarrow> ms = []"
    using joined_empty by blast
  moreover obtain r where r: "ssh_find_all_matching h (Some am) (Some pm) = Ret r"
    "map_option cstr r = (if foldl join_token [] ms = [] then None else Some (foldl join_token [] ms))"
    using find_all_matching_joined [OF assms(1), of am pm] assms(2)
    by (auto simp: all_matches_distinct ms_def)
  ultimately show ?thesis
    using tokens_of_joined [OF _ ms] by (cases r) (auto split: if_splits)
qed

lemma append_without_duplicates_text:
  assumes grants: "\<forall>n. heap_grants h n" and small: "strlen m + strlen a < 2 ^ 59" and ne: "strlen m \<noteq> 0"
    and kept_def: "kept = keep_first [] (tokens_of comma (cstr m @ comma # cstr a))"
  shows "\<exists>r. ssh_append_without_duplicates h (Some m) (Some a) = Ret r \<and>
    map_option cstr r = (if kept = [] then None else Some (foldl join_token [] kept))"
proof -
  let ?n = "strlen m + strlen a + 2"
  have n: "?n < 18446744073709551616"
    using small by simp
  have cat: "strncat b s k = strncat b (cstr s @ [0]) k" for b s k
    by (simp add: strncat_def)
  have first: "put_at (replicate ?n 0) 0 (cstr m @ [0]) = Ret (cstr m @ replicate (?n - strlen m) 0)"
    using put_at_zeros [of "cstr m @ [0]" ?n "[]"]
    by (simp add: length_cstr replicate_Suc [symmetric] Suc_diff_Suc del: replicate_Suc)
  have h1: "holds_text ?n (cstr m @ replicate (?n - strlen m) 0) (cstr m)"
    by (simp add: holds_text_def length_cstr)
  have second: "strncat (cstr m @ replicate (?n - strlen m) 0) (lit '','')
      (sub64 (sub64 ?n (strlen (cstr m @ replicate (?n - strlen m) 0))) 1) =
    Ret ((cstr m @ [comma]) @ replicate (?n - strlen m - 1) 0)"
    using strncat_zeros(1) [OF cstr_no_nul h1, of "[comma]"] n by (simp add: lit_def length_cstr)
  let ?c2 = "(cstr m @ [comma]) @ replicate (?n - strlen m - 1) 0"
  have h2: "holds_text ?n ?c2 (cstr m @ [comma])"
    by (simp add: holds_text_def length_cstr)
  have third: "strncat ?c2 a (sub64 (sub64 ?n (strlen ?c2)) 1) =
      Ret (((cstr m @ [comma]) @ cstr a) @ replicate 1 0)"
    using strncat_zeros(1) [OF _ h2 cstr_no_nul, of a] n by (subst cat) (simp add: length_cstr)
  let ?c3 = "((cstr m @ [comma]) @ cstr a) @ replicate 1 0"
  have c3: "cstr ?c3 = cstr m @ comma # cstr a"
    using cstr_terminated [of "(cstr m @ [comma]) @ cstr a" "[]"] by simp
  have "strlen ?c3 = length (cstr m @ comma # cstr a)"
    by (metis c3 length_cstr)
  then have "strlen ?c3 < 2 ^ 60"
    using small by (simp add: length_cstr)
  then obtain r where "ssh_remove_duplicates h (Some ?c3) = Ret r"
    "map_option cstr r = (if kept = [] then None else Some (foldl join_token [] kept))"
    using remove_duplicates_text [OF grants, of ?c3] unfolding c3 kept_def by blast
  then show ?thesis
    using ne grants first second third
    by (simp add: ssh_append_without_duplicates_def calloc_def Let_def)
qed
subsection \<open>Properties\<close>

text \<open>
  \<^verbatim>\<open>ssh_tokenize\<close> cuts a list exactly at its separators: the strings behind the pointer
  array are the pieces between separators in order, nothing after a final separator counting
  as a piece. \<^verbatim>\<open>ssh_tokens_free\<close> leaves no byte of the chain in the block it frees.
\<close>

theorem ssh_tokenize_correct:
  assumes "ssh_tokenize h (Some m) sep = Some t" and "sep \<noteq> 0"
  shows "token_strings t = tokens_of sep (cstr m) \<and> ssh_tokens_free t = replicate (strlen m + 1) 0"
  using ssh_tokenize_Some [OF assms] by simp

theorem ssh_tokenize_correct_witness:
  "map_option token_strings (ssh_tokenize roomy_heap (Some (lit ''aes,,3des,'')) comma) =
    Some [map of_char ''aes'', [], map of_char ''3des'']"
proof -
  have "ssh_tokenize roomy_heap (Some (lit ''aes,,3des,'')) comma \<noteq> None"
    by code_simp
  then obtain t where t: "ssh_tokenize roomy_heap (Some (lit ''aes,,3des,'')) comma = Some t"
    by blast
  have "tokens_of comma (cstr (lit ''aes,,3des,'')) = [map of_char ''aes'', [], map of_char ''3des'']"
    by code_simp
  with t ssh_tokenize_correct [OF t] show ?thesis
    by simp
qed

text \<open>
  \<^verbatim>\<open>ssh_find_matching\<close> negotiates: it returns the first token of the preferred list that
  the available list has, and \<^verbatim>\<open>NULL\<close> when there is none.
\<close>

theorem ssh_find_matching_correct:
  assumes "\<forall>n. heap_grants h n"
  shows "map_option cstr (ssh_find_matching h (Some am) (Some pm)) =
    List.find (\<lambda>p. p \<in> set (tokens_of comma (cstr am))) (tokens_of comma (cstr pm))"
  using assms by (rule ssh_find_matching_find)

theorem ssh_find_matching_correct_witness:
  "map_option cstr (ssh_find_matching roomy_heap (Some (lit ''a,bb,c'')) (Some (lit ''x,c,bb''))) = Some [99]"
proof -
  have "\<forall>n. heap_grants roomy_heap n"
    by (simp add: roomy_heap_def)
  moreover have "List.find (\<lambda>p. p \<in> set (tokens_of comma (cstr (lit ''a,bb,c''))))
      (tokens_of comma (cstr (lit ''x,c,bb''))) = Some [99]"
    by code_simp
  ultimately show ?thesis
    using ssh_find_matching_correct by metis
qed

text \<open>
  Memory safety and result of \<^verbatim>\<open>ssh_find_all_matching\<close>: when one of the two lists has no
  repeated token, no write leaves the block of \<^verbatim>\<open>max + 1\<close> bytes, and the result is the matching
  tokens joined by commas, \<^verbatim>\<open>NULL\<close> for none.
\<close>

theorem ssh_find_all_matching_safe:
  assumes "\<forall>n. heap_grants h n"
    and "distinct (tokens_of comma (cstr am)) \<or> distinct (tokens_of comma (cstr pm))"
  shows "\<exists>r. ssh_find_all_matching h (Some am) (Some pm) = Ret r \<and>
    (case r of None \<Rightarrow> [] | Some ret \<Rightarrow> cstr ret) =
      foldl join_token [] (all_matches (tokens_of comma (cstr am)) (tokens_of comma (cstr pm)))"
proof -
  obtain r where "ssh_find_all_matching h (Some am) (Some pm) = Ret r"
    "map_option cstr r = (if foldl join_token [] (all_matches (tokens_of comma (cstr am)) (tokens_of comma (cstr pm))) = []
       then None else Some (foldl join_token [] (all_matches (tokens_of comma (cstr am)) (tokens_of comma (cstr pm)))))"
    using find_all_matching_joined [OF assms] by blast
  then show ?thesis
    by (cases r) (auto split: if_splits)
qed

theorem ssh_find_all_matching_safe_witness:
  "\<exists>r. ssh_find_all_matching roomy_heap (Some (lit ''a,bb,c'')) (Some (lit ''c,x,a'')) = Ret r \<and>
    (case r of None \<Rightarrow> [] | Some ret \<Rightarrow> cstr ret) = map of_char ''c,a''"
proof -
  have "\<forall>n. heap_grants roomy_heap n"
    by (simp add: roomy_heap_def)
  moreover have "distinct (tokens_of comma (cstr (lit ''a,bb,c'')))"
    and "foldl join_token [] (all_matches (tokens_of comma (cstr (lit ''a,bb,c'')))
        (tokens_of comma (cstr (lit ''c,x,a'')))) = map of_char ''c,a''"
    by code_simp+
  ultimately show ?thesis
    using ssh_find_all_matching_safe by metis
qed

text \<open>
  With repeated tokens on both sides the matches are longer than either list, and the block
  is left: two copies of one letter are enough.
\<close>

lemma ssh_find_all_matching_overflows:
  "ssh_find_all_matching roomy_heap (Some (lit ''a,a'')) (Some (lit ''a,a'')) = Overflow"
  by code_simp

text \<open>
  \<^verbatim>\<open>ssh_remove_duplicates\<close> never writes outside its block and never truncates; its result
  is again a list whose tokens are the non-empty tokens of the input, each once, in the order
  of their first occurrence. \<^verbatim>\<open>NULL\<close> means the input has no such token.
\<close>

theorem ssh_remove_duplicates_correct:
  assumes "\<forall>n. heap_grants h n" and "strlen m < 2 ^ 60"
  defines "kept \<equiv> keep_first [] (tokens_of comma (cstr m))"
  shows "(\<exists>r. ssh_remove_duplicates h (Some m) = Ret r \<and>
      (case r of None \<Rightarrow> kept = [] | Some ret \<Rightarrow> tokens_of comma (cstr ret) = kept)) \<and>
    distinct kept \<and> set kept = set (tokens_of comma (cstr m)) - {[]}"
proof -
  have set: "set kept = set (tokens_of comma (cstr m)) - {[]}"
    by (simp add: kept_def set_keep_first)
  moreover have "tokens_of comma (foldl join_token [] kept) = kept" if "kept \<noteq> []"
    using that set tokens_no_sep by (intro tokens_of_joined) auto
  moreover obtain r where "ssh_remove_duplicates h (Some m) = Ret r"
    "map_option cstr r = (if kept = [] then None else Some (foldl join_token [] kept))"
    using remove_duplicates_text [OF assms(1,2)] unfolding kept_def by blast
  moreover have "distinct kept"
    by (simp add: kept_def distinct_keep_first)
  ultimately show ?thesis
    by (cases r) (auto split: if_splits)
qed

theorem ssh_remove_duplicates_correct_witness:
  "\<exists>r. ssh_remove_duplicates roomy_heap (Some (lit ''b,,a,b'')) = Ret r \<and>
    (case r of None \<Rightarrow> False | Some ret \<Rightarrow> tokens_of comma (cstr ret) = [[98], [97]])"
proof -
  have "\<forall>n. heap_grants roomy_heap n"
    by (simp add: roomy_heap_def)
  moreover have "strlen (lit ''b,,a,b'') < 2 ^ 60"
    and kept: "keep_first [] (tokens_of comma (cstr (lit ''b,,a,b''))) = [[98], [97]]"
    by code_simp+
  ultimately obtain r where r: "ssh_remove_duplicates roomy_heap (Some (lit ''b,,a,b'')) = Ret r"
    "case r of None \<Rightarrow> [[98], [97 :: u8]] = [] | Some ret \<Rightarrow> tokens_of comma (cstr ret) = [[98], [97]]"
    using ssh_remove_duplicates_correct [of roomy_heap "lit ''b,,a,b''"] unfolding kept by blast
  then show ?thesis
    by (intro exI [of _ r]) (simp split: option.splits)
qed

end
