(* ===== verification/Match.thy ===== *)
theory Match
  imports Tokens
begin

text \<open>
  Wildcard patterns for host names (\<^verbatim>\<open>src/libssh/src/match.c\<close>). Strings are the bytes before
  the terminator, a pointer into a string is the rest of it. The recursion of
  \<^verbatim>\<open>match_pattern\<close> is bounded by \<^verbatim>\<open>limit\<close>, which every asterisk with something behind it uses
  up by one.
\<close>

definition MAX_MATCH_RECURSION :: nat where
  "MAX_MATCH_RECURSION = 32"

abbreviation asterisk :: u8 where "asterisk \<equiv> 42"
abbreviation question :: u8 where "question \<equiv> 63"
abbreviation bang :: u8 where "bang \<equiv> 33"

text \<open>The positions a \<^verbatim>\<open>for (; *s; s++)\<close> visits.\<close>

fun tails :: "'a list \<Rightarrow> 'a list list" where
  "tails [] = []"
| "tails (x # xs) = (x # xs) # tails xs"

function match_pattern :: "bytes \<Rightarrow> bytes \<Rightarrow> nat \<Rightarrow> bool" where
  "match_pattern s pattern limit =
     (if limit = 0 then False
      else case pattern of
          [] \<Rightarrow> s = []
        | c # rest \<Rightarrow>
            if c = asterisk then
              (case dropWhile (\<lambda>x. x = asterisk) rest of
                 [] \<Rightarrow> True
               | d # rest' \<Rightarrow>
                   if d \<noteq> question then
                     list_ex (\<lambda>t. hd t = d \<and> match_pattern (tl t) rest' (limit - 1)) (tails s)
                   else list_ex (\<lambda>t. match_pattern t (d # rest') (limit - 1)) (tails s))
            else
              (case s of
                 [] \<Rightarrow> False
               | x # s' \<Rightarrow>
                   if c \<noteq> question \<and> c \<noteq> x then False else match_pattern s' rest limit))"
  by pat_completeness auto
termination
  by (relation "measures [\<lambda>(s, p, l). l, \<lambda>(s, p, l). length p]") auto

declare match_pattern.simps [simp del]

definition tolower :: "u8 \<Rightarrow> u8" where
  "tolower x = (if 65 \<le> x \<and> x \<le> 90 then x + 32 else x)"

text \<open>
  \<^verbatim>\<open>match_pattern_list\<close> reads \<open>len\<close> bytes of the pattern; \<open>rest\<close> is what is left of them. The
  array \<^verbatim>\<open>sub\<close> has 1024 bytes, so a subpattern of 1023 bytes ends the search.
\<close>

function match_list_loop :: "bytes \<Rightarrow> bool \<Rightarrow> bytes \<Rightarrow> int \<Rightarrow> int" where
  "match_list_loop str dolower rest got_positive =
     (if rest = [] then got_positive
      else
        let negated = (hd rest = bang);
            r1 = (if negated then tl rest else rest);
            sub = takeWhile (\<lambda>x. x \<noteq> comma) (take 1023 r1);
            r2 = drop (length sub) r1
        in if length sub \<ge> 1023 then 0
           else
             let r3 = (if r2 \<noteq> [] \<and> hd r2 = comma then tl r2 else r2);
                 sub' = map (\<lambda>x. if dolower then tolower x else x) sub
             in if match_pattern str (cstr (sub' @ [0])) MAX_MATCH_RECURSION then
                  if negated then - 1 else match_list_loop str dolower r3 1
                else match_list_loop str dolower r3 got_positive)"
  by pat_completeness auto

text \<open>A subpattern that is short enough ends at a comma or at the end of the pattern.\<close>

lemma subpattern_end:
  assumes "length (takeWhile (\<lambda>x. x \<noteq> comma) (take 1023 r)) < 1023"
  shows "takeWhile (\<lambda>x. x \<noteq> comma) (take 1023 r) = takeWhile (\<lambda>x. x \<noteq> comma) r"
proof (cases "comma \<in> set (take 1023 r)")
  case True
  then have "takeWhile (\<lambda>x. x \<noteq> comma) (take 1023 r @ drop 1023 r) = takeWhile (\<lambda>x. x \<noteq> comma) (take 1023 r)"
    by (intro takeWhile_append1) auto
  then show ?thesis
    by simp
next
  case False
  then have "takeWhile (\<lambda>x. x \<noteq> comma) (take 1023 r) = take 1023 r"
    by (auto simp: takeWhile_eq_all_conv)
  with assms have "take 1023 r = r"
    by (simp add: min_def split: if_splits)
  then show ?thesis
    by simp
qed

lemma subpattern_rest:
  assumes "length (takeWhile (\<lambda>x. x \<noteq> comma) (take 1023 r)) < 1023"
  shows "drop (length (takeWhile (\<lambda>x. x \<noteq> comma) (take 1023 r))) r = dropWhile (\<lambda>x. x \<noteq> comma) r"
  by (simp add: subpattern_end [OF assms] dropWhile_eq_drop)

lemma subpattern_progress:
  assumes "rest \<noteq> []" and neg: "negated = (hd rest = bang)" and r1: "r1 = (if negated then tl rest else rest)"
    and "sub = takeWhile (\<lambda>x. x \<noteq> comma) (take 1023 r1)" and "r2 = drop (length sub) r1"
    and "\<not> 1023 \<le> length sub" and r3: "r3 = (if r2 \<noteq> [] \<and> hd r2 = comma then tl r2 else r2)"
  shows "length r3 < length rest"
proof -
  have r2: "r2 = dropWhile (\<lambda>x. x \<noteq> comma) r1"
    using assms(4-6) subpattern_rest [of r1] by simp
  obtain x xs where rest: "rest = x # xs"
    using assms(1) by (cases rest) auto
  have le: "length r2 \<le> length r1"
    by (simp add: r2 length_dropWhile_le)
  have less: "length r2 \<le> length xs" if "x \<noteq> comma"
    using le r1 rest that length_dropWhile_le [of "\<lambda>x. x \<noteq> comma" xs]
    by (cases negated) (simp_all add: r2)
  have "length r3 \<le> length r2"
    by (simp add: r3)
  moreover have "length r3 \<le> length xs" if "x = comma"
    using neg r1 r2 rest that by (simp add: r3)
  ultimately show ?thesis
    using less rest by (cases "x = comma") auto
qed

termination match_list_loop
proof (relation "measure (\<lambda>(str, dl, rest, g). length rest)", goal_cases)
  case 2
  from subpattern_progress [OF 2(1-7)] show ?case
    by simp
next
  case 3
  from subpattern_progress [OF 3(1-7)] show ?case
    by simp
qed simp

declare match_list_loop.simps [simp del]

definition match_pattern_list :: "bytes \<Rightarrow> bytes \<Rightarrow> nat \<Rightarrow> bool \<Rightarrow> int" where
  "match_pattern_list str pattern len dolower = match_list_loop str dolower (take len pattern) 0"

definition match_hostname :: "bytes \<Rightarrow> bytes \<Rightarrow> nat \<Rightarrow> int" where
  "match_hostname host pattern len = match_pattern_list host pattern len True"

subsection \<open>Patterns\<close>

text \<open>What a pattern means: an asterisk stands for any bytes, a question mark for one.\<close>

fun glob :: "bytes \<Rightarrow> bytes \<Rightarrow> bool" where
  "glob s [] = (s = [])"
| "glob s (c # p) =
     (if c = asterisk then list_ex (\<lambda>k. glob (drop k s) p) [0..<Suc (length s)]
      else s \<noteq> [] \<and> (c = question \<or> c = hd s) \<and> glob (tl s) p)"

text \<open>The number of runs of asterisks with something behind them, which is what the limit counts.\<close>

function star_runs :: "bytes \<Rightarrow> nat" where
  "star_runs p =
     (case p of [] \<Rightarrow> 0
      | c # rest \<Rightarrow>
          if c = asterisk then
            (case dropWhile (\<lambda>x. x = asterisk) rest of [] \<Rightarrow> 0 | d # rest' \<Rightarrow> Suc (star_runs rest'))
          else star_runs rest)"
  by pat_completeness auto
termination
proof (relation "measure length", goal_cases)
  case (2 p c rest d rest')
  then show ?case
    using length_dropWhile_le [of "\<lambda>x. x = asterisk" rest] by simp
qed simp_all

declare star_runs.simps [simp del]

lemma glob_star_iff: "glob s (asterisk # p) \<longleftrightarrow> (\<exists>k\<le>length s. glob (drop k s) p)"
  by (auto simp: list_ex_iff less_Suc_eq_le simp del: upt_Suc)

lemma glob_star_star: "glob s (asterisk # asterisk # p) = glob s (asterisk # p)"
proof -
  have "(\<exists>k\<le>length s. \<exists>j\<le>length s - k. glob (drop (j + k) s) p) = (\<exists>k\<le>length s. glob (drop k s) p)"
  proof (intro iffI; elim exE conjE)
    fix k j
    assume "k \<le> length s" and "j \<le> length s - k" and "glob (drop (j + k) s) p"
    then show "\<exists>k\<le>length s. glob (drop k s) p"
      by (intro exI [of _ "j + k"]) auto
  next
    fix k
    assume "k \<le> length s" and "glob (drop k s) p"
    then show "\<exists>k\<le>length s. \<exists>j\<le>length s - k. glob (drop (j + k) s) p"
      by (intro exI [of _ k] conjI exI [of _ 0]) auto
  qed
  then show ?thesis
    unfolding glob_star_iff by simp
qed

lemma glob_skip_stars: "glob s (asterisk # p) = glob s (asterisk # dropWhile (\<lambda>x. x = asterisk) p)"
proof (induction p)
  case (Cons c p)
  then show ?case
    using glob_star_star [of s p] by (cases "c = asterisk") simp_all
qed simp

lemma tails_drops: "t \<in> set (tails s) \<longleftrightarrow> (\<exists>k<length s. t = drop k s)"
proof (induction s)
  case (Cons x xs)
  have "(\<exists>k<Suc (length xs). t = drop k (x # xs)) \<longleftrightarrow> t = x # xs \<or> (\<exists>k<length xs. t = drop k xs)"
    by (auto simp: less_Suc_eq_0_disj)
  with Cons show ?case
    by simp
qed simp

text \<open>After a run of asterisks the search tries every position of the string.\<close>

lemma glob_star_next:
  assumes "d \<noteq> asterisk"
  shows "glob s (asterisk # d # p) \<longleftrightarrow>
    (\<exists>t\<in>set (tails s). (d = question \<or> hd t = d) \<and> glob (tl t) p)"
proof -
  have "glob s (asterisk # d # p) \<longleftrightarrow> (\<exists>k\<le>length s. drop k s \<noteq> [] \<and>
      (d = question \<or> d = hd (drop k s)) \<and> glob (tl (drop k s)) p)"
    unfolding glob_star_iff using assms by simp
  also have "\<dots> \<longleftrightarrow> (\<exists>k<length s. (d = question \<or> hd (drop k s) = d) \<and> glob (tl (drop k s)) p)"
    by (auto simp: order_le_less)
  finally show ?thesis
    unfolding Bex_def tails_drops by blast
qed

lemma dropWhile_star_head: "dropWhile (\<lambda>x. x = asterisk) p = d # q \<Longrightarrow> d \<noteq> asterisk"
  using hd_dropWhile [of "\<lambda>x. x = asterisk" p] by simp

lemma match_pattern_star:
  assumes "limit \<noteq> 0" and "dropWhile (\<lambda>x. x = asterisk) rest = d # rest'"
  shows "match_pattern s (asterisk # rest) limit \<longleftrightarrow>
    (\<exists>t\<in>set (tails s).
      if d \<noteq> question then hd t = d \<and> match_pattern (tl t) rest' (limit - 1)
      else match_pattern t (d # rest') (limit - 1))"
  using assms by (simp add: match_pattern.simps [of s "asterisk # rest"] list_ex_iff)

lemma match_pattern_char:
  "limit \<noteq> 0 \<Longrightarrow> c \<noteq> asterisk \<Longrightarrow> match_pattern s (c # rest) limit \<longleftrightarrow>
    (\<exists>x s'. s = x # s' \<and> (c = question \<or> c = x) \<and> match_pattern s' rest limit)"
  by (cases s) (auto simp: match_pattern.simps [of _ "c # rest"])

lemma match_pattern_sound: "match_pattern s p limit \<Longrightarrow> glob s p"
proof (induction s p limit rule: match_pattern.induct)
  case (1 s p limit)
  show ?case
  proof (cases p)
    case Nil
    with "1.prems" show ?thesis
      by (simp add: match_pattern.simps split: if_splits)
  next
    case (Cons c rest)
    have l: "limit \<noteq> 0"
      using "1.prems" by (cases "limit = 0") (simp_all add: match_pattern.simps [of s p 0])
    show ?thesis
    proof (cases "c = asterisk")
      case True
      show ?thesis
      proof (cases "dropWhile (\<lambda>x. x = asterisk) rest")
        case Nil
        have "glob s [asterisk]"
          unfolding glob_star_iff by (intro exI [of _ "length s"]) simp
        then show ?thesis
          using glob_skip_stars [of s rest] Nil \<open>p = c # rest\<close> True by (simp only:)
      next
        case (Cons d rest')
        note q = this
        have d: "d \<noteq> asterisk"
          using q by (rule dropWhile_star_head)
        have "\<exists>t\<in>set (tails s). (d = question \<or> hd t = d) \<and> glob (tl t) rest'"
        proof (cases "d = question")
          case True
          with "1.prems" \<open>p = c # rest\<close> \<open>c = asterisk\<close> q l obtain t where
            "t \<in> set (tails s)" "match_pattern t (d # rest') (limit - 1)"
            by (auto simp: match_pattern_star)
          with "1.IH"(2) [OF l \<open>p = c # rest\<close> \<open>c = asterisk\<close> q, of t] True d show ?thesis
            by auto
        next
          case False
          with "1.prems" \<open>p = c # rest\<close> \<open>c = asterisk\<close> q l obtain t where
            "t \<in> set (tails s)" "hd t = d" "match_pattern (tl t) rest' (limit - 1)"
            by (auto simp: match_pattern_star)
          with "1.IH"(1) [OF l \<open>p = c # rest\<close> \<open>c = asterisk\<close> q False] show ?thesis
            by auto
        qed
        then show ?thesis
          using glob_star_next [OF d] glob_skip_stars [of s rest] q \<open>p = c # rest\<close> True by simp
      qed
    next
      case False
      with "1.prems" l Cons obtain x s' where s: "s = x # s'" "c = question \<or> c = x"
        "match_pattern s' rest limit"
        by (auto simp: match_pattern_char)
      with "1.IH"(3) [OF l Cons False s(1)] Cons False show ?thesis
        by auto
    qed
  qed
qed

lemma match_pattern_complete: "glob s p \<Longrightarrow> star_runs p < limit \<Longrightarrow> match_pattern s p limit"
proof (induction s p limit rule: match_pattern.induct)
  case (1 s p limit)
  have l: "limit \<noteq> 0"
    using "1.prems"(2) by simp
  show ?case
  proof (cases p)
    case Nil
    with "1.prems" l show ?thesis
      by (simp add: match_pattern.simps)
  next
    case (Cons c rest)
    note p = this
    show ?thesis
    proof (cases "c = asterisk")
      case True
      show ?thesis
      proof (cases "dropWhile (\<lambda>x. x = asterisk) rest")
        case Nil
        with p True l show ?thesis
          by (simp add: match_pattern.simps del: dropWhile_eq_Nil_conv)
      next
        case (Cons d rest')
        note q = this
        have d: "d \<noteq> asterisk"
          using q by (rule dropWhile_star_head)
        have runs: "star_runs rest' < limit - 1"
          using "1.prems"(2) p True q by (simp add: star_runs.simps [of "asterisk # rest"])
        have "glob s (asterisk # d # rest')"
          using "1.prems"(1) p True q glob_skip_stars [of s rest] by simp
        then obtain t where t: "t \<in> set (tails s)" "d = question \<or> hd t = d" "glob (tl t) rest'"
          using glob_star_next [OF d] by blast
        show ?thesis
        proof (cases "d = question")
          case True
          have "t \<noteq> []"
            using t(1) by (auto simp: tails_drops)
          with t True have "glob t (d # rest')"
            by simp
          moreover have "star_runs (d # rest') < limit - 1"
            using runs d by (simp add: star_runs.simps [of "d # rest'"])
          ultimately have "match_pattern t (d # rest') (limit - 1)"
            using "1.IH"(2) [OF l p \<open>c = asterisk\<close> q, of t] True t(1) by simp
          with t(1) p \<open>c = asterisk\<close> q True l show ?thesis
            by (auto simp: match_pattern_star)
        next
          case False
          with "1.IH"(1) [OF l p \<open>c = asterisk\<close> q False] t runs have "match_pattern (tl t) rest' (limit - 1)"
            by blast
          with t p \<open>c = asterisk\<close> q False l show ?thesis
            by (auto simp: match_pattern_star)
        qed
      qed
    next
      case False
      then obtain x s' where s: "s = x # s'" "c = question \<or> c = x" "glob s' rest"
        using "1.prems"(1) p by (cases s) auto
      moreover have "star_runs rest < limit"
        using "1.prems"(2) p False by (simp add: star_runs.simps [of "c # rest"])
      ultimately have "match_pattern s' rest limit"
        using "1.IH"(3) [OF l p False s(1)] by auto
      with s p False l show ?thesis
        by (auto simp: match_pattern_char)
    qed
  qed
qed

subsection \<open>Lists of patterns\<close>

text \<open>A subpattern of the list: whether it is negated, and what it matches.\<close>

definition sub_negated :: "bytes \<Rightarrow> bool" where
  "sub_negated t \<longleftrightarrow> t \<noteq> [] \<and> hd t = bang"

definition sub_body :: "bool \<Rightarrow> bytes \<Rightarrow> bytes" where
  "sub_body dolower t = map (\<lambda>x. if dolower then tolower x else x) (if sub_negated t then tl t else t)"

definition sub_matches :: "bool \<Rightarrow> bytes \<Rightarrow> bytes \<Rightarrow> bool" where
  "sub_matches dolower str t \<longleftrightarrow> match_pattern str (sub_body dolower t) MAX_MATCH_RECURSION"

lemma tolower_nonzero: "x \<noteq> 0 \<Longrightarrow> tolower x \<noteq> 0"
proof -
  assume x: "x \<noteq> 0"
  have "x + 32 \<noteq> 0" if "65 \<le> x" "x \<le> 90"
  proof
    assume "x + 32 = 0"
    then have "x = - 32"
      by (simp add: eq_neg_iff_add_eq_0)
    with that show False
      by simp
  qed
  with x show ?thesis
    by (simp add: tolower_def)
qed

lemma sub_body_cstr: "0 \<notin> set t \<Longrightarrow> cstr (sub_body dl t @ [0]) = sub_body dl t"
proof -
  assume t: "0 \<notin> set t"
  then have "0 \<notin> set (if sub_negated t then tl t else t)"
    by (cases t) auto
  then have "0 \<notin> set (map (\<lambda>x. if dl then tolower x else x) (if sub_negated t then tl t else t))"
    using tolower_nonzero by (cases dl) (auto, metis+)
  then have "0 \<notin> set (sub_body dl t)"
    by (simp add: sub_body_def)
  then show ?thesis
    by simp
qed

text \<open>One round of the loop takes one token of the list.\<close>

lemma match_list_loop_token:
  assumes "comma \<notin> set t" and "length t < 1023" and "t @ z \<noteq> []" and "z = [] \<or> hd z = comma"
    and "0 \<notin> set t"
  shows "match_list_loop str dl (t @ z) g =
    (if sub_matches dl str t then if sub_negated t then - 1 else match_list_loop str dl (drop 1 z) 1
     else match_list_loop str dl (drop 1 z) g)"
proof -
  let ?neg = "hd (t @ z) = bang"
  define u where "u = (if sub_negated t then tl t else t)"
  have neg: "?neg = sub_negated t"
    using assms(3,4) by (cases t; cases z) (auto simp: sub_negated_def)
  have r1: "(if sub_negated t then tl (t @ z) else t @ z) = u @ z"
    unfolding u_def by (cases t) (auto simp: sub_negated_def)
  have u: "comma \<notin> set u" "length u < 1023"
    using assms(1,2) by (cases t; auto simp: u_def)+
  have "takeWhile (\<lambda>x. x \<noteq> comma) (u @ z) = u"
    using u(1) assms(4) by (cases z) (auto simp: takeWhile_tail takeWhile_append takeWhile_eq_all_conv)
  moreover have "take 1023 (u @ z) = u @ take (1023 - length u) z"
    using u(2) by simp
  moreover have "takeWhile (\<lambda>x. x \<noteq> comma) (u @ take (1023 - length u) z) = u"
    using u assms(4) by (cases z; cases "1023 - length u")
      (auto simp: takeWhile_tail takeWhile_append takeWhile_eq_all_conv)
  ultimately have sub: "takeWhile (\<lambda>x. x \<noteq> comma) (take 1023 (u @ z)) = u"
    by simp
  have r3: "(if z \<noteq> [] \<and> hd z = comma then tl z else z) = drop 1 z"
    using assms(4) by (cases z) auto
  have body: "map (\<lambda>x. if dl then tolower x else x) u = sub_body dl t"
    by (simp add: u_def sub_body_def)
  show ?thesis
    using u(2) sub_body_cstr [OF assms(5), of dl]
    by (subst match_list_loop.simps)
      (simp only: if_not_P [OF assms(3)] neg Let_def r1 sub append_eq_conv_conj [THEN iffD1, OF refl]
        body r3 sub_matches_def not_le [symmetric] if_False drop_append diff_self_eq_0 drop_0 drop_all
        order_refl append_Nil)
qed

lemma tokens_of_nonempty: "tokens_of sep s \<noteq> []"
  by (simp add: tokens_of.simps)

text \<open>The verdict over a list of tokens: a negated match counts wherever it stands.\<close>

definition verdict :: "('a \<Rightarrow> bool) \<Rightarrow> ('a \<Rightarrow> bool) \<Rightarrow> 'a list \<Rightarrow> int \<Rightarrow> int" where
  "verdict neg matches ts g =
     (if list_ex (\<lambda>t. neg t \<and> matches t) ts then - 1
      else if list_ex (\<lambda>t. \<not> neg t \<and> matches t) ts then 1 else g)"

lemma match_list_loop_verdict:
  assumes "0 \<notin> set p" and "p \<noteq> []" and "\<forall>t\<in>set (tokens_of comma p). length t < 1023"
  shows "match_list_loop str dl p g = verdict sub_negated (sub_matches dl str) (tokens_of comma p) g"
  using assms
proof (induction p arbitrary: g rule: tokens_induct [where sep = comma])
  case (plain s)
  then show ?case
    using match_list_loop_token [of s "[]" str dl g]
    by (auto simp: tokens_of_plain verdict_def match_list_loop.simps [of _ _ "[]"])
next
  case (last t)
  then show ?case
    using match_list_loop_token [of t "[comma]" str dl g]
    by (auto simp: tokens_of_cut verdict_def match_list_loop.simps [of _ _ "[]"])
next
  case (cut t rest)
  have "match_list_loop str dl rest g' = verdict sub_negated (sub_matches dl str) (tokens_of comma rest) g'" for g'
    using cut.prems cut.hyps by (intro cut.IH) (auto simp: tokens_of_cut)
  then show ?case
    using match_list_loop_token [of t "comma # rest" str dl g] cut.prems cut.hyps
    by (auto simp: tokens_of_cut verdict_def)
qed

subsection \<open>Properties\<close>

text \<open>
  C37. Equivalence with the meaning of patterns: what \<^verbatim>\<open>match_pattern\<close> accepts always matches,
  and when the pattern has fewer runs of asterisks than the recursion limit it accepts exactly
  the strings that match.
\<close>

theorem match_pattern_correct:
  "(match_pattern s p limit \<longrightarrow> glob s p) \<and>
   (star_runs p < limit \<longrightarrow> match_pattern s p limit = glob s p)"
  using match_pattern_sound match_pattern_complete by blast

theorem match_pattern_correct_witness:
  "match_pattern (map of_char ''www.host.org'') (map of_char ''*.h?st.*'') 32 \<and>
   \<not> match_pattern (map of_char ''www.host.org'') (map of_char ''*.h?t.*'') 32"
proof -
  have "star_runs (map of_char ''*.h?st.*'') < 32" and "star_runs (map of_char ''*.h?t.*'') < 32"
    and "glob (map of_char ''www.host.org'') (map of_char ''*.h?st.*'')"
    and "\<not> glob (map of_char ''www.host.org'') (map of_char ''*.h?t.*'')"
    by code_simp+
  with match_pattern_correct show ?thesis
    by blast
qed

text \<open>
  C38. Verdict of a pattern list: \<^verbatim>\<open>match_hostname\<close> returns -1 when the host matches a negated
  subpattern, wherever in the list it stands, otherwise 1 when it matches some other
  subpattern, otherwise 0. Subpatterns are compared in lower case; the list's subpatterns are
  shorter than the fixed buffer and have fewer runs of asterisks than the recursion limit.
\<close>

theorem match_hostname_verdict:
  assumes "0 \<notin> set (take len pattern)"
    and "\<forall>t\<in>set (tokens_of comma (take len pattern)).
      length t < 1023 \<and> star_runs (sub_body True t) < MAX_MATCH_RECURSION"
  shows "match_hostname host pattern len =
    (if take len pattern = [] then 0
     else if \<exists>t\<in>set (tokens_of comma (take len pattern)). sub_negated t \<and> glob host (sub_body True t) then - 1
     else if \<exists>t\<in>set (tokens_of comma (take len pattern)). \<not> sub_negated t \<and> glob host (sub_body True t) then 1
     else 0)"
proof (cases "take len pattern = []")
  case True
  then show ?thesis
    by (simp add: match_hostname_def match_pattern_list_def match_list_loop.simps)
next
  case False
  have m: "sub_matches True host t = glob host (sub_body True t)"
    if "t \<in> set (tokens_of comma (take len pattern))" for t
    using assms(2) that match_pattern_sound match_pattern_complete by (auto simp: sub_matches_def)
  have "match_hostname host pattern len =
      verdict sub_negated (sub_matches True host) (tokens_of comma (take len pattern)) 0"
    using match_list_loop_verdict [OF assms(1) False, of host True 0] assms(2)
    by (simp add: match_hostname_def match_pattern_list_def)
  with False m show ?thesis
    by (auto simp: verdict_def list_ex_iff)
qed

theorem match_hostname_verdict_witness:
  "match_hostname (map of_char ''db.lan'') (map of_char ''*.LAN,!db.*'') 11 = - 1 \<and>
   match_hostname (map of_char ''web.lan'') (map of_char ''*.LAN,!db.*'') 11 = 1"
proof -
  let ?p = "map of_char ''*.LAN,!db.*'' :: bytes"
  have len: "take 11 ?p = ?p" and "?p \<noteq> []"
    by simp_all
  moreover have "0 \<notin> set ?p" and "\<forall>t\<in>set (tokens_of comma ?p).
      length t < 1023 \<and> star_runs (sub_body True t) < MAX_MATCH_RECURSION"
    and "\<exists>t\<in>set (tokens_of comma ?p). sub_negated t \<and> glob (map of_char ''db.lan'') (sub_body True t)"
    and "\<not> (\<exists>t\<in>set (tokens_of comma ?p). sub_negated t \<and> glob (map of_char ''web.lan'') (sub_body True t))"
    and "\<exists>t\<in>set (tokens_of comma ?p). \<not> sub_negated t \<and> glob (map of_char ''web.lan'') (sub_body True t)"
    by code_simp+
  ultimately show ?thesis
    using match_hostname_verdict [of 11 ?p "map of_char ''db.lan''"]
      match_hostname_verdict [of 11 ?p "map of_char ''web.lan''"]
    unfolding len by simp
qed

end
