(* ===== verification/Misc.thy ===== *)
theory Misc
  imports Tokens
begin

text \<open>
  Helpers of \<^verbatim>\<open>src/libssh/src/misc.c\<close>: quoting a file name for a shell, making newlines visible,
  hexadecimal strings, comparing with a comma-separated group, the 64-bit packet counter,
  timestamps and timeouts, and the components of a path. A result block the caller passes in
  is a list of bytes that is written in place; the clock is an argument.
\<close>

subsection \<open>Quoting\<close>

abbreviation squote :: u8 where "squote \<equiv> 39"
abbreviation dquote :: u8 where "dquote \<equiv> 34"
abbreviation backslash :: u8 where "backslash \<equiv> 92"
abbreviation bang :: u8 where "bang \<equiv> 33"
abbreviation newline :: u8 where "newline \<equiv> 10"

datatype ssh_quote_state = NO_QUOTE | SINGLE_QUOTE | DOUBLE_QUOTE

text \<open>One round of the loop: what is written in front of the character, and the next state.\<close>

definition quote_char :: "ssh_quote_state \<Rightarrow> u8 \<Rightarrow> bytes \<times> ssh_quote_state" where
  "quote_char state c =
     (if c = squote then
        (case state of NO_QUOTE \<Rightarrow> [dquote] | SINGLE_QUOTE \<Rightarrow> [squote, dquote] | DOUBLE_QUOTE \<Rightarrow> [],
         DOUBLE_QUOTE)
      else if c = bang then
        (case state of NO_QUOTE \<Rightarrow> [backslash] | SINGLE_QUOTE \<Rightarrow> [squote, backslash]
           | DOUBLE_QUOTE \<Rightarrow> [dquote, backslash],
         NO_QUOTE)
      else
        (case state of NO_QUOTE \<Rightarrow> [squote] | SINGLE_QUOTE \<Rightarrow> [] | DOUBLE_QUOTE \<Rightarrow> [dquote, squote],
         SINGLE_QUOTE))"

fun quote_loop :: "ssh_quote_state \<Rightarrow> bytes \<Rightarrow> bytes" where
  "quote_loop state [] =
     (case state of NO_QUOTE \<Rightarrow> [] | SINGLE_QUOTE \<Rightarrow> [squote] | DOUBLE_QUOTE \<Rightarrow> [dquote])"
| "quote_loop state (c # src) =
     (case quote_char state c of (pre, state') \<Rightarrow> pre @ [c] @ quote_loop state' src)"

definition ssh_quote_file_name :: "bytes option \<Rightarrow> bytes option \<Rightarrow> nat \<Rightarrow> int \<times> bytes option" where
  "ssh_quote_file_name file_name buf buf_len =
     (case (file_name, buf) of
        (Some f, Some b) \<Rightarrow>
          if buf_len = 0 then (SSH_ERROR, buf)
          else if strlen f > 32 * 1024 then (SSH_ERROR, buf)
          else if 3 * strlen f + 1 > buf_len then (SSH_ERROR, buf)
          else
            let out = quote_loop NO_QUOTE (cstr f)
            in (int (length out), Some (mem_write b 0 (out @ [0])))
      | _ \<Rightarrow> (SSH_ERROR, buf))"

fun newline_loop :: "bytes \<Rightarrow> bytes" where
  "newline_loop [] = []"
| "newline_loop (c # src) = (if c = newline then [backslash, 110] else [c]) @ newline_loop src"

definition ssh_newline_vis :: "bytes option \<Rightarrow> bytes option \<Rightarrow> nat \<Rightarrow> int \<times> bytes option" where
  "ssh_newline_vis str buf buf_len =
     (case (str, buf) of
        (Some s, Some b) \<Rightarrow>
          if buf_len = 0 then (SSH_ERROR, buf)
          else if 2 * strlen s + 1 > buf_len then (SSH_ERROR, buf)
          else
            let out = newline_loop (cstr s)
            in (int (length out), Some (mem_write b 0 (out @ [0])))
      | _ \<Rightarrow> (SSH_ERROR, buf))"

subsection \<open>Groups, counters and hexadecimal strings\<close>

text \<open>\<^verbatim>\<open>strncmp(z, object, n) == 0\<close>, where none of the first \<open>n\<close> bytes of \<open>z\<close> is the terminator.\<close>

definition strncmp_eq :: "bytes \<Rightarrow> bytes \<Rightarrow> nat \<Rightarrow> bool" where
  "strncmp_eq z obj n \<longleftrightarrow> take n z = take n (obj @ [0])"

function match_group_loop :: "bytes \<Rightarrow> bytes \<Rightarrow> bool" where
  "match_group_loop z obj =
     (case find_sep (z @ [0]) comma of
        None \<Rightarrow> z = obj
      | Some n \<Rightarrow> if strncmp_eq z obj n then True else match_group_loop (drop (Suc n) z) obj)"
  by pat_completeness auto

lemma find_sep_bound: "find_sep xs sep = Some n \<Longrightarrow> n < length xs \<and> xs ! n = sep"
  by (induction xs arbitrary: n) (auto split: if_splits)

termination match_group_loop
proof (relation "measure (\<lambda>(z, obj). length z)", goal_cases)
  case (2 z obj n)
  then have "n < length (z @ [0])" and "(z @ [0]) ! n = comma"
    using find_sep_bound by blast+
  then show ?case
    by (auto simp: nth_append split: if_splits)
qed simp

declare match_group_loop.simps [simp del]

definition ssh_match_group :: "bytes \<Rightarrow> bytes \<Rightarrow> int" where
  "ssh_match_group grp obj = (if match_group_loop (cstr grp) (cstr obj) then 1 else 0)"

fun uint64_inc_from :: "nat \<Rightarrow> bytes \<Rightarrow> bytes" where
  "uint64_inc_from 0 counter = counter"
| "uint64_inc_from (Suc i) counter =
     (let c = counter[i := counter ! i + 1] in if c ! i \<noteq> 0 then c else uint64_inc_from i c)"

definition uint64_inc :: "bytes \<Rightarrow> bytes" where
  "uint64_inc counter = uint64_inc_from 8 counter"

definition hex_digits :: bytes where
  "hex_digits = map of_char ''0123456789abcdef''"

text \<open>\<^verbatim>\<open>hexa[hlen - 1] = 0\<close> is a write outside the block when the length is 0.\<close>

definition ssh_get_hexa :: "heap \<Rightarrow> bytes \<Rightarrow> nat \<Rightarrow> bytes option run" where
  "ssh_get_hexa h what len =
     (let hlen = wrap64 (len * 3) in
      if len > (4294967295 - 1) div 3 then Ret None
      else case malloc h (hlen + 1) of
          None \<Rightarrow> Ret None
        | Some hexa \<Rightarrow>
            let filled = mem_write hexa 0 (concat (map (\<lambda>b.
                  [hex_digits ! unat (drop_bit 4 b AND 15), hex_digits ! unat (b AND 15), 58]) (take len what)))
            in if hlen = 0 then Overflow else Ret (Some (filled[hlen - 1 := 0])))"

subsection \<open>Time\<close>

record ssh_timestamp =
  ts_seconds :: int
  ts_useconds :: int

text \<open>The conversion of a \<^verbatim>\<open>long\<close> to an \<^verbatim>\<open>int\<close>.\<close>

definition to_int32 :: "int \<Rightarrow> int" where
  "to_int32 n = (n + 2147483648) mod 4294967296 - 2147483648"

definition ssh_timestamp_difference :: "ssh_timestamp \<Rightarrow> ssh_timestamp \<Rightarrow> int" where
  "ssh_timestamp_difference old new =
     (let seconds = ts_seconds new - ts_seconds old;
          usecs = ts_useconds new - ts_useconds old;
          (seconds, usecs) = (if usecs < 0 then (seconds - 1, usecs + 1000000) else (seconds, usecs))
      in to_int32 (seconds * 1000 + usecs div 1000))"

definition ssh_make_milliseconds :: "int \<Rightarrow> int \<Rightarrow> int" where
  "ssh_make_milliseconds sec usec =
     (let res = to_int32 ((if usec \<noteq> 0 then to_int32 (usec div 1000) else 0) + sec * 1000)
      in if res = 0 then 10 * 1000 else res)"

definition ssh_timeout_elapsed :: "ssh_timestamp \<Rightarrow> ssh_timestamp \<Rightarrow> int \<Rightarrow> bool" where
  "ssh_timeout_elapsed now ts timeout =
     (if timeout = - 2 then False
      else if timeout = - 1 then False
      else if timeout = 0 then True
      else ssh_timestamp_difference ts now \<ge> timeout)"

definition ssh_timeout_update :: "ssh_timestamp \<Rightarrow> ssh_timestamp \<Rightarrow> int \<Rightarrow> int" where
  "ssh_timeout_update now ts timeout =
     (if timeout \<le> 0 then timeout
      else
        let ms0 = ssh_timestamp_difference ts now;
            ms = (if ms0 < 0 then 0 else ms0);
            ret = timeout - ms
        in if ret \<ge> 0 then ret else 0)"

subsection \<open>Paths\<close>

abbreviation slash :: u8 where "slash \<equiv> 47"

fun back_while :: "(u8 \<Rightarrow> bool) \<Rightarrow> bytes \<Rightarrow> nat \<Rightarrow> nat" where
  "back_while P path 0 = 0"
| "back_while P path (Suc len) = (if P (path ! len) then back_while P path len else Suc len)"

definition copy_prefix :: "heap \<Rightarrow> bytes \<Rightarrow> nat \<Rightarrow> bytes option" where
  "copy_prefix h s len =
     map_option (\<lambda>new. (mem_write new 0 (take len s))[len := 0]) (malloc h (len + 1))"

definition ssh_dirname :: "heap \<Rightarrow> bytes option \<Rightarrow> bytes option" where
  "ssh_dirname h path =
     (case path of
        None \<Rightarrow> strdup h (map of_char ''.'')
      | Some m \<Rightarrow>
          if strlen m = 0 then strdup h (map of_char ''.'')
          else
            let p = cstr m; len = back_while (\<lambda>c. c = slash) p (length p) in
            if len = 0 then strdup h (map of_char ''/'')
            else
              let len = back_while (\<lambda>c. c \<noteq> slash) p len in
              if len = 0 then strdup h (map of_char ''.'')
              else if len = 1 then strdup h (map of_char ''/'')
              else copy_prefix h p (back_while (\<lambda>c. c = slash) p len))"

definition ssh_basename :: "heap \<Rightarrow> bytes option \<Rightarrow> bytes option" where
  "ssh_basename h path =
     (case path of
        None \<Rightarrow> strdup h (map of_char ''.'')
      | Some m \<Rightarrow>
          if strlen m = 0 then strdup h (map of_char ''.'')
          else
            let p = cstr m; len = back_while (\<lambda>c. c = slash) p (length p) in
            if len = 0 then strdup h (map of_char ''/'')
            else
              let len = back_while (\<lambda>c. c \<noteq> slash) p len in
              if len > 0 then
                let s = drop len p in copy_prefix h s (back_while (\<lambda>c. c = slash) s (length s))
              else strdup h p)"

definition ssh_lowercase :: "heap \<Rightarrow> bytes option \<Rightarrow> bytes option" where
  "ssh_lowercase h str =
     (case str of None \<Rightarrow> None
      | Some s \<Rightarrow>
          map_option (map (\<lambda>x. if 65 \<le> x \<and> x \<le> 90 then x + 32 else x)) (strdup h (cstr s)))"

text \<open>\<^verbatim>\<open>isspace\<close> of the C locale, and the digits \<^verbatim>\<open>printf\<close> writes in a base up to ten.\<close>

definition isspace :: "u8 \<Rightarrow> bool" where
  "isspace c \<longleftrightarrow> c = 32 \<or> (9 \<le> c \<and> c \<le> 13)"

function in_base :: "nat \<Rightarrow> nat \<Rightarrow> bytes" where
  "in_base base n = (if base < 2 then [] else if n < base then [of_nat (48 + n)]
     else in_base base (n div base) @ [of_nat (48 + n mod base)])"
  by pat_completeness auto

termination
  by (relation "measure snd") auto

declare in_base.simps [simp del]

text \<open>\<^verbatim>\<open>snprintf\<close> leaves at most eight more bytes than the host has.\<close>

definition ssh_hostport :: "heap \<Rightarrow> bytes option \<Rightarrow> nat \<Rightarrow> bytes option" where
  "ssh_hostport h host port =
     (case host of
        None \<Rightarrow> None
      | Some s \<Rightarrow>
          if \<not> heap_grants h (strlen s + 9) then None
          else Some (take (strlen s + 8) ([91] @ cstr s @ [93, 58] @ in_base 10 port) @ [0]))"

subsection \<open>A shell reads the quoted name back\<close>

text \<open>
  How a shell takes a word apart. Nothing but the escaped exclamation mark may stand
  unquoted, and inside double quotes nothing may stand that a shell would expand; otherwise
  the word is rejected.
\<close>

fun shell_word :: "ssh_quote_state \<Rightarrow> bytes \<Rightarrow> bytes option" where
  "shell_word NO_QUOTE [] = Some []"
| "shell_word NO_QUOTE (c # w) =
     (if c = squote then shell_word SINGLE_QUOTE w
      else if c = dquote then shell_word DOUBLE_QUOTE w
      else if c = backslash then
        (case w of x # w' \<Rightarrow> if x = bang then map_option ((#) x) (shell_word NO_QUOTE w') else None | [] \<Rightarrow> None)
      else None)"
| "shell_word SINGLE_QUOTE [] = None"
| "shell_word SINGLE_QUOTE (c # w) =
     (if c = squote then shell_word NO_QUOTE w
      else if c = bang then None
      else map_option ((#) c) (shell_word SINGLE_QUOTE w))"
| "shell_word DOUBLE_QUOTE [] = None"
| "shell_word DOUBLE_QUOTE (c # w) =
     (if c = dquote then shell_word NO_QUOTE w
      else if c = squote then map_option ((#) c) (shell_word DOUBLE_QUOTE w)
      else None)"

lemma shell_word_quote_loop: "shell_word state (quote_loop state s) = Some s"
proof (induction s arbitrary: state)
  case Nil
  show ?case
    by (cases state) auto
next
  case (Cons c s)
  show ?case
    by (cases state) (auto simp: quote_char_def Cons)
qed

lemma quote_loop_no_nul: "0 \<notin> set s \<Longrightarrow> 0 \<notin> set (quote_loop state s)"
proof (induction s arbitrary: state)
  case Nil
  show ?case
    by (cases state) auto
next
  case (Cons c s)
  then show ?case
    by (cases state) (auto simp: quote_char_def)
qed

lemma length_quote_loop:
  "length (quote_loop state s) \<le> 3 * length s + (if state = NO_QUOTE \<and> s = [] then 0 else 1) -
    (if state = NO_QUOTE \<and> s \<noteq> [] then 1 else 0)"
proof (induction s arbitrary: state)
  case Nil
  show ?case
    by (cases state) auto
next
  case (Cons c s)
  have IH: "length (quote_loop st s) \<le> 3 * length s + (if st = NO_QUOTE then 0 else 1)" for st
    using Cons [of st] by (auto split: if_splits)
  show ?case
    using IH [of NO_QUOTE] IH [of SINGLE_QUOTE] IH [of DOUBLE_QUOTE]
    by (cases state) (auto simp: quote_char_def)
qed

lemma quote_length_bound: "length (quote_loop NO_QUOTE s) \<le> 3 * length s"
  using length_quote_loop [of NO_QUOTE s] by (cases s) auto

lemma write_terminated:
  "length out < length b \<Longrightarrow> 0 \<notin> set out \<Longrightarrow>
    length (mem_write b 0 (out @ [0])) = length b \<and> cstr (mem_write b 0 (out @ [0])) = out"
  by (simp add: mem_write_def)

subsection \<open>Groups and counters\<close>

text \<open>The elements of a group: all pieces between commas.\<close>

fun elements :: "bytes \<Rightarrow> bytes list" where
  "elements [] = [[]]"
| "elements (x # xs) =
     (if x = comma then [] # elements xs
      else case elements xs of t # ts \<Rightarrow> (x # t) # ts | [] \<Rightarrow> [[x]])"

lemma elements_plain: "comma \<notin> set t \<Longrightarrow> elements t = [t]"
  by (induction t) auto

lemma elements_cut: "comma \<notin> set t \<Longrightarrow> elements (t @ comma # rest) = t # elements rest"
  by (induction t) auto

lemma elements_nonempty [simp]: "elements xs \<noteq> []"
  by (induction xs) (auto split: list.splits)

lemma match_group_step:
  assumes "0 \<notin> set t" and "comma \<notin> set t" and "0 \<notin> set rest" and "0 \<notin> set obj"
  shows "match_group_loop (t @ comma # rest) obj \<longleftrightarrow>
    take (length t) obj = t \<or> match_group_loop rest obj"
proof -
  let ?z = "t @ comma # rest"
  have sep: "find_sep (?z @ [0]) comma = Some (length t)"
    using find_sep_cut [of comma t "rest @ [0]"] assms by simp
  have "strncmp_eq ?z obj (length t) \<longleftrightarrow> take (length t) obj = t"
  proof (cases "length t \<le> length obj")
    case True
    then show ?thesis
      by (auto simp: strncmp_eq_def)
  next
    case False
    then have "0 \<in> set (take (length t) (obj @ [0]))" and "length (take (length t) obj) \<noteq> length t"
      by auto
    with assms(1) show ?thesis
      by (auto simp: strncmp_eq_def)
  qed
  moreover have "drop (Suc (length t)) ?z = rest"
    by simp
  ultimately show ?thesis
    by (subst match_group_loop.simps) (simp only: sep option.case if_bool_eq_disj simp_thms, blast)
qed

lemma match_group_elements:
  "0 \<notin> set z \<Longrightarrow> 0 \<notin> set obj \<Longrightarrow>
    match_group_loop z obj \<longleftrightarrow>
      last (elements z) = obj \<or> (\<exists>t\<in>set (butlast (elements z)). take (length t) obj = t)"
proof (induction z rule: tokens_induct [where sep = comma])
  case (plain s)
  then have "find_sep (s @ [0]) comma = None"
    by (intro find_sep_plain) auto
  with plain show ?case
    by (auto simp: match_group_loop.simps [of s] elements_plain)
next
  case (last t)
  have "match_group_loop [] obj \<longleftrightarrow> obj = []"
    by (auto simp: match_group_loop.simps [of "[]"])
  with last match_group_step [of t "[]" obj] elements_cut [of t "[]"] show ?case
    by auto
next
  case (cut t rest)
  with match_group_step [of t rest obj] elements_cut [of t rest] show ?case
    by auto
qed

definition be_val :: "bytes \<Rightarrow> nat" where
  "be_val bs = le_dec (rev bs)"

lemma be_val_snoc [simp]: "be_val (xs @ [b]) = unat b + 256 * be_val xs"
  by (simp add: be_val_def)

lemma be_val_less: "be_val xs < 256 ^ length xs"
  using le_dec_less [of "rev xs"] by (simp add: be_val_def)

lemma unat_inc_u8: "unat (b + 1 :: u8) = (unat b + 1) mod 256"
  by (simp add: unat_word_ariths)

lemma uint64_inc_from_value:
  "i \<le> length c \<Longrightarrow>
    length (uint64_inc_from i c) = length c \<and> drop i (uint64_inc_from i c) = drop i c \<and>
    be_val (take i (uint64_inc_from i c)) = (be_val (take i c) + 1) mod 256 ^ i"
proof (induction i arbitrary: c)
  case 0
  show ?case
    by (simp add: be_val_def)
next
  case (Suc i)
  let ?c = "c[i := c ! i + 1]" and ?u = "unat (c ! i)" and ?v = "be_val (take i c)"
  have i: "i < length c"
    using Suc.prems by simp
  have val: "be_val (take (Suc i) c) = ?u + 256 * ?v"
    using i by (simp add: take_Suc_conv_app_nth)
  show ?case
  proof (cases "c ! i + 1 = 0")
    case False
    then have "unat (c ! i + 1) \<noteq> 0"
      by (simp add: unat_eq_0)
    then have "?u \<noteq> 255"
      by (auto simp: unat_inc_u8)
    moreover have "?u < 256"
      by (rule unat_u8)
    ultimately have u: "?u < 255"
      by linarith
    have "?u + 1 + 256 * ?v < 256 ^ Suc i"
    proof -
      have "?v < 256 ^ i"
        using be_val_less [of "take i c"] i by simp
      then have "256 * ?v + 256 \<le> 256 * 256 ^ i"
        by simp
      with u show ?thesis
        by simp
    qed
    moreover have "be_val (take (Suc i) ?c) = ?u + 1 + 256 * ?v"
      using i u by (simp add: take_Suc_conv_app_nth unat_inc_u8)
    ultimately show ?thesis
      using False i val by simp
  next
    case True
    then have "unat (c ! i + 1) = 0"
      by simp
    then have u: "?u = 255"
      using unat_u8 [of "c ! i"] by (auto simp: unat_inc_u8 mod_Suc split: if_splits)
    have IH: "length (uint64_inc_from i ?c) = length ?c" "drop i (uint64_inc_from i ?c) = drop i ?c"
      "be_val (take i (uint64_inc_from i ?c)) = (be_val (take i ?c) + 1) mod 256 ^ i"
      using Suc.IH [of ?c] i by simp_all
    have at: "uint64_inc_from i ?c ! i = 0"
      using arg_cong [OF IH(2), of hd] i IH(1) True by (simp add: hd_drop_conv_nth)
    have "drop (Suc i) (uint64_inc_from i ?c) = drop (Suc i) c"
      using arg_cong [OF IH(2), of "drop 1"] by simp
    moreover have "be_val (take (Suc i) (uint64_inc_from i ?c)) = 256 * ((?v + 1) mod 256 ^ i)"
      using IH(1,3) i at by (simp add: take_Suc_conv_app_nth)
    moreover have "256 * ((?v + 1) mod 256 ^ i) = (be_val (take (Suc i) c) + 1) mod 256 ^ Suc i"
      by (simp add: val u mult_mod_right)
    ultimately show ?thesis
      using True i IH(1) by simp
  qed
qed

subsection \<open>Paths\<close>

lemma back_while_all: "\<forall>c\<in>set (drop k (take n p)). P c \<Longrightarrow> k \<le> n \<Longrightarrow> n \<le> length p \<Longrightarrow>
    back_while P p n = back_while P p k"
proof (induction n)
  case (Suc n)
  show ?case
  proof (cases "k = Suc n")
    case False
    have n: "n < length p"
      using Suc.prems(3) by simp
    have "drop k (take (Suc n) p) = drop k (take n p) @ [p ! n]"
      using False Suc.prems n by (simp add: take_Suc_conv_app_nth)
    with Suc False show ?thesis
      by simp
  qed simp
qed simp

lemma back_while_stop: "0 < n \<Longrightarrow> \<not> P (p ! (n - 1)) \<Longrightarrow> back_while P p n = n"
  by (cases n) auto

lemma copy_prefix_Some:
  assumes "\<forall>n. heap_grants h n" and "n \<le> length s"
  shows "copy_prefix h s n = Some (take n s @ [0])"
proof -
  obtain m where m: "malloc h (n + 1) = Some m"
    using assms(1) by (simp add: malloc_def)
  then have len: "length m = n + 1"
    by (rule malloc_length)
  then have "length (drop n m) = Suc 0"
    by simp
  then obtain x where "drop n m = [x]"
    unfolding length_Suc_conv by auto
  with m assms(2) show ?thesis
    by (simp add: copy_prefix_def mem_write_def list_update_append)
qed

text \<open>A path with a directory, a name without slashes, and any number of trailing slashes.\<close>

lemma path_parts:
  fixes d b :: bytes
  defines "p k \<equiv> d @ slash # b @ replicate k slash"
  assumes "b \<noteq> []" and "slash \<notin> set b"
  shows "back_while (\<lambda>c. c = slash) (p k) (length (p k)) = Suc (length d + length b)"
    and "back_while (\<lambda>c. c \<noteq> slash) (p k) (Suc (length d + length b)) = Suc (length d)"
proof -
  let ?n = "Suc (length d + length b)"
  have last: "last b \<noteq> slash"
    using assms(2,3) last_in_set [of b] by metis
  have "drop ?n (p k) = replicate k slash"
    by (simp add: p_def)
  then have "back_while (\<lambda>c. c = slash) (p k) (length (p k)) = back_while (\<lambda>c. c = slash) (p k) ?n"
    by (intro back_while_all) (auto simp: p_def)
  moreover have "p k ! (?n - 1) = last b"
    using assms(2) by (simp add: p_def nth_append last_conv_nth)
  ultimately show "back_while (\<lambda>c. c = slash) (p k) (length (p k)) = ?n"
    using back_while_stop [of ?n "\<lambda>c. c = slash" "p k"] last assms(2) by simp
  have "drop (Suc (length d)) (take ?n (p k)) = b"
    by (simp add: p_def)
  then have "back_while (\<lambda>c. c \<noteq> slash) (p k) ?n = back_while (\<lambda>c. c \<noteq> slash) (p k) (Suc (length d))"
    using assms(3) by (intro back_while_all) (auto simp: p_def)
  then show "back_while (\<lambda>c. c \<noteq> slash) (p k) ?n = Suc (length d)"
    by (simp add: back_while_stop p_def nth_append)
qed

subsection \<open>Properties\<close>

text \<open>
  C40. Shell quoting: for a buffer of the documented size \<^verbatim>\<open>ssh_quote_file_name\<close> stays inside
  it, returns the length of what it wrote, and a shell that reads the result back gets
  exactly the file name, with nothing unquoted but the escaped exclamation mark.
\<close>

theorem ssh_quote_file_name_correct:
  assumes "strlen f \<le> 32 * 1024" and "3 * strlen f + 1 \<le> length b"
  shows "\<exists>b'. ssh_quote_file_name (Some f) (Some b) (length b) = (int (strlen b'), Some b') \<and>
    length b' = length b \<and> strlen b' \<le> 3 * strlen f \<and> shell_word NO_QUOTE (cstr b') = Some (cstr f)"
proof -
  let ?out = "quote_loop NO_QUOTE (cstr f)"
  have len: "length ?out \<le> 3 * strlen f"
    using quote_length_bound [of "cstr f"] by (simp add: length_cstr)
  have w: "length (mem_write b 0 (?out @ [0])) = length b" "cstr (mem_write b 0 (?out @ [0])) = ?out"
    using write_terminated [of ?out b] quote_loop_no_nul [of "cstr f" NO_QUOTE] len assms(2) by auto
  moreover have "strlen (mem_write b 0 (?out @ [0])) = length ?out"
    by (simp flip: length_cstr add: w(2))
  ultimately show ?thesis
    using assms len
    by (intro exI [of _ "mem_write b 0 (?out @ [0])"])
      (auto simp: ssh_quote_file_name_def shell_word_quote_loop Let_def)
qed

theorem ssh_quote_file_name_correct_witness:
  "\<exists>b'. ssh_quote_file_name (Some [97, 33, 39, 98, 0]) (Some (replicate 13 0)) 13 = (int (strlen b'), Some b') \<and>
    shell_word NO_QUOTE (cstr b') = Some [97, 33, 39, 98]"
proof -
  have "strlen [97, 33, 39, 98, 0] = 4" and "cstr [97, 33, 39, 98, 0] = [97, 33, 39, 98]"
    by code_simp+
  with ssh_quote_file_name_correct [of "[97, 33, 39, 98, 0]" "replicate 13 0"] show ?thesis
    by auto
qed

text \<open>
  The packet counter: \<^verbatim>\<open>uint64_inc\<close> adds one to the eight bytes read as a big-endian
  number, modulo two to the 64, and leaves the bytes behind them alone.
\<close>

theorem uint64_inc_correct:
  assumes "8 \<le> length c"
  shows "be_val (take 8 (uint64_inc c)) = (be_val (take 8 c) + 1) mod 2 ^ 64 \<and>
    drop 8 (uint64_inc c) = drop 8 c \<and> length (uint64_inc c) = length c"
  using uint64_inc_from_value [OF assms] by (simp add: uint64_inc_def)

theorem uint64_inc_correct_witness:
  "be_val (take 8 (uint64_inc [0, 0, 0, 0, 0, 1, 255, 255])) = 131072"
proof -
  let ?c = "[0, 0, 0, 0, 0, 1, 255, 255] :: bytes"
  have val: "be_val (take 8 ?c) = 131071" and "8 \<le> length ?c"
    by code_simp+
  from uint64_inc_correct [OF this(2)] have "be_val (take 8 (uint64_inc ?c)) = (be_val (take 8 ?c) + 1) mod 2 ^ 64"
    by (rule conjunct1)
  then show ?thesis
    unfolding val by simp
qed

text \<open>
  \<^verbatim>\<open>ssh_timeout_elapsed\<close> and \<^verbatim>\<open>ssh_timeout_update\<close> agree: for a positive timeout, elapsed
  means that no time is left. While the difference fits an \<^verbatim>\<open>int\<close> both follow the clock: the
  timeout has elapsed exactly when that many milliseconds have passed.
\<close>

theorem ssh_timeout_consistent:
  assumes "0 < timeout" and "0 \<le> ts_useconds ts" and "ts_useconds ts < 1000000"
    and "0 \<le> ts_useconds now" and "ts_useconds now < 1000000"
  defines "us \<equiv> (ts_seconds now - ts_seconds ts) * 1000000 + (ts_useconds now - ts_useconds ts)"
  shows "(ssh_timeout_elapsed now ts timeout \<longleftrightarrow> ssh_timeout_update now ts timeout = 0) \<and>
    (\<bar>us\<bar> < 2147483648 * 1000 \<longrightarrow> (ssh_timeout_elapsed now ts timeout \<longleftrightarrow> timeout * 1000 \<le> us))"
proof -
  let ?d = "ssh_timestamp_difference ts now"
  have "?d = us div 1000" if "\<bar>us\<bar> < 2147483648 * 1000"
  proof -
    define s u where "s = ts_seconds now - ts_seconds ts" and "u = ts_useconds now - ts_useconds ts"
    have us: "us = s * 1000000 + u"
      by (simp add: us_def s_def u_def)
    have small: "to_int32 (us div 1000) = us div 1000"
      using that unfolding to_int32_def by (subst mod_pos_pos_trivial) linarith+
    have "us div 1000 = s * 1000 + u div 1000" and "(u + 1000000) div 1000 = u div 1000 + 1000"
      unfolding us by linarith+
    with small show ?thesis
      by (simp add: algebra_simps ssh_timestamp_difference_def Let_def flip: s_def u_def)
  qed
  moreover have "timeout \<le> us div 1000 \<longleftrightarrow> timeout * 1000 \<le> us"
    by linarith
  ultimately show ?thesis
    using assms(1) by (auto simp: ssh_timeout_elapsed_def ssh_timeout_update_def Let_def)
qed

theorem ssh_timeout_consistent_witness:
  "ssh_timeout_elapsed \<lparr>ts_seconds = 12, ts_useconds = 100\<rparr> \<lparr>ts_seconds = 10, ts_useconds = 999000\<rparr> 1001"
  using ssh_timeout_consistent [of 1001 "\<lparr>ts_seconds = 10, ts_useconds = 999000\<rparr>"
      "\<lparr>ts_seconds = 12, ts_useconds = 100\<rparr>"]
  by auto

text \<open>
  Taking a path apart: for a path made of a directory, a slash, a name without slashes
  and any number of trailing slashes, \<^verbatim>\<open>ssh_dirname\<close> returns the directory and \<^verbatim>\<open>ssh_basename\<close>
  the name.
\<close>

theorem ssh_dirname_basename_split:
  assumes "\<forall>n. heap_grants h n" and "cstr m = d @ slash # b @ replicate k slash"
    and "b \<noteq> []" and "slash \<notin> set b" and "d \<noteq> []" and "last d \<noteq> slash"
  shows "ssh_dirname h (Some m) = Some (d @ [0]) \<and> ssh_basename h (Some m) = Some (b @ [0])"
proof -
  let ?p = "d @ slash # b @ replicate k slash"
  have ne: "strlen m \<noteq> 0"
    using assms(2) by (simp flip: length_cstr)
  note parts = path_parts [OF assms(3,4), of d k]
  have "back_while (\<lambda>c. c = slash) ?p (Suc (length d)) = length d"
    using assms(5,6) back_while_stop [of "length d" "\<lambda>c. c = slash" ?p]
    by (simp add: nth_append last_conv_nth)
  moreover have "copy_prefix h ?p (length d) = Some (d @ [0])"
    using copy_prefix_Some [OF assms(1), of "length d" ?p] by simp
  moreover have "back_while (\<lambda>c. c = slash) (b @ replicate k slash) (length (b @ replicate k slash)) = length b"
  proof -
    have "back_while (\<lambda>c. c = slash) (b @ replicate k slash) (length (b @ replicate k slash)) =
        back_while (\<lambda>c. c = slash) (b @ replicate k slash) (length b)"
      by (rule back_while_all) auto
    moreover have "(b @ replicate k slash) ! (length b - 1) \<noteq> slash"
    proof -
      have "b ! (length b - 1) \<in> set b"
        using assms(3) by (intro nth_mem) simp
      then have "b ! (length b - 1) \<noteq> slash"
        using assms(4) by metis
      with assms(3) show ?thesis
        by (simp add: nth_append)
    qed
    ultimately show ?thesis
      using assms(3) back_while_stop [of "length b" "\<lambda>c. c = slash"] by simp
  qed
  moreover have "copy_prefix h (b @ replicate k slash) (length b) = Some (b @ [0])"
    using copy_prefix_Some [OF assms(1), of "length b" "b @ replicate k slash"] by simp
  ultimately show ?thesis
    using ne parts assms(2,5) by (simp add: ssh_dirname_def ssh_basename_def Let_def)
qed

theorem ssh_dirname_basename_split_witness:
  "ssh_dirname roomy_heap (Some (lit ''/usr/lib/'')) = Some (lit ''/usr'') \<and>
   ssh_basename roomy_heap (Some (lit ''/usr/lib/'')) = Some (lit ''lib'')"
proof -
  let ?d = "map of_char ''/usr'' :: bytes" and ?b = "map of_char ''lib'' :: bytes"
  have "\<forall>n. heap_grants roomy_heap n"
    by (simp add: roomy_heap_def)
  moreover have "cstr (lit ''/usr/lib/'') = ?d @ slash # ?b @ replicate 1 slash"
    and "?b \<noteq> []" and "slash \<notin> set ?b" and "?d \<noteq> []" and "last ?d \<noteq> slash"
    by code_simp+
  ultimately show ?thesis
    using ssh_dirname_basename_split [of roomy_heap "lit ''/usr/lib/''" ?d ?b 1] by (simp add: lit_def)
qed

text \<open>
  What \<^verbatim>\<open>ssh_match_group\<close> decides: the object is the last element of the group, or an
  earlier element is a prefix of it. In particular every element of the group is found.
\<close>

theorem ssh_match_group_characterisation:
  "ssh_match_group grp obj = 1 \<longleftrightarrow>
    last (elements (cstr grp)) = cstr obj \<or>
    (\<exists>t\<in>set (butlast (elements (cstr grp))). take (length t) (cstr obj) = t)"
  using match_group_elements [of "cstr grp" "cstr obj"] by (simp add: ssh_match_group_def)

text \<open>
  Deviations the model shows: a prefix of an algorithm name, or an empty element, matches; a
  conversion of no bytes writes in front of its block; trailing slashes stay when the path
  has no other; a difference of more than 24 days wraps, so a timeout in between has not
  elapsed.
\<close>

lemma match_group_prefix: "ssh_match_group (lit ''ssh-rs,x'') (lit ''ssh-rsa'') = 1"
  "ssh_match_group (lit '',x'') (lit ''ssh-rsa'') = 1"
  by code_simp+

lemma hexa_of_nothing_overflows: "ssh_get_hexa roomy_heap [] 0 = Overflow"
  by code_simp

lemma basename_keeps_slashes: "ssh_basename roomy_heap (Some (lit ''foo//'')) = Some (lit ''foo//'')"
  by code_simp

lemma timeout_wraps:
  "\<not> ssh_timeout_elapsed \<lparr>ts_seconds = 2200000, ts_useconds = 0\<rparr> \<lparr>ts_seconds = 0, ts_useconds = 0\<rparr> 1000"
  by code_simp

end
