(* ===== verification/SSH_Pack.thy ===== *)
theory SSH_Pack
  imports SSH_Buffer
begin

text \<open>
  Packing and unpacking by format string (\<^verbatim>\<open>src/libssh/src/buffer.c\<close>, from
  \<^verbatim>\<open>ssh_buffer_pack_allocate_va\<close> on) and the multi-precision strings of
  \<^verbatim>\<open>src/libssh/src/bignum.c\<close>. A \<^verbatim>\<open>va_list\<close> is the list of the values passed, ending with the
  canary the macro appends; fetching a value of another type than the one passed is
  undefined behaviour and is an outcome of its own, and so is \<^verbatim>\<open>abort\<close>. The arithmetic of
  the crypto backend's big numbers is a parameter.
\<close>

definition SSH_BUFFER_PACK_END :: u32 where
  "SSH_BUFFER_PACK_END = 1332084403"

subsection \<open>Big numbers\<close>

record 'bn bignum_ops =
  bn_num_bytes :: "'bn \<Rightarrow> nat"
  bn_num_bits :: "'bn \<Rightarrow> nat"
  bn_is_bit_set :: "'bn \<Rightarrow> nat \<Rightarrow> bool"
  bn_bn2bin :: "'bn \<Rightarrow> nat \<Rightarrow> bytes"
  bn_bin2bn :: "bytes \<Rightarrow> 'bn option"

definition ssh_make_bignum_string :: "heap \<Rightarrow> 'bn bignum_ops \<Rightarrow> 'bn \<Rightarrow> ssh_string option" where
  "ssh_make_bignum_string h ops num =
     (let len = bn_num_bytes ops num; bits = bn_num_bits ops num in
      if len = 0 then None
      else
        let pad = (if bits mod 8 = 0 \<and> bn_is_bit_set ops num (bits - 1) then 1 else 0) in
        case ssh_string_new h (len + pad) of
          None \<Rightarrow> None
        | Some p \<Rightarrow>
            let d = (if pad > 0 then (ss_data p)[0 := 0] else ss_data p)
            in Some (p\<lparr>ss_data := mem_write d pad (bn_bn2bin ops num len)\<rparr>))"

definition ssh_make_string_bn :: "'bn bignum_ops \<Rightarrow> ssh_string \<Rightarrow> 'bn option" where
  "ssh_make_string_bn ops s = bn_bin2bn ops (take (ssh_string_len (Some s)) (ss_data s))"

subsection \<open>Packing\<close>

datatype 'bn va_arg =
    VaInt u32
  | VaU64 u64
  | VaSize nat
  | VaString "ssh_string option"
  | VaCStr bytes
  | VaPtr "bytes option"
  | VaBignum 'bn

text \<open>How one case of a format switch ends: no such letter, a mismatched argument, or done.\<close>

datatype 'a switch = NoCase | Mismatch | Done 'a

datatype pack_result = PackRet int | PackAbort | PackUB

text \<open>
  The switch of \<^verbatim>\<open>ssh_buffer_pack_allocate_va\<close>: the size added, how often the argument
  counter is incremented beyond the loop's own, and the remaining arguments.
\<close>

definition pack_size_case :: "char \<Rightarrow> 'bn va_arg list \<Rightarrow> (nat \<times> nat \<times> 'bn va_arg list) switch" where
  "pack_size_case c ap =
     (if c = CHR ''b'' then (case ap of VaInt _ # r \<Rightarrow> Done (1, 0, r) | _ \<Rightarrow> Mismatch)
      else if c = CHR ''w'' then (case ap of VaInt _ # r \<Rightarrow> Done (2, 0, r) | _ \<Rightarrow> Mismatch)
      else if c = CHR ''d'' then (case ap of VaInt _ # r \<Rightarrow> Done (4, 0, r) | _ \<Rightarrow> Mismatch)
      else if c = CHR ''q'' then (case ap of VaU64 _ # r \<Rightarrow> Done (8, 0, r) | _ \<Rightarrow> Mismatch)
      else if c = CHR ''S'' then
        (case ap of VaString s # r \<Rightarrow> Done (4 + ssh_string_len s, 0, r) | _ \<Rightarrow> Mismatch)
      else if c = CHR ''s'' then
        (case ap of VaCStr m # r \<Rightarrow> Done (4 + strlen m, 0, r) | _ \<Rightarrow> Mismatch)
      else if c = CHR ''P'' then
        (case ap of VaSize len # VaPtr _ # r \<Rightarrow> Done (len, 1, r) | _ \<Rightarrow> Mismatch)
      else if c = CHR ''B'' then (case ap of VaBignum _ # r \<Rightarrow> Done (64, 0, r) | _ \<Rightarrow> Mismatch)
      else if c = CHR ''t'' then
        (case ap of VaCStr m # r \<Rightarrow> Done (strlen m, 0, r) | _ \<Rightarrow> Mismatch)
      else NoCase)"

datatype 's loop_exit = EarlyError | LoopUB | LoopEnd 's

fun pack_size_loop ::
  "string \<Rightarrow> nat \<Rightarrow> nat \<Rightarrow> nat \<Rightarrow> 'bn va_arg list \<Rightarrow> (int \<times> nat \<times> nat \<times> 'bn va_arg list) loop_exit" where
  "pack_size_loop [] argc count needed ap = LoopEnd (SSH_OK, count, needed, ap)"
| "pack_size_loop (c # p) argc count needed ap =
     (if count > argc then EarlyError
      else case pack_size_case c ap of
          NoCase \<Rightarrow> LoopEnd (SSH_ERROR, count, needed, ap)
        | Mismatch \<Rightarrow> LoopUB
        | Done (n, extra, ap') \<Rightarrow> pack_size_loop p argc (Suc (count + extra)) (wrap64 (needed + n)) ap')"

definition canary_check :: "'bn va_arg list \<Rightarrow> pack_result \<Rightarrow> pack_result" where
  "canary_check ap ok =
     (case ap of
        VaInt w # _ \<Rightarrow> if w \<noteq> SSH_BUFFER_PACK_END then PackAbort else ok
      | _ \<Rightarrow> PackUB)"

definition ssh_buffer_pack_allocate_va ::
  "heap \<Rightarrow> ssh_buffer \<Rightarrow> string \<Rightarrow> nat \<Rightarrow> 'bn va_arg list \<Rightarrow> pack_result \<times> ssh_buffer" where
  "ssh_buffer_pack_allocate_va h b format argc ap =
     (case pack_size_loop format argc 0 0 ap of
        EarlyError \<Rightarrow> (PackRet SSH_ERROR, b)
      | LoopUB \<Rightarrow> (PackUB, b)
      | LoopEnd (rc, count, needed, ap') \<Rightarrow>
          if argc \<noteq> count then (PackRet SSH_ERROR, b)
          else
            let c = (if rc \<noteq> SSH_ERROR then canary_check ap' (PackRet SSH_OK) else PackRet SSH_OK) in
            if c \<noteq> PackRet SSH_OK then (c, b)
            else
              let (rc2, b1) = ssh_buffer_allocate_size h b needed
              in (PackRet (if rc2 \<noteq> 0 then SSH_ERROR else SSH_OK), b1))"

text \<open>The switch of \<^verbatim>\<open>ssh_buffer_pack_va\<close>.\<close>

definition pack_case ::
  "heap \<Rightarrow> 'bn bignum_ops \<Rightarrow> ssh_buffer \<Rightarrow> char \<Rightarrow> 'bn va_arg list \<Rightarrow>
    (int \<times> ssh_buffer \<times> nat \<times> 'bn va_arg list) switch" where
  "pack_case h ops b c ap =
     (if c = CHR ''b'' then
        (case ap of
           VaInt x # r \<Rightarrow> (case ssh_buffer_add_u8 h b (ucast x) of (rc, b1) \<Rightarrow> Done (rc, b1, 0, r))
         | _ \<Rightarrow> Mismatch)
      else if c = CHR ''w'' then
        (case ap of
           VaInt x # r \<Rightarrow>
             (case ssh_buffer_add_u16 h b (bswap (ucast x)) of (rc, b1) \<Rightarrow> Done (rc, b1, 0, r))
         | _ \<Rightarrow> Mismatch)
      else if c = CHR ''d'' then
        (case ap of
           VaInt x # r \<Rightarrow> (case ssh_buffer_add_u32 h b (bswap x) of (rc, b1) \<Rightarrow> Done (rc, b1, 0, r))
         | _ \<Rightarrow> Mismatch)
      else if c = CHR ''q'' then
        (case ap of
           VaU64 x # r \<Rightarrow> (case ssh_buffer_add_u64 h b (bswap x) of (rc, b1) \<Rightarrow> Done (rc, b1, 0, r))
         | _ \<Rightarrow> Mismatch)
      else if c = CHR ''S'' then
        (case ap of
           VaString s # r \<Rightarrow> (case ssh_buffer_add_ssh_string h b s of (rc, b1) \<Rightarrow> Done (rc, b1, 0, r))
         | _ \<Rightarrow> Mismatch)
      else if c = CHR ''s'' then
        (case ap of
           VaCStr m # r \<Rightarrow>
             let len = strlen m;
                 (rc, b1) = ssh_buffer_add_u32 h b (bswap (of_nat len));
                 (rc2, b2) = (if rc = SSH_OK then ssh_buffer_add_data h b1 (Some m) len else (rc, b1))
             in Done (rc2, b2, 0, r)
         | _ \<Rightarrow> Mismatch)
      else if c = CHR ''P'' then
        (case ap of
           VaSize len # VaPtr d # r \<Rightarrow>
             (case ssh_buffer_add_data h b d len of (rc, b1) \<Rightarrow> Done (rc, b1, 1, r))
         | _ \<Rightarrow> Mismatch)
      else if c = CHR ''B'' then
        (case ap of
           VaBignum n # r \<Rightarrow>
             (case ssh_make_bignum_string h ops n of
                None \<Rightarrow> Done (SSH_ERROR, b, 0, r)
              | Some s \<Rightarrow>
                  (case ssh_buffer_add_ssh_string h b (Some s) of (rc, b1) \<Rightarrow> Done (rc, b1, 0, r)))
         | _ \<Rightarrow> Mismatch)
      else if c = CHR ''t'' then
        (case ap of
           VaCStr m # r \<Rightarrow>
             (case ssh_buffer_add_data h b (Some m) (strlen m) of (rc, b1) \<Rightarrow> Done (rc, b1, 0, r))
         | _ \<Rightarrow> Mismatch)
      else NoCase)"

fun pack_loop ::
  "heap \<Rightarrow> 'bn bignum_ops \<Rightarrow> string \<Rightarrow> nat \<Rightarrow> nat \<Rightarrow> int \<Rightarrow> ssh_buffer \<Rightarrow> 'bn va_arg list \<Rightarrow>
    (int \<times> nat \<times> 'bn va_arg list) loop_exit \<times> ssh_buffer" where
  "pack_loop h ops [] argc count rc b ap = (LoopEnd (rc, count, ap), b)"
| "pack_loop h ops (c # p) argc count rc b ap =
     (if count > argc then (EarlyError, b)
      else case pack_case h ops b c ap of
          NoCase \<Rightarrow> (LoopEnd (SSH_ERROR, count, ap), b)
        | Mismatch \<Rightarrow> (LoopUB, b)
        | Done (rc', b', extra, ap') \<Rightarrow>
            if rc' \<noteq> SSH_OK then (LoopEnd (rc', count + extra, ap'), b')
            else pack_loop h ops p argc (Suc (count + extra)) rc' b' ap')"

definition ssh_buffer_pack_va ::
  "heap \<Rightarrow> 'bn bignum_ops \<Rightarrow> ssh_buffer \<Rightarrow> string \<Rightarrow> nat \<Rightarrow> 'bn va_arg list \<Rightarrow>
    pack_result \<times> ssh_buffer" where
  "ssh_buffer_pack_va h ops b format argc ap =
     (if argc > 256 then (PackRet SSH_ERROR, b)
      else case pack_loop h ops format argc 0 SSH_ERROR b ap of
          (EarlyError, b1) \<Rightarrow> (PackRet SSH_ERROR, b1)
        | (LoopUB, b1) \<Rightarrow> (PackUB, b1)
        | (LoopEnd (rc, count, ap'), b1) \<Rightarrow>
            if argc \<noteq> count then (PackRet SSH_ERROR, b1)
            else if rc \<noteq> SSH_ERROR then (canary_check ap' (PackRet rc), b1)
            else (PackRet rc, b1))"

definition ssh_buffer_pack ::
  "heap \<Rightarrow> 'bn bignum_ops \<Rightarrow> ssh_buffer \<Rightarrow> string \<Rightarrow> nat \<Rightarrow> 'bn va_arg list \<Rightarrow>
    pack_result \<times> ssh_buffer" where
  "ssh_buffer_pack h ops b format argc ap =
     (if argc > 256 then (PackRet SSH_ERROR, b)
      else case ssh_buffer_pack_allocate_va h b format argc ap of
          (r, b1) \<Rightarrow>
            if r \<noteq> PackRet SSH_OK then (r, b1)
            else ssh_buffer_pack_va h ops b1 format argc ap)"

subsection \<open>Unpacking\<close>

text \<open>
  The arguments are output pointers, a size in front of the pointer of a \<open>P\<close>, and the
  canary. What the calls stored through the pointers is returned, one value per letter; a
  pointer nothing was stored through is \<open>OutUnset\<close>, a stored \<^verbatim>\<open>NULL\<close> is \<^const>\<open>None\<close>.
\<close>

datatype up_arg = UpPtr | UpSize nat | UpCanary u32

datatype 'bn out =
    OutU8 u8
  | OutU16 u16
  | OutU32 u32
  | OutU64 u64
  | OutString "ssh_string option"
  | OutCStr "bytes option"
  | OutData "bytes option"
  | OutBignum "'bn option"
  | OutUnset

text \<open>Cases \<open>s\<close> and \<open>P\<close>: the checks on the length, the allocation and the copy they share.\<close>

definition unpack_block :: "heap \<Rightarrow> ssh_buffer \<Rightarrow> nat \<Rightarrow> nat \<Rightarrow> nat \<Rightarrow> (int \<times> bytes option \<times> ssh_buffer) option" where
  "unpack_block h b max_len len extra =
     (if len > sub64 max_len 1 then None
      else if ssh_buffer_validate_length b len \<noteq> SSH_OK then None
      else case malloc h (len + extra) of
          None \<Rightarrow> Some (SSH_ERROR, None, b)
        | Some _ \<Rightarrow>
            let (rlen, d, b1) = ssh_buffer_get_data b len in
            if rlen \<noteq> len then Some (SSH_ERROR, None, b1) else Some (SSH_OK, Some d, b1))"

definition unpack_case ::
  "heap \<Rightarrow> 'bn bignum_ops \<Rightarrow> nat \<Rightarrow> ssh_buffer \<Rightarrow> char \<Rightarrow> up_arg list \<Rightarrow>
    (int \<times> 'bn out \<times> ssh_buffer \<times> nat \<times> up_arg list) switch" where
  "unpack_case h ops max_len b c ap =
     (if c = CHR ''b'' then
        (case ap of
           UpPtr # r \<Rightarrow>
             (case ssh_buffer_get_u8 b of
                (rlen, Some x, b1) \<Rightarrow> Done (if rlen = 1 then SSH_OK else SSH_ERROR, OutU8 x, b1, 0, r)
              | (rlen, None, b1) \<Rightarrow> Done (SSH_ERROR, OutUnset, b1, 0, r))
         | _ \<Rightarrow> Mismatch)
      else if c = CHR ''w'' then
        (case ap of
           UpPtr # r \<Rightarrow>
             (case ssh_buffer_get_data b 2 of
                (rlen, d, b1) \<Rightarrow>
                  if rlen = 2 then Done (SSH_OK, OutU16 (bswap (load_bytes d)), b1, 0, r)
                  else Done (SSH_ERROR, OutUnset, b1, 0, r))
         | _ \<Rightarrow> Mismatch)
      else if c = CHR ''d'' then
        (case ap of
           UpPtr # r \<Rightarrow>
             (case ssh_buffer_get_u32 b of
                (rlen, Some x, b1) \<Rightarrow> Done (SSH_OK, OutU32 (bswap x), b1, 0, r)
              | (rlen, None, b1) \<Rightarrow> Done (SSH_ERROR, OutUnset, b1, 0, r))
         | _ \<Rightarrow> Mismatch)
      else if c = CHR ''q'' then
        (case ap of
           UpPtr # r \<Rightarrow>
             (case ssh_buffer_get_u64 b of
                (rlen, Some x, b1) \<Rightarrow> Done (SSH_OK, OutU64 (bswap x), b1, 0, r)
              | (rlen, None, b1) \<Rightarrow> Done (SSH_ERROR, OutUnset, b1, 0, r))
         | _ \<Rightarrow> Mismatch)
      else if c = CHR ''B'' then
        (case ap of
           UpPtr # r \<Rightarrow>
             (case ssh_buffer_get_ssh_string h b of
                (None, b1) \<Rightarrow> Done (SSH_ERROR, OutBignum None, b1, 0, r)
              | (Some s, b1) \<Rightarrow>
                  let bn = ssh_make_string_bn ops s
                  in Done (if bn \<noteq> None then SSH_OK else SSH_ERROR, OutBignum bn, b1, 0, r))
         | _ \<Rightarrow> Mismatch)
      else if c = CHR ''S'' then
        (case ap of
           UpPtr # r \<Rightarrow>
             (case ssh_buffer_get_ssh_string h b of
                (s, b1) \<Rightarrow> Done (if s \<noteq> None then SSH_OK else SSH_ERROR, OutString s, b1, 0, r))
         | _ \<Rightarrow> Mismatch)
      else if c = CHR ''s'' then
        (case ap of
           UpPtr # r \<Rightarrow>
             (case ssh_buffer_get_u32 b of
                (rlen, None, b1) \<Rightarrow> Done (SSH_ERROR, OutCStr None, b1, 0, r)
              | (rlen, Some x, b1) \<Rightarrow>
                  (case unpack_block h b1 max_len (unat (bswap x)) 1 of
                     None \<Rightarrow> Done (SSH_ERROR, OutCStr None, b1, 0, r)
                   | Some (rc, d, b2) \<Rightarrow> Done (rc, OutCStr (map_option (\<lambda>m. m @ [0]) d), b2, 0, r)))
         | _ \<Rightarrow> Mismatch)
      else if c = CHR ''P'' then
        (case ap of
           UpSize len # r0 \<Rightarrow>
             (case unpack_block h b max_len len 0 of
                None \<Rightarrow> Done (SSH_ERROR, OutUnset, b, 0, r0)
              | Some (rc, d, b1) \<Rightarrow>
                  (case r0 of UpPtr # r \<Rightarrow> Done (rc, OutData d, b1, 1, r) | _ \<Rightarrow> Mismatch))
         | _ \<Rightarrow> Mismatch)
      else NoCase)"

fun unpack_loop ::
  "heap \<Rightarrow> 'bn bignum_ops \<Rightarrow> nat \<Rightarrow> string \<Rightarrow> nat \<Rightarrow> nat \<Rightarrow> int \<Rightarrow> ssh_buffer \<Rightarrow> up_arg list \<Rightarrow>
    'bn out list \<Rightarrow> (int \<times> nat \<times> up_arg list \<times> 'bn out list \<times> 'bn out list \<times> ssh_buffer) loop_exit" where
  "unpack_loop h ops max_len [] argc count rc b ap done =
     LoopEnd (rc, count, ap, done, [], b)"
| "unpack_loop h ops max_len (c # p) argc count rc b ap done =
     (if count > argc then LoopEnd (SSH_ERROR, argc, ap, done, [], b)
      else case unpack_case h ops max_len b c ap of
          NoCase \<Rightarrow> LoopEnd (SSH_ERROR, count, ap, done, [], b)
        | Mismatch \<Rightarrow> LoopUB
        | Done (rc', x, b', extra, ap') \<Rightarrow>
            if rc' \<noteq> SSH_OK then LoopEnd (rc', count + extra, ap', done, [x], b')
            else unpack_loop h ops max_len p argc (Suc (count + extra)) rc' b' ap' (done @ [x]))"

text \<open>The rollback at \<^verbatim>\<open>cleanup\<close>: what is left behind the pointers of the letters already done.\<close>

fun unpack_rollback :: "bool \<Rightarrow> 'bn out \<Rightarrow> 'bn out" where
  "unpack_rollback secure (OutU8 x) = OutU8 (if secure then 0 else x)"
| "unpack_rollback secure (OutU16 x) = OutU16 (if secure then 0 else x)"
| "unpack_rollback secure (OutU32 x) = OutU32 (if secure then 0 else x)"
| "unpack_rollback secure (OutU64 x) = OutU64 (if secure then 0 else x)"
| "unpack_rollback secure (OutBignum _) = OutBignum None"
| "unpack_rollback secure (OutString _) = OutString None"
| "unpack_rollback secure (OutCStr _) = OutCStr None"
| "unpack_rollback secure (OutData _) = OutData None"
| "unpack_rollback secure OutUnset = OutUnset"

definition ssh_buffer_unpack_va ::
  "heap \<Rightarrow> 'bn bignum_ops \<Rightarrow> ssh_buffer \<Rightarrow> string \<Rightarrow> nat \<Rightarrow> up_arg list \<Rightarrow>
    pack_result \<times> 'bn out list \<times> ssh_buffer" where
  "ssh_buffer_unpack_va h ops b format argc ap =
     (let max_len = ssh_buffer_get_len b in
      if argc > 256 then (PackRet SSH_ERROR, [], b)
      else case unpack_loop h ops max_len format argc 0 SSH_ERROR b ap [] of
          EarlyError \<Rightarrow> (PackRet SSH_ERROR, [], b)
        | LoopUB \<Rightarrow> (PackUB, [], b)
        | LoopEnd (rc0, count, ap', done, failing, b1) \<Rightarrow>
            let rc = (if argc \<noteq> count then SSH_ERROR else rc0) in
            if rc \<noteq> SSH_ERROR then
              (case ap' of
                 UpCanary w # _ \<Rightarrow>
                   (if w \<noteq> SSH_BUFFER_PACK_END then (PackAbort, done, b1) else (PackRet rc, done, b1))
               | _ \<Rightarrow> (PackUB, done, b1))
            else (PackRet rc, map (unpack_rollback (b_secure b1)) done @ failing, b1))"

subsection \<open>Fields\<close>

text \<open>
  The fields a format describes: the letter, the arguments passed for it, how much the
  sizing pass counts for it, and its bytes on the wire.
\<close>

datatype 'bn wfield =
    FByte u8
  | FWord u16
  | FDword u32
  | FQword u64
  | FString ssh_string
  | FCStr bytes
  | FBytes bytes
  | FBignum 'bn
  | FText bytes

fun field_char :: "'bn wfield \<Rightarrow> char" where
  "field_char (FByte _) = CHR ''b''"
| "field_char (FWord _) = CHR ''w''"
| "field_char (FDword _) = CHR ''d''"
| "field_char (FQword _) = CHR ''q''"
| "field_char (FString _) = CHR ''S''"
| "field_char (FCStr _) = CHR ''s''"
| "field_char (FBytes _) = CHR ''P''"
| "field_char (FBignum _) = CHR ''B''"
| "field_char (FText _) = CHR ''t''"

fun field_args :: "'bn wfield \<Rightarrow> 'bn va_arg list" where
  "field_args (FByte x) = [VaInt (ucast x)]"
| "field_args (FWord x) = [VaInt (ucast x)]"
| "field_args (FDword x) = [VaInt x]"
| "field_args (FQword x) = [VaU64 x]"
| "field_args (FString s) = [VaString (Some s)]"
| "field_args (FCStr m) = [VaCStr (m @ [0])]"
| "field_args (FBytes d) = [VaSize (length d), VaPtr (Some d)]"
| "field_args (FBignum n) = [VaBignum n]"
| "field_args (FText m) = [VaCStr (m @ [0])]"

fun field_reserve :: "'bn wfield \<Rightarrow> nat" where
  "field_reserve (FByte _) = 1"
| "field_reserve (FWord _) = 2"
| "field_reserve (FDword _) = 4"
| "field_reserve (FQword _) = 8"
| "field_reserve (FString s) = 4 + ssh_string_len (Some s)"
| "field_reserve (FCStr m) = 4 + length m"
| "field_reserve (FBytes d) = length d"
| "field_reserve (FBignum _) = 64"
| "field_reserve (FText m) = length m"

text \<open>The magnitude of a big number, with the zero byte that keeps its top bit clear.\<close>

definition mpint_bytes :: "'bn bignum_ops \<Rightarrow> 'bn \<Rightarrow> bytes" where
  "mpint_bytes ops n =
     (if bn_num_bits ops n mod 8 = 0 \<and> bn_is_bit_set ops n (bn_num_bits ops n - 1) then [0] else []) @
     bn_bn2bin ops n (bn_num_bytes ops n)"

definition sized :: "bytes \<Rightarrow> bytes" where
  "sized d = be_bytes (of_nat (length d) :: u32) @ d"

fun field_wire :: "'bn bignum_ops \<Rightarrow> 'bn wfield \<Rightarrow> bytes" where
  "field_wire ops (FByte x) = [x]"
| "field_wire ops (FWord x) = be_bytes x"
| "field_wire ops (FDword x) = be_bytes x"
| "field_wire ops (FQword x) = be_bytes x"
| "field_wire ops (FString s) = sized (ss_contents s)"
| "field_wire ops (FCStr m) = sized m"
| "field_wire ops (FBytes d) = d"
| "field_wire ops (FBignum n) = sized (mpint_bytes ops n)"
| "field_wire ops (FText m) = m"

text \<open>
  What the code relies on of the crypto backend, as its documentation has it: \<^verbatim>\<open>bn2bin\<close>
  writes as many bytes as \<^verbatim>\<open>num_bytes\<close> says, and \<^verbatim>\<open>bin2bn\<close> reads a big-endian number,
  leading zero bytes included.
\<close>

definition bignum_writes :: "'bn bignum_ops \<Rightarrow> 'bn \<Rightarrow> bool" where
  "bignum_writes ops n \<longleftrightarrow> length (bn_bn2bin ops n (bn_num_bytes ops n)) = bn_num_bytes ops n"

definition bignum_reads :: "'bn bignum_ops \<Rightarrow> 'bn \<Rightarrow> bool" where
  "bignum_reads ops n \<longleftrightarrow>
     bn_bin2bn ops (bn_bn2bin ops n (bn_num_bytes ops n)) = Some n \<and>
     bn_bin2bn ops (0 # bn_bn2bin ops n (bn_num_bytes ops n)) = Some n"

fun field_ok :: "'bn bignum_ops \<Rightarrow> 'bn wfield \<Rightarrow> bool" where
  "field_ok ops (FString s) = ssh_string_ok s"
| "field_ok ops (FCStr m) = (0 \<notin> set m)"
| "field_ok ops (FText m) = (0 \<notin> set m)"
| "field_ok ops (FBignum n) = (bignum_writes ops n \<and> 0 < bn_num_bytes ops n)"
| "field_ok ops _ = True"

lemma length_sized [simp]: "length (sized d) = 4 + length d"
  by (simp add: sized_def)

lemma mem_bytes_u8 [simp]: "mem_bytes (x::u8) = [x]"
  by (simp add: mem_bytes_def)

lemma be_bytes_u8 [simp]: "be_bytes (x::u8) = [x]"
  by (simp add: be_bytes_def)

lemma ucast_ucast_int [simp]: "ucast (ucast (x::u8) :: u32) = x" "ucast (ucast (w::u16) :: u32) = w"
  by (simp_all add: unsigned_ucast_eq take_bit_word_eq_self)

lemma strlen_terminated [simp]: "0 \<notin> set m \<Longrightarrow> strlen (m @ [0]) = length m"
  by (simp flip: length_cstr)

subsection \<open>Packing writes the fields\<close>

lemma add_data_granted:
  assumes "buffer_inv b" and "\<forall>n. heap_grants h n" and "len \<le> length d"
    and "length (buf_content b) + len < BUFFER_SIZE_MAX"
  obtains b' where "ssh_buffer_add_data h b (Some d) len = (0, b')" and "buffer_inv b'"
    and "buf_content b' = buf_content b @ take len d"
proof -
  have "len < 4294967296"
    using assms(4) by (simp add: BUFFER_SIZE_MAX_def)
  from assms(1) this assms(3) show thesis
  proof (cases rule: add_data_cases [where h = h])
    case (added b')
    then show thesis
      by (intro that)
  next
    case (failed b')
    with add_data_succeeds [OF assms] show thesis
      by simp
  qed
qed

lemma add_ints_granted:
  assumes "buffer_inv b" and "\<forall>n. heap_grants h n" and "length (buf_content b) + 8 < BUFFER_SIZE_MAX"
  shows "\<exists>b'. ssh_buffer_add_u8 h b x = (0, b') \<and> buffer_inv b' \<and> buf_content b' = buf_content b @ [x]"
    and "\<exists>b'. ssh_buffer_add_u16 h b (bswap w) = (0, b') \<and> buffer_inv b' \<and>
      buf_content b' = buf_content b @ be_bytes w"
    and "\<exists>b'. ssh_buffer_add_u32 h b (bswap d) = (0, b') \<and> buffer_inv b' \<and>
      buf_content b' = buf_content b @ be_bytes d"
    and "\<exists>b'. ssh_buffer_add_u64 h b (bswap q) = (0, b') \<and> buffer_inv b' \<and>
      buf_content b' = buf_content b @ be_bytes q"
proof -
  have fits: "length (buf_content b) + len < BUFFER_SIZE_MAX" if "len \<le> 8" for len
    using assms(3) that by simp
  show "\<exists>b'. ssh_buffer_add_u8 h b x = (0, b') \<and> buffer_inv b' \<and> buf_content b' = buf_content b @ [x]"
    by (rule add_data_granted [OF assms(1,2), of 1 "mem_bytes x"])
      (use fits [of 1] in \<open>simp_all add: ssh_buffer_add_u8_def\<close>)
  show "\<exists>b'. ssh_buffer_add_u16 h b (bswap w) = (0, b') \<and> buffer_inv b' \<and>
      buf_content b' = buf_content b @ be_bytes w"
    by (rule add_data_granted [OF assms(1,2), of 2 "mem_bytes (bswap w)"])
      (use fits [of 2] in \<open>simp_all add: ssh_buffer_add_u16_def wire_simps\<close>)
  show "\<exists>b'. ssh_buffer_add_u32 h b (bswap d) = (0, b') \<and> buffer_inv b' \<and>
      buf_content b' = buf_content b @ be_bytes d"
    by (rule add_data_granted [OF assms(1,2), of 4 "mem_bytes (bswap d)"])
      (use fits [of 4] in \<open>simp_all add: ssh_buffer_add_u32_def wire_simps\<close>)
  show "\<exists>b'. ssh_buffer_add_u64 h b (bswap q) = (0, b') \<and> buffer_inv b' \<and>
      buf_content b' = buf_content b @ be_bytes q"
    by (rule add_data_granted [OF assms(1,2), of 8 "mem_bytes (bswap q)"])
      (use fits [of 8] in \<open>simp_all add: ssh_buffer_add_u64_def wire_simps\<close>)
qed

lemma add_ssh_string_granted:
  assumes inv: "buffer_inv b" and grants: "\<forall>n. heap_grants h n" and ok: "ssh_string_ok s"
    and fits: "length (buf_content b) + 4 + length (ss_contents s) < BUFFER_SIZE_MAX"
  shows "\<exists>b'. ssh_buffer_add_ssh_string h b (Some s) = (0, b') \<and> buffer_inv b' \<and>
    buf_content b' = buf_content b @ sized (ss_contents s)"
proof -
  let ?d = "mem_bytes (ss_size s) @ ss_data s" and ?n = "length (ss_contents s) + 4"
  have "length (ss_contents s) \<le> length (ss_data s)"
    by (simp add: ss_contents_def)
  then have "fst (ssh_buffer_add_data h b (Some ?d) ?n) = 0"
    using fits by (intro add_data_succeeds [OF inv grants]) simp_all
  then have "fst (ssh_buffer_add_ssh_string h b (Some s)) = 0"
    by (simp only: add_ssh_string_as_data [OF ok])
  with inv ok show ?thesis
    by (cases rule: add_ssh_string_cases [where h = h]) (auto simp: ss_wire_ok [OF ok] sized_def)
qed

lemma make_bignum_string_ok:
  assumes w: "bignum_writes ops n" and pos: "0 < bn_num_bytes ops n"
    and grants: "\<forall>n. heap_grants h n" and small: "length (mpint_bytes ops n) \<le> STRING_SIZE_MAX"
  shows "\<exists>s. ssh_make_bignum_string h ops n = Some s \<and> ssh_string_ok s \<and>
    ss_contents s = mpint_bytes ops n"
proof -
  let ?m = "mpint_bytes ops n"
  have len: "length ?m = bn_num_bytes ops n +
      (if bn_num_bits ops n mod 8 = 0 \<and> bn_is_bit_set ops n (bn_num_bits ops n - 1) then 1 else 0)"
    using w by (simp add: mpint_bytes_def bignum_writes_def)
  obtain p where p: "ssh_string_new h (length ?m) = Some p"
    using ssh_string_new_None [of h "length ?m"] small grants by (cases "ssh_string_new h (length ?m)") auto
  have d: "length (ss_data p) = Suc (length ?m)"
    using ssh_string_new_Some(3) [OF p] .
  then obtain x xs where xs: "ss_data p = x # xs" and "length xs = length ?m"
    by (cases "ss_data p") auto
  then have "ssh_make_bignum_string h ops n = Some (p\<lparr>ss_data := mem_write (ss_data p) 0 ?m\<rparr>)"
    using w pos p
    by (cases "bn_num_bits ops n mod 8 = 0 \<and> bn_is_bit_set ops n (bn_num_bits ops n - 1)")
      (auto simp: ssh_make_bignum_string_def Let_def len bignum_writes_def mpint_bytes_def mem_write_def)
  with ssh_string_new_filled [OF p] show ?thesis
    by blast
qed

text \<open>One round of the packing loop appends one field.\<close>

lemma pack_case_field:
  assumes inv: "buffer_inv b" and grants: "\<forall>n. heap_grants h n" and ok: "field_ok ops f"
    and fits: "length (buf_content b) + length (field_wire ops f) + 8 < BUFFER_SIZE_MAX"
  shows "\<exists>b'. pack_case h ops b (field_char f) (field_args f @ ap) =
      Done (0, b', length (field_args f) - 1, ap) \<and>
    buffer_inv b' \<and> buf_content b' = buf_content b @ field_wire ops f"
proof -
  have room: "length (buf_content b) + 8 < BUFFER_SIZE_MAX"
    using fits by simp
  note ints = add_ints_granted [OF inv grants room]
  have data: "\<exists>b'. ssh_buffer_add_data h b (Some (d @ e)) (length d) = (0, b') \<and> buffer_inv b' \<and>
      buf_content b' = buf_content b @ d" if "length (buf_content b) + length d < BUFFER_SIZE_MAX" for d e
    by (rule add_data_granted [OF inv grants, of "length d" "d @ e"]) (use that in simp_all)
  show ?thesis
  proof (cases f)
    case (FByte x)
    with ints(1) [of x] show ?thesis
      by (auto simp: pack_case_def)
  next
    case (FWord x)
    with ints(2) [of x] show ?thesis
      by (auto simp: pack_case_def)
  next
    case (FDword x)
    with ints(3) [of x] show ?thesis
      by (auto simp: pack_case_def)
  next
    case (FQword x)
    with ints(4) [of x] show ?thesis
      by (auto simp: pack_case_def)
  next
    case (FString s)
    with fits ok add_ssh_string_granted [OF inv grants, of s] show ?thesis
      by (auto simp: pack_case_def)
  next
    case (FCStr m)
    obtain b1 where b1: "ssh_buffer_add_u32 h b (bswap (of_nat (length m))) = (0, b1)" "buffer_inv b1"
      "buf_content b1 = buf_content b @ be_bytes (of_nat (length m) :: u32)"
      using ints(3) by blast
    obtain b2 where "ssh_buffer_add_data h b1 (Some (m @ [0])) (length m) = (0, b2)" "buffer_inv b2"
      "buf_content b2 = buf_content b1 @ m"
      by (rule add_data_granted [OF b1(2) grants, of "length m" "m @ [0]"])
        (use fits FCStr b1(3) in simp_all)
    with b1 FCStr ok show ?thesis
      by (simp add: pack_case_def sized_def)
  next
    case (FBytes d)
    with fits data [of d "[]"] show ?thesis
      by (auto simp: pack_case_def)
  next
    case (FBignum n)
    then have "\<exists>s. ssh_make_bignum_string h ops n = Some s \<and> ssh_string_ok s \<and>
        ss_contents s = mpint_bytes ops n"
      using fits ok grants
      by (intro make_bignum_string_ok) (simp_all add: BUFFER_SIZE_MAX_def STRING_SIZE_MAX_def)
    then obtain s where s: "ssh_make_bignum_string h ops n = Some s" "ssh_string_ok s"
      "ss_contents s = mpint_bytes ops n"
      by blast
    with fits FBignum add_ssh_string_granted [OF inv grants s(2)] show ?thesis
      by (auto simp: pack_case_def)
  next
    case (FText m)
    with fits ok data [of m "[0]"] show ?thesis
      by (auto simp: pack_case_def)
  qed
qed

lemma field_args_nonempty: "0 < length (field_args f)"
  by (cases f) auto

lemma pack_loop_fields:
  assumes "buffer_inv b" and "\<forall>n. heap_grants h n" and "\<forall>f\<in>set fs. field_ok ops f"
    and "length (buf_content b) + length (concat (map (field_wire ops) fs)) + 8 < BUFFER_SIZE_MAX"
    and "count + length (concat (map field_args fs)) \<le> argc"
  shows "\<exists>b'. pack_loop h ops (map field_char fs) argc count rc b (concat (map field_args fs) @ ap) =
      (LoopEnd (if fs = [] then rc else 0, count + length (concat (map field_args fs)), ap), b') \<and>
    buffer_inv b' \<and> buf_content b' = buf_content b @ concat (map (field_wire ops) fs)"
  using assms
proof (induction fs arbitrary: b count rc)
  case (Cons f fs)
  let ?ap = "concat (map field_args fs) @ ap"
  have "\<exists>b1. pack_case h ops b (field_char f) (field_args f @ ?ap) =
      Done (0, b1, length (field_args f) - 1, ?ap) \<and>
    buffer_inv b1 \<and> buf_content b1 = buf_content b @ field_wire ops f"
    using Cons.prems by (intro pack_case_field) auto
  then obtain b1 where b1: "pack_case h ops b (field_char f) (field_args f @ ?ap) =
      Done (0, b1, length (field_args f) - 1, ?ap)" "buffer_inv b1"
    "buf_content b1 = buf_content b @ field_wire ops f"
    by blast
  obtain k where k: "length (field_args f) = Suc k"
    using field_args_nonempty [of f] by (cases "length (field_args f)") auto
  with Cons.IH [of b1 "count + Suc k" 0] Cons.prems b1 show ?case
    by (auto simp: add.assoc)
qed simp

lemma pack_size_case_field:
  "field_ok ops f \<Longrightarrow> pack_size_case (field_char f) (field_args f @ ap) =
    Done (field_reserve f, length (field_args f) - 1, ap)"
  by (cases f) (simp_all add: pack_size_case_def)

lemma pack_size_loop_fields:
  assumes "\<forall>f\<in>set fs. field_ok ops f" and "count + length (concat (map field_args fs)) \<le> argc"
    and "needed + sum_list (map field_reserve fs) < 18446744073709551616"
  shows "pack_size_loop (map field_char fs) argc count needed (concat (map field_args fs) @ ap) =
    LoopEnd (0, count + length (concat (map field_args fs)),
      needed + sum_list (map field_reserve fs), ap)"
  using assms
proof (induction fs arbitrary: count needed)
  case (Cons f fs)
  obtain k where "length (field_args f) = Suc k"
    using field_args_nonempty [of f] by (cases "length (field_args f)") auto
  with Cons pack_size_case_field [of ops f "concat (map field_args fs) @ ap"] show ?case
    by (simp add: add.assoc)
qed simp

lemma allocate_size_succeeds:
  assumes "\<forall>n. heap_grants h n" and "len < BUFFER_SIZE_MAX"
  shows "fst (ssh_buffer_allocate_size h b len) = 0"
  using realloc_buffer_succeeds [OF assms(2,1)] assms(2)
  by (auto simp: ssh_buffer_allocate_size_def Let_def BUFFER_SIZE_MAX_def split: prod.splits)
    (metis fst_conv less_irrefl)+

text \<open>The arguments of a call of the \<^verbatim>\<open>ssh_buffer_pack\<close> macro, and their number.\<close>

definition pack_argv :: "'bn wfield list \<Rightarrow> 'bn va_arg list" where
  "pack_argv fs = concat (map field_args fs) @ [VaInt SSH_BUFFER_PACK_END]"

definition pack_argc :: "'bn wfield list \<Rightarrow> nat" where
  "pack_argc fs = length (concat (map field_args fs))"

definition wire_of :: "'bn bignum_ops \<Rightarrow> 'bn wfield list \<Rightarrow> bytes" where
  "wire_of ops fs = concat (map (field_wire ops) fs)"

lemma pack_allocate_fields:
  assumes "buffer_inv b" and "\<forall>n. heap_grants h n" and "\<forall>f\<in>set fs. field_ok ops f"
    and "sum_list (map field_reserve fs) < BUFFER_SIZE_MAX"
  obtains b' where "ssh_buffer_pack_allocate_va h b (map field_char fs) (pack_argc fs) (pack_argv fs) =
      (PackRet SSH_OK, b')" and "buffer_inv b'" and "buf_content b' = buf_content b"
proof -
  let ?n = "sum_list (map field_reserve fs)"
  obtain rc b' where call: "ssh_buffer_allocate_size h b ?n = (rc, b')"
    by (rule prod.exhaust)
  moreover have "rc = 0"
    using allocate_size_succeeds [OF assms(2,4), of b] call by simp
  moreover have "pack_size_loop (map field_char fs) (pack_argc fs) 0 0 (pack_argv fs) =
      LoopEnd (0, pack_argc fs, ?n, [VaInt SSH_BUFFER_PACK_END])"
    using pack_size_loop_fields [OF assms(3), of 0 "pack_argc fs" 0 "[VaInt SSH_BUFFER_PACK_END]"] assms(4)
    by (simp add: pack_argc_def pack_argv_def BUFFER_SIZE_MAX_def)
  ultimately show thesis
    using allocate_size_props(1,2) [OF assms(1) call]
    by (intro that [of b']) (simp_all add: ssh_buffer_pack_allocate_va_def canary_check_def Let_def)
qed

lemma pack_fields:
  assumes "buffer_inv b" and "\<forall>n. heap_grants h n" and "\<forall>f\<in>set fs. field_ok ops f"
    and "fs \<noteq> []" and "pack_argc fs \<le> 256" and "sum_list (map field_reserve fs) < BUFFER_SIZE_MAX"
    and "length (buf_content b) + length (wire_of ops fs) + 8 < BUFFER_SIZE_MAX"
  obtains b' where "ssh_buffer_pack h ops b (map field_char fs) (pack_argc fs) (pack_argv fs) =
      (PackRet SSH_OK, b')" and "buffer_inv b'" and "buf_content b' = buf_content b @ wire_of ops fs"
proof -
  obtain b1 where b1: "ssh_buffer_pack_allocate_va h b (map field_char fs) (pack_argc fs) (pack_argv fs) =
      (PackRet SSH_OK, b1)" "buffer_inv b1" "buf_content b1 = buf_content b"
    using assms(1-3,6) by (rule pack_allocate_fields)
  have "\<exists>b'. pack_loop h ops (map field_char fs) (pack_argc fs) 0 SSH_ERROR b1 (pack_argv fs) =
      (LoopEnd (0, pack_argc fs, [VaInt SSH_BUFFER_PACK_END]), b') \<and> buffer_inv b' \<and>
    buf_content b' = buf_content b @ wire_of ops fs"
    using pack_loop_fields [OF b1(2) assms(2,3), of 0 "pack_argc fs" SSH_ERROR "[VaInt SSH_BUFFER_PACK_END]"]
      assms(4,7) b1(3)
    by (simp add: pack_argc_def pack_argv_def wire_of_def)
  then obtain b' where "pack_loop h ops (map field_char fs) (pack_argc fs) 0 SSH_ERROR b1 (pack_argv fs) =
      (LoopEnd (0, pack_argc fs, [VaInt SSH_BUFFER_PACK_END]), b')" "buffer_inv b'"
    "buf_content b' = buf_content b @ wire_of ops fs"
    by blast
  with b1 assms(5) show thesis
    by (intro that [of b']) (simp_all add: ssh_buffer_pack_def ssh_buffer_pack_va_def canary_check_def)
qed

subsection \<open>Unpacking reads the fields\<close>

fun up_args :: "'bn wfield \<Rightarrow> up_arg list" where
  "up_args (FBytes d) = [UpSize (length d), UpPtr]"
| "up_args _ = [UpPtr]"

definition unpack_argv :: "'bn wfield list \<Rightarrow> up_arg list" where
  "unpack_argv fs = concat (map up_args fs) @ [UpCanary SSH_BUFFER_PACK_END]"

text \<open>What the output pointer of a field holds when the field was read.\<close>

fun out_holds :: "'bn wfield \<Rightarrow> 'bn out \<Rightarrow> bool" where
  "out_holds (FByte x) out = (out = OutU8 x)"
| "out_holds (FWord x) out = (out = OutU16 x)"
| "out_holds (FDword x) out = (out = OutU32 x)"
| "out_holds (FQword x) out = (out = OutU64 x)"
| "out_holds (FString s) out =
     (case out of OutString (Some t) \<Rightarrow> ssh_string_ok t \<and> ss_contents t = ss_contents s | _ \<Rightarrow> False)"
| "out_holds (FCStr m) out = (out = OutCStr (Some (m @ [0])))"
| "out_holds (FBytes d) out = (out = OutData (Some d))"
| "out_holds (FBignum n) out = (out = OutBignum (Some n))"
| "out_holds (FText m) out = False"

text \<open>Fields \<^verbatim>\<open>ssh_buffer_unpack\<close> can read from a buffer that held \<open>tot\<close> bytes at the call.\<close>

fun field_readable :: "'bn bignum_ops \<Rightarrow> nat \<Rightarrow> 'bn wfield \<Rightarrow> bool" where
  "field_readable ops tot (FText m) = False"
| "field_readable ops tot (FBytes d) = (length d < tot)"
| "field_readable ops tot (FBignum n) = bignum_reads ops n"
| "field_readable ops tot _ = True"

lemma up_args_length: "length (up_args f) = length (field_args f)"
  by (cases f) auto

lemma unpack_block_enough:
  assumes inv: "buffer_inv b" and c: "buf_content b = d @ rest" and "length d < max_len"
    and grants: "\<forall>n. heap_grants h n"
  shows "\<exists>b'. unpack_block h b max_len (length d) extra = Some (0, Some d, b') \<and> buffer_inv b' \<and>
    buf_content b' = rest"
proof -
  have len: "length d \<le> length (buf_content b)"
    using c by simp
  also have "\<dots> < 4294967296"
    using length_buf_content [OF inv] buffer_inv_bounds [OF inv] by simp
  finally have "ssh_buffer_validate_length b (length d) = 0"
    using validate_length_iff [OF inv] len by simp
  with get_data_enough [OF inv len] assms(3) c grants show ?thesis
    by (auto simp: unpack_block_def malloc_def)
qed

lemma get_be_enough:
  assumes inv: "buffer_inv b"
  shows "buf_content b = x # rest \<Longrightarrow> \<exists>b'. ssh_buffer_get_u8 b = (1, Some x, b') \<and> buffer_inv b' \<and>
      buf_content b' = rest"
    and "buf_content b = be_bytes (w::u16) @ rest \<Longrightarrow> \<exists>b'. ssh_buffer_get_data b 2 = (2, be_bytes w, b') \<and>
      buffer_inv b' \<and> buf_content b' = rest"
    and "buf_content b = be_bytes (d::u32) @ rest \<Longrightarrow>
      \<exists>b'. ssh_buffer_get_u32 b = (4, Some (load_bytes (be_bytes d)), b') \<and> buffer_inv b' \<and>
        buf_content b' = rest"
    and "buf_content b = be_bytes (q::u64) @ rest \<Longrightarrow>
      \<exists>b'. ssh_buffer_get_u64 b = (8, Some (load_bytes (be_bytes q)), b') \<and> buffer_inv b' \<and>
        buf_content b' = rest"
  using get_data_enough [OF inv, of 1] get_data_enough [OF inv, of 2]
    get_data_enough [OF inv, of 4] get_data_enough [OF inv, of 8]
  by (auto simp: ssh_buffer_get_u8_def ssh_buffer_get_u32_def ssh_buffer_get_u64_def load_bytes_def)

lemma unpack_case_field:
  assumes inv: "buffer_inv b" and c: "buf_content b = field_wire ops f @ rest"
    and grants: "\<forall>n. heap_grants h n" and ok: "field_ok ops f" and r: "field_readable ops tot f"
    and total: "length (buf_content b) \<le> tot"
  shows "\<exists>x b'. unpack_case h ops tot b (field_char f) (up_args f @ ap) =
      Done (0, x, b', length (field_args f) - 1, ap) \<and> out_holds f x \<and> buffer_inv b' \<and>
    buf_content b' = rest"
proof -
  have "length (buf_content b) \<le> STRING_SIZE_MAX"
    using length_buf_content [OF inv] buffer_inv_bounds [OF inv] by (simp add: STRING_SIZE_MAX_def)
  then have string: "\<exists>s b'. ssh_buffer_get_ssh_string h b = (Some s, b') \<and> ssh_string_ok s \<and>
      ss_contents s = d \<and> buffer_inv b' \<and> buf_content b' = rest" if "buf_content b = sized d @ rest" for d
    using get_ssh_string_enough [OF inv, of d rest h] that grants by (auto simp: sized_def)
  show ?thesis
  proof (cases f)
    case (FByte x)
    with c get_be_enough(1) [OF inv, of x rest] show ?thesis
      by (auto simp: unpack_case_def)
  next
    case (FWord w)
    with c get_be_enough(2) [OF inv, of w rest] show ?thesis
      by (auto simp: unpack_case_def wire_simps)
  next
    case (FDword d)
    with c get_be_enough(3) [OF inv, of d rest] show ?thesis
      by (auto simp: unpack_case_def wire_simps)
  next
    case (FQword q)
    with c get_be_enough(4) [OF inv, of q rest] show ?thesis
      by (auto simp: unpack_case_def wire_simps)
  next
    case (FString s)
    with c string [of "ss_contents s"] show ?thesis
      by (auto simp: unpack_case_def)
  next
    case (FCStr m)
    have small: "length m \<le> STRING_SIZE_MAX"
      using \<open>length (buf_content b) \<le> STRING_SIZE_MAX\<close> c FCStr by simp
    obtain b1 where b1: "ssh_buffer_get_u32 b =
        (4, Some (load_bytes (be_bytes (of_nat (length m) :: u32))), b1)" "buffer_inv b1"
      "buf_content b1 = m @ rest"
      using get_be_enough(3) [OF inv, of "of_nat (length m)" "m @ rest"] c FCStr
      by (auto simp: sized_def)
    have "length m < tot"
      using total c FCStr by simp
    with unpack_block_enough [OF b1(2,3) _ grants] obtain b2 where
      "unpack_block h b1 tot (length m) 1 = Some (0, Some m, b2)" "buffer_inv b2" "buf_content b2 = rest"
      by blast
    with b1 FCStr show ?thesis
      by (simp add: unpack_case_def wire_simps unat_of_nat_string [OF small])
  next
    case (FBytes d)
    with c r unpack_block_enough [OF inv, of d rest tot h 0] grants show ?thesis
      by (auto simp: unpack_case_def)
  next
    case (FBignum n)
    with c string [of "mpint_bytes ops n"] obtain s b' where
      s: "ssh_buffer_get_ssh_string h b = (Some s, b')" "ss_contents s = mpint_bytes ops n"
        "buffer_inv b'" "buf_content b' = rest"
      by auto
    have "ssh_make_string_bn ops s = Some n"
      using s(2) r FBignum
      by (auto simp: ssh_make_string_bn_def bignum_reads_def mpint_bytes_def simp flip: ss_contents_def)
    with s FBignum show ?thesis
      by (simp add: unpack_case_def)
  next
    case (FText m)
    with r show ?thesis
      by simp
  qed
qed

lemma unpack_loop_fields:
  assumes "buffer_inv b" and "buf_content b = concat (map (field_wire ops) fs) @ rest"
    and "\<forall>n. heap_grants h n" and "\<forall>f\<in>set fs. field_ok ops f \<and> field_readable ops tot f"
    and "length (buf_content b) \<le> tot" and "count + length (concat (map field_args fs)) \<le> argc"
  shows "\<exists>outs b'. unpack_loop h ops tot (map field_char fs) argc count rc b
        (concat (map up_args fs) @ ap) acc =
      LoopEnd (if fs = [] then rc else 0, count + length (concat (map field_args fs)), ap, acc @ outs, [], b') \<and>
    list_all2 out_holds fs outs \<and> buffer_inv b' \<and> buf_content b' = rest"
  using assms
proof (induction fs arbitrary: b count rc acc)
  case (Cons f fs)
  let ?ap = "concat (map up_args fs) @ ap" and ?rest = "concat (map (field_wire ops) fs) @ rest"
  have "\<exists>x b1. unpack_case h ops tot b (field_char f) (up_args f @ ?ap) =
      Done (0, x, b1, length (field_args f) - 1, ?ap) \<and> out_holds f x \<and> buffer_inv b1 \<and>
    buf_content b1 = ?rest"
    using Cons.prems by (intro unpack_case_field) auto
  then obtain x b1 where b1: "unpack_case h ops tot b (field_char f) (up_args f @ ?ap) =
      Done (0, x, b1, length (field_args f) - 1, ?ap)" "out_holds f x" "buffer_inv b1"
    "buf_content b1 = ?rest"
    by blast
  obtain k where k: "length (field_args f) = Suc k"
    using field_args_nonempty [of f] by (cases "length (field_args f)") auto
  have "length (buf_content b1) \<le> tot"
    using Cons.prems(2,5) b1(4) by simp
  with Cons.IH [OF b1(3,4) Cons.prems(3), of "count + Suc k" 0 "acc @ [x]"] Cons.prems k
  obtain outs b' where "unpack_loop h ops tot (map field_char fs) argc (count + Suc k) 0 b1 ?ap (acc @ [x]) =
      LoopEnd (0, count + Suc k + length (concat (map field_args fs)), ap, (acc @ [x]) @ outs, [], b')"
    "list_all2 out_holds fs outs" "buffer_inv b'" "buf_content b' = rest"
    by auto
  with b1 k Cons.prems(6) show ?case
    by (intro exI [of _ "x # outs"] exI [of _ b']) auto
qed simp

subsection \<open>Properties\<close>

text \<open>
  Packing is correct: for every sequence of fields and a buffer with room,
  \<^verbatim>\<open>ssh_buffer_pack\<close> returns \<^verbatim>\<open>SSH_OK\<close> and appends the wire images of the fields in order,
  integers in network order, strings and big numbers with their length in front.
\<close>

theorem ssh_buffer_pack_correct:
  assumes "buffer_inv b" and "\<forall>n. heap_grants h n" and "\<forall>f\<in>set fs. field_ok ops f"
    and "fs \<noteq> []" and "pack_argc fs \<le> 256" and "sum_list (map field_reserve fs) < BUFFER_SIZE_MAX"
    and "length (buf_content b) + length (wire_of ops fs) + 8 < BUFFER_SIZE_MAX"
  shows "\<exists>b'. ssh_buffer_pack h ops b (map field_char fs) (pack_argc fs) (pack_argv fs) =
      (PackRet SSH_OK, b') \<and> buffer_inv b' \<and> buf_content b' = buf_content b @ wire_of ops fs"
  using assms by (rule pack_fields) blast

text \<open>Natural numbers as a backend: the number of bits, and big-endian bytes without leading zeros.\<close>

function num_bits :: "nat \<Rightarrow> nat" where
  "num_bits n = (if n = 0 then 0 else Suc (num_bits (n div 2)))"
  by pat_completeness auto

termination num_bits
  by (relation "measure id") auto

declare num_bits.simps [simp del]

definition nat_bignum :: "nat bignum_ops" where
  "nat_bignum = \<lparr>bn_num_bytes = (\<lambda>n. (num_bits n + 7) div 8),
     bn_num_bits = num_bits,
     bn_is_bit_set = (\<lambda>n k. odd (n div 2 ^ k)),
     bn_bn2bin = (\<lambda>n len. rev (le_enc len n)),
     bn_bin2bn = (\<lambda>bs. Some (le_dec (rev bs)))\<rparr>"

definition sample_fields :: "nat wfield list" where
  "sample_fields = [FByte 94, FDword 7, FCStr [97, 98], FBytes [1, 2], FBignum 128, FWord 513]"

theorem ssh_buffer_pack_correct_witness:
  "\<exists>b'. ssh_buffer_pack roomy_heap nat_bignum roomy_buffer ''bdsPBw'' 7 (pack_argv sample_fields) =
      (PackRet SSH_OK, b') \<and>
    buf_content b' = [94, 0, 0, 0, 7, 0, 0, 0, 2, 97, 98, 1, 2, 0, 0, 0, 2, 0, 128, 2, 1]"
proof -
  have "\<forall>f\<in>set sample_fields. field_ok nat_bignum f"
    by code_simp
  moreover have "sample_fields \<noteq> []" and "pack_argc sample_fields \<le> 256"
    and "sum_list (map field_reserve sample_fields) < BUFFER_SIZE_MAX"
    and "length (wire_of nat_bignum sample_fields) + 8 < BUFFER_SIZE_MAX"
    by code_simp+
  moreover have "pack_argc sample_fields = 7" and "map field_char sample_fields = ''bdsPBw''"
    and "wire_of nat_bignum sample_fields =
      [94, 0, 0, 0, 7, 0, 0, 0, 2, 97, 98, 1, 2, 0, 0, 0, 2, 0, 128, 2, 1]"
    by code_simp+
  ultimately show ?thesis
    using ssh_buffer_pack_correct [of roomy_buffer roomy_heap sample_fields nat_bignum] by auto
qed

text \<open>
  C32. Round trip: what \<^verbatim>\<open>ssh_buffer_pack\<close> wrote, \<^verbatim>\<open>ssh_buffer_unpack\<close> with the same format
  reads back, field by field, and the bytes behind the fields stay unread. The big numbers
  rely on the backend's conversions being inverse on them; a \<open>P\<close> field must be shorter than
  the whole buffer.
\<close>

theorem ssh_buffer_pack_unpack_roundtrip:
  assumes "buffer_inv b" and "buf_content b = []" and "\<forall>n. heap_grants h n"
    and "\<forall>f\<in>set fs. field_ok ops f \<and> field_readable ops (length (wire_of ops fs @ rest)) f"
    and "fs \<noteq> []" and "pack_argc fs \<le> 256" and "sum_list (map field_reserve fs) < BUFFER_SIZE_MAX"
    and "length (wire_of ops fs) + length rest + 8 < BUFFER_SIZE_MAX"
  shows "\<exists>b1 b2 outs b3.
    ssh_buffer_pack h ops b (map field_char fs) (pack_argc fs) (pack_argv fs) = (PackRet SSH_OK, b1) \<and>
    ssh_buffer_add_data h b1 (Some rest) (length rest) = (0, b2) \<and>
    ssh_buffer_unpack_va h ops b2 (map field_char fs) (pack_argc fs) (unpack_argv fs) =
      (PackRet SSH_OK, outs, b3) \<and>
    list_all2 out_holds fs outs \<and> buf_content b3 = rest"
proof -
  obtain b1 where b1: "ssh_buffer_pack h ops b (map field_char fs) (pack_argc fs) (pack_argv fs) =
      (PackRet SSH_OK, b1)" "buffer_inv b1" "buf_content b1 = wire_of ops fs"
    by (rule pack_fields [OF assms(1,3) _ assms(5-7)]) (use assms in auto)
  obtain b2 where b2: "ssh_buffer_add_data h b1 (Some rest) (length rest) = (0, b2)" "buffer_inv b2"
    "buf_content b2 = wire_of ops fs @ rest"
    by (rule add_data_granted [OF b1(2) assms(3), of "length rest" rest]) (use assms(8) b1(3) in auto)
  have "\<exists>outs b3. unpack_loop h ops (length (wire_of ops fs @ rest)) (map field_char fs) (pack_argc fs) 0
      SSH_ERROR b2 (unpack_argv fs) [] =
    LoopEnd (0, pack_argc fs, [UpCanary SSH_BUFFER_PACK_END], outs, [], b3) \<and>
    list_all2 out_holds fs outs \<and> buffer_inv b3 \<and> buf_content b3 = rest"
    using unpack_loop_fields [OF b2(2) _ assms(3,4), of rest 0 "pack_argc fs" SSH_ERROR
        "[UpCanary SSH_BUFFER_PACK_END]" "[]"] b2(3) assms(5)
    by (simp add: wire_of_def unpack_argv_def pack_argc_def)
  then obtain outs b3 where "unpack_loop h ops (length (wire_of ops fs @ rest)) (map field_char fs)
      (pack_argc fs) 0 SSH_ERROR b2 (unpack_argv fs) [] =
    LoopEnd (0, pack_argc fs, [UpCanary SSH_BUFFER_PACK_END], outs, [], b3)"
    "list_all2 out_holds fs outs" "buf_content b3 = rest"
    by blast
  moreover have "ssh_buffer_get_len b2 = length (wire_of ops fs @ rest)"
    using get_len_content [OF b2(2)] b2(3) by simp
  ultimately have "ssh_buffer_unpack_va h ops b2 (map field_char fs) (pack_argc fs) (unpack_argv fs) =
      (PackRet SSH_OK, outs, b3)"
    using assms(6) by (simp add: ssh_buffer_unpack_va_def Let_def)
  with b1(1) b2(1) \<open>list_all2 out_holds fs outs\<close> \<open>buf_content b3 = rest\<close> show ?thesis
    by blast
qed

theorem ssh_buffer_pack_unpack_roundtrip_witness:
  "\<exists>b1 b2 outs b3.
    ssh_buffer_pack roomy_heap nat_bignum roomy_buffer ''bdsPBw'' 7 (pack_argv sample_fields) =
      (PackRet SSH_OK, b1) \<and>
    ssh_buffer_add_data roomy_heap b1 (Some [5]) 1 = (0, b2) \<and>
    ssh_buffer_unpack_va roomy_heap nat_bignum b2 ''bdsPBw'' 7 (unpack_argv sample_fields) =
      (PackRet SSH_OK, outs, b3) \<and>
    list_all2 out_holds sample_fields outs \<and> buf_content b3 = [5]"
proof -
  have "\<forall>f\<in>set sample_fields. field_ok nat_bignum f \<and>
      field_readable nat_bignum (length (wire_of nat_bignum sample_fields @ [5])) f"
    by code_simp
  moreover have "sample_fields \<noteq> []" and "pack_argc sample_fields \<le> 256"
    and "sum_list (map field_reserve sample_fields) < BUFFER_SIZE_MAX"
    and "length (wire_of nat_bignum sample_fields) + length [5::u8] + 8 < BUFFER_SIZE_MAX"
    by code_simp+
  moreover have "pack_argc sample_fields = 7" and "map field_char sample_fields = ''bdsPBw''"
    by code_simp+
  ultimately show ?thesis
    using ssh_buffer_pack_unpack_roundtrip
      [of roomy_buffer roomy_heap sample_fields nat_bignum "[5]"] by simp
qed

text \<open>An output that owns no memory, and one that also holds nothing of what was read.\<close>

fun out_released :: "'bn out \<Rightarrow> bool" where
  "out_released (OutString s) = (s = None)"
| "out_released (OutCStr m) = (m = None)"
| "out_released (OutData d) = (d = None)"
| "out_released (OutBignum n) = (n = None)"
| "out_released _ = True"

fun out_wiped :: "'bn out \<Rightarrow> bool" where
  "out_wiped (OutU8 x) = (x = 0)"
| "out_wiped (OutU16 x) = (x = 0)"
| "out_wiped (OutU32 x) = (x = 0)"
| "out_wiped (OutU64 x) = (x = 0)"
| "out_wiped out = out_released out"

lemma rollback_released: "out_released (unpack_rollback sec x) \<and> (sec \<longrightarrow> out_wiped (unpack_rollback sec x))"
  by (cases x) auto

lemma unpack_block_failed:
  "unpack_block h b m n e = Some (rc, d, b') \<Longrightarrow> rc \<noteq> 0 \<Longrightarrow> d = None \<and> rc = SSH_ERROR"
  by (auto simp: unpack_block_def Let_def split: if_splits option.splits prod.splits)

lemma unpack_case_failed:
  "unpack_case h ops m b c ap = Done (rc, x, b', extra, ap') \<Longrightarrow> rc \<noteq> 0 \<Longrightarrow>
    rc = SSH_ERROR \<and> out_wiped x"
  by (auto simp: unpack_case_def ssh_buffer_get_u8_def ssh_buffer_get_data_def Let_def
      split: if_splits list.splits up_arg.splits prod.splits option.splits
      dest!: unpack_block_failed)

lemma out_wiped_released: "out_wiped x \<Longrightarrow> out_released x"
  by (cases x) auto

lemma unpack_loop_failed:
  "unpack_loop h ops m p argc count rc b ap acc = LoopEnd (rc', count', ap', dn, failing, b') \<Longrightarrow>
    rc = SSH_OK \<or> rc = SSH_ERROR \<Longrightarrow>
    (rc' = SSH_OK \<or> rc' = SSH_ERROR) \<and> (\<forall>x\<in>set failing. out_wiped x)"
proof (induction h ops m p argc count rc b ap acc rule: unpack_loop.induct)
  case (2 h ops m c p argc count rc b ap acc)
  show ?case
  proof (cases "unpack_case h ops m b c ap")
    case (Done r)
    obtain rc1 x b1 extra ap1 where r: "r = (rc1, x, b1, extra, ap1)"
      by (rule prod_cases5)
    with 2 Done unpack_case_failed [of h ops m b c ap rc1 x b1 extra ap1] show ?thesis
      by (cases "argc < count"; cases "rc1 = 0") auto
  qed (use 2 in \<open>auto split: if_splits\<close>)
qed simp

text \<open>
  C33. A failing \<^verbatim>\<open>ssh_buffer_unpack\<close> leaks nothing: it returns \<^verbatim>\<open>SSH_ERROR\<close>, no output
  pointer is left owning a string, block or big number, and when the buffer is secure the
  integers already stored are overwritten with zero. This holds for every format, every
  argument list and every content of the buffer.
\<close>

theorem ssh_buffer_unpack_error_rolls_back:
  assumes "ssh_buffer_unpack_va h ops b format argc ap = (PackRet rc, outs, b')" and "rc \<noteq> SSH_OK"
  shows "rc = SSH_ERROR \<and>
    (\<forall>x\<in>set outs. out_released x \<and> (b_secure b' \<longrightarrow> out_wiped x))"
proof (cases "unpack_loop h ops (ssh_buffer_get_len b) format argc 0 SSH_ERROR b ap []")
  case (LoopEnd r)
  obtain rc0 count ap' dn failing b1 where r: "r = (rc0, count, ap', dn, failing, b1)"
    by (rule prod_cases6)
  have "rc0 = SSH_OK \<or> rc0 = SSH_ERROR" and "\<forall>x\<in>set failing. out_wiped x"
    using unpack_loop_failed [OF LoopEnd [unfolded r]] by auto
  with assms LoopEnd r show ?thesis
    by (auto simp: ssh_buffer_unpack_va_def Let_def rollback_released out_wiped_released
        split: if_splits list.splits up_arg.splits)
qed (use assms in \<open>auto simp: ssh_buffer_unpack_va_def Let_def split: if_splits\<close>)

theorem ssh_buffer_unpack_error_rolls_back_witness:
  "\<exists>outs b'. ssh_buffer_unpack_va roomy_heap nat_bignum
      (ssh_buffer_set_secure (roomy_buffer\<lparr>b_data := [9, 0, 0, 0, 1, 65] @ replicate 58 0, b_used := 6\<rparr>))
      ''bSb'' 3 [UpPtr, UpPtr, UpPtr, UpCanary SSH_BUFFER_PACK_END] = (PackRet SSH_ERROR, outs, b') \<and>
    outs = [OutU8 0, OutString None, OutUnset] \<and> list_all out_wiped outs"
proof -
  let ?r = "ssh_buffer_unpack_va roomy_heap nat_bignum
      (ssh_buffer_set_secure (roomy_buffer\<lparr>b_data := [9, 0, 0, 0, 1, 65] @ replicate 58 0, b_used := 6\<rparr>))
      ''bSb'' 3 [UpPtr, UpPtr, UpPtr, UpCanary SSH_BUFFER_PACK_END]"
  have run: "fst ?r = PackRet SSH_ERROR" "fst (snd ?r) = [OutU8 0, OutString None, OutUnset]"
    "b_secure (snd (snd ?r))"
    by code_simp+
  then have "?r = (PackRet SSH_ERROR, [OutU8 0, OutString None, OutUnset], snd (snd ?r))"
    by (metis prod.collapse)
  from ssh_buffer_unpack_error_rolls_back [OF this] this run(3) show ?thesis
    by (intro exI [of _ "[OutU8 0, OutString None, OutUnset]"] exI [of _ "snd (snd ?r)"]) simp
qed

text \<open>
  Three limits the model shows: a \<open>P\<close> field cannot be the whole buffer, since the length is
  compared with \<^verbatim>\<open>max_len - 1\<close>; an empty format is an error; and the comparison \<^verbatim>\<open>count > argc\<close>
  lets a format with one letter too many take the canary for its last argument.
\<close>

lemma unpack_P_refuses_whole_buffer:
  "fst (ssh_buffer_unpack_va roomy_heap nat_bignum
     (roomy_buffer\<lparr>b_data := [1, 2] @ replicate 62 0, b_used := 2\<rparr>)
     ''P'' 2 [UpSize 2, UpPtr, UpCanary SSH_BUFFER_PACK_END]) = PackRet SSH_ERROR"
  by code_simp

lemma pack_empty_format_fails:
  "fst (ssh_buffer_pack_va h ops b [] 0 [VaInt SSH_BUFFER_PACK_END]) = PackRet SSH_ERROR"
  by (simp add: ssh_buffer_pack_va_def)

end
