(* ===== verification/Session.thy ===== *)
theory Session
  imports SSH_Pack Misc
begin

text \<open>
  The session (\<^verbatim>\<open>struct ssh_session_struct\<close> of \<^verbatim>\<open>include/libssh/session.h\<close>, the part the packet
  layer and the channels read and write), the enumerations of its states, and the keys and
  ciphers of \<^verbatim>\<open>include/libssh/crypto.h\<close> as far as the packet layer uses them.
\<close>

datatype ssh_session_state =
    SSH_SESSION_STATE_NONE
  | SSH_SESSION_STATE_CONNECTING
  | SSH_SESSION_STATE_SOCKET_CONNECTED
  | SSH_SESSION_STATE_BANNER_RECEIVED
  | SSH_SESSION_STATE_INITIAL_KEX
  | SSH_SESSION_STATE_KEXINIT_RECEIVED
  | SSH_SESSION_STATE_DH
  | SSH_SESSION_STATE_AUTHENTICATING
  | SSH_SESSION_STATE_AUTHENTICATED
  | SSH_SESSION_STATE_ERROR
  | SSH_SESSION_STATE_DISCONNECTED

datatype ssh_dh_state =
    DH_STATE_INIT
  | DH_STATE_GROUP_SENT
  | DH_STATE_REQUEST_SENT
  | DH_STATE_INIT_SENT
  | DH_STATE_NEWKEYS_SENT
  | DH_STATE_FINISHED

datatype ssh_auth_state =
    SSH_AUTH_STATE_NONE
  | SSH_AUTH_STATE_PARTIAL
  | SSH_AUTH_STATE_SUCCESS
  | SSH_AUTH_STATE_FAILED
  | SSH_AUTH_STATE_ERROR
  | SSH_AUTH_STATE_INFO
  | SSH_AUTH_STATE_PK_OK
  | SSH_AUTH_STATE_KBDINT_SENT
  | SSH_AUTH_STATE_GSSAPI_REQUEST_SENT
  | SSH_AUTH_STATE_GSSAPI_TOKEN
  | SSH_AUTH_STATE_GSSAPI_MIC_SENT
  | SSH_AUTH_STATE_PUBKEY_OFFER_SENT
  | SSH_AUTH_STATE_PUBKEY_AUTH_SENT
  | SSH_AUTH_STATE_PASSWORD_AUTH_SENT
  | SSH_AUTH_STATE_AUTH_NONE_SENT

datatype ssh_auth_service_state =
    SSH_AUTH_SERVICE_NONE
  | SSH_AUTH_SERVICE_SENT
  | SSH_AUTH_SERVICE_ACCEPTED
  | SSH_AUTH_SERVICE_DENIED

datatype ssh_channel_request_state =
    SSH_CHANNEL_REQ_STATE_NONE
  | SSH_CHANNEL_REQ_STATE_PENDING
  | SSH_CHANNEL_REQ_STATE_ACCEPTED
  | SSH_CHANNEL_REQ_STATE_DENIED
  | SSH_CHANNEL_REQ_STATE_ERROR

datatype ssh_packet_state =
    PACKET_STATE_INIT
  | PACKET_STATE_SIZEREAD
  | PACKET_STATE_PROCESSING

datatype ssh_packet_filter_result =
    SSH_PACKET_UNKNOWN
  | SSH_PACKET_ALLOWED
  | SSH_PACKET_DENIED

text \<open>
  The MAC algorithms; \<open>SSH_HMAC_UNSET\<close> is the value 0 a zeroed structure holds, which is none
  of the named constants.
\<close>

datatype ssh_hmac =
    SSH_HMAC_UNSET
  | SSH_HMAC_SHA1
  | SSH_HMAC_SHA1_96
  | SSH_HMAC_SHA256
  | SSH_HMAC_SHA512
  | SSH_HMAC_MD5
  | SSH_HMAC_MD5_96
  | SSH_HMAC_AEAD_POLY1305
  | SSH_HMAC_AEAD_GCM

datatype ssh_key_exchange =
    SSH_KEX_UNSET
  | SSH_KEX_DH_GROUP1_SHA1
  | SSH_KEX_DH_GROUP14_SHA1
  | SSH_KEX_DH_GEX_SHA1
  | SSH_KEX_DH_GEX_SHA256
  | SSH_KEX_ECDH_SHA2_NISTP256
  | SSH_KEX_ECDH_SHA2_NISTP384
  | SSH_KEX_ECDH_SHA2_NISTP521
  | SSH_KEX_CURVE25519_SHA256_LIBSSH_ORG
  | SSH_KEX_CURVE25519_SHA256
  | SSH_KEX_DH_GROUP16_SHA512
  | SSH_KEX_DH_GROUP18_SHA512
  | SSH_KEX_DH_GROUP14_SHA256

text \<open>Bits of \<^verbatim>\<open>session->flags\<close>, the authentication methods, and the two directions.\<close>

definition SSH_SESSION_FLAG_AUTHENTICATED :: u32 where
  "SSH_SESSION_FLAG_AUTHENTICATED = 2"

definition SSH_DIRECTION_IN :: u32 where
  "SSH_DIRECTION_IN = 1"

definition SSH_DIRECTION_OUT :: u32 where
  "SSH_DIRECTION_OUT = 2"

definition SSH_DIRECTION_BOTH :: u32 where
  "SSH_DIRECTION_BOTH = 3"

record ssh_cipher =
  ci_blocksize :: nat
  ci_lenfield_blocksize :: nat
  ci_packets :: nat
  ci_blocks :: nat
  ci_max_blocks :: nat

text \<open>One side's proposal: the cookie and ten method lists, each a C string or \<^verbatim>\<open>NULL\<close>.\<close>

record ssh_kex =
  kx_cookie :: bytes
  kx_methods :: "bytes option list"

definition empty_kex :: ssh_kex where
  "empty_kex = \<lparr>kx_cookie = replicate 16 0, kx_methods = replicate 10 None\<rparr>"

text \<open>
  The material of one key exchange, members of \<^verbatim>\<open>struct ssh_crypto_struct\<close> of their own in the
  code: the two Diffie-Hellman key pairs (client, server) of \<^verbatim>\<open>dh_ctx\<close>, the elliptic-curve keys, what
  the server sent, and the shared secret. Big numbers are naturals, the keys of the crypto
  library byte strings.
\<close>

record dh_keypair =
  dk_modulus :: nat
  dk_generator :: nat
  dk_public :: "nat option"
  dk_private :: "nat option"

type_synonym dh_ctx = "dh_keypair option \<times> dh_keypair option"

record ssh_exchange =
  ex_dh_ctx :: "dh_ctx option"
  ex_dh_pmin :: u32
  ex_dh_pn :: u32
  ex_dh_pmax :: u32
  ex_ecdh_privkey :: "bytes option"
  ex_ecdh_client_pubkey :: "ssh_string option"
  ex_ecdh_server_pubkey :: "ssh_string option"
  ex_curve25519_privkey :: bytes
  ex_curve25519_client_pubkey :: bytes
  ex_curve25519_server_pubkey :: bytes
  ex_shared_secret :: "nat option"
  ex_server_pubkey :: "bytes option"
  ex_dh_server_signature :: "ssh_string option"
  ex_secret_hash :: bytes

definition empty_exchange :: ssh_exchange where
  "empty_exchange = \<lparr>ex_dh_ctx = None, ex_dh_pmin = 0, ex_dh_pn = 0, ex_dh_pmax = 0, ex_ecdh_privkey = None,
     ex_ecdh_client_pubkey = None, ex_ecdh_server_pubkey = None, ex_curve25519_privkey = replicate 32 0,
     ex_curve25519_client_pubkey = replicate 32 0, ex_curve25519_server_pubkey = replicate 32 0,
     ex_shared_secret = None, ex_server_pubkey = None, ex_dh_server_signature = None, ex_secret_hash = []\<rparr>"

record ssh_crypto =
  cr_used :: u32
  cr_in_cipher :: "ssh_cipher option"
  cr_out_cipher :: "ssh_cipher option"
  cr_session_id :: bytes
  cr_digest_len :: nat
  cr_in_hmac :: ssh_hmac
  cr_out_hmac :: ssh_hmac
  cr_in_etm :: bool
  cr_out_etm :: bool
  cr_do_compress_in :: bool
  cr_do_compress_out :: bool
  cr_delayed_compress_in :: bool
  cr_delayed_compress_out :: bool
  cr_client_kex :: ssh_kex
  cr_server_kex :: ssh_kex
  cr_kex_methods :: "bytes option list"
  cr_kex_type :: ssh_key_exchange
  cr_exchange :: ssh_exchange

text \<open>
  The packet in the input is its length and its type; the queue holds the packets delayed
  while the keys are exchanged again; \<open>s_sent\<close> is what was handed to the socket.
\<close>

text \<open>The tables of handlers a key exchange registers with the session while it runs.\<close>

datatype kex_callbacks =
    ssh_dh_client_callbacks
  | ssh_dhgex_client_callbacks
  | ssh_ecdh_client_callbacks
  | ssh_curve25519_client_callbacks

datatype ssh_pending_call =
    SSH_PENDING_CALL_NONE
  | SSH_PENDING_CALL_CONNECT
  | SSH_PENDING_CALL_AUTH_NONE
  | SSH_PENDING_CALL_AUTH_PASSWORD
  | SSH_PENDING_CALL_AUTH_OFFER_PUBKEY
  | SSH_PENDING_CALL_AUTH_PUBKEY
  | SSH_PENDING_CALL_AUTH_AGENT
  | SSH_PENDING_CALL_AUTH_KBDINT_INIT
  | SSH_PENDING_CALL_AUTH_KBDINT_SEND
  | SSH_PENDING_CALL_AUTH_GSSAPI_MIC

text \<open>The questions of keyboard-interactive authentication, and the answers given so far.\<close>

record ssh_kbdint =
  kb_nprompts :: nat
  kb_nanswers :: nat
  kb_name :: "bytes option"
  kb_instruction :: "bytes option"
  kb_prompts :: "bytes option list"
  kb_echo :: "u8 list"
  kb_answers :: "bytes option list option"

text \<open>
  Channels (\<^verbatim>\<open>include/libssh/channels.h\<close>). The session and the user's pointer are left out; the
  counter is there or not, with the bytes read and written. Pointers to channels are addresses:
  the session holds its list with the address of each, the newest first.
\<close>

datatype ssh_channel_state =
    SSH_CHANNEL_STATE_NOT_OPEN | SSH_CHANNEL_STATE_OPENING | SSH_CHANNEL_STATE_OPEN_DENIED
  | SSH_CHANNEL_STATE_OPEN | SSH_CHANNEL_STATE_CLOSED

definition SSH_CHANNEL_FLAG_CLOSED_REMOTE :: u32 where
  "SSH_CHANNEL_FLAG_CLOSED_REMOTE = 1"

definition SSH_CHANNEL_FLAG_CLOSED_LOCAL :: u32 where
  "SSH_CHANNEL_FLAG_CLOSED_LOCAL = 2"

definition SSH_CHANNEL_FLAG_FREED_LOCAL :: u32 where
  "SSH_CHANNEL_FLAG_FREED_LOCAL = 4"

definition SSH_CHANNEL_FLAG_NOT_BOUND :: u32 where
  "SSH_CHANNEL_FLAG_NOT_BOUND = 8"

record ssh_channel =
  ch_local_channel :: u32
  ch_local_window :: u32
  ch_local_eof :: bool
  ch_local_maxpacket :: u32
  ch_remote_channel :: u32
  ch_remote_window :: u32
  ch_remote_eof :: bool
  ch_remote_maxpacket :: u32
  ch_state :: ssh_channel_state
  ch_delayed_close :: bool
  ch_flags :: u32
  ch_stdout :: "ssh_buffer option"
  ch_stderr :: "ssh_buffer option"
  ch_exit_status :: u32
  ch_request_state :: ssh_channel_request_state
  ch_counter :: "(nat \<times> nat) option"

record ssh_session =
  s_server :: bool
  s_client :: bool
  s_alive :: bool
  s_send_seq :: u32
  s_recv_seq :: u32
  s_flags :: u32
  s_extensions :: u32
  s_session_state :: ssh_session_state
  s_packet_state :: ssh_packet_state
  s_dh_handshake_state :: ssh_dh_state
  s_global_req_state :: ssh_channel_request_state
  s_service_state :: ssh_auth_service_state
  s_auth_state :: ssh_auth_state
  s_supported_methods :: u32
  s_current_method :: u32
  s_in_type :: u8
  s_in_len :: u32
  s_in_buffer :: "ssh_buffer option"
  s_out_buffer :: ssh_buffer
  s_out_queue :: "ssh_buffer list"
  s_current_crypto :: "ssh_crypto option"
  s_next_crypto :: "ssh_crypto option"
  s_last_rekey_time :: ssh_timestamp
  s_rekey_data :: nat
  s_rekey_time :: nat
  s_sent :: "bytes list"
  s_banner :: "ssh_string option"
  s_in_hashbuf :: "ssh_buffer option"
  s_out_hashbuf :: "ssh_buffer option"
  s_wanted_methods :: "bytes option list"
  s_first_kex_follows_guess_wrong :: bool
  s_kex_callbacks :: "kex_callbacks list"
  s_serverbanner :: "bytes option"
  s_clientbanner :: "bytes option"
  s_connected :: bool
  s_openssh :: nat
  s_pending_call :: ssh_pending_call
  s_opt_username :: "bytes option"
  s_kbdint :: "ssh_kbdint option"
  s_channels :: "(nat \<times> ssh_channel) list"
  s_maxchannel :: u32

text \<open>A client session that has exchanged keys and sent a password, for concrete runs.\<close>

definition sample_session :: ssh_session where
  "sample_session =
     \<lparr>s_server = False, s_client = True, s_alive = True, s_send_seq = 0, s_recv_seq = 0,
      s_flags = 0, s_extensions = 0,
      s_session_state = SSH_SESSION_STATE_AUTHENTICATING, s_packet_state = PACKET_STATE_INIT,
      s_dh_handshake_state = DH_STATE_FINISHED, s_global_req_state = SSH_CHANNEL_REQ_STATE_NONE,
      s_service_state = SSH_AUTH_SERVICE_ACCEPTED, s_auth_state = SSH_AUTH_STATE_PASSWORD_AUTH_SENT,
      s_supported_methods = 0, s_current_method = 0, s_in_type = 0, s_in_len = 0,
      s_in_buffer = None, s_out_buffer = roomy_buffer, s_out_queue = [],
      s_current_crypto = None, s_next_crypto = None,
      s_last_rekey_time = \<lparr>ts_seconds = 0, ts_useconds = 0\<rparr>, s_rekey_data = 0, s_rekey_time = 0,
      s_sent = [], s_banner = None, s_in_hashbuf = None, s_out_hashbuf = None,
      s_wanted_methods = replicate 10 None, s_first_kex_follows_guess_wrong = False,
      s_kex_callbacks = [], s_serverbanner = None, s_clientbanner = None, s_connected = False, s_openssh = 0,
      s_pending_call = SSH_PENDING_CALL_NONE, s_opt_username = Some [117, 0],
      s_kbdint = None, s_channels = [], s_maxchannel = 0\<rparr>"

end
