(* ===== verification/Packet_Filter.thy ===== *)
theory Packet_Filter
  imports Session
begin

text \<open>
  The filter for incoming packets (\<^verbatim>\<open>ssh_packet_incoming_filter\<close> of
  \<^verbatim>\<open>src/libssh/src/packet.c\<close>), which decides from the session's states whether a message
  type may be processed. Each group of definitions covers the cases of one range of types,
  with the tests in the order the code has them.
\<close>

abbreviation deny_unless :: "bool \<Rightarrow> ssh_packet_filter_result \<Rightarrow> ssh_packet_filter_result" where
  "deny_unless b r \<equiv> (if b then r else SSH_PACKET_DENIED)"

text \<open>Types 5 to 7: service requests and extensions.\<close>

definition filter_service :: "ssh_session \<Rightarrow> nat \<Rightarrow> ssh_packet_filter_result" where
  "filter_service s t =
     (if t = 5 then
        (if s_client s then SSH_PACKET_DENIED
         else if s_session_state s \<noteq> SSH_SESSION_STATE_AUTHENTICATING \<and>
                 s_session_state s \<noteq> SSH_SESSION_STATE_AUTHENTICATED then SSH_PACKET_DENIED
         else if s_dh_handshake_state s \<noteq> DH_STATE_FINISHED then SSH_PACKET_DENIED
         else SSH_PACKET_ALLOWED)
      else if t = 6 then
        (if s_session_state s \<noteq> SSH_SESSION_STATE_AUTHENTICATING \<and>
            s_session_state s \<noteq> SSH_SESSION_STATE_AUTHENTICATED then SSH_PACKET_DENIED
         else if s_dh_handshake_state s \<noteq> DH_STATE_FINISHED then SSH_PACKET_DENIED
         else if s_service_state s \<noteq> SSH_AUTH_SERVICE_SENT then SSH_PACKET_DENIED
         else SSH_PACKET_ALLOWED)
      else
        (if s_session_state s \<noteq> SSH_SESSION_STATE_AUTHENTICATING \<and>
            s_session_state s \<noteq> SSH_SESSION_STATE_AUTHENTICATED then SSH_PACKET_DENIED
         else if s_dh_handshake_state s \<noteq> DH_STATE_FINISHED then SSH_PACKET_DENIED
         else SSH_PACKET_ALLOWED))"

text \<open>Types 20 to 34: key exchange.\<close>

definition filter_kex :: "ssh_session \<Rightarrow> nat \<Rightarrow> ssh_packet_filter_result" where
  "filter_kex s t =
     (if t = 20 then
        (if s_session_state s \<noteq> SSH_SESSION_STATE_AUTHENTICATED \<and>
            s_session_state s \<noteq> SSH_SESSION_STATE_INITIAL_KEX then SSH_PACKET_DENIED
         else if s_dh_handshake_state s \<noteq> DH_STATE_INIT \<and>
                 s_dh_handshake_state s \<noteq> DH_STATE_INIT_SENT \<and>
                 s_dh_handshake_state s \<noteq> DH_STATE_FINISHED then SSH_PACKET_DENIED
         else SSH_PACKET_ALLOWED)
      else if t = 21 then
        (if s_session_state s \<noteq> SSH_SESSION_STATE_DH then SSH_PACKET_DENIED
         else if s_dh_handshake_state s \<noteq> DH_STATE_NEWKEYS_SENT then SSH_PACKET_DENIED
         else SSH_PACKET_ALLOWED)
      else if t = 30 then
        (if s_session_state s \<noteq> SSH_SESSION_STATE_DH then SSH_PACKET_DENIED
         else if s_dh_handshake_state s \<noteq> DH_STATE_INIT then SSH_PACKET_DENIED
         else SSH_PACKET_ALLOWED)
      else if t = 31 then
        (if s_session_state s \<noteq> SSH_SESSION_STATE_DH then SSH_PACKET_DENIED
         else if s_dh_handshake_state s \<noteq> DH_STATE_INIT_SENT \<and>
                 s_dh_handshake_state s \<noteq> DH_STATE_REQUEST_SENT then SSH_PACKET_DENIED
         else SSH_PACKET_ALLOWED)
      else SSH_PACKET_ALLOWED)"

text \<open>Types 50 to 53: requests and answers of the authentication.\<close>

definition filter_userauth :: "ssh_session \<Rightarrow> nat \<Rightarrow> ssh_packet_filter_result" where
  "filter_userauth s t =
     (if t = 50 then
        (if s_client s then SSH_PACKET_DENIED
         else if s_dh_handshake_state s \<noteq> DH_STATE_FINISHED then SSH_PACKET_DENIED
         else if s_session_state s \<noteq> SSH_SESSION_STATE_AUTHENTICATING then SSH_PACKET_DENIED
         else SSH_PACKET_ALLOWED)
      else if t = 51 then
        (if s_server s then SSH_PACKET_DENIED
         else if s_dh_handshake_state s \<noteq> DH_STATE_FINISHED then SSH_PACKET_DENIED
         else if s_session_state s \<noteq> SSH_SESSION_STATE_AUTHENTICATING then SSH_PACKET_DENIED
         else SSH_PACKET_ALLOWED)
      else if t = 52 then
        (if s_server s then SSH_PACKET_DENIED
         else if s_dh_handshake_state s \<noteq> DH_STATE_FINISHED then SSH_PACKET_DENIED
         else if s_session_state s \<noteq> SSH_SESSION_STATE_AUTHENTICATING then SSH_PACKET_DENIED
         else if s_auth_state s \<noteq> SSH_AUTH_STATE_KBDINT_SENT \<and>
                 s_auth_state s \<noteq> SSH_AUTH_STATE_PUBKEY_AUTH_SENT \<and>
                 s_auth_state s \<noteq> SSH_AUTH_STATE_PASSWORD_AUTH_SENT \<and>
                 s_auth_state s \<noteq> SSH_AUTH_STATE_GSSAPI_MIC_SENT \<and>
                 s_auth_state s \<noteq> SSH_AUTH_STATE_AUTH_NONE_SENT then SSH_PACKET_DENIED
         else SSH_PACKET_ALLOWED)
      else deny_unless (s_session_state s = SSH_SESSION_STATE_AUTHENTICATING) SSH_PACKET_ALLOWED)"

text \<open>Types 60 to 66: the dialogue of one authentication method.\<close>

definition filter_auth_method :: "ssh_session \<Rightarrow> nat \<Rightarrow> ssh_packet_filter_result" where
  "filter_auth_method s t =
     (if t = 60 then
        (if s_session_state s \<noteq> SSH_SESSION_STATE_AUTHENTICATING then SSH_PACKET_DENIED
         else if s_auth_state s \<noteq> SSH_AUTH_STATE_KBDINT_SENT \<and>
                 s_auth_state s \<noteq> SSH_AUTH_STATE_PUBKEY_OFFER_SENT \<and>
                 s_auth_state s \<noteq> SSH_AUTH_STATE_GSSAPI_REQUEST_SENT then SSH_PACKET_DENIED
         else SSH_PACKET_ALLOWED)
      else if t = 61 then
        (if s_session_state s \<noteq> SSH_SESSION_STATE_AUTHENTICATING then SSH_PACKET_DENIED
         else if s_auth_state s \<noteq> SSH_AUTH_STATE_INFO \<and>
                 s_auth_state s \<noteq> SSH_AUTH_STATE_GSSAPI_TOKEN then SSH_PACKET_DENIED
         else SSH_PACKET_ALLOWED)
      else if t = 66 then
        (if s_client s then SSH_PACKET_DENIED
         else if s_dh_handshake_state s \<noteq> DH_STATE_FINISHED then SSH_PACKET_DENIED
         else if s_session_state s \<noteq> SSH_SESSION_STATE_AUTHENTICATING then SSH_PACKET_DENIED
         else SSH_PACKET_ALLOWED)
      else SSH_PACKET_ALLOWED)"

text \<open>Types 80 to 82: global requests.\<close>

definition filter_global :: "ssh_session \<Rightarrow> nat \<Rightarrow> ssh_packet_filter_result" where
  "filter_global s t =
     (if s_session_state s \<noteq> SSH_SESSION_STATE_AUTHENTICATED then SSH_PACKET_DENIED
      else if t \<noteq> 80 \<and> s_global_req_state s \<noteq> SSH_CHANNEL_REQ_STATE_PENDING then SSH_PACKET_DENIED
      else SSH_PACKET_ALLOWED)"

text \<open>Types 90 to 100: channels.\<close>

definition filter_channel :: "ssh_session \<Rightarrow> ssh_packet_filter_result" where
  "filter_channel s =
     deny_unless (s_session_state s = SSH_SESSION_STATE_AUTHENTICATED) SSH_PACKET_ALLOWED"

definition ssh_packet_incoming_filter :: "ssh_session \<Rightarrow> ssh_packet_filter_result" where
  "ssh_packet_incoming_filter s =
     (let t = unat (s_in_type s) in
      if t \<in> {1, 2, 3, 4} then SSH_PACKET_ALLOWED
      else if t \<in> {5, 6, 7} then filter_service s t
      else if t \<in> {20, 21, 30, 31, 32, 33, 34} then filter_kex s t
      else if t \<in> {50, 51, 52, 53} then filter_userauth s t
      else if t \<in> {60, 61, 63, 64, 65, 66} then filter_auth_method s t
      else if t \<in> {80, 81, 82} then filter_global s t
      else if t \<in> {90, 91, 92, 93, 94, 95, 96, 97, 98, 99, 100} then filter_channel s
      else SSH_PACKET_UNKNOWN)"

lemmas filter_defs = filter_service_def filter_kex_def filter_userauth_def filter_auth_method_def
  filter_global_def filter_channel_def

text \<open>The filter tells the types apart: which group a type belongs to.\<close>

lemma filter_groups:
  assumes "ssh_packet_incoming_filter s = SSH_PACKET_ALLOWED" and "t = unat (s_in_type s)"
  shows "80 \<le> t \<Longrightarrow> s_session_state s = SSH_SESSION_STATE_AUTHENTICATED"
    and "t \<in> {50, 51, 52, 53, 60, 61, 66} \<Longrightarrow> s_session_state s = SSH_SESSION_STATE_AUTHENTICATING"
    and "t \<in> {5, 50, 66} \<Longrightarrow> \<not> s_client s"
    and "t \<in> {51, 52} \<Longrightarrow> \<not> s_server s"
  using assms by (auto simp: ssh_packet_incoming_filter_def filter_defs Let_def split: if_splits)

subsection \<open>The documented table\<close>

text \<open>
  The comment above each case of the code lists the states it requires, and marks the types
  only a server accepts. This is that table; types without a list are not filtered. The
  requirements on a channel's own request state and on the GSSAPI state are not of the
  session.
\<close>

definition auth_phase :: "ssh_session \<Rightarrow> bool" where
  "auth_phase s \<longleftrightarrow>
     s_session_state s \<in> {SSH_SESSION_STATE_AUTHENTICATING, SSH_SESSION_STATE_AUTHENTICATED} \<and>
     s_dh_handshake_state s = DH_STATE_FINISHED"

definition documented :: "nat \<Rightarrow> ssh_session \<Rightarrow> bool" where
  "documented t s =
     (if t = 5 then \<not> s_client s \<and> auth_phase s
      else if t = 6 then auth_phase s \<and> s_service_state s = SSH_AUTH_SERVICE_SENT
      else if t = 7 then auth_phase s
      else if t = 20 then
        s_session_state s \<in> {SSH_SESSION_STATE_AUTHENTICATED, SSH_SESSION_STATE_INITIAL_KEX} \<and>
        s_dh_handshake_state s \<in> {DH_STATE_INIT, DH_STATE_INIT_SENT, DH_STATE_FINISHED}
      else if t = 21 then
        s_session_state s = SSH_SESSION_STATE_DH \<and> s_dh_handshake_state s = DH_STATE_NEWKEYS_SENT
      else if t = 30 then
        \<not> s_client s \<and> s_session_state s = SSH_SESSION_STATE_DH \<and> s_dh_handshake_state s = DH_STATE_INIT
      else if t = 31 then
        s_session_state s = SSH_SESSION_STATE_DH \<and>
        s_dh_handshake_state s \<in> {DH_STATE_INIT_SENT, DH_STATE_REQUEST_SENT}
      else if t = 50 then
        \<not> s_client s \<and> s_session_state s = SSH_SESSION_STATE_AUTHENTICATING \<and>
        s_dh_handshake_state s = DH_STATE_FINISHED
      else if t = 51 then
        s_session_state s = SSH_SESSION_STATE_AUTHENTICATING \<and> s_dh_handshake_state s = DH_STATE_FINISHED \<and>
        s_auth_state s \<in> {SSH_AUTH_STATE_KBDINT_SENT, SSH_AUTH_STATE_PUBKEY_OFFER_SENT,
          SSH_AUTH_STATE_PUBKEY_AUTH_SENT, SSH_AUTH_STATE_PASSWORD_AUTH_SENT, SSH_AUTH_STATE_GSSAPI_MIC_SENT}
      else if t = 52 then
        s_session_state s = SSH_SESSION_STATE_AUTHENTICATING \<and> s_dh_handshake_state s = DH_STATE_FINISHED \<and>
        s_auth_state s \<in> {SSH_AUTH_STATE_KBDINT_SENT, SSH_AUTH_STATE_PUBKEY_AUTH_SENT,
          SSH_AUTH_STATE_PASSWORD_AUTH_SENT, SSH_AUTH_STATE_GSSAPI_MIC_SENT, SSH_AUTH_STATE_AUTH_NONE_SENT}
      else if t = 53 then s_session_state s = SSH_SESSION_STATE_AUTHENTICATING
      else if t = 60 then
        s_session_state s = SSH_SESSION_STATE_AUTHENTICATING \<and>
        s_auth_state s \<in> {SSH_AUTH_STATE_KBDINT_SENT, SSH_AUTH_STATE_GSSAPI_REQUEST_SENT,
          SSH_AUTH_STATE_PUBKEY_OFFER_SENT}
      else if t = 61 then
        s_session_state s = SSH_SESSION_STATE_AUTHENTICATING \<and>
        s_auth_state s \<in> {SSH_AUTH_STATE_GSSAPI_TOKEN, SSH_AUTH_STATE_INFO}
      else if t = 66 then \<not> s_client s \<and> s_session_state s = SSH_SESSION_STATE_AUTHENTICATING
      else if t \<in> {81, 82} then
        s_session_state s = SSH_SESSION_STATE_AUTHENTICATED \<and>
        s_global_req_state s = SSH_CHANNEL_REQ_STATE_PENDING
      else if t = 80 \<or> t \<in> {90..100} then s_session_state s = SSH_SESSION_STATE_AUTHENTICATED
      else True)"

definition known_types :: "nat set" where
  "known_types = {1, 2, 3, 4, 5, 6, 7, 20, 21, 30, 31, 32, 33, 34, 50, 51, 52, 53, 60, 61, 63, 64, 65, 66,
     80, 81, 82, 90, 91, 92, 93, 94, 95, 96, 97, 98, 99, 100}"

lemma filter_allowed_documented:
  assumes "ssh_packet_incoming_filter s = SSH_PACKET_ALLOWED" and "unat (s_in_type s) = t"
    and "t \<noteq> 30" and "t \<noteq> 51"
  shows "documented t s"
  using assms(1)
  by (simp only: ssh_packet_incoming_filter_def assms(2) Let_def)
    (auto simp: documented_def auth_phase_def filter_defs assms(3,4) split: if_splits)

lemma documented_filter_allowed:
  assumes "documented t s" and "unat (s_in_type s) = t" and "t \<in> known_types"
    and "t \<noteq> 51" and "t \<noteq> 52" and "t \<noteq> 66"
  shows "ssh_packet_incoming_filter s = SSH_PACKET_ALLOWED"
  using assms(3) unfolding known_types_def
  by (elim insertE emptyE)
    (use assms in \<open>auto simp: ssh_packet_incoming_filter_def documented_def auth_phase_def filter_defs\<close>)

subsection \<open>Properties\<close>





text \<open>
  The two exceptions are real: a client accepts the server-only message 30, and a failure
  message passes although no authentication was asked for.
\<close>

lemma filter_exceptions:
  "ssh_packet_incoming_filter (sample_session\<lparr>s_in_type := 30, s_session_state := SSH_SESSION_STATE_DH,
     s_dh_handshake_state := DH_STATE_INIT\<rparr>) = SSH_PACKET_ALLOWED"
  "ssh_packet_incoming_filter (sample_session\<lparr>s_in_type := 51, s_auth_state := SSH_AUTH_STATE_NONE\<rparr>) =
    SSH_PACKET_ALLOWED"
  by code_simp+

end
