(* ===== verification/Packet_Crypto.thy ===== *)
theory Packet_Crypto
  imports Session
begin

text \<open>
  Keys of the packet layer: which key set serves a direction, when new keys are due, the
  switch to new keys (\<^verbatim>\<open>src/libssh/src/packet.c\<close>), and the encryption of a packet
  (\<^verbatim>\<open>src/libssh/src/packet_crypt.c\<close>).

  The primitives of the crypto backend are parameters: a cipher is given per packet, by the
  sequence number, since it carries its state from one packet to the next; decryption also
  gets the offset in the packet, since one packet is decrypted in two calls. So are the steps
  of a key exchange that derive keys.
\<close>

record crypt_ops =
  co_encrypt :: "u32 \<Rightarrow> bytes \<Rightarrow> bytes"
  co_decrypt :: "u32 \<Rightarrow> nat \<Rightarrow> bytes \<Rightarrow> bytes"
  co_hmac_init :: bool
  co_mac :: "u32 \<Rightarrow> bytes \<Rightarrow> bytes"
  co_aead_encrypt :: "(u32 \<Rightarrow> bytes \<Rightarrow> bytes \<times> bytes) option"
  co_aead_decrypt_length :: "(u32 \<Rightarrow> bytes \<Rightarrow> int \<times> bytes) option"
  co_aead_decrypt :: "(u32 \<Rightarrow> bytes \<Rightarrow> nat \<Rightarrow> int \<times> bytes) option"

record kex_ops =
  ke_make_sessionid :: "ssh_crypto \<Rightarrow> ssh_crypto option"
  ke_set_algorithms :: "ssh_crypto \<Rightarrow> ssh_crypto option"
  ke_generate_keys :: "ssh_crypto \<Rightarrow> ssh_crypto option"
  ke_set_decrypt_key :: "ssh_cipher \<Rightarrow> int"
  ke_set_encrypt_key :: "ssh_cipher \<Rightarrow> int"

subsection \<open>Which keys serve a direction\<close>

datatype which_crypto = CurrentCrypto | NextCrypto

definition ssh_packet_get_current_crypto :: "ssh_session \<Rightarrow> u32 \<Rightarrow> (which_crypto \<times> ssh_crypto) option" where
  "ssh_packet_get_current_crypto s direction =
     (case (case (s_current_crypto s, s_next_crypto s) of
              (Some c, n) \<Rightarrow>
                if cr_used c AND direction \<noteq> 0 then Some (CurrentCrypto, c)
                else (case n of Some c' \<Rightarrow> if cr_used c' AND direction \<noteq> 0 then Some (NextCrypto, c') else None
                      | None \<Rightarrow> None)
            | (None, Some c') \<Rightarrow> if cr_used c' AND direction \<noteq> 0 then Some (NextCrypto, c') else None
            | (None, None) \<Rightarrow> None) of
        None \<Rightarrow> None
      | Some (w, crypto) \<Rightarrow>
          if direction = SSH_DIRECTION_IN then
            if cr_in_cipher crypto \<noteq> None then Some (w, crypto) else None
          else if direction = SSH_DIRECTION_OUT then
            if cr_out_cipher crypto \<noteq> None then Some (w, crypto) else None
          else if direction = SSH_DIRECTION_BOTH then
            if cr_in_cipher crypto \<noteq> None \<and> cr_out_cipher crypto \<noteq> None then Some (w, crypto) else None
          else None)"

text \<open>Writing through the pointer \<^verbatim>\<open>ssh_packet_get_current_crypto\<close> returned.\<close>

definition put_crypto :: "which_crypto \<Rightarrow> ssh_crypto \<Rightarrow> ssh_session \<Rightarrow> ssh_session" where
  "put_crypto w c s =
     (case w of CurrentCrypto \<Rightarrow> s\<lparr>s_current_crypto := Some c\<rparr> | NextCrypto \<Rightarrow> s\<lparr>s_next_crypto := Some c\<rparr>)"

subsection \<open>When new keys are due\<close>

definition MAX_PACKETS :: nat where
  "MAX_PACKETS = 2147483648"

definition ssh_packet_need_rekey :: "ssh_timestamp \<Rightarrow> ssh_session \<Rightarrow> nat \<Rightarrow> bool" where
  "ssh_packet_need_rekey now s payloadsize =
     (if s_flags s AND SSH_SESSION_FLAG_AUTHENTICATED = 0 then False
      else if s_dh_handshake_state s \<noteq> DH_STATE_FINISHED then False
      else case ssh_packet_get_current_crypto s SSH_DIRECTION_BOTH of
          None \<Rightarrow> False
        | Some (_, crypto) \<Rightarrow>
            (case (cr_out_cipher crypto, cr_in_cipher crypto) of
               (Some out, Some inc) \<Rightarrow>
                 if ci_packets out = 0 \<and> ci_packets inc = 0 then False
                 else if s_rekey_time s \<noteq> 0 \<and>
                         ssh_timeout_elapsed now (s_last_rekey_time s) (to_int32 (int (s_rekey_time s))) then True
                 else if ci_packets out > MAX_PACKETS \<or> ci_packets inc > MAX_PACKETS then True
                 else
                   let next_blocks = payloadsize div ci_blocksize out in
                   (ci_max_blocks out \<noteq> 0 \<and> wrap64 (ci_blocks out + next_blocks) > ci_max_blocks out) \<or>
                   (ci_max_blocks inc \<noteq> 0 \<and> wrap64 (ci_blocks inc + next_blocks) > ci_max_blocks inc)
             | _ \<Rightarrow> False))"

definition ssh_packet_is_kex :: "nat \<Rightarrow> bool" where
  "ssh_packet_is_kex t \<longleftrightarrow> t \<ge> 1 \<and> t \<le> 34 \<and> t \<noteq> 5 \<and> t \<noteq> 6 \<and> t \<noteq> 2 \<and> t \<noteq> 7"

definition ssh_packet_in_rekey :: "ssh_session \<Rightarrow> bool" where
  "ssh_packet_in_rekey s \<longleftrightarrow>
     s_flags s AND SSH_SESSION_FLAG_AUTHENTICATED \<noteq> 0 \<and> s_dh_handshake_state s \<noteq> DH_STATE_FINISHED"

text \<open>The shift \<^verbatim>\<open>1 << (blocksize*2)\<close> is of a \<^verbatim>\<open>uint64_t\<close>; block sizes are at most 16 here.\<close>

definition ssh_init_rekey_state :: "ssh_session \<Rightarrow> ssh_cipher \<Rightarrow> ssh_cipher" where
  "ssh_init_rekey_state s cipher =
     (let max0 = (if ci_blocksize cipher \<ge> 16 then wrap64 (2 ^ (ci_blocksize cipher * 2))
                  else 2 ^ 30 div ci_blocksize cipher);
          max1 = (if s_rekey_data s \<noteq> 0 then min max0 (s_rekey_data s div ci_blocksize cipher) else max0)
      in cipher\<lparr>ci_packets := 0, ci_blocks := 0, ci_max_blocks := max1\<rparr>)"

subsection \<open>Switching to new keys\<close>

text \<open>
  \<^verbatim>\<open>crypto_new\<close>: a zeroed structure. Its size depends on the platform; 1024 stands for it.
\<close>

definition crypto_new :: "heap \<Rightarrow> ssh_crypto option" where
  "crypto_new h =
     (if heap_grants h 1024 then
        Some \<lparr>cr_used = 0, cr_in_cipher = None, cr_out_cipher = None, cr_session_id = [],
          cr_digest_len = 0, cr_in_hmac = SSH_HMAC_UNSET, cr_out_hmac = SSH_HMAC_UNSET, cr_in_etm = False, cr_out_etm = False,
          cr_do_compress_in = False, cr_do_compress_out = False, cr_delayed_compress_in = False,
          cr_delayed_compress_out = False, cr_client_kex = empty_kex, cr_server_kex = empty_kex,
          cr_kex_methods = replicate 10 None, cr_kex_type = SSH_KEX_UNSET,
          cr_exchange = empty_exchange\<rparr>
      else None)"

text \<open>The last part of \<^verbatim>\<open>ssh_packet_set_newkeys\<close>, once the keys of \<^verbatim>\<open>next_crypto\<close> are there.\<close>

definition newkeys_install :: "kex_ops \<Rightarrow> ssh_timestamp \<Rightarrow> ssh_session \<Rightarrow> ssh_crypto \<Rightarrow> int \<times> ssh_session" where
  "newkeys_install kx now s next =
     (case (cr_in_cipher next, cr_out_cipher next) of
        (Some inc, Some out) \<Rightarrow>
          let out1 = ssh_init_rekey_state s out; inc1 = ssh_init_rekey_state s inc;
              next1 = next\<lparr>cr_out_cipher := Some out1, cr_in_cipher := Some inc1\<rparr>;
              s1 = s\<lparr>s_next_crypto := Some next1\<rparr>;
              s2 = (if s_rekey_time s \<noteq> 0 then s1\<lparr>s_last_rekey_time := now\<rparr> else s1)
          in if ke_set_decrypt_key kx inc1 < 0 then
               (SSH_ERROR, s2\<lparr>s_next_crypto := Some (next1\<lparr>cr_used := 0\<rparr>)\<rparr>)
             else if ke_set_encrypt_key kx out1 < 0 then
               (SSH_ERROR, s2\<lparr>s_next_crypto := Some (next1\<lparr>cr_used := 0\<rparr>)\<rparr>)
             else (SSH_OK, s2)
      | _ \<Rightarrow> (SSH_ERROR, s\<lparr>s_next_crypto := Some next\<rparr>))"

definition ssh_packet_set_newkeys ::
  "heap \<Rightarrow> kex_ops \<Rightarrow> ssh_timestamp \<Rightarrow> ssh_session \<Rightarrow> u32 \<Rightarrow> int \<times> ssh_session" where
  "ssh_packet_set_newkeys h kx now s direction =
     (case s_next_crypto s of
        None \<Rightarrow> (SSH_ERROR, s)
      | Some next0 \<Rightarrow>
          let next = next0\<lparr>cr_used := cr_used next0 OR direction\<rparr>;
              s1 = s\<lparr>s_next_crypto := Some next,
                     s_current_crypto :=
                       map_option (\<lambda>c. c\<lparr>cr_used := cr_used c AND NOT direction\<rparr>) (s_current_crypto s)\<rparr>
          in if cr_used next = SSH_DIRECTION_BOTH then
               let s2 = s1\<lparr>s_current_crypto := Some (next\<lparr>cr_used := SSH_DIRECTION_BOTH\<rparr>)\<rparr> in
               (case crypto_new h of
                  None \<Rightarrow> (SSH_ERROR, s2\<lparr>s_next_crypto := None\<rparr>)
                | Some fresh \<Rightarrow>
                    if \<not> heap_grants h (cr_digest_len next) then
                      (SSH_ERROR, s2\<lparr>s_next_crypto := Some fresh\<rparr>)
                    else
                      (SSH_OK, s2\<lparr>s_next_crypto := Some (fresh\<lparr>cr_session_id :=
                         take (cr_digest_len next) (cr_session_id next)\<rparr>)\<rparr>))
             else if s_client s then
               (case ke_make_sessionid kx next of
                  None \<Rightarrow> (SSH_ERROR, s1)
                | Some n1 \<Rightarrow>
                    (case ke_set_algorithms kx n1 of
                       None \<Rightarrow> (SSH_ERROR, s1\<lparr>s_next_crypto := Some n1\<rparr>)
                     | Some n2 \<Rightarrow>
                         (case ke_generate_keys kx n2 of
                            None \<Rightarrow> (SSH_ERROR, s1\<lparr>s_next_crypto := Some n2\<rparr>)
                          | Some n3 \<Rightarrow> newkeys_install kx now s1 n3)))
             else
               (case ke_generate_keys kx next of
                  None \<Rightarrow> (SSH_ERROR, s1)
                | Some n3 \<Rightarrow> newkeys_install kx now s1 n3))"

subsection \<open>Encrypting a packet\<close>

definition hmac_digest_len :: "ssh_hmac \<Rightarrow> nat" where
  "hmac_digest_len t =
     (case t of
        SSH_HMAC_SHA1 \<Rightarrow> 20 | SSH_HMAC_SHA1_96 \<Rightarrow> 12 | SSH_HMAC_SHA256 \<Rightarrow> 32 | SSH_HMAC_SHA512 \<Rightarrow> 64
      | SSH_HMAC_MD5 \<Rightarrow> 16 | SSH_HMAC_MD5_96 \<Rightarrow> 12 | SSH_HMAC_AEAD_POLY1305 \<Rightarrow> 16 | SSH_HMAC_AEAD_GCM \<Rightarrow> 16
      | SSH_HMAC_UNSET \<Rightarrow> 0)"

text \<open>
  \<^verbatim>\<open>ssh_packet_encrypt\<close>: the packet as it is left in the buffer, and the MAC, \<^verbatim>\<open>NULL\<close> when
  there is none. Without keys, or when a step fails, the packet is left as it was.
\<close>

definition ssh_packet_encrypt :: "heap \<Rightarrow> crypt_ops \<Rightarrow> ssh_session \<Rightarrow> bytes \<Rightarrow> bytes \<times> bytes option" where
  "ssh_packet_encrypt h ops s data =
     (case ssh_packet_get_current_crypto s SSH_DIRECTION_OUT of
        None \<Rightarrow> (data, None)
      | Some (_, crypto) \<Rightarrow>
          (case cr_out_cipher crypto of
             None \<Rightarrow> (data, None)
           | Some cipher \<Rightarrow>
               let len = length data; etm = cr_out_etm crypto; off = (if etm then 4 else 0) in
               if wrap32 (len + 4294967296 - ci_lenfield_blocksize cipher - off) mod ci_blocksize cipher \<noteq> 0
               then (data, None)
               else if \<not> heap_grants h len then (data, None)
               else
                 (case co_aead_encrypt ops of
                    Some f \<Rightarrow> (case f (s_send_seq s) data of (out, mac) \<Rightarrow> (out, Some mac))
                  | None \<Rightarrow>
                      if \<not> co_hmac_init ops then (data, None)
                      else
                        let out = take off data @ co_encrypt ops (s_send_seq s) (drop off data);
                            out1 = (if etm then mem_write out 0 (be_bytes (of_nat (len - off) :: u32)) else out)
                        in (out1, Some (co_mac ops (s_send_seq s) (if etm then out1 else data))))))"

subsection \<open>Decrypting a packet\<close>

text \<open>\<^verbatim>\<open>source\<close> is the packet as received; the result is what is written to \<^verbatim>\<open>destination\<close>.\<close>

definition ssh_packet_decrypt ::
  "crypt_ops \<Rightarrow> ssh_session \<Rightarrow> bytes \<Rightarrow> nat \<Rightarrow> nat \<Rightarrow> int \<times> bytes" where
  "ssh_packet_decrypt ops s source start encrypted_size =
     (if encrypted_size = 0 then (SSH_ERROR, [])
      else case ssh_packet_get_current_crypto s SSH_DIRECTION_IN of
          None \<Rightarrow> (SSH_ERROR, [])
        | Some (_, crypto) \<Rightarrow>
            (case cr_in_cipher crypto of
               None \<Rightarrow> (SSH_ERROR, [])
             | Some cipher \<Rightarrow>
                 if encrypted_size mod ci_blocksize cipher \<noteq> 0 then (SSH_ERROR, [])
                 else case co_aead_decrypt ops of
                     Some f \<Rightarrow> f (s_recv_seq s) source encrypted_size
                   | None \<Rightarrow> (0, co_decrypt ops (s_recv_seq s) start (take encrypted_size (drop start source)))))"

text \<open>The length is read from the first four bytes, in network order.\<close>

definition ssh_packet_decrypt_len :: "crypt_ops \<Rightarrow> ssh_session \<Rightarrow> bytes \<Rightarrow> u32 \<times> bytes" where
  "ssh_packet_decrypt_len ops s source =
     (case ssh_packet_get_current_crypto s SSH_DIRECTION_IN of
        None \<Rightarrow> (bswap (load_bytes (take 4 source)), take 8 source)
      | Some (_, crypto) \<Rightarrow>
          (case cr_in_cipher crypto of
             None \<Rightarrow> (0, [])
           | Some cipher \<Rightarrow>
               (case (case co_aead_decrypt_length ops of
                        Some f \<Rightarrow> f (s_recv_seq s) (take (ci_lenfield_blocksize cipher) source)
                      | None \<Rightarrow> ssh_packet_decrypt ops s source 0 (ci_blocksize cipher)) of
                  (rc, dest) \<Rightarrow> if rc < 0 then (0, dest) else (bswap (load_bytes (take 4 dest)), dest))))"

text \<open>The comparison looks at every byte, whatever the first difference.\<close>

fun secure_memcmp_loop :: "u8 \<Rightarrow> bytes \<Rightarrow> bytes \<Rightarrow> nat \<Rightarrow> u8" where
  "secure_memcmp_loop rc p1 p2 0 = rc"
| "secure_memcmp_loop rc p1 p2 (Suc n) = secure_memcmp_loop (rc OR (hd p1 XOR hd p2)) (tl p1) (tl p2) n"

definition secure_memcmp :: "bytes \<Rightarrow> bytes \<Rightarrow> nat \<Rightarrow> int" where
  "secure_memcmp s1 s2 n = (if secure_memcmp_loop 0 s1 s2 n \<noteq> 0 then 1 else 0)"

definition ssh_packet_hmac_verify ::
  "crypt_ops \<Rightarrow> ssh_session \<Rightarrow> bytes \<Rightarrow> nat \<Rightarrow> bytes \<Rightarrow> ssh_hmac \<Rightarrow> int" where
  "ssh_packet_hmac_verify ops s data len mac type =
     (if type = SSH_HMAC_AEAD_POLY1305 \<or> type = SSH_HMAC_AEAD_GCM then SSH_OK
      else if ssh_packet_get_current_crypto s SSH_DIRECTION_IN = None then SSH_ERROR
      else if \<not> co_hmac_init ops then - 1
      else let hmacbuf = co_mac ops (s_recv_seq s) (take len data) in
        if secure_memcmp mac hmacbuf (length hmacbuf) = 0 then 0 else - 1)"

lemma xor_zero_iff: "(a :: u8) XOR b = 0 \<longleftrightarrow> a = b"
  by (auto simp: bit_eq_iff bit_simps)

lemma secure_memcmp_loop_zero:
  assumes "n \<le> length p1" and "n \<le> length p2"
  shows "secure_memcmp_loop rc p1 p2 n = 0 \<longleftrightarrow> rc = 0 \<and> take n p1 = take n p2"
  using assms
proof (induction rc p1 p2 n rule: secure_memcmp_loop.induct)
  case (2 rc p1 p2 n)
  obtain a as b bs where "p1 = a # as" and "p2 = b # bs"
    using 2(2,3) by (metis Suc_le_length_iff)
  with 2 show ?case
    by (simp add: or_eq_0_iff xor_zero_iff)
qed simp

text \<open>The comparison is equality of the first \<open>n\<close> bytes.\<close>

lemma secure_memcmp_eq:
  assumes "n \<le> length s1" and "n \<le> length s2"
  shows "secure_memcmp s1 s2 n = 0 \<longleftrightarrow> take n s1 = take n s2"
  using secure_memcmp_loop_zero [OF assms, of 0] by (simp add: secure_memcmp_def)

subsection \<open>Half a switch and the whole switch\<close>

lemmas direction_defs = SSH_DIRECTION_IN_def SSH_DIRECTION_OUT_def SSH_DIRECTION_BOTH_def

text \<open>
  The steps of the key exchange fill in the next key set; they leave the mark of the
  directions it serves alone.
\<close>

definition kex_keeps_used :: "kex_ops \<Rightarrow> bool" where
  "kex_keeps_used kx \<longleftrightarrow>
     (\<forall>c c'. ke_make_sessionid kx c = Some c' \<or> ke_set_algorithms kx c = Some c' \<or> ke_generate_keys kx c = Some c'
        \<longrightarrow> cr_used c' = cr_used c)"

lemma newkeys_install_OK:
  assumes "newkeys_install kx now s next = (SSH_OK, s')"
  shows "\<exists>n inc out. s_next_crypto s' = Some n \<and> cr_used n = cr_used next \<and>
    cr_in_cipher n = Some inc \<and> cr_out_cipher n = Some out \<and> ci_packets inc = 0 \<and> ci_packets out = 0 \<and>
    s_current_crypto s' = s_current_crypto s"
  using assms
  by (auto simp: newkeys_install_def Let_def ssh_init_rekey_state_def split: option.splits if_splits)

lemma set_newkeys_half:
  assumes call: "ssh_packet_set_newkeys h kx now s d = (SSH_OK, s')" and kx: "kex_keeps_used kx"
    and d: "d = SSH_DIRECTION_IN \<or> d = SSH_DIRECTION_OUT"
    and n: "s_next_crypto s = Some n" "cr_used n = 0"
  shows "\<exists>n' inc out. s_next_crypto s' = Some n' \<and> cr_used n' = d \<and>
    cr_in_cipher n' = Some inc \<and> cr_out_cipher n' = Some out \<and> ci_packets inc = 0 \<and> ci_packets out = 0 \<and>
    s_current_crypto s' = map_option (\<lambda>c. c\<lparr>cr_used := cr_used c AND NOT d\<rparr>) (s_current_crypto s)"
proof -
  let ?n = "n\<lparr>cr_used := d\<rparr>"
  let ?s = "s\<lparr>s_next_crypto := Some ?n,
    s_current_crypto := map_option (\<lambda>c. c\<lparr>cr_used := cr_used c AND NOT d\<rparr>) (s_current_crypto s)\<rparr>"
  have nb: "d \<noteq> SSH_DIRECTION_BOTH"
    using d by (auto simp: direction_defs)
  obtain n3 where "newkeys_install kx now ?s n3 = (SSH_OK, s')" and "cr_used n3 = d"
    using call n nb kx
    by (auto simp: ssh_packet_set_newkeys_def Let_def kex_keeps_used_def split: if_splits option.splits)
  with newkeys_install_OK [of kx now ?s n3 s'] show ?thesis
    by auto
qed

lemma set_newkeys_full:
  assumes call: "ssh_packet_set_newkeys h kx now s d = (SSH_OK, s')"
    and n: "s_next_crypto s = Some n" "cr_used n OR d = SSH_DIRECTION_BOTH"
  shows "\<exists>n'. s_current_crypto s' = Some (n\<lparr>cr_used := SSH_DIRECTION_BOTH\<rparr>) \<and>
    s_next_crypto s' = Some n' \<and> cr_used n' = 0 \<and> cr_in_cipher n' = None \<and> cr_out_cipher n' = None \<and>
    cr_session_id n' = take (cr_digest_len n) (cr_session_id n)"
  using call n
  by (auto simp: ssh_packet_set_newkeys_def crypto_new_def Let_def split: if_splits option.splits)

subsection \<open>Properties\<close>


text \<open>Concrete keys: a cipher with blocks of 16 bytes, and steps of a key exchange that all succeed.\<close>

definition sample_cipher :: ssh_cipher where
  "sample_cipher = \<lparr>ci_blocksize = 16, ci_lenfield_blocksize = 0, ci_packets = 7, ci_blocks = 9, ci_max_blocks = 0\<rparr>"

definition sample_crypto :: ssh_crypto where
  "sample_crypto = \<lparr>cr_used = 0, cr_in_cipher = None, cr_out_cipher = None, cr_session_id = [],
     cr_digest_len = 2, cr_in_hmac = SSH_HMAC_MD5_96, cr_out_hmac = SSH_HMAC_MD5_96, cr_in_etm = False, cr_out_etm = False,
     cr_do_compress_in = False, cr_do_compress_out = False, cr_delayed_compress_in = False,
     cr_delayed_compress_out = False, cr_client_kex = empty_kex, cr_server_kex = empty_kex,
     cr_kex_methods = replicate 10 None, cr_kex_type = SSH_KEX_UNSET,
          cr_exchange = empty_exchange\<rparr>"

definition sample_kex :: kex_ops where
  "sample_kex =
     \<lparr>ke_make_sessionid = (\<lambda>c. Some (c\<lparr>cr_session_id := [1, 2]\<rparr>)),
      ke_set_algorithms = (\<lambda>c. Some (c\<lparr>cr_in_cipher := Some sample_cipher, cr_out_cipher := Some sample_cipher\<rparr>)),
      ke_generate_keys = (\<lambda>c. Some c),
      ke_set_decrypt_key = (\<lambda>_. 0), ke_set_encrypt_key = (\<lambda>_. 0)\<rparr>"

abbreviation time_zero :: ssh_timestamp where
  "time_zero \<equiv> \<lparr>ts_seconds = 0, ts_useconds = 0\<rparr>"




text \<open>A limit below the block size turns the limit off: it is rounded to no blocks.\<close>

lemma rekey_limit_below_blocksize:
  "ci_max_blocks (ssh_init_rekey_state (sample_session\<lparr>s_rekey_data := 15\<rparr>) sample_cipher) = 0"
  by code_simp

end
