(* ===== verification/Kex.thy ===== *)
theory Kex
  imports Packet_Crypto Tokens
begin

text \<open>
  Algorithm negotiation of the key exchange (\<^verbatim>\<open>src/libssh/src/kex.c\<close>): the tables of methods, the
  order of host key algorithms, the client's proposal and the choice made from both proposals.

  The tables are those of the default build options (OpenSSL with AES-GCM, elliptic curves
  and Curve25519, zlib and group exchange; no Blowfish, no DSA). The random generator, FIPS
  mode, the host key algorithms found in the user's known hosts files and the proposal a server
  sets (\<^verbatim>\<open>server_set_kex\<close> of the server side) are parameters, with the rest of what a session
  gets from outside.
\<close>

record packet_env =
  pe_heap :: heap
  pe_ops :: crypt_ops
  pe_kex :: kex_ops
  pe_now :: ssh_timestamp
  pe_random :: "nat \<Rightarrow> bytes option"
  pe_deflate :: "u32 \<Rightarrow> bytes \<Rightarrow> bytes option list"
  pe_inflate :: "u32 \<Rightarrow> bytes \<Rightarrow> bytes option list"
  pe_write :: "bytes \<Rightarrow> int"
  pe_fips :: bool
  pe_known_hosts :: "bytes option"
  pe_server_set_kex :: "ssh_crypto \<Rightarrow> int \<times> ssh_crypto"

text \<open>A call that wrote outside a block has no result; otherwise the next one runs on its result.\<close>

definition run_bind :: "'a run \<Rightarrow> ('a \<Rightarrow> 'b run) \<Rightarrow> 'b run" where
  "run_bind m f = (case m of Ret x \<Rightarrow> f x | Overflow \<Rightarrow> Overflow)"

lemma run_bind_simps [simp]: "run_bind (Ret x) f = f x" "run_bind Overflow f = Overflow"
  by (simp_all add: run_bind_def)

lemma run_bind_Ret: "run_bind m f = Ret y \<longleftrightarrow> (\<exists>x. m = Ret x \<and> f x = Ret y)"
  by (cases m) simp_all

subsection \<open>The tables of methods\<close>

text \<open>Indices of the method lists: SSH_KEX 0, SSH_HOSTKEYS 1, ciphers 2 and 3, MACs 4 and 5,
  compression 6 and 7, languages 8 and 9.\<close>

definition SSH_KEX_METHODS :: nat where
  "SSH_KEX_METHODS = 10"

definition EC_HOSTKEYS :: string where
  "EC_HOSTKEYS = ''ecdsa-sha2-nistp521,ecdsa-sha2-nistp384,ecdsa-sha2-nistp256,''"

definition EC_PUBLIC_KEY_ALGORITHMS :: string where
  "EC_PUBLIC_KEY_ALGORITHMS = ''ecdsa-sha2-nistp521-cert-v01@openssh.com,'' @
     ''ecdsa-sha2-nistp384-cert-v01@openssh.com,ecdsa-sha2-nistp256-cert-v01@openssh.com,''"

definition HOSTKEYS :: string where
  "HOSTKEYS = ''ssh-ed25519,'' @ EC_HOSTKEYS @ ''rsa-sha2-512,rsa-sha2-256,ssh-rsa''"

definition PUBLIC_KEY_ALGORITHMS :: string where
  "PUBLIC_KEY_ALGORITHMS = ''ssh-ed25519-cert-v01@openssh.com,'' @ EC_PUBLIC_KEY_ALGORITHMS @
     ''rsa-sha2-512-cert-v01@openssh.com,rsa-sha2-256-cert-v01@openssh.com,ssh-rsa-cert-v01@openssh.com,'' @ HOSTKEYS"

definition AES_DES :: string where
  "AES_DES = ''aes256-gcm@openssh.com,aes128-gcm@openssh.com,aes256-ctr,aes192-ctr,aes128-ctr,'' @
     ''aes256-cbc,aes192-cbc,aes128-cbc,3des-cbc''"

definition KEY_EXCHANGE :: string where
  "KEY_EXCHANGE = ''curve25519-sha256,curve25519-sha256@libssh.org,'' @
     ''ecdh-sha2-nistp256,ecdh-sha2-nistp384,ecdh-sha2-nistp521,'' @
     ''diffie-hellman-group18-sha512,diffie-hellman-group16-sha512,diffie-hellman-group-exchange-sha256,'' @
     ''diffie-hellman-group14-sha256,diffie-hellman-group14-sha1,diffie-hellman-group1-sha1''"

definition MACS :: string where
  "MACS = ''hmac-sha2-256-etm@openssh.com,hmac-sha2-512-etm@openssh.com,hmac-sha1-etm@openssh.com,'' @
     ''hmac-sha1-96-etm@openssh.com,hmac-sha2-256,hmac-sha2-512,hmac-sha1,hmac-sha1-96''"

definition ZLIB :: string where
  "ZLIB = ''none,zlib,zlib@openssh.com''"

definition KEX_EXTENSION_CLIENT :: string where
  "KEX_EXTENSION_CLIENT = ''ext-info-c''"

definition FIPS_ALLOWED_CIPHERS :: string where
  "FIPS_ALLOWED_CIPHERS = ''aes256-gcm@openssh.com,aes256-ctr,aes256-cbc,aes128-gcm@openssh.com,'' @
     ''aes128-ctr,aes128-cbc''"

definition FIPS_ALLOWED_PUBLIC_KEY_ALGORITHMS :: string where
  "FIPS_ALLOWED_PUBLIC_KEY_ALGORITHMS = EC_PUBLIC_KEY_ALGORITHMS @
     ''rsa-sha2-512-cert-v01@openssh.com,rsa-sha2-256-cert-v01@openssh.com,'' @ EC_HOSTKEYS @
     ''rsa-sha2-512,rsa-sha2-256''"

definition FIPS_ALLOWED_KEX :: string where
  "FIPS_ALLOWED_KEX = ''ecdh-sha2-nistp256,ecdh-sha2-nistp384,ecdh-sha2-nistp521,'' @
     ''diffie-hellman-group-exchange-sha256,diffie-hellman-group14-sha256,'' @
     ''diffie-hellman-group16-sha512,diffie-hellman-group18-sha512''"

definition FIPS_ALLOWED_MACS :: string where
  "FIPS_ALLOWED_MACS = ''hmac-sha2-256-etm@openssh.com,hmac-sha1-etm@openssh.com,hmac-sha2-512-etm@openssh.com,'' @
     ''hmac-sha2-256,hmac-sha1,hmac-sha2-512''"

definition fips_methods :: "bytes list" where
  "fips_methods = map lit [FIPS_ALLOWED_KEX, FIPS_ALLOWED_PUBLIC_KEY_ALGORITHMS, FIPS_ALLOWED_CIPHERS,
     FIPS_ALLOWED_CIPHERS, FIPS_ALLOWED_MACS, FIPS_ALLOWED_MACS, ZLIB, ZLIB, '''', '''']"

definition default_methods :: "bytes list" where
  "default_methods = map lit [KEY_EXCHANGE, PUBLIC_KEY_ALGORITHMS, AES_DES, AES_DES, MACS, MACS,
     ''none'', ''none'', '''', '''']"

definition supported_methods :: "bytes list" where
  "supported_methods = map lit [''diffie-hellman-group-exchange-sha1,'' @ KEY_EXCHANGE, PUBLIC_KEY_ALGORITHMS,
     ''chacha20-poly1305@openssh.com,'' @ AES_DES, ''chacha20-poly1305@openssh.com,'' @ AES_DES, MACS, MACS,
     ZLIB, ZLIB, '''', '''']"

definition ssh_kex_get_default_methods :: "nat \<Rightarrow> bytes option" where
  "ssh_kex_get_default_methods algo =
     (if algo \<ge> SSH_KEX_METHODS then None else Some (default_methods ! algo))"

definition ssh_kex_get_supported_method :: "nat \<Rightarrow> bytes option" where
  "ssh_kex_get_supported_method algo =
     (if algo \<ge> SSH_KEX_METHODS then None else Some (supported_methods ! algo))"

definition ssh_kex_get_fips_methods :: "nat \<Rightarrow> bytes option" where
  "ssh_kex_get_fips_methods algo =
     (if algo \<ge> SSH_KEX_METHODS then None else Some (fips_methods ! algo))"

definition ssh_keep_known_algos :: "heap \<Rightarrow> nat \<Rightarrow> bytes option \<Rightarrow> bytes option run" where
  "ssh_keep_known_algos h algo lst =
     (if algo > 9 then Ret None else ssh_find_all_matching h (Some (supported_methods ! algo)) lst)"

definition ssh_keep_fips_algos :: "heap \<Rightarrow> nat \<Rightarrow> bytes option \<Rightarrow> bytes option run" where
  "ssh_keep_fips_algos h algo lst =
     (if algo > 9 then Ret None else ssh_find_all_matching h (Some (fips_methods ! algo)) lst)"

subsection \<open>The proposal of the client\<close>

text \<open>The length of the first element of a list.\<close>

definition first_len :: "bytes \<Rightarrow> nat" where
  "first_len m = (case find_sep m comma of None \<Rightarrow> strlen m | Some k \<Rightarrow> k)"

definition cmp_first_kex_algo :: "bytes \<Rightarrow> bytes \<Rightarrow> bool" where
  "cmp_first_kex_algo client_str server_str =
     (if first_len client_str \<noteq> first_len server_str then True
      else \<not> strncmp_eq client_str server_str (first_len client_str))"

definition ssh_client_select_hostkeys :: "packet_env \<Rightarrow> ssh_session \<Rightarrow> bytes option run" where
  "ssh_client_select_hostkeys e s =
     (let h = pe_heap e;
          wanted = (case s_wanted_methods s ! 1 of
                      Some w \<Rightarrow> Some w
                    | None \<Rightarrow> if pe_fips e then ssh_kex_get_fips_methods 1 else ssh_kex_get_default_methods 1)
      in run_bind (ssh_find_all_matching h (Some (lit HOSTKEYS)) wanted) (\<lambda>wanted_without_certs.
         if wanted_without_certs = None then Ret None
         else if pe_known_hosts e = None then Ret wanted_without_certs
         else run_bind (ssh_find_all_matching h (pe_known_hosts e) wanted_without_certs) (\<lambda>known_hosts_ordered.
           if known_hosts_ordered = None then Ret wanted_without_certs
           else run_bind (ssh_append_without_duplicates h known_hosts_ordered wanted_without_certs) (\<lambda>new_hostkeys.
             if new_hostkeys = None then Ret None
             else if pe_fips e then ssh_keep_fips_algos h 1 new_hostkeys
             else Ret new_hostkeys))))"

text \<open>The loop of \<^verbatim>\<open>ssh_set_client_kex\<close> over the method lists still to be set.\<close>

fun set_methods :: "packet_env \<Rightarrow> ssh_session \<Rightarrow> nat list \<Rightarrow> bytes option list \<Rightarrow> (int \<times> bytes option list) run" where
  "set_methods e s [] ms = Ret (SSH_OK, ms)"
| "set_methods e s (i # is) ms =
     run_bind
       (if i = 1 then ssh_client_select_hostkeys e s
        else
          let wanted = (case s_wanted_methods s ! i of
                          Some w \<Rightarrow> w
                        | None \<Rightarrow> if pe_fips e then fips_methods ! i else default_methods ! i)
          in Ret (strdup (pe_heap e) (cstr wanted)))
       (\<lambda>r. if r = None then Ret (SSH_ERROR, ms[i := r]) else set_methods e s is (ms[i := r]))"

text \<open>The proposal is a part of \<^verbatim>\<open>next_crypto\<close>.\<close>

definition ssh_set_client_kex :: "packet_env \<Rightarrow> ssh_session \<Rightarrow> ssh_crypto \<Rightarrow> (int \<times> ssh_crypto) run" where
  "ssh_set_client_kex e s next =
     (case pe_random e 16 of
        None \<Rightarrow> Ret (SSH_ERROR, next)
      | Some cookie \<Rightarrow>
          run_bind (set_methods e s [0..<SSH_KEX_METHODS] (replicate 10 None)) (\<lambda>(rc, ms).
            let next1 = next\<lparr>cr_client_kex := \<lparr>kx_cookie = cookie, kx_methods = ms\<rparr>\<rparr> in
            if rc \<noteq> SSH_OK then Ret (SSH_ERROR, next1)
            else if s_flags s AND SSH_SESSION_FLAG_AUTHENTICATED \<noteq> 0 then Ret (SSH_OK, next1)
            else
              let kex = cstr (the (ms ! 0)); ext = map of_char KEX_EXTENSION_CLIENT in
              if wrap64 (length kex + length ext + 2) < length kex then Ret (SSH_ERROR, next1)
              else if \<not> heap_grants (pe_heap e) (wrap64 (length kex + length ext + 2)) then Ret (SSH_ERROR, next1)
              else Ret (SSH_OK, next\<lparr>cr_client_kex := \<lparr>kx_cookie = cookie,
                     kx_methods = ms[0 := Some (kex @ comma # ext @ [0])]\<rparr>\<rparr>)))"

subsection \<open>The choice\<close>

text \<open>\<^verbatim>\<open>strstr\<close> on a string and the bytes of the needle: the offset of the first occurrence.\<close>

fun strstr :: "bytes \<Rightarrow> bytes \<Rightarrow> nat option" where
  "strstr [] needle = (if needle = [] then Some 0 else None)"
| "strstr (c # cs) needle =
     (if take (length needle) (c # cs) = needle then Some 0 else map_option Suc (strstr cs needle))"

definition drop_extension :: "bytes \<Rightarrow> bytes" where
  "drop_extension m =
     (case strstr (cstr m) (comma # map of_char KEX_EXTENSION_CLIENT) of
        None \<Rightarrow> m
      | Some k \<Rightarrow> m[k := 0])"

fun select_loop :: "heap \<Rightarrow> bytes option list \<Rightarrow> bytes option list \<Rightarrow> nat list \<Rightarrow> bytes option list \<Rightarrow> int \<times> bytes option list" where
  "select_loop h server client [] km = (SSH_OK, km)"
| "select_loop h server client (i # is) km =
     (let r = ssh_find_matching h (server ! i) (client ! i) in
      if r = None \<and> i < 8 then (SSH_ERROR, km[i := r])
      else if 8 \<le> i \<and> r = None then select_loop h server client is (km[i := strdup h []])
      else select_loop h server client is (km[i := r]))"

definition kex_names :: "(bytes \<times> ssh_key_exchange) list" where
  "kex_names = map (\<lambda>(n, t). (map of_char n, t))
     [(''diffie-hellman-group1-sha1'', SSH_KEX_DH_GROUP1_SHA1),
      (''diffie-hellman-group14-sha1'', SSH_KEX_DH_GROUP14_SHA1),
      (''diffie-hellman-group14-sha256'', SSH_KEX_DH_GROUP14_SHA256),
      (''diffie-hellman-group16-sha512'', SSH_KEX_DH_GROUP16_SHA512),
      (''diffie-hellman-group18-sha512'', SSH_KEX_DH_GROUP18_SHA512),
      (''diffie-hellman-group-exchange-sha1'', SSH_KEX_DH_GEX_SHA1),
      (''diffie-hellman-group-exchange-sha256'', SSH_KEX_DH_GEX_SHA256),
      (''ecdh-sha2-nistp256'', SSH_KEX_ECDH_SHA2_NISTP256),
      (''ecdh-sha2-nistp384'', SSH_KEX_ECDH_SHA2_NISTP384),
      (''ecdh-sha2-nistp521'', SSH_KEX_ECDH_SHA2_NISTP521),
      (''curve25519-sha256@libssh.org'', SSH_KEX_CURVE25519_SHA256_LIBSSH_ORG),
      (''curve25519-sha256'', SSH_KEX_CURVE25519_SHA256)]"

definition ssh_kex_select_methods :: "heap \<Rightarrow> ssh_crypto \<Rightarrow> int \<times> ssh_crypto" where
  "ssh_kex_select_methods h next =
     (let client = cr_client_kex next;
          client1 = client\<lparr>kx_methods := (kx_methods client)[0 := map_option drop_extension (kx_methods client ! 0)]\<rparr>;
          next1 = next\<lparr>cr_client_kex := client1\<rparr>
      in case select_loop h (kx_methods (cr_server_kex next)) (kx_methods client1) [0..<SSH_KEX_METHODS]
            (cr_kex_methods next) of
          (rc, km) \<Rightarrow>
            if rc \<noteq> SSH_OK then (SSH_ERROR, next1\<lparr>cr_kex_methods := km\<rparr>)
            else
              (SSH_OK, next1\<lparr>cr_kex_methods := km,
                 cr_kex_type := (case map_of kex_names (cstr (the (km ! 0))) of
                                   Some t \<Rightarrow> t | None \<Rightarrow> cr_kex_type next)\<rparr>))"

subsection \<open>What is negotiated\<close>

text \<open>The reference: the first method of the client's list that the server's list has.\<close>

definition negotiated :: "bytes option \<Rightarrow> bytes option \<Rightarrow> bytes option" where
  "negotiated server client =
     (case (server, client) of
        (Some sm, Some cm) \<Rightarrow> List.find (\<lambda>t. t \<in> set (tokens_of comma (cstr sm))) (tokens_of comma (cstr cm))
      | _ \<Rightarrow> None)"

lemma find_matching_negotiated:
  assumes "\<forall>n. heap_grants h n"
  shows "map_option cstr (ssh_find_matching h server client) = negotiated server client"
proof (cases server; cases client)
  fix sm cm
  assume "server = Some sm" and "client = Some cm"
  then show ?thesis
    using ssh_find_matching_find [OF assms, of sm cm] by (simp add: negotiated_def)
qed (simp_all add: ssh_find_matching_def negotiated_def)

lemma strdup_empty: "\<forall>n. heap_grants h n \<Longrightarrow> strdup h [] = Some [0]"
  by (simp add: strdup_def)

text \<open>The loop stops at the first mandatory list without a common method.\<close>

lemma select_loop_spec:
  assumes "\<forall>n. heap_grants h n" and "distinct is" and "\<forall>i\<in>set is. i < length km"
    and "select_loop h server client is km = (rc, km')"
  shows "(rc = SSH_OK \<or> rc = SSH_ERROR) \<and> length km' = length km \<and>
    (\<forall>i. i \<notin> set is \<longrightarrow> km' ! i = km ! i) \<and>
    (rc = SSH_OK \<longleftrightarrow> (\<forall>i\<in>set is. i < 8 \<longrightarrow> negotiated (server ! i) (client ! i) \<noteq> None)) \<and>
    (rc = SSH_OK \<longrightarrow> (\<forall>i\<in>set is. map_option cstr (km' ! i) =
       Some (case negotiated (server ! i) (client ! i) of None \<Rightarrow> [] | Some t \<Rightarrow> t)))"
  using assms(2-)
proof (induction "is" arbitrary: km)
  case (Cons i "is")
  let ?r = "ssh_find_matching h (server ! i) (client ! i)"
  let ?next = "if ?r = None then strdup h [] else ?r"
  have neg: "map_option cstr ?r = negotiated (server ! i) (client ! i)"
    by (rule find_matching_negotiated) (rule assms(1))
  show ?case
  proof (cases "?r = None \<and> i < 8")
    case True
    then have "rc = SSH_ERROR" and "km' = km[i := None]" and "negotiated (server ! i) (client ! i) = None"
      using Cons.prems(3) neg by auto
    with True show ?thesis
      by auto
  next
    case False
    then have rest: "select_loop h server client is (km[i := ?next]) = (rc, km')"
      using Cons.prems(3) by (auto simp: Let_def split: if_splits)
    have val: "map_option cstr (km[i := ?next] ! i) =
      Some (case negotiated (server ! i) (client ! i) of None \<Rightarrow> [] | Some t \<Rightarrow> t)"
      using Cons.prems(2) by (cases ?r) (simp_all add: strdup_empty [OF assms(1)] cstr_def flip: neg)
    have ok: "i < 8 \<longrightarrow> negotiated (server ! i) (client ! i) \<noteq> None"
      using False by (cases ?r) (simp_all flip: neg)
    have new: "i \<notin> set is" and d: "distinct is" and b: "\<forall>j\<in>set is. j < length (km[i := ?next])"
      using Cons.prems by auto
    note IH = Cons.IH [OF d b rest, unfolded length_list_update]
    then have "km' ! i = km[i := ?next] ! i"
      using new by simp
    then have "map_option cstr (km' ! i) = Some (case negotiated (server ! i) (client ! i) of None \<Rightarrow> [] | Some t \<Rightarrow> t)"
      using val by simp
    with IH ok show ?thesis
      by auto
  qed
qed simp

subsection \<open>Host key algorithms\<close>

lemma hostkeys_tokens:
  "distinct (tokens_of comma (cstr (lit HOSTKEYS)))" "[] \<notin> set (tokens_of comma (cstr (lit HOSTKEYS)))"
  by code_simp+

text \<open>A token list joined by commas, as the functions above return it.\<close>

lemma select_hostkeys_tokens:
  assumes grants: "\<forall>n. heap_grants (pe_heap e) n" and fips: "\<not> pe_fips e"
    and wanted: "s_wanted_methods s ! 1 = Some w" and small: "strlen w < 2 ^ 57"
    and known: "pe_known_hosts e = Some k" "distinct (tokens_of comma (cstr k))" "[] \<notin> set (tokens_of comma (cstr k))"
    and ws: "ws = filter (\<lambda>t. t \<in> set (tokens_of comma (cstr (lit HOSTKEYS)))) (tokens_of comma (cstr w))"
    and ks: "ks = filter (\<lambda>t. t \<in> set (tokens_of comma (cstr k))) ws"
  shows "\<exists>r. ssh_client_select_hostkeys e s = Ret r \<and>
    (case r of None \<Rightarrow> ws = []
     | Some m \<Rightarrow> ws \<noteq> [] \<and> tokens_of comma (cstr m) = (if ks = [] then ws else keep_first [] (ks @ ws)))"
proof -
  let ?h = "pe_heap e"
  obtain r1 where r1: "ssh_find_all_matching ?h (Some (lit HOSTKEYS)) (Some w) = Ret r1"
    "map_option cstr r1 = (if ws = [] then None else Some (foldl join_token [] ws))"
    "case r1 of None \<Rightarrow> ws = [] | Some ret \<Rightarrow> ws \<noteq> [] \<and> tokens_of comma (cstr ret) = ws"
    using find_all_matching_tokens [OF grants hostkeys_tokens ws] by blast
  show ?thesis
  proof (cases r1)
    case None
    with r1 show ?thesis
      by (simp add: ssh_client_select_hostkeys_def wanted [unfolded One_nat_def] Let_def)
  next
    case (Some m1)
    with r1 have m1: "tokens_of comma (cstr m1) = ws" "ws \<noteq> []" "cstr m1 = foldl join_token [] ws"
      by auto
    obtain r2 where r2: "ssh_find_all_matching ?h (Some k) (Some m1) = Ret r2"
      "map_option cstr r2 = (if ks = [] then None else Some (foldl join_token [] ks))"
      "case r2 of None \<Rightarrow> ks = [] | Some ret \<Rightarrow> ks \<noteq> [] \<and> tokens_of comma (cstr ret) = ks"
      using find_all_matching_tokens [OF grants known(2,3), of ks m1] by (auto simp: ks m1(1))
    show ?thesis
    proof (cases r2)
      case None
      with r1 r2 Some m1 known fips show ?thesis
        by (simp add: ssh_client_select_hostkeys_def wanted [unfolded One_nat_def] Let_def)
    next
      case (Some m2)
      with r2 have m2: "ks \<noteq> []" "cstr m2 = foldl join_token [] ks"
        by auto
      let ?kept = "keep_first [] (ks @ ws)"
      have ok: "\<forall>t\<in>set ws. t \<noteq> [] \<and> comma \<notin> set t"
        using hostkeys_tokens(2) tokens_no_sep by (auto simp: ws)
      then have ok2: "\<forall>t\<in>set (ks @ ws). t \<noteq> [] \<and> comma \<notin> set t"
        by (auto simp: ks)
      have joined: "cstr m2 @ comma # cstr m1 = foldl join_token [] (ks @ ws)"
        using joined_append [OF m2(1) m1(2)] ok2 by (simp add: m1(3) m2(2))
      have toks: "tokens_of comma (cstr m2 @ comma # cstr m1) = ks @ ws"
        unfolding joined using m2(1) ok2 by (intro tokens_of_joined) auto
      have "weight ws \<le> strlen w + 1"
        using weight_filter [of _ "tokens_of comma (cstr w)"] weight_tokens_of [of comma "cstr w"]
        by (auto simp: ws length_cstr intro: le_trans)
      moreover have "weight ks \<le> weight ws"
        by (simp add: ks weight_filter)
      ultimately have len: "strlen m1 \<le> strlen w + 1" "strlen m2 \<le> strlen w + 1"
        using foldl_join_length_Nil [of ws] foldl_join_length_Nil [of ks]
        by (auto simp flip: length_cstr m1(3) m2(2))
      have ne: "strlen m2 \<noteq> 0"
        using m2 joined_empty [of ks] ok2 by (auto simp flip: length_cstr)
      have "strlen m2 + strlen m1 < 2 ^ 59"
        using len small by simp
      then obtain r3 where r3: "ssh_append_without_duplicates ?h (Some m2) (Some m1) = Ret r3"
        "map_option cstr r3 = (if ?kept = [] then None else Some (foldl join_token [] ?kept))"
        using append_without_duplicates_text [OF grants, of m2 m1] ne toks by auto
      have same: "set ?kept = set (ks @ ws)"
        using set_keep_first [of "[]" "ks @ ws"] ok2 by auto
      have "?kept \<noteq> []"
        using same m2(1) by (metis append_is_Nil_conv set_empty)
      moreover have "\<forall>t\<in>set ?kept. t \<noteq> [] \<and> comma \<notin> set t"
        unfolding same by (rule ok2)
      ultimately have kept: "?kept \<noteq> []" "\<forall>t\<in>set ?kept. t \<noteq> [] \<and> comma \<notin> set t"
        by blast+
      then obtain m3 where m3: "r3 = Some m3" "cstr m3 = foldl join_token [] ?kept"
        using r3(2) by auto
      have "ssh_client_select_hostkeys e s = Ret (Some m3)"
        using r1(1) r2(1) r3(1) \<open>r1 = Some m1\<close> Some m3(1) known(1) fips
        by (simp add: ssh_client_select_hostkeys_def wanted [unfolded One_nat_def] Let_def)
      moreover have "tokens_of comma (cstr m3) = ?kept"
        unfolding m3(2) by (rule tokens_of_joined [OF kept])
      ultimately show ?thesis
        using m1(2) m2(1) by simp
    qed
  qed
qed

subsection \<open>Properties\<close>


text \<open>Two proposals with a common method in each list, the client's with the extension marker.\<close>

definition sample_proposals :: ssh_crypto where
  "sample_proposals = sample_crypto\<lparr>
     cr_client_kex := empty_kex\<lparr>kx_methods := map (\<lambda>m. Some (lit m))
       [''x,curve25519-sha256,ext-info-c'', ''k'', ''c'', ''c'', ''m'', ''m'', ''n'', ''n'', [], []]\<rparr>,
     cr_server_kex := empty_kex\<lparr>kx_methods := map (\<lambda>m. Some (lit m))
       [''ext-info-c,curve25519-sha256'', ''k'', ''b,c'', ''c'', ''m'', ''m'', ''n'', ''n'', [], []]\<rparr>\<rparr>"



text \<open>A world in which everything works, for concrete runs.\<close>

definition sample_ops :: crypt_ops where
  "sample_ops = \<lparr>co_encrypt = (\<lambda>_ bs. map (\<lambda>b. b XOR 90) bs), co_decrypt = (\<lambda>_ _ bs. map (\<lambda>b. b XOR 90) bs),
     co_hmac_init = True, co_mac = (\<lambda>seq bs. replicate 12 (fold (+) bs (ucast seq))),
     co_aead_encrypt = None, co_aead_decrypt_length = None, co_aead_decrypt = None\<rparr>"

definition sample_env :: packet_env where
  "sample_env = \<lparr>pe_heap = roomy_heap, pe_ops = sample_ops, pe_kex = sample_kex, pe_now = time_zero,
     pe_random = (\<lambda>n. Some (replicate n 7)), pe_deflate = (\<lambda>_ bs. [Some bs]), pe_inflate = (\<lambda>_ bs. [Some bs]),
     pe_write = (\<lambda>_. SSH_OK), pe_fips = False, pe_known_hosts = Some (lit ''ssh-rsa,x''),
     pe_server_set_kex = (\<lambda>c. (SSH_OK, c))\<rparr>"


end
