(* ===== verification/Pack_Call.thy ===== *)
theory Pack_Call
  imports SSH_Pack
begin

text \<open>
  How the protocol code calls \<^verbatim>\<open>ssh_buffer_pack\<close> and \<^verbatim>\<open>ssh_buffer_unpack\<close>: with a fixed format and the
  arguments it asks for. Nothing is assumed of the allocator here: a call that returns
  \<^verbatim>\<open>SSH_OK\<close> has appended exactly the fields, any other has at most appended a part.
\<close>

definition pack_call :: "heap \<Rightarrow> ssh_buffer \<Rightarrow> nat wfield list \<Rightarrow> int \<times> ssh_buffer" where
  "pack_call h b fs =
     (case ssh_buffer_pack h nat_bignum b (map field_char fs) (pack_argc fs) (pack_argv fs) of
        (PackRet rc, b') \<Rightarrow> (rc, b') | (_, b') \<Rightarrow> (SSH_ERROR, b'))"

definition appends :: "ssh_buffer \<Rightarrow> bytes \<Rightarrow> int \<times> ssh_buffer \<Rightarrow> bool" where
  "appends b x r \<longleftrightarrow>
     (case r of (rc, b') \<Rightarrow>
        buffer_inv b' \<and> (rc = 0 \<or> rc = - 1) \<and> (rc = 0 \<longrightarrow> buf_content b' = buf_content b @ x) \<and>
        (\<exists>y. buf_content b' = buf_content b @ y))"

lemma appends_pair:
  assumes "appends b x (rc, b')"
  shows "buffer_inv b'" and "rc = 0 \<or> rc = - 1" and "rc = 0 \<Longrightarrow> buf_content b' = buf_content b @ x"
    and "\<exists>y. buf_content b' = buf_content b @ y"
  using assms by (auto simp: appends_def)

lemma add_data_appends:
  assumes "buffer_inv b" and "len < 4294967296" and "len \<le> length d"
  shows "appends b (take len d) (ssh_buffer_add_data h b (Some d) len)"
  using assms by (cases rule: add_data_cases [where h = h]) (auto simp: appends_def)

lemma add_int_appends:
  assumes "buffer_inv b"
  shows "appends b [x] (ssh_buffer_add_u8 h b x)"
    and "appends b (be_bytes w) (ssh_buffer_add_u16 h b (bswap w))"
    and "appends b (be_bytes d) (ssh_buffer_add_u32 h b (bswap d))"
    and "appends b (be_bytes q) (ssh_buffer_add_u64 h b (bswap q))"
proof -
  have pair: "appends b x (case r of (rc, b1) \<Rightarrow> if rc < 0 then (- 1, b1) else (0, b1))" if "appends b x r" for x r
    using that by (cases r) (auto simp: appends_def)
  show "appends b [x] (ssh_buffer_add_u8 h b x)"
    using pair [OF add_data_appends [OF assms, of 1 "mem_bytes x" h]] by (simp add: ssh_buffer_add_u8_def)
  show "appends b (be_bytes w) (ssh_buffer_add_u16 h b (bswap w))"
    using pair [OF add_data_appends [OF assms, of 2 "mem_bytes (bswap w)" h]]
    by (simp add: ssh_buffer_add_u16_def wire_simps)
  show "appends b (be_bytes d) (ssh_buffer_add_u32 h b (bswap d))"
    using pair [OF add_data_appends [OF assms, of 4 "mem_bytes (bswap d)" h]]
    by (simp add: ssh_buffer_add_u32_def wire_simps)
  show "appends b (be_bytes q) (ssh_buffer_add_u64 h b (bswap q))"
    using pair [OF add_data_appends [OF assms, of 8 "mem_bytes (bswap q)" h]]
    by (simp add: ssh_buffer_add_u64_def wire_simps)
qed

lemma add_ssh_string_appends:
  assumes "buffer_inv b" and "ssh_string_ok s"
  shows "appends b (sized (ss_contents s)) (ssh_buffer_add_ssh_string h b (Some s))"
  using assms
  by (cases rule: add_ssh_string_cases [where h = h]) (auto simp: appends_def ss_wire_ok [OF assms(2)] sized_def)

text \<open>Fields without big numbers, whose lengths fit their 32-bit length fields.\<close>

fun field_plain :: "'bn wfield \<Rightarrow> bool" where
  "field_plain (FString s) = ssh_string_ok s"
| "field_plain (FCStr m) = (0 \<notin> set m \<and> length m < 4294967296)"
| "field_plain (FText m) = (0 \<notin> set m \<and> length m < 4294967296)"
| "field_plain (FBytes d) = (length d < 4294967296)"
| "field_plain (FBignum _) = False"
| "field_plain _ = True"

lemma field_plain_ok: "field_plain f \<Longrightarrow> field_ok ops f"
  by (cases f) auto

lemma pack_case_plain:
  assumes inv: "buffer_inv b" and ok: "field_plain f"
  obtains rc b' where "pack_case h ops b (field_char f) (field_args f @ ap) =
      Done (rc, b', length (field_args f) - 1, ap)" and "appends b (field_wire ops f) (rc, b')"
proof -
  note ints = add_int_appends [OF inv]
  show thesis
  proof (cases f)
    case (FByte x)
    with ints(1) [of x h] that show thesis
      by (cases "ssh_buffer_add_u8 h b x") (auto simp: pack_case_def)
  next
    case (FWord x)
    with ints(2) [of x h] that show thesis
      by (cases "ssh_buffer_add_u16 h b (bswap x)") (auto simp: pack_case_def)
  next
    case (FDword x)
    with ints(3) [of x h] that show thesis
      by (cases "ssh_buffer_add_u32 h b (bswap x)") (auto simp: pack_case_def)
  next
    case (FQword x)
    with ints(4) [of x h] that show thesis
      by (cases "ssh_buffer_add_u64 h b (bswap x)") (auto simp: pack_case_def)
  next
    case (FString s)
    with ok add_ssh_string_appends [OF inv, of s h] that show thesis
      by (cases "ssh_buffer_add_ssh_string h b (Some s)") (auto simp: pack_case_def)
  next
    case (FCStr m)
    obtain rc1 b1 where b1: "ssh_buffer_add_u32 h b (bswap (of_nat (length m))) = (rc1, b1)"
      by (rule prod.exhaust)
    with ints(3) [of "of_nat (length m)" h] have a1: "appends b (be_bytes (of_nat (length m) :: u32)) (rc1, b1)"
      by simp
    obtain rc2 b2 where b2: "ssh_buffer_add_data h b1 (Some (m @ [0])) (length m) = (rc2, b2)"
      by (rule prod.exhaust)
    with add_data_appends [of b1 "length m" "m @ [0]" h] ok FCStr appends_pair(1) [OF a1]
    have a2: "appends b1 m (rc2, b2)"
      by simp
    from ok FCStr b1 b2 have "pack_case h ops b (field_char f) (field_args f @ ap) =
        Done (if rc1 = 0 then rc2 else rc1, if rc1 = 0 then b2 else b1, length (field_args f) - 1, ap)"
      by (simp add: pack_case_def)
    moreover have "appends b (field_wire ops f) (if rc1 = 0 then rc2 else rc1, if rc1 = 0 then b2 else b1)"
      using a1 a2 FCStr by (auto simp: appends_def sized_def)
    ultimately show thesis
      by (rule that)
  next
    case (FBytes d)
    with ok add_data_appends [OF inv, of "length d" d h] that show thesis
      by (cases "ssh_buffer_add_data h b (Some d) (length d)") (auto simp: pack_case_def)
  next
    case (FText m)
    with ok add_data_appends [OF inv, of "length m" "m @ [0]" h] that show thesis
      by (cases "ssh_buffer_add_data h b (Some (m @ [0])) (length m)") (auto simp: pack_case_def)
  qed (use ok in simp)
qed

lemma appends_trans:
  assumes "appends b x (0, b1)" and "appends b1 y (rc, b2)"
  shows "appends b (x @ y) (rc, b2)"
  using assms by (auto simp: appends_def)

text \<open>The loop stops at the first field that could not be added.\<close>

lemma pack_loop_plain:
  assumes "buffer_inv b" and "\<forall>f\<in>set fs. field_plain f"
    and "count + length (concat (map field_args fs)) \<le> argc"
  shows "\<exists>rc' n ap' b'. pack_loop h ops (map field_char fs) argc count rc b (concat (map field_args fs) @ ap) =
      (LoopEnd (if fs = [] then rc else rc', n, ap'), b') \<and> appends b (wire_of ops fs) (rc', b') \<and>
      (rc' = 0 \<longrightarrow> n = count + length (concat (map field_args fs)) \<and> ap' = ap)"
  using assms
proof (induction fs arbitrary: b count rc)
  case Nil
  then show ?case
    by (auto simp: appends_def wire_of_def)
next
  case (Cons f fs)
  let ?ap = "concat (map field_args fs) @ ap"
  obtain r1 b1 where b1: "pack_case h ops b (field_char f) (field_args f @ ?ap) =
      Done (r1, b1, length (field_args f) - 1, ?ap)" "appends b (field_wire ops f) (r1, b1)"
    using pack_case_plain [of b f h ops ?ap] Cons.prems by auto
  obtain k where k: "length (field_args f) = Suc k"
    using field_args_nonempty [of f] by (cases "length (field_args f)") auto
  show ?case
  proof (cases "r1 = 0")
    case False
    with b1 Cons.prems k show ?thesis
      by (intro exI [of _ r1] exI [of _ "count + k"] exI [of _ ?ap] exI [of _ b1])
        (auto simp: wire_of_def appends_def)
  next
    case True
    have "buffer_inv b1"
      using appends_pair(1) [OF b1(2)] .
    then obtain r2 n ap2 b2 where b2: "pack_loop h ops (map field_char fs) argc (count + Suc k) 0 b1 ?ap =
        (LoopEnd (if fs = [] then 0 else r2, n, ap2), b2)" "appends b1 (wire_of ops fs) (r2, b2)"
      "r2 = 0 \<longrightarrow> n = count + Suc k + length (concat (map field_args fs)) \<and> ap2 = ap"
      using Cons.IH [of b1 "count + Suc k" 0] Cons.prems k by auto
    have "appends b (wire_of ops (f # fs)) (if fs = [] then 0 else r2, b2)"
    proof (cases "fs = []")
      case True
      with b2 b1 \<open>r1 = 0\<close> show ?thesis
        by (auto simp: wire_of_def)
    next
      case False
      with appends_trans [OF b1(2) [unfolded \<open>r1 = 0\<close>] b2(2)] show ?thesis
        by (simp add: wire_of_def)
    qed
    with b1(1) b2 k True Cons.prems show ?thesis
      by (intro exI [of _ "if fs = [] then 0 else r2"] exI [of _ n] exI [of _ ap2] exI [of _ b2]) auto
  qed
qed

lemma pack_call_appends:
  assumes inv: "buffer_inv b" and ok: "\<forall>f\<in>set fs. field_plain f" and ne: "fs \<noteq> []"
    and res: "sum_list (map field_reserve fs) < 18446744073709551616"
  shows "appends b (wire_of nat_bignum fs) (pack_call h b fs)"
proof (cases "pack_argc fs > 256")
  case True
  with inv show ?thesis
    by (auto simp: pack_call_def ssh_buffer_pack_def appends_def)
next
  case False
  have fok: "\<forall>f\<in>set fs. field_ok nat_bignum f"
    using ok field_plain_ok by blast
  let ?n = "sum_list (map field_reserve fs)"
  obtain rc0 b0 where b0: "ssh_buffer_allocate_size h b ?n = (rc0, b0)"
    by (rule prod.exhaust)
  note p0 = allocate_size_props [OF inv b0]
  have "pack_size_loop (map field_char fs) (pack_argc fs) 0 0 (pack_argv fs) =
      LoopEnd (0, pack_argc fs, ?n, [VaInt SSH_BUFFER_PACK_END])"
    using pack_size_loop_fields [OF fok, of 0 "pack_argc fs" 0 "[VaInt SSH_BUFFER_PACK_END]"] res
    by (simp add: pack_argc_def pack_argv_def)
  then have al: "ssh_buffer_pack_allocate_va h b (map field_char fs) (pack_argc fs) (pack_argv fs) =
      (PackRet (if rc0 \<noteq> 0 then SSH_ERROR else SSH_OK), b0)"
    using b0 by (simp add: ssh_buffer_pack_allocate_va_def canary_check_def Let_def)
  obtain rc n ap' b' where l: "pack_loop h nat_bignum (map field_char fs) (pack_argc fs) 0 SSH_ERROR b0 (pack_argv fs) =
      (LoopEnd (rc, n, ap'), b')" "appends b0 (wire_of nat_bignum fs) (rc, b')"
    "rc = 0 \<longrightarrow> n = pack_argc fs \<and> ap' = [VaInt SSH_BUFFER_PACK_END]"
    using pack_loop_plain [OF p0(1) ok, of 0 "pack_argc fs" h nat_bignum SSH_ERROR "[VaInt SSH_BUFFER_PACK_END]"] ne
    by (auto simp: pack_argc_def pack_argv_def)
  from l(2) have "rc = 0 \<or> rc = - 1"
    by (rule appends_pair)
  then show ?thesis
    using False al l p0 by (auto simp: pack_call_def ssh_buffer_pack_def ssh_buffer_pack_va_def canary_check_def appends_def)
qed

text \<open>An unpacking into fresh variables.\<close>

definition unpack_from :: "heap \<Rightarrow> ssh_buffer \<Rightarrow> string \<Rightarrow> int \<times> nat out list \<times> ssh_buffer" where
  "unpack_from h b fmt =
     (case ssh_buffer_unpack_va h nat_bignum b fmt (length fmt)
             (replicate (length fmt) UpPtr @ [UpCanary SSH_BUFFER_PACK_END]) of
        (PackRet rc, outs, b1) \<Rightarrow> (rc, outs, b1)
      | (_, outs, b1) \<Rightarrow> (SSH_ERROR, outs, b1))"

end
