(* ===== verification/Packet_Send.thy ===== *)
theory Packet_Send
  imports Kex Pack_Call
begin

text \<open>
  The sending side of the packet layer: compression (\<^verbatim>\<open>src/libssh/src/gzip.c\<close>), framing, padding,
  encryption and MAC of one packet (\<^verbatim>\<open>packet_send2\<close>), the queue that holds packets back while
  keys are exchanged again (\<^verbatim>\<open>ssh_packet_send\<close>, both of \<^verbatim>\<open>src/libssh/src/packet.c\<close>), and the
  \<^verbatim>\<open>KEXINIT\<close> message that starts an exchange (\<^verbatim>\<open>src/libssh/src/kex.c\<close>).
\<close>

subsection \<open>Compression\<close>

definition BLOCKSIZE :: nat where
  "BLOCKSIZE = 4092"

text \<open>
  The loop of \<^verbatim>\<open>gzip_compress\<close>: zlib's answers to the successive calls of \<^verbatim>\<open>deflate\<close>, \<^const>\<open>None\<close>
  for a status other than \<^verbatim>\<open>Z_OK\<close>. A full block asks for another call.
\<close>

fun gzip_loop :: "heap \<Rightarrow> ssh_buffer \<Rightarrow> bytes option list \<Rightarrow> ssh_buffer option" where
  "gzip_loop h dest [] = None"
| "gzip_loop h dest (None # _) = None"
| "gzip_loop h dest (Some out # rest) =
     (case ssh_buffer_add_data h dest (Some out) (length out) of
        (rc, dest1) \<Rightarrow>
          if rc < 0 then None
          else if length out = BLOCKSIZE then gzip_loop h dest1 rest
          else Some dest1)"

definition gzip_compress :: "packet_env \<Rightarrow> ssh_session \<Rightarrow> ssh_buffer \<Rightarrow> ssh_buffer option" where
  "gzip_compress e s source =
     (if ssh_packet_get_current_crypto s SSH_DIRECTION_OUT = None then None
      else case ssh_buffer_new (pe_heap e) of
          None \<Rightarrow> None
        | Some dest \<Rightarrow> gzip_loop (pe_heap e) dest (pe_deflate e (s_send_seq s) (buf_content source)))"

text \<open>The last part both directions share: the buffer is emptied and takes the new content.\<close>

definition replace_content :: "heap \<Rightarrow> ssh_buffer \<Rightarrow> ssh_buffer option \<Rightarrow> int \<times> ssh_buffer" where
  "replace_content h buf dest =
     (case dest of
        None \<Rightarrow> (- 1, buf)
      | Some d \<Rightarrow>
          (case ssh_buffer_reinit h buf of
             (rc, buf1) \<Rightarrow>
               if rc < 0 then (- 1, buf1)
               else case ssh_buffer_add_data h buf1 (ssh_buffer_get d) (ssh_buffer_get_len d) of
                   (rc2, buf2) \<Rightarrow> if rc2 < 0 then (- 1, buf2) else (0, buf2)))"

definition compress_buffer :: "packet_env \<Rightarrow> ssh_session \<Rightarrow> ssh_buffer \<Rightarrow> int \<times> ssh_buffer" where
  "compress_buffer e s buf = replace_content (pe_heap e) buf (gzip_compress e s buf)"

subsection \<open>One packet\<close>

text \<open>
  The padding, in unsigned 32-bit arithmetic and cut to a \<^verbatim>\<open>uint8_t\<close>: \<open>lf\<close> is the size of a
  separately encrypted length field, \<open>off\<close> the offset of an unencrypted one.
\<close>

definition padding_size :: "nat \<Rightarrow> nat \<Rightarrow> nat \<Rightarrow> nat \<Rightarrow> nat" where
  "padding_size blocksize lf off currentlen =
     (let p = (blocksize - wrap32 (blocksize + 2 * 4294967296 - lf - off + currentlen + 5) mod blocksize) mod 256
      in if p < 4 then (p + blocksize) mod 256 else p)"

text \<open>Block size, length field, MAC type and mode of the keys in use for sending.\<close>

definition out_params :: "ssh_session \<Rightarrow> nat \<times> nat \<times> ssh_hmac \<times> bool" where
  "out_params s =
     (case ssh_packet_get_current_crypto s SSH_DIRECTION_OUT of
        Some (_, c) \<Rightarrow>
          (case cr_out_cipher c of
             Some ci \<Rightarrow> (ci_blocksize ci, ci_lenfield_blocksize ci, cr_out_hmac c, cr_out_etm c)
           | None \<Rightarrow> (8, 0, cr_out_hmac c, cr_out_etm c))
      | None \<Rightarrow> (8, 0, (case s_next_crypto s of Some n \<Rightarrow> cr_out_hmac n | None \<Rightarrow> SSH_HMAC_UNSET), False))"

definition count_packet :: "nat \<Rightarrow> ssh_cipher \<Rightarrow> ssh_cipher" where
  "count_packet payloadsize c =
     c\<lparr>ci_packets := wrap32 (ci_packets c + 1), ci_blocks := wrap64 (ci_blocks c + payloadsize div ci_blocksize c)\<rparr>"

definition count_out :: "nat \<Rightarrow> ssh_session \<Rightarrow> ssh_session" where
  "count_out payloadsize s =
     (case ssh_packet_get_current_crypto s SSH_DIRECTION_OUT of
        None \<Rightarrow> s
      | Some (w, c) \<Rightarrow> put_crypto w (c\<lparr>cr_out_cipher := map_option (count_packet payloadsize) (cr_out_cipher c)\<rparr>) s)"

text \<open>
  From the framed packet in the buffer to the socket: encryption in place, the MAC behind it,
  the write, the counters, the empty buffer for the next packet, and the switch of the keys
  after \<^verbatim>\<open>NEWKEYS\<close>.
\<close>

definition packet_emit ::
  "packet_env \<Rightarrow> ssh_session \<Rightarrow> ssh_buffer \<Rightarrow> ssh_hmac \<Rightarrow> u8 \<Rightarrow> nat \<Rightarrow> int \<times> ssh_session" where
  "packet_emit e s b2 hmac_type type payloadsize =
     (case ssh_packet_encrypt (pe_heap e) (pe_ops e) s (buf_content b2) of
        (data, hmac) \<Rightarrow>
          let b3 = b2\<lparr>b_data := mem_write (b_data b2) (b_pos b2) data\<rparr> in
          (case (case hmac of
                   None \<Rightarrow> (0, b3)
                 | Some m \<Rightarrow> ssh_buffer_add_data (pe_heap e) b3 (Some m) (hmac_digest_len hmac_type)) of
             (rc, b4) \<Rightarrow>
               if rc < 0 then (rc, s\<lparr>s_out_buffer := b4\<rparr>)
               else if pe_write e (buf_content b4) = SSH_ERROR then (SSH_ERROR, s\<lparr>s_out_buffer := b4\<rparr>)
               else
                 let s1 = count_out payloadsize (s\<lparr>s_sent := s_sent s @ [buf_content b4], s_send_seq := s_send_seq s + 1\<rparr>)
                 in case ssh_buffer_reinit (pe_heap e) b4 of
                     (rc5, b5) \<Rightarrow>
                       if rc5 < 0 then (SSH_ERROR, s1\<lparr>s_out_buffer := b5\<rparr>)
                       else if type = 21 then
                         ssh_packet_set_newkeys (pe_heap e) (pe_kex e) (pe_now e) (s1\<lparr>s_out_buffer := b5\<rparr>) SSH_DIRECTION_OUT
                       else (rc5, s1\<lparr>s_out_buffer := b5\<rparr>)))"

definition packet_send2 :: "packet_env \<Rightarrow> ssh_session \<Rightarrow> int \<times> ssh_session" where
  "packet_send2 e s =
     (case out_params s of
        (blocksize, lf0, hmac_type, etm) \<Rightarrow>
          let crypto = ssh_packet_get_current_crypto s SSH_DIRECTION_OUT;
              payloadsize = ssh_buffer_get_len (s_out_buffer s);
              type = hd (buf_content (s_out_buffer s));
              off = (if etm then 4 else 0); lf = (if etm then 0 else lf0);
              compress = (case crypto of Some (_, c) \<Rightarrow> cr_do_compress_out c \<and> payloadsize > 0 | None \<Rightarrow> False)
          in case (if compress then compress_buffer e s (s_out_buffer s) else (SSH_ERROR, s_out_buffer s)) of
               (rc0, b0) \<Rightarrow>
                 if compress \<and> rc0 < 0 then (rc0, s\<lparr>s_out_buffer := b0\<rparr>)
                 else
                   let currentlen = ssh_buffer_get_len b0; pad = padding_size blocksize lf off currentlen in
                   case (if crypto = None then Some (replicate pad 0) else pe_random e pad) of
                     None \<Rightarrow> (rc0, s\<lparr>s_out_buffer := b0\<rparr>)
                   | Some padding \<Rightarrow>
                       let finallen = wrap32 (currentlen + 4294967296 - off + pad + 1);
                           header = be_bytes (of_nat finallen :: u32) @ [of_nat pad]
                       in case ssh_buffer_prepend_data (pe_heap e) b0 header 5 of
                           (rc1, b1) \<Rightarrow>
                             if rc1 < 0 then (rc1, s\<lparr>s_out_buffer := b1\<rparr>)
                             else case ssh_buffer_add_data (pe_heap e) b1 (Some padding) pad of
                                 (rc2, b2) \<Rightarrow>
                                   if rc2 < 0 then (rc2, s\<lparr>s_out_buffer := b2\<rparr>)
                                   else packet_emit e s b2 hmac_type type payloadsize)"

subsection \<open>The message that starts a key exchange\<close>

definition ssh_hashbufout_add_cookie :: "packet_env \<Rightarrow> ssh_session \<Rightarrow> ssh_crypto \<Rightarrow> int \<times> ssh_buffer option" where
  "ssh_hashbufout_add_cookie e s next =
     (let h = pe_heap e; cookie = (if s_server s then kx_cookie (cr_server_kex next) else kx_cookie (cr_client_kex next)) in
      case ssh_buffer_new h of
        None \<Rightarrow> (- 1, None)
      | Some b \<Rightarrow>
          (case ssh_buffer_allocate_size h b (1 + 16) of
             (rc, b1) \<Rightarrow>
               if rc < 0 then (- 1, Some (snd (ssh_buffer_reinit h b1)))
               else case ssh_buffer_add_u8 h b1 20 of
                   (rc2, b2) \<Rightarrow>
                     if rc2 < 0 then (- 1, Some (snd (ssh_buffer_reinit h b2)))
                     else case ssh_buffer_add_data h b2 (Some cookie) 16 of
                         (rc3, b3) \<Rightarrow>
                           if rc3 < 0 then (- 1, Some (snd (ssh_buffer_reinit h b3))) else (0, Some b3)))"

definition ssh_hashbufin_add_cookie :: "heap \<Rightarrow> bytes \<Rightarrow> int \<times> ssh_buffer option" where
  "ssh_hashbufin_add_cookie h cookie =
     (case ssh_buffer_new h of
        None \<Rightarrow> (- 1, None)
      | Some b \<Rightarrow>
          (case ssh_buffer_allocate_size h b (1 + 20 + 16) of
             (rc, b1) \<Rightarrow>
               if rc < 0 then (- 1, Some (snd (ssh_buffer_reinit h b1)))
               else case ssh_buffer_add_u8 h b1 20 of
                   (rc2, b2) \<Rightarrow>
                     if rc2 < 0 then (- 1, Some (snd (ssh_buffer_reinit h b2)))
                     else case ssh_buffer_add_data h b2 (Some cookie) 16 of
                         (rc3, b3) \<Rightarrow>
                           if rc3 < 0 then (- 1, Some (snd (ssh_buffer_reinit h b3))) else (0, Some b3)))"

text \<open>The method lists go into the packet and into the buffer that is hashed for the session id.\<close>

fun kex_strings :: "heap \<Rightarrow> bytes option list \<Rightarrow> ssh_buffer \<Rightarrow> ssh_buffer \<Rightarrow> int \<times> ssh_buffer \<times> ssh_buffer" where
  "kex_strings h [] hash out = (0, hash, out)"
| "kex_strings h (m # ms) hash out =
     (case ssh_string_from_char h m of
        None \<Rightarrow> (- 1, hash, out)
      | Some str \<Rightarrow>
          (case ssh_buffer_add_ssh_string h hash (Some str) of
             (rc1, hash1) \<Rightarrow>
               if rc1 < 0 then (- 1, hash1, out)
               else case ssh_buffer_add_ssh_string h out (Some str) of
                   (rc2, out1) \<Rightarrow> if rc2 < 0 then (- 1, hash1, out1) else kex_strings h ms hash1 out1))"

text \<open>\<open>send\<close> is the call of \<^verbatim>\<open>ssh_packet_send\<close> inside.\<close>

definition ssh_send_kex ::
  "(ssh_session \<Rightarrow> (int \<times> ssh_session) run) \<Rightarrow> packet_env \<Rightarrow> ssh_session \<Rightarrow> ssh_crypto \<Rightarrow> bool \<Rightarrow> (int \<times> ssh_session) run" where
  "ssh_send_kex send e s next server_kex =
     (let h = pe_heap e; kex = (if server_kex then cr_server_kex next else cr_client_kex next);
          fail = (\<lambda>hash out. Ret (- 1, s\<lparr>s_out_buffer := snd (ssh_buffer_reinit h out),
                    s_out_hashbuf := map_option (\<lambda>b. snd (ssh_buffer_reinit h b)) hash\<rparr>))
      in case pack_call h (s_out_buffer s) [FByte 20, FBytes (kx_cookie kex)] of
           (rc, b1) \<Rightarrow>
             if rc \<noteq> SSH_OK then fail (s_out_hashbuf s) b1
             else case ssh_hashbufout_add_cookie e s next of
                 (rc2, None) \<Rightarrow> fail None b1
               | (rc2, Some hash) \<Rightarrow>
                   if rc2 < 0 then fail (Some hash) b1
                   else case kex_strings h (kx_methods kex) hash b1 of
                       (rc3, hash1, b2) \<Rightarrow>
                         if rc3 < 0 then fail (Some hash1) b2
                         else case pack_call h b2 [FByte 0, FDword 0] of
                             (rc4, b3) \<Rightarrow>
                               if rc4 \<noteq> SSH_OK then fail (Some hash1) b3
                               else run_bind (send (s\<lparr>s_out_buffer := b3, s_out_hashbuf := Some hash1\<rparr>))
                                 (\<lambda>(rc5, s1). Ret (if rc5 = SSH_ERROR then - 1 else 0, s1)))"

definition ssh_send_rekex ::
  "(ssh_session \<Rightarrow> (int \<times> ssh_session) run) \<Rightarrow> packet_env \<Rightarrow> ssh_session \<Rightarrow> (int \<times> ssh_session) run" where
  "ssh_send_rekex send e s =
     (if s_dh_handshake_state s \<noteq> DH_STATE_FINISHED then Ret (SSH_ERROR, s)
      else if s_current_crypto s = None then Ret (SSH_ERROR, s)
      else case s_next_crypto s of
          None \<Rightarrow> Overflow
        | Some next \<Rightarrow>
            run_bind (if s_client s then ssh_set_client_kex e s next else Ret (pe_server_set_kex e next)) (\<lambda>(rc, next1).
              let s1 = s\<lparr>s_next_crypto := Some next1\<rparr> in
              if s_client s \<and> rc \<noteq> SSH_OK \<or> \<not> s_client s \<and> rc = SSH_ERROR then Ret (rc, s1)
              else run_bind (ssh_send_kex send e (s1\<lparr>s_dh_handshake_state := DH_STATE_INIT\<rparr>) next1 (s_server s))
                (\<lambda>(rc2, s2). if rc2 < 0 then Ret (rc2, s2)
                   else Ret (SSH_OK, s2\<lparr>s_dh_handshake_state := DH_STATE_INIT_SENT\<rparr>))))"

subsection \<open>The queue\<close>

text \<open>
  After \<^verbatim>\<open>NEWKEYS\<close> the queue is sent, as long as the new keys allow it. \<open>rekex\<close> is the call of
  \<^verbatim>\<open>ssh_send_rekex\<close>; the list is \<^verbatim>\<open>session->out_queue\<close>, which only this loop shortens.
\<close>

fun flush_queue ::
  "(ssh_session \<Rightarrow> (int \<times> ssh_session) run) \<Rightarrow> packet_env \<Rightarrow> ssh_buffer list \<Rightarrow> ssh_session \<Rightarrow> (int \<times> ssh_session) run" where
  "flush_queue rekex e [] s = Ret (SSH_OK, s)"
| "flush_queue rekex e (b # bs) s =
     (if ssh_packet_need_rekey (pe_now e) s (ssh_buffer_get_len b) then rekex s
      else case packet_send2 e (s\<lparr>s_out_buffer := b, s_out_queue := bs\<rparr>) of
          (rc, s1) \<Rightarrow> if rc \<noteq> SSH_OK then Ret (rc, s1) else flush_queue rekex e bs s1)"

text \<open>
  When no buffer can be allocated the code leaves \<^verbatim>\<open>session->out_buffer\<close> \<^verbatim>\<open>NULL\<close>; the session of
  the model keeps the queued buffer there, and the error is all a caller sees.
\<close>

definition packet_send_body ::
  "(ssh_session \<Rightarrow> (int \<times> ssh_session) run) \<Rightarrow> packet_env \<Rightarrow> ssh_session \<Rightarrow> (int \<times> ssh_session) run" where
  "packet_send_body rekex e s =
     (let payloadsize = ssh_buffer_get_len (s_out_buffer s) in
      if payloadsize < 1 then Ret (SSH_ERROR, s)
      else
        let type = hd (buf_content (s_out_buffer s));
            need_rekey = ssh_packet_need_rekey (pe_now e) s payloadsize
        in if need_rekey \<or> ssh_packet_in_rekey s \<and> \<not> ssh_packet_is_kex (unat type) then
             if \<not> heap_grants (pe_heap e) 16 then Ret (SSH_ERROR, s)
             else
               let s1 = s\<lparr>s_out_queue := s_out_queue s @ [s_out_buffer s]\<rparr> in
               (case ssh_buffer_new (pe_heap e) of
                  None \<Rightarrow> Ret (SSH_ERROR, s1)
                | Some b \<Rightarrow>
                    let s2 = s1\<lparr>s_out_buffer := b\<rparr> in
                    if need_rekey then rekex s2 else Ret (SSH_OK, s2))
           else
             (case packet_send2 e s of
                (rc, s1) \<Rightarrow>
                  if rc = SSH_OK \<and> type = 21 then flush_queue rekex e (s_out_queue s1) s1 else Ret (rc, s1)))"

text \<open>
  The calls \<^verbatim>\<open>ssh_packet_send\<close>, \<^verbatim>\<open>ssh_send_rekex\<close> and \<^verbatim>\<open>ssh_send_kex\<close> are recursive. The nesting is
  bounded: a send inside a rekey is a \<^verbatim>\<open>KEXINIT\<close> during the exchange, which is sent at once.
\<close>

fun packet_send_depth :: "nat \<Rightarrow> packet_env \<Rightarrow> ssh_session \<Rightarrow> (int \<times> ssh_session) run" where
  "packet_send_depth 0 e s = Overflow"
| "packet_send_depth (Suc n) e s = packet_send_body (ssh_send_rekex (packet_send_depth n e) e) e s"

definition ssh_packet_send :: "packet_env \<Rightarrow> ssh_session \<Rightarrow> (int \<times> ssh_session) run" where
  "ssh_packet_send e s = packet_send_depth 2 e s"

subsection \<open>Padding\<close>

lemma padding_size_bounds:
  assumes "8 \<le> bs" and "bs \<le> 128" and "lf + off \<le> bs + 5" and "len < 2147483648"
  defines "pad \<equiv> padding_size bs lf off len"
  shows "4 \<le> pad" and "pad < bs + 4" and "bs dvd bs + len + 5 - lf - off + pad"
proof -
  let ?x = "bs + len + 5 - lf - off"
  have "bs + 2 * 4294967296 - lf - off + len + 5 = ?x + 2 * 4294967296"
    using assms(3) by simp
  moreover have "?x < 4294967296"
    using assms(2,4) by simp
  ultimately have wrap: "wrap32 (bs + 2 * 4294967296 - lf - off + len + 5) = ?x"
    unfolding wrap32_def by (metis mod_less mod_mult_self1)
  have m: "?x mod bs < bs"
    using assms(1) by simp
  have le: "?x mod bs \<le> ?x"
    by simp
  have "(?x + (bs - ?x mod bs)) mod bs = 0"
    using m by (metis add.commute le mod_add_left_eq mod_self le_add_diff_inverse less_imp_le)
  then have dvd: "bs dvd ?x + (bs - ?x mod bs)"
    by auto
  have p: "bs - ?x mod bs \<le> bs" "1 \<le> bs - ?x mod bs"
    using m by simp_all
  have "(bs - ?x mod bs) mod 256 = bs - ?x mod bs"
    using p assms(2) by simp
  moreover have "(bs - ?x mod bs + bs) mod 256 = bs - ?x mod bs + bs" if "bs - ?x mod bs < 4"
    using that assms(2) by simp
  ultimately have pad: "pad = (if bs - ?x mod bs < 4 then bs - ?x mod bs + bs else bs - ?x mod bs)"
    unfolding pad_def padding_size_def wrap Let_def by simp
  show "4 \<le> pad" and "pad < bs + 4"
    using pad p assms(1) by (auto split: if_splits)
  show "bs dvd ?x + pad"
    using pad dvd by (auto split: if_splits simp: add.assoc [symmetric])
qed

subsection \<open>What one packet is on the wire\<close>

text \<open>The plain frame: length, padding length, payload, padding.\<close>

definition frame :: "nat \<Rightarrow> bytes \<Rightarrow> bytes \<Rightarrow> bytes" where
  "frame off payload padding =
     be_bytes (of_nat (length payload + length padding + 1 - off) :: u32) @ [of_nat (length padding)] @ payload @ padding"

lemma length_frame [simp]: "length (frame off payload padding) = 5 + length payload + length padding"
  by (simp add: frame_def)

text \<open>
  What the code relies on of a cipher and a MAC: encryption keeps the length, and a MAC has
  as many bytes as the table of digest lengths says.
\<close>

definition ops_lengths :: "crypt_ops \<Rightarrow> ssh_hmac \<Rightarrow> bool" where
  "ops_lengths ops t \<longleftrightarrow>
     (\<forall>seq bs. length (co_encrypt ops seq bs) = length bs \<and> length (co_mac ops seq bs) = hmac_digest_len t) \<and>
     (\<forall>f seq bs. co_aead_encrypt ops = Some f \<longrightarrow>
        length (fst (f seq bs)) = length bs \<and> length (snd (f seq bs)) = hmac_digest_len t)"

lemma encrypt_lengths:
  assumes "ops_lengths ops t" and "ssh_packet_encrypt h ops s data = (out, mac)" and "4 \<le> length data"
  shows "length out = length data" and "mac = Some m \<Longrightarrow> length m = hmac_digest_len t"
  using assms
  by (auto simp: ssh_packet_encrypt_def ops_lengths_def Let_def mem_write_def
      split: option.splits if_splits prod.splits)
    (metis fst_conv snd_conv)+

definition mac_bytes :: "bytes option \<Rightarrow> bytes" where
  "mac_bytes m = (case m of None \<Rightarrow> [] | Some x \<Rightarrow> x)"

text \<open>The session after a packet \<open>w\<close> went out, with an empty output buffer.\<close>

definition sent_session :: "ssh_session \<Rightarrow> bytes \<Rightarrow> nat \<Rightarrow> ssh_buffer \<Rightarrow> ssh_session" where
  "sent_session s w payloadsize b =
     (count_out payloadsize (s\<lparr>s_sent := s_sent s @ [w], s_send_seq := s_send_seq s + 1\<rparr>))\<lparr>s_out_buffer := b\<rparr>"

lemma overwrite_content:
  assumes "buffer_inv b" and "length d = length (buf_content b)"
  shows "buffer_inv (b\<lparr>b_data := mem_write (b_data b) (b_pos b) d\<rparr>)"
    and "buf_content (b\<lparr>b_data := mem_write (b_data b) (b_pos b) d\<rparr>) = d"
proof -
  have len: "length d = b_used b - b_pos b"
    using assms length_buf_content by simp
  note bounds = buffer_inv_bounds [OF assms(1)]
  have "length (mem_write (b_data b) (b_pos b) d) = b_alloc b"
    using len bounds by (subst length_mem_write) auto
  then show "buffer_inv (b\<lparr>b_data := mem_write (b_data b) (b_pos b) d\<rparr>)"
    using assms(1) by (simp add: buffer_inv_def)
  show "buf_content (b\<lparr>b_data := mem_write (b_data b) (b_pos b) d\<rparr>) = d"
    using len bounds by (simp add: buf_content_def mem_write_def)
qed

lemma reinit_granted:
  assumes "buffer_inv b" and "\<forall>n. heap_grants h n"
  obtains b1 where "ssh_buffer_reinit h b = (0, b1)" and "buffer_inv b1" and "buf_content b1 = []"
proof -
  obtain rc b1 where c: "ssh_buffer_reinit h b = (rc, b1)"
    by (rule prod.exhaust)
  have "fst (realloc_buffer h x (65536 - 1)) = 0" for x
    using assms(2) by (intro realloc_buffer_succeeds) (simp_all add: BUFFER_SIZE_MAX_def)
  with c have "rc = 0"
    by (auto simp: ssh_buffer_reinit_def Let_def split: if_splits prod.splits) (metis fst_conv)+
  with c reinit_props(1,2) [OF assms(1) c] that show thesis
    by blast
qed

lemma packet_emit_OK:
  assumes inv: "buffer_inv b2" and lens: "ops_lengths (pe_ops e) t" and long: "4 \<le> length (buf_content b2)"
    and call: "packet_emit e s b2 t type n = (SSH_OK, s')"
    and enc: "ssh_packet_encrypt (pe_heap e) (pe_ops e) s (buf_content b2) = (data, mac)"
  obtains b5 where "buffer_inv b5" and "buf_content b5 = []"
    and "type \<noteq> 21 \<longrightarrow> s' = sent_session s (data @ mac_bytes mac) n b5"
    and "type = 21 \<longrightarrow> ssh_packet_set_newkeys (pe_heap e) (pe_kex e) (pe_now e)
      (sent_session s (data @ mac_bytes mac) n b5) SSH_DIRECTION_OUT = (SSH_OK, s')"
proof -
  let ?b3 = "b2\<lparr>b_data := mem_write (b_data b2) (b_pos b2) data\<rparr>"
  have len: "length data = length (buf_content b2)"
    by (rule encrypt_lengths(1) [OF lens enc long])
  note b3 = overwrite_content [OF inv len]
  obtain rc b4 where b4: "(case mac of None \<Rightarrow> (0, ?b3)
      | Some m \<Rightarrow> ssh_buffer_add_data (pe_heap e) ?b3 (Some m) (hmac_digest_len t)) = (rc, b4)"
    by (rule prod.exhaust)
  have dig: "hmac_digest_len t < 4294967296"
    by (cases t) (simp_all add: hmac_digest_len_def)
  have app: "appends ?b3 (mac_bytes mac) (rc, b4)"
  proof (cases mac)
    case None
    with b4 b3 show ?thesis
      by (auto simp: appends_def mac_bytes_def)
  next
    case (Some m)
    then have "length m = hmac_digest_len t"
      using encrypt_lengths(2) [OF lens enc long] by blast
    with Some b4 add_data_appends [OF b3(1) dig, of m "pe_heap e"] show ?thesis
      by (simp add: mac_bytes_def)
  qed
  obtain rc5 b5 where b5: "ssh_buffer_reinit (pe_heap e) b4 = (rc5, b5)"
    by (rule prod.exhaust)
  have rc: "\<not> rc < 0"
    using call by (auto simp: packet_emit_def enc b4 Let_def split: if_splits)
  then have "rc = 0"
    using appends_pair(2) [OF app] by auto
  then have c4: "buf_content b4 = data @ mac_bytes mac"
    using appends_pair(3) [OF app] b3(2) by simp
  have res: "(if rc5 < 0 then (SSH_ERROR, sent_session s (data @ mac_bytes mac) n b5)
     else if type = 21 then ssh_packet_set_newkeys (pe_heap e) (pe_kex e) (pe_now e)
       (sent_session s (data @ mac_bytes mac) n b5) SSH_DIRECTION_OUT
     else (rc5, sent_session s (data @ mac_bytes mac) n b5)) = (SSH_OK, s')"
    using call rc by (auto simp: packet_emit_def enc b4 b5 c4 Let_def sent_session_def split: if_splits)
  show thesis
    using reinit_props(1,2) [OF appends_pair(1) [OF app] b5] res
    by (intro that [of b5]) (auto split: if_splits)
qed

definition compresses :: "ssh_session \<Rightarrow> bool" where
  "compresses s =
     (case ssh_packet_get_current_crypto s SSH_DIRECTION_OUT of Some (_, c) \<Rightarrow> cr_do_compress_out c | None \<Rightarrow> False)"

lemma content_bound: "buffer_inv b \<Longrightarrow> length (buf_content b) \<le> 268435456"
  using buffer_inv_bounds [of b] by (simp add: length_buf_content)

definition frame_header :: "nat \<Rightarrow> nat \<Rightarrow> nat \<Rightarrow> bytes" where
  "frame_header off n pad = be_bytes (of_nat (n + pad + 1 - off) :: u32) @ [of_nat pad]"

lemma length_frame_header [simp]: "length (frame_header off n pad) = 5"
  by (simp add: frame_header_def)

text \<open>\<^verbatim>\<open>packet_send2\<close> without compression, with the sizes as they come out.\<close>

lemma packet_send2_step:
  assumes inv: "buffer_inv (s_out_buffer s)" and params: "out_params s = (bs, lf0, t, etm)" and plain: "\<not> compresses s"
    and bs: "8 \<le> bs" "bs \<le> 128" "lf0 \<le> 8"
  defines "off \<equiv> if etm then 4 else 0" and "lf \<equiv> if etm then 0 else lf0"
  defines "payload \<equiv> buf_content (s_out_buffer s)"
  defines "pad \<equiv> padding_size bs lf off (length payload)"
  shows "4 \<le> pad" and "pad < bs + 4"
    and "packet_send2 e s =
     (case (if ssh_packet_get_current_crypto s SSH_DIRECTION_OUT = None then Some (replicate pad 0) else pe_random e pad) of
        None \<Rightarrow> (SSH_ERROR, s)
      | Some padding \<Rightarrow>
          (case ssh_buffer_prepend_data (pe_heap e) (s_out_buffer s) (frame_header off (length payload) pad) 5 of
             (rc1, b1) \<Rightarrow>
               if rc1 < 0 then (rc1, s\<lparr>s_out_buffer := b1\<rparr>)
               else case ssh_buffer_add_data (pe_heap e) b1 (Some padding) pad of
                   (rc2, b2) \<Rightarrow>
                     if rc2 < 0 then (rc2, s\<lparr>s_out_buffer := b2\<rparr>)
                     else packet_emit e s b2 t (hd payload) (length payload)))"
proof -
  let ?b0 = "s_out_buffer s" and ?n = "length payload"
  let ?crypto = "ssh_packet_get_current_crypto s SSH_DIRECTION_OUT"
  have n: "ssh_buffer_get_len ?b0 = ?n" "?n \<le> 268435456"
    using get_len_content [OF inv] content_bound [OF inv] by (simp_all add: payload_def)
  show pad: "4 \<le> pad" "pad < bs + 4"
    using padding_size_bounds [of bs lf off ?n] bs n(2) by (auto simp: off_def lf_def pad_def)
  have "?n + 4294967296 - off + pad + 1 = (?n + pad + 1 - off) + 4294967296"
    using pad by (simp add: off_def)
  moreover have "?n + pad + 1 - off < 4294967296"
    using pad n bs by simp
  ultimately have fin: "wrap32 (?n + 4294967296 - off + pad + 1) = ?n + pad + 1 - off"
    by (simp add: wrap32_def)
  have nc: "(case ?crypto of Some (_, c) \<Rightarrow> cr_do_compress_out c \<and> ?n > 0 | None \<Rightarrow> False) = False"
    using plain by (auto simp: compresses_def split: option.splits)
  have same: "s\<lparr>s_out_buffer := ?b0\<rparr> = s"
    by simp
  show "packet_send2 e s =
     (case (if ?crypto = None then Some (replicate pad 0) else pe_random e pad) of
        None \<Rightarrow> (SSH_ERROR, s)
      | Some padding \<Rightarrow>
          (case ssh_buffer_prepend_data (pe_heap e) ?b0 (frame_header off ?n pad) 5 of
             (rc1, b1) \<Rightarrow>
               if rc1 < 0 then (rc1, s\<lparr>s_out_buffer := b1\<rparr>)
               else case ssh_buffer_add_data (pe_heap e) b1 (Some padding) pad of
                   (rc2, b2) \<Rightarrow>
                     if rc2 < 0 then (rc2, s\<lparr>s_out_buffer := b2\<rparr>)
                     else packet_emit e s b2 t (hd payload) ?n))"
    by (simp only: packet_send2_def params prod.case Let_def n(1) nc if_False simp_thms off_def [symmetric]
        lf_def [symmetric] payload_def [symmetric] pad_def [symmetric] fin frame_header_def same)
qed

lemma packet_send2_OK:
  assumes inv: "buffer_inv (s_out_buffer s)" and params: "out_params s = (bs, lf0, t, etm)"
    and lens: "ops_lengths (pe_ops e) t" and rnd: "\<And>n x. pe_random e n = Some x \<Longrightarrow> length x = n"
    and plain: "\<not> compresses s" and call: "packet_send2 e s = (SSH_OK, s')"
    and bs: "8 \<le> bs" "bs \<le> 128" "lf0 \<le> 8"
  defines "off \<equiv> if etm then 4 else 0" and "lf \<equiv> if etm then 0 else lf0"
  defines "payload \<equiv> buf_content (s_out_buffer s)"
  obtains padding data mac b5 where "length padding = padding_size bs lf off (length payload)"
    and "ssh_packet_encrypt (pe_heap e) (pe_ops e) s (frame off payload padding) = (data, mac)"
    and "buffer_inv b5" and "buf_content b5 = []"
    and "hd payload \<noteq> 21 \<longrightarrow> s' = sent_session s (data @ mac_bytes mac) (length payload) b5"
    and "hd payload = 21 \<longrightarrow> ssh_packet_set_newkeys (pe_heap e) (pe_kex e) (pe_now e)
      (sent_session s (data @ mac_bytes mac) (length payload) b5) SSH_DIRECTION_OUT = (SSH_OK, s')"
proof -
  let ?b0 = "s_out_buffer s" and ?n = "length payload" and ?h = "pe_heap e"
  let ?pad = "padding_size bs lf off ?n"
  let ?crypto = "ssh_packet_get_current_crypto s SSH_DIRECTION_OUT"
  let ?header = "frame_header off ?n ?pad"
  note pad = packet_send2_step(1,2) [OF inv params plain bs, folded off_def lf_def payload_def]
  note step = packet_send2_step(3) [OF inv params plain bs, folded off_def lf_def payload_def]
  obtain padding where padding: "(if ?crypto = None then Some (replicate ?pad 0) else pe_random e ?pad) = Some padding"
    using call step by (auto split: option.splits)
  then have lp: "length padding = ?pad"
    using rnd by (auto split: if_splits)
  obtain rc1 b1 where b1: "ssh_buffer_prepend_data ?h ?b0 ?header 5 = (rc1, b1)"
    by (rule prod.exhaust)
  have rc1: "\<not> rc1 < 0"
    using call unfolding step padding option.case b1 prod.case by (auto split: if_splits)
  have "(5 :: nat) < 4294967296" and l5: "5 \<le> length ?header"
    by simp_all
  with inv have i1: "buffer_inv b1" "buf_content b1 = ?header @ payload"
    using b1 rc1
    by (cases rule: prepend_data_cases [where h = ?h and b = ?b0 and d = ?header and len = 5];
        simp add: payload_def)+
  obtain rc2 b2 where b2: "ssh_buffer_add_data ?h b1 (Some padding) ?pad = (rc2, b2)"
    by (rule prod.exhaust)
  have em: "packet_emit e s b2 t (hd payload) ?n = (SSH_OK, s')" and rc2: "\<not> rc2 < 0"
    using call rc1 unfolding step padding option.case b1 prod.case b2 by (auto split: if_splits)
  have app: "appends b1 padding (rc2, b2)"
    using add_data_appends [OF i1(1), of ?pad padding ?h] b2 lp pad bs by simp
  then have i2: "buffer_inv b2" "buf_content b2 = frame off payload padding"
    using appends_pair [OF app] rc2 i1(2) lp by (auto simp: frame_def frame_header_def)
  obtain data mac where enc: "ssh_packet_encrypt ?h (pe_ops e) s (buf_content b2) = (data, mac)"
    by (rule prod.exhaust)
  have "4 \<le> length (buf_content b2)"
    by (simp add: i2)
  from packet_emit_OK [OF i2(1) lens this em enc] that [OF lp enc [unfolded i2(2)]] show thesis
    by metis
qed

subsection \<open>Sending succeeds\<close>

lemma prepend_data_granted:
  assumes "buffer_inv b" and "\<forall>n. heap_grants h n" and "length d = n"
    and "length (buf_content b) + n < BUFFER_SIZE_MAX"
  obtains b1 where "ssh_buffer_prepend_data h b d n = (0, b1)" and "buffer_inv b1" and "buf_content b1 = d @ buf_content b"
proof -
  note bounds = buffer_inv_bounds [OF assms(1)]
  have n: "n < 4294967296" "n \<le> length d"
    using assms(3,4) by (simp_all add: BUFFER_SIZE_MAX_def)
  have len: "b_used b - b_pos b + n < BUFFER_SIZE_MAX"
    using assms(4) length_buf_content [OF assms(1)] by simp
  have "fst (ssh_buffer_prepend_data h b d n) = 0"
    using realloc_buffer_succeeds [OF len assms(2), of b] n bounds len
    by (auto simp: ssh_buffer_prepend_data_def Let_def BUFFER_SIZE_MAX_def split: prod.splits)
  with assms(1) n show thesis
    by (cases rule: prepend_data_cases [where h = h and b = b and d = d and len = n]) (use that assms(3) in auto)
qed

text \<open>With memory, random bytes and a socket, a packet goes out and only the switch of the keys can fail.\<close>

definition emitted :: "packet_env \<Rightarrow> u8 \<Rightarrow> ssh_session \<Rightarrow> int \<times> ssh_session" where
  "emitted e type s =
     (if type = 21 then ssh_packet_set_newkeys (pe_heap e) (pe_kex e) (pe_now e) s SSH_DIRECTION_OUT else (SSH_OK, s))"

lemma packet_emit_runs:
  assumes inv: "buffer_inv b" and lens: "ops_lengths (pe_ops e) t" and long: "4 \<le> length (buf_content b)"
    and heap: "\<forall>n. heap_grants (pe_heap e) n" and small: "length (buf_content b) < 268400000"
    and wr: "\<forall>w. pe_write e w \<noteq> SSH_ERROR"
  obtains w b5 where "packet_emit e s b t type n = emitted e type (sent_session s w n b5)"
    and "buffer_inv b5" and "buf_content b5 = []"
proof -
  obtain data mac where enc: "ssh_packet_encrypt (pe_heap e) (pe_ops e) s (buf_content b) = (data, mac)"
    by (rule prod.exhaust)
  note l = encrypt_lengths [OF lens enc long]
  let ?b3 = "b\<lparr>b_data := mem_write (b_data b) (b_pos b) data\<rparr>"
  note b3 = overwrite_content [OF inv l(1)]
  have dig: "hmac_digest_len t \<le> 64"
    by (cases t) (simp_all add: hmac_digest_len_def)
  obtain b4 where b4: "(case mac of None \<Rightarrow> (0, ?b3)
      | Some m \<Rightarrow> ssh_buffer_add_data (pe_heap e) ?b3 (Some m) (hmac_digest_len t)) = (0, b4)" "buffer_inv b4"
  proof (cases mac)
    case (Some m)
    have "length (buf_content ?b3) + hmac_digest_len t < BUFFER_SIZE_MAX"
      using b3(2) l(1) small dig by (simp add: BUFFER_SIZE_MAX_def)
    with Some l(2) add_data_granted [OF b3(1) heap, of "hmac_digest_len t" m] that show ?thesis
      by auto
  qed (use that b3 in auto)
  obtain b5 where b5: "ssh_buffer_reinit (pe_heap e) b4 = (0, b5)" "buffer_inv b5" "buf_content b5 = []"
    using reinit_granted [OF b4(2) heap] .
  have "packet_emit e s b t type n = emitted e type (sent_session s (buf_content b4) n b5)"
    using wr by (simp add: packet_emit_def enc b4(1) b5(1) Let_def emitted_def sent_session_def)
  with b5 that show thesis
    by blast
qed

lemma packet_send2_runs:
  assumes inv: "buffer_inv (s_out_buffer s)" and params: "out_params s = (bs, lf0, t, etm)"
    and lens: "ops_lengths (pe_ops e) t" and rnd: "\<forall>n. \<exists>x. pe_random e n = Some x \<and> length x = n"
    and plain: "\<not> compresses s" and bs: "8 \<le> bs" "bs \<le> 128" "lf0 \<le> 8"
    and heap: "\<forall>n. heap_grants (pe_heap e) n" and wr: "\<forall>w. pe_write e w \<noteq> SSH_ERROR"
    and small: "length (buf_content (s_out_buffer s)) \<le> 262000"
  obtains w b5 where "packet_send2 e s = emitted e (hd (buf_content (s_out_buffer s)))
      (sent_session s w (length (buf_content (s_out_buffer s))) b5)"
    and "buffer_inv b5" and "buf_content b5 = []"
proof -
  let ?payload = "buf_content (s_out_buffer s)" and ?off = "if etm then 4 else 0"
  let ?pad = "padding_size bs (if etm then 0 else lf0) ?off (length ?payload)"
  let ?header = "frame_header ?off (length ?payload) ?pad"
  note step = packet_send2_step [OF inv params plain bs]
  obtain padding where padding: "(if ssh_packet_get_current_crypto s SSH_DIRECTION_OUT = None
      then Some (replicate ?pad 0) else pe_random e ?pad) = Some padding" "length padding = ?pad"
    using rnd by (metis length_replicate)
  obtain b1 where b1: "ssh_buffer_prepend_data (pe_heap e) (s_out_buffer s) ?header 5 = (0, b1)"
    "buffer_inv b1" "buf_content b1 = ?header @ ?payload"
    using prepend_data_granted [OF inv heap, of ?header 5] small by (auto simp: BUFFER_SIZE_MAX_def)
  obtain b2 where b2: "ssh_buffer_add_data (pe_heap e) b1 (Some padding) ?pad = (0, b2)"
    "buffer_inv b2" "buf_content b2 = (?header @ ?payload) @ padding"
    using add_data_granted [OF b1(2) heap, of ?pad padding] b1(3) padding(2) small step(2) bs
    by (auto simp: BUFFER_SIZE_MAX_def)
  have "packet_send2 e s = packet_emit e s b2 t (hd ?payload) (length ?payload)"
    using b1(1) b2(1) unfolding step(3) padding(1) by simp
  moreover have long: "4 \<le> length (buf_content b2)" and short: "length (buf_content b2) < 268400000"
    using small step(2) bs padding(2) by (simp_all add: b2(3))
  obtain w b5 where "packet_emit e s b2 t (hd ?payload) (length ?payload) = emitted e (hd ?payload) (sent_session s w (length ?payload) b5)"
    "buffer_inv b5" "buf_content b5 = []"
    by (rule packet_emit_runs [OF b2(2) lens long heap short wr])
  ultimately show thesis
    using that by simp
qed

subsection \<open>Concrete messages\<close>

definition holding :: "bytes \<Rightarrow> ssh_buffer" where
  "holding bs = snd (ssh_buffer_add_data roomy_heap roomy_buffer (Some bs) (length bs))"

lemma holding_props:
  assumes "length bs < 262000"
  shows "buffer_inv (holding bs)" and "buf_content (holding bs) = bs"
proof -
  have "length (buf_content roomy_buffer) + length bs < BUFFER_SIZE_MAX" "\<forall>n. heap_grants roomy_heap n"
    using assms by (simp_all add: BUFFER_SIZE_MAX_def)
  from add_data_granted [OF roomy_buffer_inv this(2) order_refl this(1)]
  obtain b where "ssh_buffer_add_data roomy_heap roomy_buffer (Some bs) (length bs) = (0, b)" "buffer_inv b"
    "buf_content b = buf_content roomy_buffer @ take (length bs) bs" .
  then show "buffer_inv (holding bs)" and "buf_content (holding bs) = bs"
    by (simp_all add: holding_def)
qed

end
