(* ===== verification/Packet_Receive.thy ===== *)
theory Packet_Receive
  imports Packet_Send Packet_Filter
begin

text \<open>
  The receiving side of the packet layer: decompression (\<^verbatim>\<open>src/libssh/src/gzip.c\<close>), the state
  machine that cuts the received bytes into packets, checks and decrypts them
  (\<^verbatim>\<open>ssh_packet_socket_callback\<close> of \<^verbatim>\<open>src/libssh/src/packet.c\<close>), and the dispatch to the handlers.
\<close>

subsection \<open>Decompression\<close>

text \<open>The loop of \<^verbatim>\<open>gzip_decompress\<close>: more than \<open>maxlen\<close> bytes of output are refused.\<close>

fun gunzip_loop :: "heap \<Rightarrow> nat \<Rightarrow> ssh_buffer \<Rightarrow> bytes option list \<Rightarrow> ssh_buffer option" where
  "gunzip_loop h maxlen dest [] = None"
| "gunzip_loop h maxlen dest (None # _) = None"
| "gunzip_loop h maxlen dest (Some out # rest) =
     (case ssh_buffer_add_data h dest (Some out) (length out) of
        (rc, dest1) \<Rightarrow>
          if rc < 0 then None
          else if ssh_buffer_get_len dest1 > maxlen then None
          else if length out = BLOCKSIZE then gunzip_loop h maxlen dest1 rest
          else Some dest1)"

definition gzip_decompress :: "packet_env \<Rightarrow> ssh_session \<Rightarrow> ssh_buffer \<Rightarrow> nat \<Rightarrow> ssh_buffer option" where
  "gzip_decompress e s source maxlen =
     (if ssh_packet_get_current_crypto s SSH_DIRECTION_IN = None then None
      else case ssh_buffer_new (pe_heap e) of
          None \<Rightarrow> None
        | Some dest \<Rightarrow> gunzip_loop (pe_heap e) maxlen dest (pe_inflate e (s_recv_seq s) (buf_content source)))"

definition decompress_buffer :: "packet_env \<Rightarrow> ssh_session \<Rightarrow> ssh_buffer \<Rightarrow> nat \<Rightarrow> int \<times> ssh_buffer" where
  "decompress_buffer e s buf maxlen = replace_content (pe_heap e) buf (gzip_decompress e s buf maxlen)"

subsection \<open>Handlers\<close>

text \<open>
  A handler reads the packet from the session's input buffer; its first result says whether
  it used the packet. A table of handlers starts at some type; a session has a list of them,
  which changes as exchanges come and go: a function of the session.
\<close>

type_synonym handler = "ssh_session \<Rightarrow> (bool \<times> ssh_session) run"
type_synonym handler_table = "nat \<times> handler option list"

definition ssh_packet_send_unimplemented :: "packet_env \<Rightarrow> ssh_session \<Rightarrow> u32 \<Rightarrow> (int \<times> ssh_session) run" where
  "ssh_packet_send_unimplemented e s seqnum =
     (case pack_call (pe_heap e) (s_out_buffer s) [FByte 3, FDword seqnum] of
        (rc, b) \<Rightarrow>
          if rc \<noteq> SSH_OK then Ret (SSH_ERROR, s\<lparr>s_out_buffer := b\<rparr>)
          else ssh_packet_send e (s\<lparr>s_out_buffer := b\<rparr>))"

fun dispatch :: "handler_table list \<Rightarrow> nat \<Rightarrow> ssh_session \<Rightarrow> (bool \<times> ssh_session) run" where
  "dispatch [] type s = Ret (False, s)"
| "dispatch ((start, callbacks) # rest) type s =
     (if start > type then dispatch rest type s
      else if start + length callbacks \<le> type then dispatch rest type s
      else case callbacks ! (type - start) of
          None \<Rightarrow> dispatch rest type s
        | Some f \<Rightarrow> run_bind (f s) (\<lambda>(used, s1). if used then Ret (True, s1) else dispatch rest type s1))"

definition ssh_packet_process :: "(ssh_session \<Rightarrow> handler_table list option) \<Rightarrow> packet_env \<Rightarrow> ssh_session \<Rightarrow> u8 \<Rightarrow> ssh_session run" where
  "ssh_packet_process tables e s type =
     (case tables s of
        None \<Rightarrow> Ret s
      | Some ts \<Rightarrow>
          run_bind (dispatch ts (unat type) s) (\<lambda>(used, s1).
            if used then Ret s1
            else run_bind (ssh_packet_send_unimplemented e s1 (s_recv_seq s1 - 1)) (\<lambda>(_, s2). Ret s2)))"

definition ssh_packet_parse_type :: "ssh_session \<Rightarrow> int \<times> ssh_session" where
  "ssh_packet_parse_type s =
     (let s0 = s\<lparr>s_in_type := 0, s_in_len := 0\<rparr> in
      case s_in_buffer s of
        None \<Rightarrow> (SSH_ERROR, s0)
      | Some b \<Rightarrow>
          (case ssh_buffer_get_u8 b of
             (n, x, b1) \<Rightarrow>
               if n = 0 then (SSH_ERROR, s0\<lparr>s_in_buffer := Some b1\<rparr>)
               else (SSH_OK, s0\<lparr>s_in_buffer := Some b1, s_in_type := the x\<rparr>)))"

subsection \<open>Reading a packet\<close>

definition MAX_PACKET_LEN :: nat where
  "MAX_PACKET_LEN = 262144"

text \<open>
  How a stage of \<^verbatim>\<open>ssh_packet_socket_callback\<close> ends: the function returns, it jumps to the label
  \<^verbatim>\<open>error\<close> with a number of bytes processed, or the next stage follows.
\<close>

datatype 'a stage = Stop int ssh_session | Fail nat ssh_session | Go 'a

record in_params =
  ip_mac :: nat
  ip_hmac :: ssh_hmac
  ip_blocksize :: nat
  ip_lf :: nat
  ip_etm :: bool
  ip_off :: nat

definition read_params :: "ssh_session \<Rightarrow> in_params" where
  "read_params s =
     (let (mac, hm, bs, lf0, etm) =
        (case ssh_packet_get_current_crypto s SSH_DIRECTION_IN of
           Some (_, c) \<Rightarrow>
             (case cr_in_cipher c of
                Some ci \<Rightarrow> (hmac_digest_len (cr_in_hmac c), cr_in_hmac c, ci_blocksize ci, ci_lenfield_blocksize ci, cr_in_etm c)
              | None \<Rightarrow> (0, SSH_HMAC_UNSET, 8, 8, False))
         | None \<Rightarrow> (0, SSH_HMAC_UNSET, 8, 8, False))
      in \<lparr>ip_mac = mac, ip_hmac = hm, ip_blocksize = bs,
          ip_lf = (if etm then 0 else if lf0 = 0 then bs else lf0), ip_etm = etm, ip_off = (if etm then 4 else 0)\<rparr>)"

text \<open>\<^verbatim>\<open>PACKET_STATE_INIT\<close>: the length of the packet.\<close>

definition read_length :: "packet_env \<Rightarrow> in_params \<Rightarrow> bytes \<Rightarrow> ssh_session \<Rightarrow> ssh_session stage" where
  "read_length e p data s =
     (if length data < ip_lf p + ip_off p then Stop 0 s
      else
        let s0 = s\<lparr>s_in_type := 0, s_in_len := 0\<rparr> in
        case (case s_in_buffer s of
                Some b \<Rightarrow> (case ssh_buffer_reinit (pe_heap e) b of (rc, b1) \<Rightarrow> (rc < 0, Some b1))
              | None \<Rightarrow> (case ssh_buffer_new (pe_heap e) of None \<Rightarrow> (True, None) | Some b1 \<Rightarrow> (False, Some b1))) of
          (_, None) \<Rightarrow> Fail 0 s0
        | (bad, Some b1) \<Rightarrow>
            if bad then Fail 0 (s0\<lparr>s_in_buffer := Some b1\<rparr>)
            else case (if ip_etm p then (Some 0, b1) else ssh_buffer_allocate (pe_heap e) b1 (ip_lf p)) of
                (None, b2) \<Rightarrow> Fail 0 (s0\<lparr>s_in_buffer := Some b2\<rparr>)
              | (Some ptr, b2) \<Rightarrow>
                    let (packet_len, b3, to_be_read) =
                      (if \<not> ip_etm p then
                         (case ssh_packet_decrypt_len (pe_ops e) s data of
                            (n, dest) \<Rightarrow>
                              (unat n, b2\<lparr>b_data := mem_write (b_data b2) ptr dest\<rparr>,
                               to_int32 (int (unat n) - int (ip_lf p) + 4)))
                       else
                         (let n = unat (bswap (load_bytes (take 4 data)) :: u32) in
                          (n, b2, to_int32 (int n - int (ip_off p)))));
                        s1 = s0\<lparr>s_in_buffer := Some b3\<rparr>;
                        processed = ip_lf p + ip_off p
                    in if packet_len > MAX_PACKET_LEN then Fail processed s1
                       else if to_be_read < 0 then Fail processed s1
                       else Go (s1\<lparr>s_in_len := of_nat packet_len, s_packet_state := PACKET_STATE_SIZEREAD\<rparr>))"

text \<open>
  The bytes of the packet in the clear: check and decryption, or a copy without keys. The
  results are the input buffer and how many bytes were used.
\<close>

definition read_cleartext ::
  "packet_env \<Rightarrow> in_params \<Rightarrow> bytes \<Rightarrow> ssh_session \<Rightarrow> nat \<Rightarrow> nat \<Rightarrow> nat \<Rightarrow> ssh_buffer \<Rightarrow> (nat \<times> ssh_session) stage" where
  "read_cleartext e p data s processed remaining ptr b =
     (let second = drop (ip_lf p + ip_off p) data; ops = pe_ops e;
          fail = (\<lambda>b. Fail processed (s\<lparr>s_in_buffer := Some b\<rparr>))
      in if ssh_packet_get_current_crypto s SSH_DIRECTION_IN = None then
           Go (processed, s\<lparr>s_in_buffer := Some (b\<lparr>b_data := mem_write (b_data b) ptr (take remaining second)\<rparr>)\<rparr>)
         else
           let mac = drop remaining second in
           if ip_etm p \<and> ssh_packet_hmac_verify ops s data processed mac (ip_hmac p) < 0 then fail b
           else case (if remaining > 0
                      then ssh_packet_decrypt ops s data (ip_lf p + ip_off p) (processed - (ip_lf p + ip_off p))
                      else (0, [])) of
               (rc, clear) \<Rightarrow>
                 let b1 = b\<lparr>b_data := mem_write (b_data b) ptr clear\<rparr> in
                 if rc < 0 then fail b1
                 else if \<not> ip_etm p \<and>
                         ssh_packet_hmac_verify ops s (buf_content b1) (ssh_buffer_get_len b1) mac (ip_hmac p) < 0
                 then fail b1
                 else Go (processed + ip_mac p, s\<lparr>s_in_buffer := Some b1\<rparr>))"

definition count_in :: "nat \<Rightarrow> ssh_session \<Rightarrow> ssh_session" where
  "count_in payloadsize s =
     (case ssh_packet_get_current_crypto s SSH_DIRECTION_IN of
        None \<Rightarrow> s
      | Some (w, c) \<Rightarrow> put_crypto w (c\<lparr>cr_in_cipher := map_option (count_packet payloadsize) (cr_in_cipher c)\<rparr>) s)"

text \<open>The padding is removed and the payload decompressed.\<close>

definition read_payload :: "packet_env \<Rightarrow> in_params \<Rightarrow> nat \<Rightarrow> ssh_session \<Rightarrow> ssh_session stage" where
  "read_payload e p processed s =
     (case s_in_buffer s of
        None \<Rightarrow> Fail processed s
      | Some b0 \<Rightarrow>
          let b1 = (if \<not> ip_etm p then snd (ssh_buffer_pass_bytes b0 4) else b0) in
          (case ssh_buffer_get_u8 b1 of
             (n, padding, b2) \<Rightarrow>
               if n = 0 then Fail processed (s\<lparr>s_in_buffer := Some b2\<rparr>)
               else if unat (the padding) > ssh_buffer_get_len b2 then Fail processed (s\<lparr>s_in_buffer := Some b2\<rparr>)
               else
                 let b3 = snd (ssh_buffer_pass_bytes_end b2 (unat (the padding)));
                     s3 = s\<lparr>s_in_buffer := Some b3\<rparr>;
                     decompress = (case ssh_packet_get_current_crypto s SSH_DIRECTION_IN of
                         Some (_, c) \<Rightarrow> cr_do_compress_in c \<and> ssh_buffer_get_len b3 > 0 | None \<Rightarrow> False)
                 in case (if decompress then decompress_buffer e s3 b3 MAX_PACKET_LEN else (0, b3)) of
                     (rc, b4) \<Rightarrow>
                       if rc < 0 then Fail processed (s\<lparr>s_in_buffer := Some b4\<rparr>)
                       else Go (count_in (ssh_buffer_get_len b4)
                              (s\<lparr>s_in_buffer := Some b4, s_recv_seq := s_recv_seq s + 1\<rparr>))))"

text \<open>\<^verbatim>\<open>PACKET_STATE_SIZEREAD\<close>: the rest of the packet. The sizes are those of the C types.\<close>

definition read_packet :: "packet_env \<Rightarrow> in_params \<Rightarrow> bytes \<Rightarrow> ssh_session \<Rightarrow> (nat \<times> ssh_session) stage" where
  "read_packet e p data s =
     (let packet_len = unat (s_in_len s);
          to_be_read = to_int32 (int (packet_len + 4 + ip_mac p));
          whole = nat (to_be_read mod 4294967296)
      in if to_be_read \<noteq> 0 \<and> length data < whole then Stop 0 s
         else
           let processed = (if to_be_read \<noteq> 0 then wrap64 (nat (to_be_read mod 18446744073709551616) + 18446744073709551616 - ip_mac p)
                            else ip_lf p + ip_off p);
               remaining = wrap64 (packet_len + 18446744073709551616 + 4 - ip_lf p - ip_off p)
           in case s_in_buffer s of
                None \<Rightarrow> Fail processed s
              | Some b \<Rightarrow>
                  (case ssh_buffer_allocate (pe_heap e) b remaining of
                     (None, b1) \<Rightarrow> Fail processed (s\<lparr>s_in_buffer := Some b1\<rparr>)
                   | (Some ptr, b1) \<Rightarrow>
                       (case (if to_be_read \<noteq> 0 then read_cleartext e p data s processed remaining ptr b1
                              else Go (processed, s\<lparr>s_in_buffer := Some b1\<rparr>)) of
                          Stop r s1 \<Rightarrow> Stop r s1
                        | Fail k s1 \<Rightarrow> Fail k s1
                        | Go (k, s1) \<Rightarrow>
                            (case read_payload e p k s1 of
                               Stop r s2 \<Rightarrow> Stop r s2 | Fail j s2 \<Rightarrow> Fail j s2 | Go s2 \<Rightarrow> Go (k, s2)))))"

text \<open>The filter and the handlers, with the state that keeps packets from nesting.\<close>

definition handle_packet ::
  "(ssh_session \<Rightarrow> handler_table list option) \<Rightarrow> packet_env \<Rightarrow> nat \<Rightarrow> ssh_session \<Rightarrow> ssh_session stage run" where
  "handle_packet tables e processed s =
     (let s1 = snd (ssh_packet_parse_type (s\<lparr>s_packet_state := PACKET_STATE_PROCESSING\<rparr>)) in
      case ssh_packet_incoming_filter s1 of
        SSH_PACKET_ALLOWED \<Rightarrow>
          run_bind (ssh_packet_process tables e s1 (s_in_type s1)) (\<lambda>s2. Ret (Go (s2\<lparr>s_packet_state := PACKET_STATE_INIT\<rparr>)))
      | SSH_PACKET_DENIED \<Rightarrow> Ret (Fail processed s1)
      | SSH_PACKET_UNKNOWN \<Rightarrow>
          run_bind (ssh_packet_send_unimplemented e s1 (s_recv_seq s1 - 1))
            (\<lambda>(_, s2). Ret (Go (s2\<lparr>s_packet_state := PACKET_STATE_INIT\<rparr>))))"

definition error_exit :: "nat \<Rightarrow> ssh_session \<Rightarrow> (int \<times> ssh_session) run" where
  "error_exit processed s = Ret (int processed, s\<lparr>s_session_state := SSH_SESSION_STATE_ERROR\<rparr>)"

text \<open>The end of the function: new keys when they are due.\<close>

definition rekey_if_due :: "packet_env \<Rightarrow> int \<Rightarrow> ssh_session \<Rightarrow> (int \<times> ssh_session) run" where
  "rekey_if_due e processed s =
     (if ssh_packet_need_rekey (pe_now e) s 0 then
        run_bind (ssh_send_rekex (ssh_packet_send e) e s) (\<lambda>(rc, s1). Ret (if rc \<noteq> SSH_OK then rc else processed, s1))
      else Ret (processed, s))"

text \<open>
  The function calls itself for the bytes behind the packet; the depth is bounded by their
  number, since a packet has at least four bytes. \<^verbatim>\<open>data\<close> is not \<^verbatim>\<open>NULL\<close>.
\<close>

fun socket_callback ::
  "nat \<Rightarrow> (ssh_session \<Rightarrow> handler_table list option) \<Rightarrow> packet_env \<Rightarrow> bytes \<Rightarrow> ssh_session \<Rightarrow> (int \<times> ssh_session) run" where
  "socket_callback 0 tables e data s = Overflow"
| "socket_callback (Suc n) tables e data s =
     (if s_session_state s = SSH_SESSION_STATE_ERROR then error_exit 0 s
      else if s_packet_state s = PACKET_STATE_PROCESSING then Ret (0, s)
      else
        let p = read_params s in
        case (if s_packet_state s = PACKET_STATE_INIT then read_length e p data s else Go s) of
          Stop r s1 \<Rightarrow> Ret (r, s1)
        | Fail k s1 \<Rightarrow> error_exit k s1
        | Go s1 \<Rightarrow>
            (case read_packet e p data s1 of
               Stop r s2 \<Rightarrow> Ret (r, s2)
             | Fail k s2 \<Rightarrow> error_exit k s2
             | Go (processed, s2) \<Rightarrow>
                 run_bind (handle_packet tables e processed s2) (\<lambda>st.
                   case st of
                     Stop r s3 \<Rightarrow> Ret (r, s3)
                   | Fail k s3 \<Rightarrow> error_exit k s3
                   | Go s3 \<Rightarrow>
                       if processed < length data then
                         run_bind (socket_callback n tables e (drop processed data) s3)
                           (\<lambda>(rc, s4). rekey_if_due e (int processed + rc) s4)
                       else rekey_if_due e (int processed) s3)))"

definition ssh_packet_socket_callback ::
  "(ssh_session \<Rightarrow> handler_table list option) \<Rightarrow> packet_env \<Rightarrow> bytes \<Rightarrow> ssh_session \<Rightarrow> (int \<times> ssh_session) run" where
  "ssh_packet_socket_callback tables e data s = socket_callback (Suc (length data)) tables e data s"

subsection \<open>Reserved space in a buffer\<close>

lemma allocate_fill:
  assumes inv: "buffer_inv b" and call: "ssh_buffer_allocate h b n = (Some ptr, b1)"
    and n: "n < 4294967296" and x: "length x = n"
  shows "buffer_inv (b1\<lparr>b_data := mem_write (b_data b1) ptr x\<rparr>)"
    and "buf_content (b1\<lparr>b_data := mem_write (b_data b1) ptr x\<rparr>) = buf_content b @ x"
proof -
  have "buffer_inv (b1\<lparr>b_data := mem_write (b_data b1) ptr x\<rparr>) \<and>
    buf_content (b1\<lparr>b_data := mem_write (b_data b1) ptr x\<rparr>) = buf_content b @ x"
    using inv n
  proof (cases rule: buffer_make_room_cases [where h = h])
    case (room b2)
    note bounds = buffer_inv_bounds [OF room(2)]
    have r: "ptr = b_used b2" "b1 = b2\<lparr>b_used := b_used b2 + n\<rparr>"
      using call room(1) n by (auto simp: ssh_buffer_allocate_def)
    let ?d = "mem_write (b_data b2) (b_used b2) x"
    have "length ?d = b_alloc b2" and "take (b_used b2 + n) ?d = take (b_used b2) (b_data b2) @ x"
      using room(4) bounds x take_mem_write_end [of "b_used b2" x "b_data b2"]
      by (simp_all add: mem_simps)
    with r room bounds show ?thesis
      by (auto simp: buffer_inv_def buf_content_def)
  next
    case (refused b2)
    with call n show ?thesis
      by (simp add: ssh_buffer_allocate_def)
  qed
  then show "buffer_inv (b1\<lparr>b_data := mem_write (b_data b1) ptr x\<rparr>)"
    and "buf_content (b1\<lparr>b_data := mem_write (b_data b1) ptr x\<rparr>) = buf_content b @ x"
    by blast+
qed

lemma allocate_granted:
  assumes "buffer_inv b" and "\<forall>n. heap_grants h n" and "length (buf_content b) + n < BUFFER_SIZE_MAX"
  obtains ptr b1 where "ssh_buffer_allocate h b n = (Some ptr, b1)"
proof -
  have "wrap32 n = n"
    using assms(3) by (simp add: BUFFER_SIZE_MAX_def)
  with buffer_make_room_succeeds [OF assms] that show thesis
    by (cases "buffer_make_room h b n") (auto simp: ssh_buffer_allocate_def)
qed

lemma get_u8_first:
  assumes "buffer_inv b" and "buf_content b = x # xs"
  shows "ssh_buffer_get_u8 b = (1, Some x, b\<lparr>b_pos := b_pos b + 1\<rparr>)"
    and "buffer_inv (b\<lparr>b_pos := b_pos b + 1\<rparr>)" and "buf_content (b\<lparr>b_pos := b_pos b + 1\<rparr>) = xs"
  using get_data_enough [OF assms(1), of 1] assms(2)
  by (simp_all add: ssh_buffer_get_u8_def load_bytes_def)

subsection \<open>From the wire to the payload\<close>

text \<open>The last stage on a frame that was read completely.\<close>

lemma read_payload_frame:
  assumes b: "s_in_buffer s = Some b" "buffer_inv b"
    and c: "buf_content b = (if ip_etm p then [] else x4) @ of_nat (length padding) # payload @ padding" "length x4 = 4"
    and pad: "length padding < 256"
    and plain: "\<And>w c. ssh_packet_get_current_crypto s SSH_DIRECTION_IN = Some (w, c) \<Longrightarrow> \<not> cr_do_compress_in c"
  obtains b4 where "read_payload e p k s =
      Go (count_in (length payload) (s\<lparr>s_in_buffer := Some b4, s_recv_seq := s_recv_seq s + 1\<rparr>))"
    and "buffer_inv b4" and "buf_content b4 = payload"
proof -
  let ?rest = "of_nat (length padding) # payload @ padding"
  define b1 where "b1 = (if \<not> ip_etm p then snd (ssh_buffer_pass_bytes b 4) else b)"
  obtain k1 b1' where pass: "ssh_buffer_pass_bytes b 4 = (k1, b1')"
    by (rule prod.exhaust)
  have b1: "buffer_inv b1" "buf_content b1 = ?rest"
    using pass_bytes_enough [OF b(2) _ pass] c b(2) by (auto simp: b1_def pass split: if_splits)
  let ?b2 = "b1\<lparr>b_pos := b_pos b1 + 1\<rparr>"
  note b2 = get_u8_first [OF b1]
  have un: "unat (of_nat (length padding) :: u8) = length padding"
    using pad by (simp add: unat_of_nat)
  obtain k3 b3 where pe: "ssh_buffer_pass_bytes_end ?b2 (length padding) = (k3, b3)"
    by (rule prod.exhaust)
  have b3: "buffer_inv b3" "buf_content b3 = payload"
    using pass_bytes_end_enough [OF b2(2) _ pe] b2(3) by auto
  have "(case ssh_packet_get_current_crypto s SSH_DIRECTION_IN of
      Some (_, c) \<Rightarrow> cr_do_compress_in c \<and> ssh_buffer_get_len b3 > 0 | None \<Rightarrow> False) = False"
    using plain by (auto split: option.splits)
  then have "read_payload e p k s =
      Go (count_in (length payload) (s\<lparr>s_in_buffer := Some b3, s_recv_seq := s_recv_seq s + 1\<rparr>))"
    unfolding read_payload_def b(1) option.case Let_def b1_def [symmetric] b2(1) prod.case option.sel un pe snd_conv
    using get_len_content [OF b2(2)] get_len_content [OF b3(1)] b2(3) b3(2) by simp
  with b3 that show thesis
    by blast
qed

end
