(* ===== verification/Packet_Wire.thy ===== *)
theory Packet_Wire
  imports Packet_Receive
begin

text \<open>
  The two directions of the packet layer together: what \<^verbatim>\<open>packet_send2\<close> of one peer writes,
  \<^verbatim>\<open>ssh_packet_socket_callback\<close> of the other peer takes apart again, for a connection without
  keys, with a cipher and a MAC (over the plain packet or over the encrypted one), and with an
  authenticated cipher.
\<close>

subsection \<open>The stages of the receiver\<close>

lemma to_int32_small: "- 2147483648 \<le> n \<Longrightarrow> n < 2147483648 \<Longrightarrow> to_int32 n = n"
  unfolding to_int32_def by (subst mod_pos_pos_trivial) linarith+

text \<open>The first stage, when the length field \<open>x\<close> came out as the length \<open>L\<close>.\<close>

definition in_buffer_inv :: "ssh_session \<Rightarrow> bool" where
  "in_buffer_inv s \<longleftrightarrow> (case s_in_buffer s of None \<Rightarrow> True | Some b \<Rightarrow> buffer_inv b)"

lemma read_length_frame:
  assumes inv: "in_buffer_inv r" and heap: "\<forall>n. heap_grants (pe_heap e) n"
    and L: "L \<le> MAX_PACKET_LEN" "ip_lf p + ip_off p \<le> L + 4" "L + 4 \<le> length data"
    and lf: "ip_lf p \<le> 128" "ip_etm p \<Longrightarrow> ip_lf p = 0" "\<not> ip_etm p \<Longrightarrow> ip_off p = 0" "ip_off p \<le> L"
    and clear: "\<not> ip_etm p \<Longrightarrow> ssh_packet_decrypt_len (pe_ops e) r data = (of_nat L, x)" "length x = ip_lf p"
    and etm: "ip_etm p \<Longrightarrow> bswap (load_bytes (take 4 data)) = (of_nat L :: u32)"
  obtains b where
    "read_length e p data r = Go (r\<lparr>s_in_type := 0, s_in_buffer := Some b, s_in_len := of_nat L,
       s_packet_state := PACKET_STATE_SIZEREAD\<rparr>)"
    and "buffer_inv b" and "buf_content b = x"
proof -
  let ?h = "pe_heap e"
  let ?fresh = "case s_in_buffer r of
      Some b \<Rightarrow> (case ssh_buffer_reinit ?h b of (rc, b1) \<Rightarrow> (rc < 0, Some b1))
    | None \<Rightarrow> (case ssh_buffer_new ?h of None \<Rightarrow> (True, None) | Some b1 \<Rightarrow> (False, Some b1))"
  obtain b1 where b1: "?fresh = (False, Some b1)" "buffer_inv b1" "buf_content b1 = []"
  proof (cases "s_in_buffer r")
    case None
    with buffer_new_granted [OF heap] buffer_new_Some that show ?thesis
      by fastforce
  next
    case (Some b)
    with inv have "buffer_inv b"
      by (simp add: in_buffer_inv_def)
    from reinit_granted [OF this heap] obtain b1 where "ssh_buffer_reinit ?h b = (0, b1)" "buffer_inv b1" "buf_content b1 = []" .
    with Some show ?thesis
      by (intro that [of b1]) simp_all
  qed
  have un: "unat (of_nat L :: u32) = L"
    using L(1) by (simp add: unat_of_nat MAX_PACKET_LEN_def)
  then have ui: "uint (of_nat L :: u32) = int L"
    by (metis uint_nat)
  obtain ptr b2 where b2: "(if ip_etm p then (Some 0, b1) else ssh_buffer_allocate ?h b1 (ip_lf p)) = (Some ptr, b2)"
  proof (cases "ip_etm p")
    case False
    from b1(3) lf(1) have "length (buf_content b1) + ip_lf p < BUFFER_SIZE_MAX"
      by (simp add: BUFFER_SIZE_MAX_def)
    from allocate_granted [OF b1(2) heap this] show ?thesis
      using that False by (metis (no_types, lifting))
  qed (use that in simp)
  define b3 where "b3 = (if ip_etm p then b2 else b2\<lparr>b_data := mem_write (b_data b2) ptr x\<rparr>)"
  have b3: "buffer_inv b3" "buf_content b3 = x"
    using b1(2,3) b2 clear(2) lf(1,2) allocate_fill [OF b1(2) _ _ clear(2)]
    by (auto simp: b3_def split: if_splits)
  have "to_int32 (int L - int (ip_lf p) + 4) \<ge> 0" if "\<not> ip_etm p"
    using that L lf by (subst to_int32_small) (auto simp: MAX_PACKET_LEN_def)
  moreover have "to_int32 (int L - int (ip_off p)) \<ge> 0"
    using L lf by (subst to_int32_small) (auto simp: MAX_PACKET_LEN_def)
  moreover have "\<not> length data < ip_lf p + ip_off p"
    using L by simp
  ultimately have "read_length e p data r = Go (r\<lparr>s_in_type := 0, s_in_buffer := Some b3, s_in_len := of_nat L,
       s_packet_state := PACKET_STATE_SIZEREAD\<rparr>)"
    unfolding read_length_def Let_def b1(1) b2 prod.case option.case
    using clear(1) etm L(1) by (cases "ip_etm p") (simp_all add: un ui b3_def)
  with b3 that show thesis
    by blast
qed

text \<open>
  The second stage, when the rest of the packet decrypts to \<open>clear\<close> and the MAC is right: the
  bytes of the packet and of its MAC are used, and the payload is in the input buffer.
\<close>

definition decrypts_to :: "crypt_ops \<Rightarrow> in_params \<Rightarrow> bytes \<Rightarrow> ssh_session \<Rightarrow> nat \<Rightarrow> bytes \<Rightarrow> bytes \<Rightarrow> bool" where
  "decrypts_to ops p data r L pre clear \<longleftrightarrow>
     (let start = ip_lf p + ip_off p; mac = drop (L + 4) data in
      if ssh_packet_get_current_crypto r SSH_DIRECTION_IN = None
      then take (L + 4 - start) (drop start data) = clear \<and> ip_mac p = 0
      else
        (clear \<noteq> [] \<longrightarrow> ssh_packet_decrypt ops r data start (L + 4 - start) = (0, clear)) \<and>
        (if ip_etm p then ssh_packet_hmac_verify ops r data (L + 4) mac (ip_hmac p) = 0
         else ssh_packet_hmac_verify ops r (pre @ clear) (length (pre @ clear)) mac (ip_hmac p) = 0))"

lemma read_packet_frame:
  assumes b: "s_in_buffer r = Some b" "buffer_inv b" "s_in_len r = of_nat L" "length (buf_content b) \<le> 128"
    and heap: "\<forall>n. heap_grants (pe_heap e) n"
    and L: "L \<le> MAX_PACKET_LEN" "ip_lf p + ip_off p \<le> L + 4" "L + 4 + ip_mac p \<le> length data" "ip_mac p \<le> 64"
    and clear: "decrypts_to (pe_ops e) p data r L (buf_content b) clear" "length clear = L + 4 - (ip_lf p + ip_off p)"
    and c: "buf_content b @ clear = (if ip_etm p then [] else x4) @ of_nat (length padding) # payload @ padding"
      "length x4 = 4" "length padding < 256"
    and plain: "\<And>w c. ssh_packet_get_current_crypto r SSH_DIRECTION_IN = Some (w, c) \<Longrightarrow> \<not> cr_do_compress_in c"
  obtains b4 where "read_packet e p data r = Go (L + 4 + ip_mac p,
      count_in (length payload) (r\<lparr>s_in_buffer := Some b4, s_recv_seq := s_recv_seq r + 1\<rparr>))"
    and "buffer_inv b4" and "buf_content b4 = payload"
proof -
  let ?start = "ip_lf p + ip_off p" and ?h = "pe_heap e"
  let ?rem = "L + 4 - ?start"
  let ?crypto = "ssh_packet_get_current_crypto r SSH_DIRECTION_IN"
  have un: "unat (s_in_len r) = L"
    using b(3) L(1) by (simp add: unat_of_nat MAX_PACKET_LEN_def)
  have i32: "to_int32 (int (L + 4 + ip_mac p)) = int (L + 4 + ip_mac p)"
    using L(1,4) by (subst to_int32_small) (auto simp: MAX_PACKET_LEN_def)
  have whole: "nat (int (L + 4 + ip_mac p) mod 4294967296) = L + 4 + ip_mac p"
    "nat (int (L + 4 + ip_mac p) mod 18446744073709551616) = L + 4 + ip_mac p"
    using L(1,4) by (simp_all add: MAX_PACKET_LEN_def nat_mod_as_int)
  have small: "L + 4 < 18446744073709551616" and "L + 4 + ip_mac p + 18446744073709551616 - ip_mac p = L + 4 + 18446744073709551616"
    using L(1) by (simp_all add: MAX_PACKET_LEN_def)
  then have proc: "wrap64 (L + 4 + ip_mac p + 18446744073709551616 - ip_mac p) = L + 4"
    unfolding wrap64_def by (metis mod_add_self2 mod_less)
  have "L + 18446744073709551616 + 4 - ip_lf p - ip_off p = ?rem + 18446744073709551616"
    using L(2) by simp
  then have rem: "wrap64 (L + 18446744073709551616 + 4 - ip_lf p - ip_off p) = ?rem"
    using small unfolding wrap64_def by (metis less_imp_diff_less mod_add_self2 mod_less)
  have "length (buf_content b) + ?rem < BUFFER_SIZE_MAX"
    using L(1) b(4) by (simp add: BUFFER_SIZE_MAX_def MAX_PACKET_LEN_def)
  from allocate_granted [OF b(2) heap this]
  obtain ptr b1 where alloc: "ssh_buffer_allocate ?h b ?rem = (Some ptr, b1)" .
  define b2 where "b2 = b1\<lparr>b_data := mem_write (b_data b1) ptr clear\<rparr>"
  have "?rem < 4294967296"
    using L(1) by (simp add: MAX_PACKET_LEN_def)
  note b2 = allocate_fill [OF b(2) alloc this clear(2), folded b2_def]
  have len2: "ssh_buffer_get_len b2 = length (buf_content b @ clear)"
    using get_len_content [OF b2(1)] b2(2) by simp
  have mac: "drop ?rem (drop ?start data) = drop (L + 4) data"
    using L(2) by simp
  have stage: "read_cleartext e p data r (L + 4) ?rem ptr b1 =
      Go (L + 4 + ip_mac p, r\<lparr>s_in_buffer := Some b2\<rparr>)"
  proof (cases "?crypto = None")
    case True
    with clear(1) show ?thesis
      by (simp add: read_cleartext_def decrypts_to_def Let_def b2_def)
  next
    case False
    have "(if ?rem > 0 then ssh_packet_decrypt (pe_ops e) r data ?start ?rem else (0, [])) = (0, clear)"
      using clear False by (auto simp: decrypts_to_def Let_def)
    with False clear(1) show ?thesis
      unfolding read_cleartext_def Let_def mac decrypts_to_def
      by (simp add: b2_def [symmetric] b2(2) len2 split: if_splits)
  qed
  have c2: "buf_content b2 = (if ip_etm p then [] else x4) @ of_nat (length padding) # payload @ padding"
    using b2(2) c(1) by simp
  obtain b4 where "read_payload e p (L + 4 + ip_mac p) (r\<lparr>s_in_buffer := Some b2\<rparr>) =
      Go (count_in (length payload) (r\<lparr>s_in_buffer := Some b4, s_recv_seq := s_recv_seq r + 1\<rparr>))"
    and b4: "buffer_inv b4" "buf_content b4 = payload"
    using read_payload_frame [of "r\<lparr>s_in_buffer := Some b2\<rparr>" b2 p x4 padding payload e "L + 4 + ip_mac p"] b2(1) c2 c(2,3) plain
    by (auto simp: ssh_packet_get_current_crypto_def)
  moreover have "int (L + 4 + ip_mac p) \<noteq> 0" and "\<not> length data < L + 4 + ip_mac p"
    using L(3) by simp_all
  ultimately have "read_packet e p data r = Go (L + 4 + ip_mac p,
      count_in (length payload) (r\<lparr>s_in_buffer := Some b4, s_recv_seq := s_recv_seq r + 1\<rparr>))"
    unfolding read_packet_def un i32 whole proc rem b(1) Let_def
    by (simp only: alloc stage prod.case option.case stage.case simp_thms if_True if_False not_False_eq_True)
  with b4 that show thesis
    by blast
qed

text \<open>Both stages on a packet \<open>w\<close>, whatever follows it: the payload is in the input buffer.\<close>

definition reads_packet :: "packet_env \<Rightarrow> ssh_session \<Rightarrow> bytes \<Rightarrow> bytes \<Rightarrow> bytes \<Rightarrow> bool" where
  "reads_packet e r w rest payload \<longleftrightarrow>
     (\<exists>r1 r2 b. read_length e (read_params r) (w @ rest) r = Go r1 \<and>
        read_packet e (read_params r) (w @ rest) r1 = Go (length w, r2) \<and>
        s_in_buffer r2 = Some b \<and> buffer_inv b \<and> buf_content b = payload \<and> s_recv_seq r2 = s_recv_seq r + 1)"

lemma crypto_of_update [simp]:
  "ssh_packet_get_current_crypto (r\<lparr>s_in_type := t, s_in_buffer := b, s_in_len := n, s_packet_state := st\<rparr>) d =
   ssh_packet_get_current_crypto r d"
  by (simp add: ssh_packet_get_current_crypto_def)

lemma decrypts_to_update [simp]:
  "decrypts_to ops p data (r\<lparr>s_in_type := t, s_in_buffer := b, s_in_len := n, s_packet_state := st\<rparr>) L pre clear =
   decrypts_to ops p data r L pre clear"
proof -
  have seq: "s_recv_seq (r\<lparr>s_in_type := t, s_in_buffer := b, s_in_len := n, s_packet_state := st\<rparr>) = s_recv_seq r"
    by simp
  show ?thesis
    unfolding decrypts_to_def ssh_packet_decrypt_def ssh_packet_hmac_verify_def crypto_of_update seq by (rule refl)
qed

lemma count_in_fields [simp]:
  "s_in_buffer (count_in n s) = s_in_buffer s" "s_recv_seq (count_in n s) = s_recv_seq s"
  by (auto simp: count_in_def put_crypto_def split: option.splits prod.splits which_crypto.splits)

lemma reads_packet_frame:
  fixes payload padding :: bytes
  defines "L \<equiv> length payload + length padding + 1"
  assumes inv: "in_buffer_inv r" and heap: "\<forall>n. heap_grants (pe_heap e) n"
    and p: "p = read_params r" "ip_lf p + ip_off p \<le> L + 4" "ip_lf p \<le> 128" "ip_mac p \<le> 64"
      "ip_etm p \<Longrightarrow> ip_lf p = 0" "\<not> ip_etm p \<Longrightarrow> ip_off p = 0" "ip_etm p \<Longrightarrow> ip_off p = 4"
    and L: "L \<le> MAX_PACKET_LEN" "4 \<le> length padding" "length padding < 256"
    and w: "length w = L + 4 + ip_mac p"
    and x: "\<not> ip_etm p \<Longrightarrow> ssh_packet_decrypt_len (pe_ops e) r (w @ rest) = (of_nat L, x)" "length x = ip_lf p"
      "ip_etm p \<Longrightarrow> bswap (load_bytes (take 4 (w @ rest))) = (of_nat L :: u32)"
    and clear: "decrypts_to (pe_ops e) p (w @ rest) r L x clear"
    and c: "x @ clear = (if ip_etm p then [] else field) @ of_nat (length padding) # payload @ padding" "length field = 4"
    and plain: "\<And>w c. ssh_packet_get_current_crypto r SSH_DIRECTION_IN = Some (w, c) \<Longrightarrow> \<not> cr_do_compress_in c"
  shows "reads_packet e r w rest payload"
proof -
  have "L + 4 \<le> length (w @ rest)" "ip_off p \<le> L"
    using w L p(6,7) by (cases "ip_etm p"; simp add: L_def)+
  from read_length_frame [OF inv heap L(1) p(2) this(1) p(3,5,6) this(2) x(1,2,3)]
  obtain b where step1: "read_length e p (w @ rest) r = Go (r\<lparr>s_in_type := 0, s_in_buffer := Some b,
      s_in_len := of_nat L, s_packet_state := PACKET_STATE_SIZEREAD\<rparr>)" (is "_ = Go ?r1")
    and b: "buffer_inv b" "buf_content b = x" .
  have "length clear = L + 4 - (ip_lf p + ip_off p)"
    using arg_cong [OF c(1), of length] x(2) c(2) p by (cases "ip_etm p") (auto simp: L_def)
  moreover have "L + 4 + ip_mac p \<le> length (w @ rest)"
    using w by simp
  ultimately obtain b4 where "read_packet e p (w @ rest) ?r1 = Go (L + 4 + ip_mac p,
      count_in (length payload) (?r1\<lparr>s_in_buffer := Some b4, s_recv_seq := s_recv_seq r + 1\<rparr>))"
    and "buffer_inv b4" and "buf_content b4 = payload"
    using read_packet_frame [of ?r1 b L e p "w @ rest" clear field padding payload] b heap L p x(2) clear c plain
    by (auto simp: b(2))
  with step1 show ?thesis
    unfolding reads_packet_def p(1) [symmetric] w by (intro exI conjI) (assumption | simp)+
qed

subsection \<open>Two peers with the same keys\<close>

text \<open>
  The keys the sender uses and those of the receiver: none, or the same sizes, MAC and mode,
  without compression.
\<close>

definition matching_keys :: "ssh_session \<Rightarrow> ssh_session \<Rightarrow> bool" where
  "matching_keys s r =
     (case (ssh_packet_get_current_crypto s SSH_DIRECTION_OUT, ssh_packet_get_current_crypto r SSH_DIRECTION_IN) of
        (None, None) \<Rightarrow> True
      | (Some (_, c), Some (_, d)) \<Rightarrow>
          (case (cr_out_cipher c, cr_in_cipher d) of
             (Some ci, Some di) \<Rightarrow>
               ci_blocksize ci = ci_blocksize di \<and> ci_lenfield_blocksize ci = ci_lenfield_blocksize di \<and>
               8 \<le> ci_blocksize ci \<and> ci_blocksize ci \<le> 128 \<and> cr_out_hmac c = cr_in_hmac d \<and>
               cr_out_etm c = cr_in_etm d \<and> \<not> cr_do_compress_out c \<and> \<not> cr_do_compress_in d
           | _ \<Rightarrow> False)
      | _ \<Rightarrow> False)"

text \<open>
  What the code relies on of the crypto library. A cipher decrypts in whole blocks what it
  encrypted, and both sides compute the same MAC; an authenticated cipher recovers the length
  field and then the rest of the packet from the bytes with their tag.
\<close>

definition cipher_contract :: "crypt_ops \<Rightarrow> crypt_ops \<Rightarrow> nat \<Rightarrow> nat \<Rightarrow> bool" where
  "cipher_contract ops ops' bs off \<longleftrightarrow>
     co_aead_encrypt ops = None \<and> co_aead_decrypt_length ops' = None \<and> co_aead_decrypt ops' = None \<and>
     co_hmac_init ops \<and> co_hmac_init ops' \<and> (\<forall>seq x. co_mac ops' seq x = co_mac ops seq x) \<and>
     (\<forall>seq x k n. bs dvd k \<longrightarrow> bs dvd n \<longrightarrow> k + n \<le> length x \<longrightarrow>
        co_decrypt ops' seq (off + k) (take n (drop k (co_encrypt ops seq x))) = take n (drop k x))"

definition aead_contract :: "crypt_ops \<Rightarrow> crypt_ops \<Rightarrow> bool" where
  "aead_contract ops ops' \<longleftrightarrow>
     (\<exists>enc len dec. co_aead_encrypt ops = Some enc \<and> co_aead_decrypt_length ops' = Some len \<and>
        co_aead_decrypt ops' = Some dec \<and>
        (\<forall>seq x rest. case enc seq x of (out, tag) \<Rightarrow>
           len seq (take 4 out) = (0, take 4 x) \<and> dec seq (out @ tag @ rest) (length x - 4) = (0, drop 4 x)))"

definition crypto_contract :: "crypt_ops \<Rightarrow> crypt_ops \<Rightarrow> ssh_session \<Rightarrow> bool" where
  "crypto_contract ops ops' s =
     (case out_params s of
        (bs, lf, t, etm) \<Rightarrow>
          ops_lengths ops t \<and>
          (ssh_packet_get_current_crypto s SSH_DIRECTION_OUT = None \<or>
           lf = 0 \<and> cipher_contract ops ops' bs (if etm then 4 else 0) \<or>
           lf = 4 \<and> \<not> etm \<and> (t = SSH_HMAC_AEAD_POLY1305 \<or> t = SSH_HMAC_AEAD_GCM) \<and> aead_contract ops ops'))"

lemma take_drop_prefix: "m + n \<le> length xs \<Longrightarrow> take n (drop m (xs @ ys)) = take n (drop m xs)"
  by simp

lemma frame_plain:
  "frame 0 payload padding = be_bytes (of_nat (length payload + length padding + 1) :: u32) @
     of_nat (length padding) # payload @ padding"
  "drop 4 (frame off payload padding) = of_nat (length padding) # payload @ padding"
  by (simp_all add: frame_def)

lemma read_params_keys:
  assumes "ssh_packet_get_current_crypto r SSH_DIRECTION_IN = Some (w, c)" and "cr_in_cipher c = Some ci"
  shows "read_params r = \<lparr>ip_mac = hmac_digest_len (cr_in_hmac c), ip_hmac = cr_in_hmac c,
    ip_blocksize = ci_blocksize ci,
    ip_lf = (if cr_in_etm c then 0 else if ci_lenfield_blocksize ci = 0 then ci_blocksize ci else ci_lenfield_blocksize ci),
    ip_etm = cr_in_etm c, ip_off = (if cr_in_etm c then 4 else 0)\<rparr>"
  using assms by (simp add: read_params_def Let_def)

lemma digest_small: "hmac_digest_len t \<le> 64"
  by (cases t) (simp_all add: hmac_digest_len_def)

lemma mac_accepted:
  assumes "ssh_packet_get_current_crypto r SSH_DIRECTION_IN = Some kc" and "co_hmac_init ops"
    and "mac = co_mac ops (s_recv_seq r) (take len data) @ rest"
  shows "ssh_packet_hmac_verify ops r data len mac t = 0"
  using assms secure_memcmp_eq [of "length (co_mac ops (s_recv_seq r) (take len data))"]
  by (auto simp: ssh_packet_hmac_verify_def Let_def)

text \<open>The packet without keys.\<close>

lemma reads_packet_plain:
  assumes none: "ssh_packet_get_current_crypto r SSH_DIRECTION_IN = None"
    and inv: "in_buffer_inv r" and heap: "\<forall>n. heap_grants (pe_heap e) n"
    and L: "length payload + length padding + 1 \<le> MAX_PACKET_LEN" "4 \<le> length padding" "length padding < 256"
    and al: "8 \<le> 5 + length payload + length padding"
  shows "reads_packet e r (frame 0 payload padding) rest payload"
proof (rule reads_packet_frame [where p = "read_params r" and clear = "drop 8 (frame 0 payload padding)"
      and x = "take 8 (frame 0 payload padding)" and field = "be_bytes (of_nat (length payload + length padding + 1) :: u32)"])
  have p: "read_params r = \<lparr>ip_mac = 0, ip_hmac = SSH_HMAC_UNSET, ip_blocksize = 8, ip_lf = 8, ip_etm = False, ip_off = 0\<rparr>"
    by (simp add: read_params_def none Let_def)
  show "decrypts_to (pe_ops e) (read_params r) (frame 0 payload padding @ rest) r
      (length payload + length padding + 1) (take 8 (frame 0 payload padding)) (drop 8 (frame 0 payload padding))"
    using L by (simp add: decrypts_to_def p none Let_def)
  show "ssh_packet_decrypt_len (pe_ops e) r (frame 0 payload padding @ rest) =
      (of_nat (length payload + length padding + 1), take 8 (frame 0 payload padding))"
    using L by (simp add: ssh_packet_decrypt_len_def none) (simp add: frame_plain wire_simps)
  show "take 8 (frame 0 payload padding) @ drop 8 (frame 0 payload padding) =
      (if ip_etm (read_params r) then [] else be_bytes (of_nat (length payload + length padding + 1) :: u32)) @
      of_nat (length padding) # payload @ padding"
    by (simp only: p append_take_drop_id frame_plain(1) in_params.simps if_False)
qed (use assms in \<open>simp_all add: read_params_def\<close>)

text \<open>The MAC over the plain packet: the first block holds the length.\<close>

lemma reads_packet_mac:
  fixes payload padding :: bytes
  defines "F \<equiv> frame 0 payload padding"
  assumes keys: "ssh_packet_get_current_crypto r SSH_DIRECTION_IN = Some (k, c)" "cr_in_cipher c = Some ci"
      "\<not> cr_do_compress_in c" "\<not> cr_in_etm c" "ci_lenfield_blocksize ci = 0" "8 \<le> ci_blocksize ci" "ci_blocksize ci \<le> 128"
    and ops: "cipher_contract ops (pe_ops e) (ci_blocksize ci) 0" "ops_lengths ops (cr_in_hmac c)"
    and inv: "in_buffer_inv r" and heap: "\<forall>n. heap_grants (pe_heap e) n"
    and L: "length payload + length padding + 1 \<le> MAX_PACKET_LEN" "4 \<le> length padding" "length padding < 256"
    and al: "ci_blocksize ci dvd length F"
  shows "reads_packet e r (co_encrypt ops (s_recv_seq r) F @ co_mac ops (s_recv_seq r) F) rest payload"
proof -
  let ?bs = "ci_blocksize ci" and ?seq = "s_recv_seq r" and ?L = "length payload + length padding + 1"
  let ?field = "be_bytes (of_nat ?L :: u32)"
  let ?w = "co_encrypt ops ?seq F @ co_mac ops ?seq F"
  note p = read_params_keys [OF keys(1,2)]
  have len: "length F = ?L + 4" "length (co_encrypt ops ?seq F) = ?L + 4" "length (co_mac ops ?seq F) = hmac_digest_len (cr_in_hmac c)"
    using ops(2) by (simp_all add: F_def ops_lengths_def)
  have bs: "?bs \<le> ?L + 4"
    using al len(1) by (metis add_is_0 dvd_imp_le gr0I zero_neq_numeral)
  have dec: "co_decrypt (pe_ops e) ?seq m (take n (drop m ?w)) = take n (drop m F)"
    if "?bs dvd m" "?bs dvd n" "m + n \<le> ?L + 4" for m n
  proof -
    have "take n (drop m ?w) = take n (drop m (co_encrypt ops ?seq F))"
      using that(3) len(2) by (intro take_drop_prefix) simp
    moreover have "co_decrypt (pe_ops e) ?seq (0 + m) (take n (drop m (co_encrypt ops ?seq F))) = take n (drop m F)"
      using ops(1) that len(1) unfolding cipher_contract_def by metis
    ultimately show ?thesis
      by (simp only: add_0)
  qed
  have rest: "take n (drop m (?w @ rest)) = take n (drop m ?w)" if "m + n \<le> ?L + 4" for m n
    using that len by (intro take_drop_prefix) simp
  have first: "take 4 (take ?bs F) = ?field"
    using keys(6) by (simp add: F_def frame_plain)
  show ?thesis
  proof (rule reads_packet_frame [where p = "read_params r" and clear = "drop ?bs F" and x = "take ?bs F" and field = ?field])
    show "ssh_packet_decrypt_len (pe_ops e) r (?w @ rest) = (of_nat ?L, take ?bs F)"
      using ops(1) keys dec [of 0 ?bs] rest [of 0 ?bs] bs first
      by (simp del: append_assoc take_append take_take add: ssh_packet_decrypt_len_def ssh_packet_decrypt_def
          cipher_contract_def wire_simps)
    have d: "ssh_packet_decrypt (pe_ops e) r (?w @ rest) ?bs (?L + 4 - ?bs) = (0, drop ?bs F)" if "drop ?bs F \<noteq> []"
    proof -
      have "?bs dvd ?L + 4 - ?bs"
        using al len(1) by (simp add: dvd_diff_nat)
      then show ?thesis
        using that ops(1) keys dec [of ?bs "?L + 4 - ?bs"] rest [of ?bs "?L + 4 - ?bs"] bs len(1)
        by (simp del: append_assoc take_append drop_append add: ssh_packet_decrypt_def cipher_contract_def)
    qed
    have "drop (?L + 4) (?w @ rest) = co_mac (pe_ops e) ?seq (take (length F) F) @ rest"
      using ops(1) len(2) by (simp add: cipher_contract_def)
    then have "ssh_packet_hmac_verify (pe_ops e) r F (length F) (drop (?L + 4) (?w @ rest)) (cr_in_hmac c) = 0"
      using ops(1) by (intro mac_accepted [OF keys(1)]) (simp_all only: cipher_contract_def)
    with d show "decrypts_to (pe_ops e) (read_params r) (?w @ rest) r ?L (take ?bs F) (drop ?bs F)"
      unfolding decrypts_to_def Let_def p append_take_drop_id by (simp add: keys)
    show "take ?bs F @ drop ?bs F = (if ip_etm (read_params r) then [] else ?field) @ of_nat (length padding) # payload @ padding"
      by (simp only: append_take_drop_id p in_params.simps keys if_False frame_plain(1) F_def)
  qed (use assms len bs digest_small in \<open>simp_all add: p\<close>)
qed

text \<open>The MAC over the encrypted packet, behind the length in the clear.\<close>

lemma reads_packet_etm:
  fixes payload padding :: bytes
  defines "C \<equiv> drop 4 (frame 4 payload padding)"
  defines "L \<equiv> length payload + length padding + 1"
  assumes keys: "ssh_packet_get_current_crypto r SSH_DIRECTION_IN = Some (k, c)" "cr_in_cipher c = Some ci"
      "\<not> cr_do_compress_in c" "cr_in_etm c" "8 \<le> ci_blocksize ci"
    and ops: "cipher_contract ops (pe_ops e) (ci_blocksize ci) 4" "ops_lengths ops (cr_in_hmac c)"
    and inv: "in_buffer_inv r" and heap: "\<forall>n. heap_grants (pe_heap e) n"
    and L: "L \<le> MAX_PACKET_LEN" "4 \<le> length padding" "length padding < 256"
    and al: "ci_blocksize ci dvd L"
  defines "out \<equiv> be_bytes (of_nat L :: u32) @ co_encrypt ops (s_recv_seq r) C"
  shows "reads_packet e r (out @ co_mac ops (s_recv_seq r) out) rest payload"
proof -
  let ?seq = "s_recv_seq r" and ?w = "out @ co_mac ops (s_recv_seq r) out"
  note p = read_params_keys [OF keys(1,2)]
  have len: "length C = L" "length out = L + 4" "length (co_mac ops ?seq out) = hmac_digest_len (cr_in_hmac c)"
    "length (co_encrypt ops ?seq C) = L"
    using ops(2) by (simp_all add: C_def L_def ops_lengths_def out_def)
  show ?thesis
  proof (rule reads_packet_frame [where p = "read_params r" and clear = C and x = "[]" and payload = payload
        and padding = padding and field = "be_bytes (of_nat L :: u32)", folded L_def])
    have "take 4 (?w @ rest) = be_bytes (of_nat L :: u32)"
      by (simp add: out_def)
    then show "bswap (load_bytes (take 4 (?w @ rest))) = (of_nat L :: u32)"
      by (simp add: wire_simps)
    have "take L (drop 4 (?w @ rest)) = take L (drop 0 (co_encrypt ops ?seq C))"
      using len(4) by (simp add: out_def)
    moreover have "co_decrypt (pe_ops e) ?seq (4 + 0) (take L (drop 0 (co_encrypt ops ?seq C))) = take L (drop 0 C)"
      using ops(1) al len(1) unfolding cipher_contract_def by (metis add_0 dvd_0_right order_refl)
    ultimately have "co_decrypt (pe_ops e) ?seq 4 (take L (drop 4 (?w @ rest))) = C"
      using len(1) by simp
    then have d: "ssh_packet_decrypt (pe_ops e) r (?w @ rest) 4 L = (0, C)"
      using ops(1) keys al L(2) by (simp del: append_assoc drop_append add: ssh_packet_decrypt_def cipher_contract_def L_def)
    have t: "take (L + 4) (?w @ rest) = out" "drop (L + 4) (?w @ rest) = co_mac ops ?seq out @ rest"
      using len(2) by simp_all
    have "drop (L + 4) (?w @ rest) = co_mac (pe_ops e) ?seq (take (L + 4) (?w @ rest)) @ rest"
      unfolding t using ops(1) by (simp add: cipher_contract_def)
    then have "ssh_packet_hmac_verify (pe_ops e) r (?w @ rest) (L + 4) (drop (L + 4) (?w @ rest)) (cr_in_hmac c) = 0"
      using ops(1) by (intro mac_accepted [OF keys(1)]) (simp_all only: cipher_contract_def)
    with d show "decrypts_to (pe_ops e) (read_params r) (?w @ rest) r L [] C"
      unfolding decrypts_to_def Let_def p by (simp add: keys)
    show "[] @ C = (if ip_etm (read_params r) then [] else be_bytes (of_nat L :: u32)) @ of_nat (length padding) # payload @ padding"
      by (simp add: p keys C_def frame_plain)
  qed (use assms len digest_small in \<open>simp_all add: p\<close>)
qed

text \<open>The authenticated cipher: the length field is decrypted on its own.\<close>

lemma reads_packet_aead:
  fixes payload padding :: bytes
  defines "F \<equiv> frame 0 payload padding"
  assumes keys: "ssh_packet_get_current_crypto r SSH_DIRECTION_IN = Some (k, c)" "cr_in_cipher c = Some ci"
      "\<not> cr_do_compress_in c" "\<not> cr_in_etm c" "ci_lenfield_blocksize ci = 4"
      "cr_in_hmac c = SSH_HMAC_AEAD_POLY1305 \<or> cr_in_hmac c = SSH_HMAC_AEAD_GCM"
    and ops: "aead_contract ops (pe_ops e)" "ops_lengths ops (cr_in_hmac c)"
    and enc: "co_aead_encrypt ops = Some enc" "enc (s_recv_seq r) F = (out, tag)"
    and inv: "in_buffer_inv r" and heap: "\<forall>n. heap_grants (pe_heap e) n"
    and L: "length payload + length padding + 1 \<le> MAX_PACKET_LEN" "4 \<le> length padding" "length padding < 256"
    and al: "ci_blocksize ci dvd length payload + length padding + 1"
  shows "reads_packet e r (out @ tag) rest payload"
proof -
  let ?seq = "s_recv_seq r" and ?L = "length payload + length padding + 1"
  let ?field = "be_bytes (of_nat ?L :: u32)"
  note p = read_params_keys [OF keys(1,2)]
  have "length (fst (enc ?seq F)) = length F \<and> length (snd (enc ?seq F)) = hmac_digest_len (cr_in_hmac c)"
    using ops(2) enc(1) unfolding ops_lengths_def by blast
  then have len: "length F = ?L + 4" "length out = ?L + 4" "length tag = hmac_digest_len (cr_in_hmac c)"
    using enc(2) by (simp_all add: F_def)
  obtain lenf dec where c: "co_aead_decrypt_length (pe_ops e) = Some lenf" "co_aead_decrypt (pe_ops e) = Some dec"
      "\<forall>x rest. case enc ?seq x of (out, tag) \<Rightarrow>
         lenf ?seq (take 4 out) = (0, take 4 x) \<and> dec ?seq (out @ tag @ rest) (length x - 4) = (0, drop 4 x)"
    using ops(1) enc(1) by (auto simp: aead_contract_def)
  have lf: "lenf ?seq (take 4 out) = (0, take 4 F)" and dc: "dec ?seq (out @ tag @ rest) ?L = (0, drop 4 F)"
    using c(3) [rule_format, of F rest] enc(2) len(1) by simp_all
  have first: "take 4 F = ?field" "drop 4 F = of_nat (length padding) # payload @ padding"
    by (simp_all add: F_def frame_plain)
  show ?thesis
  proof (rule reads_packet_frame [where p = "read_params r" and clear = "drop 4 F" and x = "take 4 F" and field = ?field])
    show "ssh_packet_decrypt_len (pe_ops e) r ((out @ tag) @ rest) = (of_nat ?L, take 4 F)"
      using keys c(1) lf len(2) by (simp add: ssh_packet_decrypt_len_def first wire_simps)
    have "ssh_packet_decrypt (pe_ops e) r ((out @ tag) @ rest) 4 ?L = (0, drop 4 F)"
      using keys al c(2) dc by (simp add: ssh_packet_decrypt_def)
    then show "decrypts_to (pe_ops e) (read_params r) ((out @ tag) @ rest) r ?L (take 4 F) (drop 4 F)"
      using keys(6) by (auto simp: decrypts_to_def p keys(1-5) ssh_packet_hmac_verify_def)
    show "take 4 F @ drop 4 F = (if ip_etm (read_params r) then [] else ?field) @ of_nat (length padding) # payload @ padding"
      by (simp add: p keys first)
  qed (use assms len digest_small in \<open>simp_all add: p\<close>)
qed

subsection \<open>The round trip\<close>

lemma newkeys_fields:
  "ssh_packet_set_newkeys h kx now s d = (rc, s') \<Longrightarrow> s_sent s' = s_sent s \<and> s_send_seq s' = s_send_seq s"
  by (auto simp: ssh_packet_set_newkeys_def newkeys_install_def Let_def split: if_splits option.splits prod.splits)

lemma sent_session_fields [simp]:
  "s_sent (sent_session s w n b) = s_sent s @ [w]" "s_send_seq (sent_session s w n b) = s_send_seq s + 1"
  by (auto simp: sent_session_def count_out_def put_crypto_def split: option.splits prod.splits which_crypto.splits)

lemma matching_keys_Some:
  assumes "matching_keys s r" and "ssh_packet_get_current_crypto s SSH_DIRECTION_OUT = Some (k0, c)"
  obtains k d ci di where "ssh_packet_get_current_crypto r SSH_DIRECTION_IN = Some (k, d)"
    and "cr_out_cipher c = Some ci" and "cr_in_cipher d = Some di"
    and "ci_blocksize ci = ci_blocksize di" "ci_lenfield_blocksize ci = ci_lenfield_blocksize di"
      "8 \<le> ci_blocksize di" "ci_blocksize di \<le> 128" "cr_out_hmac c = cr_in_hmac d" "cr_out_etm c = cr_in_etm d"
      "\<not> cr_do_compress_in d" "\<not> cr_do_compress_out c"
proof (cases "ssh_packet_get_current_crypto r SSH_DIRECTION_IN")
  case (Some kd)
  obtain k d where "kd = (k, d)"
    by (rule prod.exhaust)
  with assms Some that show ?thesis
    by (cases "cr_out_cipher c"; cases "cr_in_cipher d"; simp add: matching_keys_def)
qed (use assms in \<open>simp add: matching_keys_def\<close>)

text \<open>The modes of the sender, each with the bytes \<^verbatim>\<open>ssh_packet_encrypt\<close> makes of the frame.\<close>

lemma encrypt_modes:
  fixes payload padding :: bytes
  assumes keys: "matching_keys s r" and ops: "crypto_contract ops ops' s"
    and heap: "\<forall>n. heap_grants h n" and params: "out_params s = (bs, lf0, t, etm)"
    and seq: "s_recv_seq r = s_send_seq s"
    and pad: "length padding = padding_size bs (if etm then 0 else lf0) (if etm then 4 else 0) (length payload)"
    and small: "length payload < 2147483648"
    and enc: "ssh_packet_encrypt h ops s (frame (if etm then 4 else 0) payload padding) = (data, mac)"
  obtains
    (plain) "ssh_packet_get_current_crypto r SSH_DIRECTION_IN = None"
      "data @ mac_bytes mac = frame 0 payload padding" "8 \<le> 5 + length payload + length padding"
  | (mac) k c ci where "ssh_packet_get_current_crypto r SSH_DIRECTION_IN = Some (k, c)" "cr_in_cipher c = Some ci"
      "\<not> cr_do_compress_in c" "\<not> cr_in_etm c" "ci_lenfield_blocksize ci = 0" "8 \<le> ci_blocksize ci" "ci_blocksize ci \<le> 128"
      "cipher_contract ops ops' (ci_blocksize ci) 0" "ops_lengths ops (cr_in_hmac c)"
      "ci_blocksize ci dvd length (frame 0 payload padding)"
      "data @ mac_bytes mac = co_encrypt ops (s_recv_seq r) (frame 0 payload padding) @
         co_mac ops (s_recv_seq r) (frame 0 payload padding)"
  | (etm) k c ci out where "ssh_packet_get_current_crypto r SSH_DIRECTION_IN = Some (k, c)" "cr_in_cipher c = Some ci"
      "\<not> cr_do_compress_in c" "cr_in_etm c" "8 \<le> ci_blocksize ci"
      "cipher_contract ops ops' (ci_blocksize ci) 4" "ops_lengths ops (cr_in_hmac c)"
      "ci_blocksize ci dvd length payload + length padding + 1"
      "out = be_bytes (of_nat (length payload + length padding + 1) :: u32) @
         co_encrypt ops (s_recv_seq r) (drop 4 (frame 4 payload padding))"
      "data @ mac_bytes mac = out @ co_mac ops (s_recv_seq r) out"
  | (aead) k c ci enc out tag where "ssh_packet_get_current_crypto r SSH_DIRECTION_IN = Some (k, c)" "cr_in_cipher c = Some ci"
      "\<not> cr_do_compress_in c" "\<not> cr_in_etm c" "ci_lenfield_blocksize ci = 4"
      "cr_in_hmac c = SSH_HMAC_AEAD_POLY1305 \<or> cr_in_hmac c = SSH_HMAC_AEAD_GCM"
      "aead_contract ops ops'" "ops_lengths ops (cr_in_hmac c)"
      "co_aead_encrypt ops = Some enc" "enc (s_recv_seq r) (frame 0 payload padding) = (out, tag)"
      "ci_blocksize ci dvd length payload + length padding + 1"
      "data @ mac_bytes mac = out @ tag"
proof (cases "ssh_packet_get_current_crypto s SSH_DIRECTION_OUT")
  case None
  with keys have "ssh_packet_get_current_crypto r SSH_DIRECTION_IN = None"
    by (auto simp: matching_keys_def split: option.splits)
  moreover have "bs = 8" "lf0 = 0" "\<not> etm"
    using params None by (auto simp: out_params_def)
  ultimately show ?thesis
    using enc None pad padding_size_bounds(1) [of 8 0 0 "length payload"] small
    by (intro plain) (auto simp: ssh_packet_encrypt_def mac_bytes_def)
next
  case (Some kc)
  obtain k0 c where kc: "kc = (k0, c)"
    by (rule prod.exhaust)
  obtain k d ci di where r: "ssh_packet_get_current_crypto r SSH_DIRECTION_IN = Some (k, d)"
    and ci: "cr_out_cipher c = Some ci" and di: "cr_in_cipher d = Some di"
    and eq: "ci_blocksize ci = ci_blocksize di" "ci_lenfield_blocksize ci = ci_lenfield_blocksize di"
      "8 \<le> ci_blocksize di" "ci_blocksize di \<le> 128" "cr_out_hmac c = cr_in_hmac d" "cr_out_etm c = cr_in_etm d"
      "\<not> cr_do_compress_in d"
    by (rule matching_keys_Some [OF keys Some [unfolded kc]])
  have p: "bs = ci_blocksize di" "lf0 = ci_lenfield_blocksize di" "t = cr_in_hmac d" "etm = cr_in_etm d"
    using params Some kc ci eq by (auto simp: out_params_def)
  let ?lf = "if etm then 0 else lf0" and ?off = "if etm then 4 else 0" and ?n = "length payload + length padding + 5"
  have lens: "ops_lengths ops t"
    and modes: "lf0 = 0 \<and> cipher_contract ops ops' bs ?off \<or>
      lf0 = 4 \<and> \<not> etm \<and> (t = SSH_HMAC_AEAD_POLY1305 \<or> t = SSH_HMAC_AEAD_GCM) \<and> aead_contract ops ops'"
    using ops params Some by (auto simp: crypto_contract_def)
  have lo: "lf0 + ?off \<le> 8" "?lf + ?off \<le> bs + 5" "?lf + ?off = lf0 + ?off"
    using modes by auto
  have b: "4 \<le> length padding" "bs dvd bs + length payload + 5 - ?lf - ?off + length padding"
    using padding_size_bounds [of bs ?lf ?off "length payload"] eq(3,4) p(1) small lo(2) pad by simp_all
  have "bs + length payload + 5 - ?lf - ?off + length padding = bs + (?n - lf0 - ?off)"
    using lo b(1) by linarith
  with b(2) have dvd: "bs dvd ?n - lf0 - ?off"
    by (metis dvd_add_triv_left_iff)
  have "length padding < 132"
    using padding_size_bounds(2) [of bs ?lf ?off "length payload"] eq(3,4) p(1) small lo(2) pad by simp
  then have "?n - lf0 - ?off < 4294967296"
    using small by linarith
  moreover have "?n + 4294967296 - lf0 - ?off = (?n - lf0 - ?off) + 4294967296"
    using lo(1) b(1) by linarith
  ultimately have "wrap32 (?n + 4294967296 - lf0 - ?off) = ?n - lf0 - ?off"
    unfolding wrap32_def by (metis mod_add_self2 mod_less)
  moreover have "length (frame ?off payload padding) = ?n"
    by simp
  ultimately have al: "wrap32 (length (frame ?off payload padding) + 4294967296 - ci_lenfield_blocksize ci - ?off) mod ci_blocksize ci = 0"
    using dvd unfolding eq(1,2) p(1,2) by (metis dvd_imp_mod_0)
  show ?thesis
  proof (cases "lf0 = 0 \<and> cipher_contract ops ops' bs ?off")
    case True
    then have c: "co_aead_encrypt ops = None" "co_hmac_init ops"
      by (auto simp: cipher_contract_def)
    show ?thesis
    proof (cases etm)
      case False
      with enc Some kc ci al heap c eq(6) p(4) have "data = co_encrypt ops (s_send_seq s) (frame 0 payload padding)"
        "mac = Some (co_mac ops (s_send_seq s) (frame 0 payload padding))"
        by (auto simp: ssh_packet_encrypt_def Let_def)
      with False True dvd show ?thesis
        using p eq lens seq by (intro mac [OF r di]) (simp_all add: mac_bytes_def add.commute add.left_commute)
    next
      case etm: True
      let ?out = "be_bytes (of_nat (length payload + length padding + 1) :: u32) @
         co_encrypt ops (s_recv_seq r) (drop 4 (frame 4 payload padding))"
      have "mem_write (take 4 (frame 4 payload padding) @ x) 0 (be_bytes (v :: u32)) = be_bytes v @ x" for x v
        by (simp add: mem_write_def)
      with enc Some kc ci al heap c eq(6) p(4) etm seq have "data = ?out" "mac = Some (co_mac ops (s_recv_seq r) ?out)"
        by (auto simp: ssh_packet_encrypt_def Let_def)
      with etm True dvd show ?thesis
        using p eq lens by (intro that(3) [OF r di, of ?out]) (simp_all add: mac_bytes_def)
    qed
  next
    case False
    with modes have m: "lf0 = 4" "\<not> etm" "t = SSH_HMAC_AEAD_POLY1305 \<or> t = SSH_HMAC_AEAD_GCM" "aead_contract ops ops'"
      by auto
    obtain f where f: "co_aead_encrypt ops = Some f"
      using m(4) by (auto simp: aead_contract_def)
    obtain out tag where ot: "f (s_recv_seq r) (frame 0 payload padding) = (out, tag)"
      by (rule prod.exhaust)
    with enc Some kc ci al heap f eq(6) p(4) m(2) seq have "data @ mac_bytes mac = out @ tag"
      by (auto simp: ssh_packet_encrypt_def Let_def mac_bytes_def)
    with m dvd show ?thesis
      using p eq lens by (intro aead [OF r di _ _ _ _ _ _ f ot]) simp_all
  qed
qed

lemma out_params_bounds:
  assumes keys: "matching_keys s r" and ops: "crypto_contract ops ops' s" and params: "out_params s = (bs, lf0, t, etm)"
  shows "\<not> compresses s" and "8 \<le> bs" and "bs \<le> 128" and "lf0 \<le> 8"
proof -
  have "\<not> compresses s \<and> 8 \<le> bs \<and> bs \<le> 128 \<and> lf0 \<le> 8"
  proof (cases "ssh_packet_get_current_crypto s SSH_DIRECTION_OUT")
    case None
    then show ?thesis
      using params by (auto simp: compresses_def out_params_def)
  next
    case (Some kc)
    obtain k0 c where kc: "kc = (k0, c)"
      by (rule prod.exhaust)
    note s = Some [unfolded kc]
    show ?thesis
      by (rule matching_keys_Some [OF keys s])
        (use params ops s in \<open>auto simp: compresses_def out_params_def crypto_contract_def\<close>)
  qed
  then show "\<not> compresses s" and "8 \<le> bs" and "bs \<le> 128" and "lf0 \<le> 8"
    by simp_all
qed


text \<open>A session with keys in both directions, the MAC over the encrypted packet, and a message to send.\<close>

definition keyed_session :: ssh_session where
  "keyed_session = sample_session\<lparr>
     s_out_buffer := holding [94, 1, 2],
     s_current_crypto := Some (sample_crypto\<lparr>cr_used := SSH_DIRECTION_BOTH, cr_in_cipher := Some sample_cipher,
       cr_out_cipher := Some sample_cipher, cr_in_etm := True, cr_out_etm := True\<rparr>)\<rparr>"

lemma sample_ops_contract: "cipher_contract sample_ops sample_ops bs off"
proof -
  have "(\<lambda>b. b XOR 90) \<circ> (\<lambda>b. b XOR 90) = (id :: u8 \<Rightarrow> u8)"
    by (simp add: fun_eq_iff xor.assoc)
  then show ?thesis
    by (simp add: cipher_contract_def sample_ops_def take_map drop_map)
qed


end
