(* ===== verification/Key_Exchange.thy ===== *)
theory Key_Exchange
  imports Packet_Send
begin

text \<open>
  The client's side of the key exchange methods: Diffie-Hellman with a fixed group
  (\<^verbatim>\<open>src/libssh/src/dh.c\<close>, \<^verbatim>\<open>dh_crypto.c\<close>), with a group of the server (\<^verbatim>\<open>dh-gex.c\<close>), over the NIST curves
  (\<^verbatim>\<open>ecdh.c\<close>, \<^verbatim>\<open>ecdh_crypto.c\<close>) and over curve25519 (\<^verbatim>\<open>curve25519.c\<close>). The arithmetic is the crypto
  library's and a parameter, as is the import of the server's host key.
\<close>

subsection \<open>What the crypto library does\<close>

datatype ec_curve = NISTP256 | NISTP384 | NISTP521

text \<open>
  \<open>eo_x25519_keygen\<close> and \<open>eo_ec_generate\<close> give a public and a private key, \<open>eo_dh_generate\<close> those for
  a modulus and a generator; the \<open>derive\<close> and \<open>compute\<close> functions take the own private key and
  the peer's public one. \<^const>\<open>None\<close> is a failure.
\<close>

record exchange_ops =
  eo_x25519_keygen :: "(bytes \<times> bytes) option"
  eo_x25519_derive :: "bytes \<Rightarrow> bytes \<Rightarrow> bytes option"
  eo_ec_generate :: "ec_curve \<Rightarrow> (bytes \<times> bytes) option"
  eo_ec_compute :: "bytes \<Rightarrow> bytes \<Rightarrow> bytes option"
  eo_dh_new :: bool
  eo_dh_generate :: "nat \<Rightarrow> nat \<Rightarrow> (nat \<times> nat) option"
  eo_dh_compute :: "nat \<Rightarrow> nat \<Rightarrow> nat \<Rightarrow> bytes option"
  eo_import_pubkey :: "ssh_string \<Rightarrow> bytes option"
  eo_import_signature :: "ssh_string option \<Rightarrow> bytes \<Rightarrow> (bytes \<times> bytes) option"
  eo_signature_verify :: "bytes \<times> bytes \<Rightarrow> bytes \<Rightarrow> bytes \<Rightarrow> int"

definition bignum_bin2bn :: "bytes \<Rightarrow> nat" where
  "bignum_bin2bn bs = le_dec (rev bs)"

subsection \<open>The groups\<close>

definition p_group1_value :: bytes where
  "p_group1_value = [
     0xFF, 0xFF, 0xFF, 0xFF, 0xFF, 0xFF, 0xFF, 0xFF, 0xC9, 0x0F, 0xDA, 0xA2, 0x21, 0x68, 0xC2, 0x34,
     0xC4, 0xC6, 0x62, 0x8B, 0x80, 0xDC, 0x1C, 0xD1, 0x29, 0x02, 0x4E, 0x08, 0x8A, 0x67, 0xCC, 0x74,
     0x02, 0x0B, 0xBE, 0xA6, 0x3B, 0x13, 0x9B, 0x22, 0x51, 0x4A, 0x08, 0x79, 0x8E, 0x34, 0x04, 0xDD,
     0xEF, 0x95, 0x19, 0xB3, 0xCD, 0x3A, 0x43, 0x1B, 0x30, 0x2B, 0x0A, 0x6D, 0xF2, 0x5F, 0x14, 0x37,
     0x4F, 0xE1, 0x35, 0x6D, 0x6D, 0x51, 0xC2, 0x45, 0xE4, 0x85, 0xB5, 0x76, 0x62, 0x5E, 0x7E, 0xC6,
     0xF4, 0x4C, 0x42, 0xE9, 0xA6, 0x37, 0xED, 0x6B, 0x0B, 0xFF, 0x5C, 0xB6, 0xF4, 0x06, 0xB7, 0xED,
     0xEE, 0x38, 0x6B, 0xFB, 0x5A, 0x89, 0x9F, 0xA5, 0xAE, 0x9F, 0x24, 0x11, 0x7C, 0x4B, 0x1F, 0xE6,
     0x49, 0x28, 0x66, 0x51, 0xEC, 0xE6, 0x53, 0x81, 0xFF, 0xFF, 0xFF, 0xFF, 0xFF, 0xFF, 0xFF, 0xFF]"

definition p_group14_value :: bytes where
  "p_group14_value = [
     0xFF, 0xFF, 0xFF, 0xFF, 0xFF, 0xFF, 0xFF, 0xFF, 0xC9, 0x0F, 0xDA, 0xA2, 0x21, 0x68, 0xC2, 0x34,
     0xC4, 0xC6, 0x62, 0x8B, 0x80, 0xDC, 0x1C, 0xD1, 0x29, 0x02, 0x4E, 0x08, 0x8A, 0x67, 0xCC, 0x74,
     0x02, 0x0B, 0xBE, 0xA6, 0x3B, 0x13, 0x9B, 0x22, 0x51, 0x4A, 0x08, 0x79, 0x8E, 0x34, 0x04, 0xDD,
     0xEF, 0x95, 0x19, 0xB3, 0xCD, 0x3A, 0x43, 0x1B, 0x30, 0x2B, 0x0A, 0x6D, 0xF2, 0x5F, 0x14, 0x37,
     0x4F, 0xE1, 0x35, 0x6D, 0x6D, 0x51, 0xC2, 0x45, 0xE4, 0x85, 0xB5, 0x76, 0x62, 0x5E, 0x7E, 0xC6,
     0xF4, 0x4C, 0x42, 0xE9, 0xA6, 0x37, 0xED, 0x6B, 0x0B, 0xFF, 0x5C, 0xB6, 0xF4, 0x06, 0xB7, 0xED,
     0xEE, 0x38, 0x6B, 0xFB, 0x5A, 0x89, 0x9F, 0xA5, 0xAE, 0x9F, 0x24, 0x11, 0x7C, 0x4B, 0x1F, 0xE6,
     0x49, 0x28, 0x66, 0x51, 0xEC, 0xE4, 0x5B, 0x3D, 0xC2, 0x00, 0x7C, 0xB8, 0xA1, 0x63, 0xBF, 0x05,
     0x98, 0xDA, 0x48, 0x36, 0x1C, 0x55, 0xD3, 0x9A, 0x69, 0x16, 0x3F, 0xA8, 0xFD, 0x24, 0xCF, 0x5F,
     0x83, 0x65, 0x5D, 0x23, 0xDC, 0xA3, 0xAD, 0x96, 0x1C, 0x62, 0xF3, 0x56, 0x20, 0x85, 0x52, 0xBB,
     0x9E, 0xD5, 0x29, 0x07, 0x70, 0x96, 0x96, 0x6D, 0x67, 0x0C, 0x35, 0x4E, 0x4A, 0xBC, 0x98, 0x04,
     0xF1, 0x74, 0x6C, 0x08, 0xCA, 0x18, 0x21, 0x7C, 0x32, 0x90, 0x5E, 0x46, 0x2E, 0x36, 0xCE, 0x3B,
     0xE3, 0x9E, 0x77, 0x2C, 0x18, 0x0E, 0x86, 0x03, 0x9B, 0x27, 0x83, 0xA2, 0xEC, 0x07, 0xA2, 0x8F,
     0xB5, 0xC5, 0x5D, 0xF0, 0x6F, 0x4C, 0x52, 0xC9, 0xDE, 0x2B, 0xCB, 0xF6, 0x95, 0x58, 0x17, 0x18,
     0x39, 0x95, 0x49, 0x7C, 0xEA, 0x95, 0x6A, 0xE5, 0x15, 0xD2, 0x26, 0x18, 0x98, 0xFA, 0x05, 0x10,
     0x15, 0x72, 0x8E, 0x5A, 0x8A, 0xAC, 0xAA, 0x68, 0xFF, 0xFF, 0xFF, 0xFF, 0xFF, 0xFF, 0xFF, 0xFF]"

definition p_group16_value :: bytes where
  "p_group16_value = [
     0xFF, 0xFF, 0xFF, 0xFF, 0xFF, 0xFF, 0xFF, 0xFF, 0xC9, 0x0F, 0xDA, 0xA2, 0x21, 0x68, 0xC2, 0x34,
     0xC4, 0xC6, 0x62, 0x8B, 0x80, 0xDC, 0x1C, 0xD1, 0x29, 0x02, 0x4E, 0x08, 0x8A, 0x67, 0xCC, 0x74,
     0x02, 0x0B, 0xBE, 0xA6, 0x3B, 0x13, 0x9B, 0x22, 0x51, 0x4A, 0x08, 0x79, 0x8E, 0x34, 0x04, 0xDD,
     0xEF, 0x95, 0x19, 0xB3, 0xCD, 0x3A, 0x43, 0x1B, 0x30, 0x2B, 0x0A, 0x6D, 0xF2, 0x5F, 0x14, 0x37,
     0x4F, 0xE1, 0x35, 0x6D, 0x6D, 0x51, 0xC2, 0x45, 0xE4, 0x85, 0xB5, 0x76, 0x62, 0x5E, 0x7E, 0xC6,
     0xF4, 0x4C, 0x42, 0xE9, 0xA6, 0x37, 0xED, 0x6B, 0x0B, 0xFF, 0x5C, 0xB6, 0xF4, 0x06, 0xB7, 0xED,
     0xEE, 0x38, 0x6B, 0xFB, 0x5A, 0x89, 0x9F, 0xA5, 0xAE, 0x9F, 0x24, 0x11, 0x7C, 0x4B, 0x1F, 0xE6,
     0x49, 0x28, 0x66, 0x51, 0xEC, 0xE4, 0x5B, 0x3D, 0xC2, 0x00, 0x7C, 0xB8, 0xA1, 0x63, 0xBF, 0x05,
     0x98, 0xDA, 0x48, 0x36, 0x1C, 0x55, 0xD3, 0x9A, 0x69, 0x16, 0x3F, 0xA8, 0xFD, 0x24, 0xCF, 0x5F,
     0x83, 0x65, 0x5D, 0x23, 0xDC, 0xA3, 0xAD, 0x96, 0x1C, 0x62, 0xF3, 0x56, 0x20, 0x85, 0x52, 0xBB,
     0x9E, 0xD5, 0x29, 0x07, 0x70, 0x96, 0x96, 0x6D, 0x67, 0x0C, 0x35, 0x4E, 0x4A, 0xBC, 0x98, 0x04,
     0xF1, 0x74, 0x6C, 0x08, 0xCA, 0x18, 0x21, 0x7C, 0x32, 0x90, 0x5E, 0x46, 0x2E, 0x36, 0xCE, 0x3B,
     0xE3, 0x9E, 0x77, 0x2C, 0x18, 0x0E, 0x86, 0x03, 0x9B, 0x27, 0x83, 0xA2, 0xEC, 0x07, 0xA2, 0x8F,
     0xB5, 0xC5, 0x5D, 0xF0, 0x6F, 0x4C, 0x52, 0xC9, 0xDE, 0x2B, 0xCB, 0xF6, 0x95, 0x58, 0x17, 0x18,
     0x39, 0x95, 0x49, 0x7C, 0xEA, 0x95, 0x6A, 0xE5, 0x15, 0xD2, 0x26, 0x18, 0x98, 0xFA, 0x05, 0x10,
     0x15, 0x72, 0x8E, 0x5A, 0x8A, 0xAA, 0xC4, 0x2D, 0xAD, 0x33, 0x17, 0x0D, 0x04, 0x50, 0x7A, 0x33,
     0xA8, 0x55, 0x21, 0xAB, 0xDF, 0x1C, 0xBA, 0x64, 0xEC, 0xFB, 0x85, 0x04, 0x58, 0xDB, 0xEF, 0x0A,
     0x8A, 0xEA, 0x71, 0x57, 0x5D, 0x06, 0x0C, 0x7D, 0xB3, 0x97, 0x0F, 0x85, 0xA6, 0xE1, 0xE4, 0xC7,
     0xAB, 0xF5, 0xAE, 0x8C, 0xDB, 0x09, 0x33, 0xD7, 0x1E, 0x8C, 0x94, 0xE0, 0x4A, 0x25, 0x61, 0x9D,
     0xCE, 0xE3, 0xD2, 0x26, 0x1A, 0xD2, 0xEE, 0x6B, 0xF1, 0x2F, 0xFA, 0x06, 0xD9, 0x8A, 0x08, 0x64,
     0xD8, 0x76, 0x02, 0x73, 0x3E, 0xC8, 0x6A, 0x64, 0x52, 0x1F, 0x2B, 0x18, 0x17, 0x7B, 0x20, 0x0C,
     0xBB, 0xE1, 0x17, 0x57, 0x7A, 0x61, 0x5D, 0x6C, 0x77, 0x09, 0x88, 0xC0, 0xBA, 0xD9, 0x46, 0xE2,
     0x08, 0xE2, 0x4F, 0xA0, 0x74, 0xE5, 0xAB, 0x31, 0x43, 0xDB, 0x5B, 0xFC, 0xE0, 0xFD, 0x10, 0x8E,
     0x4B, 0x82, 0xD1, 0x20, 0xA9, 0x21, 0x08, 0x01, 0x1A, 0x72, 0x3C, 0x12, 0xA7, 0x87, 0xE6, 0xD7,
     0x88, 0x71, 0x9A, 0x10, 0xBD, 0xBA, 0x5B, 0x26, 0x99, 0xC3, 0x27, 0x18, 0x6A, 0xF4, 0xE2, 0x3C,
     0x1A, 0x94, 0x68, 0x34, 0xB6, 0x15, 0x0B, 0xDA, 0x25, 0x83, 0xE9, 0xCA, 0x2A, 0xD4, 0x4C, 0xE8,
     0xDB, 0xBB, 0xC2, 0xDB, 0x04, 0xDE, 0x8E, 0xF9, 0x2E, 0x8E, 0xFC, 0x14, 0x1F, 0xBE, 0xCA, 0xA6,
     0x28, 0x7C, 0x59, 0x47, 0x4E, 0x6B, 0xC0, 0x5D, 0x99, 0xB2, 0x96, 0x4F, 0xA0, 0x90, 0xC3, 0xA2,
     0x23, 0x3B, 0xA1, 0x86, 0x51, 0x5B, 0xE7, 0xED, 0x1F, 0x61, 0x29, 0x70, 0xCE, 0xE2, 0xD7, 0xAF,
     0xB8, 0x1B, 0xDD, 0x76, 0x21, 0x70, 0x48, 0x1C, 0xD0, 0x06, 0x91, 0x27, 0xD5, 0xB0, 0x5A, 0xA9,
     0x93, 0xB4, 0xEA, 0x98, 0x8D, 0x8F, 0xDD, 0xC1, 0x86, 0xFF, 0xB7, 0xDC, 0x90, 0xA6, 0xC0, 0x8F,
     0x4D, 0xF4, 0x35, 0xC9, 0x34, 0x06, 0x31, 0x99, 0xFF, 0xFF, 0xFF, 0xFF, 0xFF, 0xFF, 0xFF, 0xFF]"

definition p_group18_value :: bytes where
  "p_group18_value = [
     0xFF, 0xFF, 0xFF, 0xFF, 0xFF, 0xFF, 0xFF, 0xFF, 0xC9, 0x0F, 0xDA, 0xA2, 0x21, 0x68, 0xC2, 0x34,
     0xC4, 0xC6, 0x62, 0x8B, 0x80, 0xDC, 0x1C, 0xD1, 0x29, 0x02, 0x4E, 0x08, 0x8A, 0x67, 0xCC, 0x74,
     0x02, 0x0B, 0xBE, 0xA6, 0x3B, 0x13, 0x9B, 0x22, 0x51, 0x4A, 0x08, 0x79, 0x8E, 0x34, 0x04, 0xDD,
     0xEF, 0x95, 0x19, 0xB3, 0xCD, 0x3A, 0x43, 0x1B, 0x30, 0x2B, 0x0A, 0x6D, 0xF2, 0x5F, 0x14, 0x37,
     0x4F, 0xE1, 0x35, 0x6D, 0x6D, 0x51, 0xC2, 0x45, 0xE4, 0x85, 0xB5, 0x76, 0x62, 0x5E, 0x7E, 0xC6,
     0xF4, 0x4C, 0x42, 0xE9, 0xA6, 0x37, 0xED, 0x6B, 0x0B, 0xFF, 0x5C, 0xB6, 0xF4, 0x06, 0xB7, 0xED,
     0xEE, 0x38, 0x6B, 0xFB, 0x5A, 0x89, 0x9F, 0xA5, 0xAE, 0x9F, 0x24, 0x11, 0x7C, 0x4B, 0x1F, 0xE6,
     0x49, 0x28, 0x66, 0x51, 0xEC, 0xE4, 0x5B, 0x3D, 0xC2, 0x00, 0x7C, 0xB8, 0xA1, 0x63, 0xBF, 0x05,
     0x98, 0xDA, 0x48, 0x36, 0x1C, 0x55, 0xD3, 0x9A, 0x69, 0x16, 0x3F, 0xA8, 0xFD, 0x24, 0xCF, 0x5F,
     0x83, 0x65, 0x5D, 0x23, 0xDC, 0xA3, 0xAD, 0x96, 0x1C, 0x62, 0xF3, 0x56, 0x20, 0x85, 0x52, 0xBB,
     0x9E, 0xD5, 0x29, 0x07, 0x70, 0x96, 0x96, 0x6D, 0x67, 0x0C, 0x35, 0x4E, 0x4A, 0xBC, 0x98, 0x04,
     0xF1, 0x74, 0x6C, 0x08, 0xCA, 0x18, 0x21, 0x7C, 0x32, 0x90, 0x5E, 0x46, 0x2E, 0x36, 0xCE, 0x3B,
     0xE3, 0x9E, 0x77, 0x2C, 0x18, 0x0E, 0x86, 0x03, 0x9B, 0x27, 0x83, 0xA2, 0xEC, 0x07, 0xA2, 0x8F,
     0xB5, 0xC5, 0x5D, 0xF0, 0x6F, 0x4C, 0x52, 0xC9, 0xDE, 0x2B, 0xCB, 0xF6, 0x95, 0x58, 0x17, 0x18,
     0x39, 0x95, 0x49, 0x7C, 0xEA, 0x95, 0x6A, 0xE5, 0x15, 0xD2, 0x26, 0x18, 0x98, 0xFA, 0x05, 0x10,
     0x15, 0x72, 0x8E, 0x5A, 0x8A, 0xAA, 0xC4, 0x2D, 0xAD, 0x33, 0x17, 0x0D, 0x04, 0x50, 0x7A, 0x33,
     0xA8, 0x55, 0x21, 0xAB, 0xDF, 0x1C, 0xBA, 0x64, 0xEC, 0xFB, 0x85, 0x04, 0x58, 0xDB, 0xEF, 0x0A,
     0x8A, 0xEA, 0x71, 0x57, 0x5D, 0x06, 0x0C, 0x7D, 0xB3, 0x97, 0x0F, 0x85, 0xA6, 0xE1, 0xE4, 0xC7,
     0xAB, 0xF5, 0xAE, 0x8C, 0xDB, 0x09, 0x33, 0xD7, 0x1E, 0x8C, 0x94, 0xE0, 0x4A, 0x25, 0x61, 0x9D,
     0xCE, 0xE3, 0xD2, 0x26, 0x1A, 0xD2, 0xEE, 0x6B, 0xF1, 0x2F, 0xFA, 0x06, 0xD9, 0x8A, 0x08, 0x64,
     0xD8, 0x76, 0x02, 0x73, 0x3E, 0xC8, 0x6A, 0x64, 0x52, 0x1F, 0x2B, 0x18, 0x17, 0x7B, 0x20, 0x0C,
     0xBB, 0xE1, 0x17, 0x57, 0x7A, 0x61, 0x5D, 0x6C, 0x77, 0x09, 0x88, 0xC0, 0xBA, 0xD9, 0x46, 0xE2,
     0x08, 0xE2, 0x4F, 0xA0, 0x74, 0xE5, 0xAB, 0x31, 0x43, 0xDB, 0x5B, 0xFC, 0xE0, 0xFD, 0x10, 0x8E,
     0x4B, 0x82, 0xD1, 0x20, 0xA9, 0x21, 0x08, 0x01, 0x1A, 0x72, 0x3C, 0x12, 0xA7, 0x87, 0xE6, 0xD7,
     0x88, 0x71, 0x9A, 0x10, 0xBD, 0xBA, 0x5B, 0x26, 0x99, 0xC3, 0x27, 0x18, 0x6A, 0xF4, 0xE2, 0x3C,
     0x1A, 0x94, 0x68, 0x34, 0xB6, 0x15, 0x0B, 0xDA, 0x25, 0x83, 0xE9, 0xCA, 0x2A, 0xD4, 0x4C, 0xE8,
     0xDB, 0xBB, 0xC2, 0xDB, 0x04, 0xDE, 0x8E, 0xF9, 0x2E, 0x8E, 0xFC, 0x14, 0x1F, 0xBE, 0xCA, 0xA6,
     0x28, 0x7C, 0x59, 0x47, 0x4E, 0x6B, 0xC0, 0x5D, 0x99, 0xB2, 0x96, 0x4F, 0xA0, 0x90, 0xC3, 0xA2,
     0x23, 0x3B, 0xA1, 0x86, 0x51, 0x5B, 0xE7, 0xED, 0x1F, 0x61, 0x29, 0x70, 0xCE, 0xE2, 0xD7, 0xAF,
     0xB8, 0x1B, 0xDD, 0x76, 0x21, 0x70, 0x48, 0x1C, 0xD0, 0x06, 0x91, 0x27, 0xD5, 0xB0, 0x5A, 0xA9,
     0x93, 0xB4, 0xEA, 0x98, 0x8D, 0x8F, 0xDD, 0xC1, 0x86, 0xFF, 0xB7, 0xDC, 0x90, 0xA6, 0xC0, 0x8F,
     0x4D, 0xF4, 0x35, 0xC9, 0x34, 0x02, 0x84, 0x92, 0x36, 0xC3, 0xFA, 0xB4, 0xD2, 0x7C, 0x70, 0x26,
     0xC1, 0xD4, 0xDC, 0xB2, 0x60, 0x26, 0x46, 0xDE, 0xC9, 0x75, 0x1E, 0x76, 0x3D, 0xBA, 0x37, 0xBD,
     0xF8, 0xFF, 0x94, 0x06, 0xAD, 0x9E, 0x53, 0x0E, 0xE5, 0xDB, 0x38, 0x2F, 0x41, 0x30, 0x01, 0xAE,
     0xB0, 0x6A, 0x53, 0xED, 0x90, 0x27, 0xD8, 0x31, 0x17, 0x97, 0x27, 0xB0, 0x86, 0x5A, 0x89, 0x18,
     0xDA, 0x3E, 0xDB, 0xEB, 0xCF, 0x9B, 0x14, 0xED, 0x44, 0xCE, 0x6C, 0xBA, 0xCE, 0xD4, 0xBB, 0x1B,
     0xDB, 0x7F, 0x14, 0x47, 0xE6, 0xCC, 0x25, 0x4B, 0x33, 0x20, 0x51, 0x51, 0x2B, 0xD7, 0xAF, 0x42,
     0x6F, 0xB8, 0xF4, 0x01, 0x37, 0x8C, 0xD2, 0xBF, 0x59, 0x83, 0xCA, 0x01, 0xC6, 0x4B, 0x92, 0xEC,
     0xF0, 0x32, 0xEA, 0x15, 0xD1, 0x72, 0x1D, 0x03, 0xF4, 0x82, 0xD7, 0xCE, 0x6E, 0x74, 0xFE, 0xF6,
     0xD5, 0x5E, 0x70, 0x2F, 0x46, 0x98, 0x0C, 0x82, 0xB5, 0xA8, 0x40, 0x31, 0x90, 0x0B, 0x1C, 0x9E,
     0x59, 0xE7, 0xC9, 0x7F, 0xBE, 0xC7, 0xE8, 0xF3, 0x23, 0xA9, 0x7A, 0x7E, 0x36, 0xCC, 0x88, 0xBE,
     0x0F, 0x1D, 0x45, 0xB7, 0xFF, 0x58, 0x5A, 0xC5, 0x4B, 0xD4, 0x07, 0xB2, 0x2B, 0x41, 0x54, 0xAA,
     0xCC, 0x8F, 0x6D, 0x7E, 0xBF, 0x48, 0xE1, 0xD8, 0x14, 0xCC, 0x5E, 0xD2, 0x0F, 0x80, 0x37, 0xE0,
     0xA7, 0x97, 0x15, 0xEE, 0xF2, 0x9B, 0xE3, 0x28, 0x06, 0xA1, 0xD5, 0x8B, 0xB7, 0xC5, 0xDA, 0x76,
     0xF5, 0x50, 0xAA, 0x3D, 0x8A, 0x1F, 0xBF, 0xF0, 0xEB, 0x19, 0xCC, 0xB1, 0xA3, 0x13, 0xD5, 0x5C,
     0xDA, 0x56, 0xC9, 0xEC, 0x2E, 0xF2, 0x96, 0x32, 0x38, 0x7F, 0xE8, 0xD7, 0x6E, 0x3C, 0x04, 0x68,
     0x04, 0x3E, 0x8F, 0x66, 0x3F, 0x48, 0x60, 0xEE, 0x12, 0xBF, 0x2D, 0x5B, 0x0B, 0x74, 0x74, 0xD6,
     0xE6, 0x94, 0xF9, 0x1E, 0x6D, 0xBE, 0x11, 0x59, 0x74, 0xA3, 0x92, 0x6F, 0x12, 0xFE, 0xE5, 0xE4,
     0x38, 0x77, 0x7C, 0xB6, 0xA9, 0x32, 0xDF, 0x8C, 0xD8, 0xBE, 0xC4, 0xD0, 0x73, 0xB9, 0x31, 0xBA,
     0x3B, 0xC8, 0x32, 0xB6, 0x8D, 0x9D, 0xD3, 0x00, 0x74, 0x1F, 0xA7, 0xBF, 0x8A, 0xFC, 0x47, 0xED,
     0x25, 0x76, 0xF6, 0x93, 0x6B, 0xA4, 0x24, 0x66, 0x3A, 0xAB, 0x63, 0x9C, 0x5A, 0xE4, 0xF5, 0x68,
     0x34, 0x23, 0xB4, 0x74, 0x2B, 0xF1, 0xC9, 0x78, 0x23, 0x8F, 0x16, 0xCB, 0xE3, 0x9D, 0x65, 0x2D,
     0xE3, 0xFD, 0xB8, 0xBE, 0xFC, 0x84, 0x8A, 0xD9, 0x22, 0x22, 0x2E, 0x04, 0xA4, 0x03, 0x7C, 0x07,
     0x13, 0xEB, 0x57, 0xA8, 0x1A, 0x23, 0xF0, 0xC7, 0x34, 0x73, 0xFC, 0x64, 0x6C, 0xEA, 0x30, 0x6B,
     0x4B, 0xCB, 0xC8, 0x86, 0x2F, 0x83, 0x85, 0xDD, 0xFA, 0x9D, 0x4B, 0x7F, 0xA2, 0xC0, 0x87, 0xE8,
     0x79, 0x68, 0x33, 0x03, 0xED, 0x5B, 0xDD, 0x3A, 0x06, 0x2B, 0x3C, 0xF5, 0xB3, 0xA2, 0x78, 0xA6,
     0x6D, 0x2A, 0x13, 0xF8, 0x3F, 0x44, 0xF8, 0x2D, 0xDF, 0x31, 0x0E, 0xE0, 0x74, 0xAB, 0x6A, 0x36,
     0x45, 0x97, 0xE8, 0x99, 0xA0, 0x25, 0x5D, 0xC1, 0x64, 0xF3, 0x1C, 0xC5, 0x08, 0x46, 0x85, 0x1D,
     0xF9, 0xAB, 0x48, 0x19, 0x5D, 0xED, 0x7E, 0xA1, 0xB1, 0xD5, 0x10, 0xBD, 0x7E, 0xE7, 0x4D, 0x73,
     0xFA, 0xF3, 0x6B, 0xC3, 0x1E, 0xCF, 0xA2, 0x68, 0x35, 0x90, 0x46, 0xF4, 0xEB, 0x87, 0x9F, 0x92,
     0x40, 0x09, 0x43, 0x8B, 0x48, 0x1C, 0x6C, 0xD7, 0x88, 0x9A, 0x00, 0x2E, 0xD5, 0xEE, 0x38, 0x2B,
     0xC9, 0x19, 0x0D, 0xA6, 0xFC, 0x02, 0x6E, 0x47, 0x95, 0x58, 0xE4, 0x47, 0x56, 0x77, 0xE9, 0xAA,
     0x9E, 0x30, 0x50, 0xE2, 0x76, 0x56, 0x94, 0xDF, 0xC8, 0x1F, 0x56, 0xE8, 0x80, 0xB9, 0x6E, 0x71,
     0x60, 0xC9, 0x80, 0xDD, 0x98, 0xED, 0xD3, 0xDF, 0xFF, 0xFF, 0xFF, 0xFF, 0xFF, 0xFF, 0xFF, 0xFF]"

definition ssh_dh_generator :: nat where
  "ssh_dh_generator = 2"

definition ssh_dh_group1 :: nat where
  "ssh_dh_group1 = bignum_bin2bn p_group1_value"

definition ssh_dh_group14 :: nat where
  "ssh_dh_group14 = bignum_bin2bn p_group14_value"

definition ssh_dh_group16 :: nat where
  "ssh_dh_group16 = bignum_bin2bn p_group16_value"

definition ssh_dh_group18 :: nat where
  "ssh_dh_group18 = bignum_bin2bn p_group18_value"

definition ssh_dh_is_known_group :: "nat \<Rightarrow> nat \<Rightarrow> bool" where
  "ssh_dh_is_known_group modulus generator =
     (let bits = num_bits modulus;
          m = (if bits < 3072 then ssh_dh_group14 else if bits < 6144 then ssh_dh_group16 else ssh_dh_group18)
      in m = modulus \<and> ssh_dh_generator = generator)"

subsection \<open>Steps the methods share\<close>

definition put_exchange :: "ssh_exchange \<Rightarrow> ssh_session \<Rightarrow> ssh_session" where
  "put_exchange x s = s\<lparr>s_next_crypto := map_option (\<lambda>c. c\<lparr>cr_exchange := x\<rparr>) (s_next_crypto s)\<rparr>"

definition ssh_packet_set_callbacks :: "kex_callbacks \<Rightarrow> ssh_session \<Rightarrow> ssh_session" where
  "ssh_packet_set_callbacks c s = s\<lparr>s_kex_callbacks := s_kex_callbacks s @ [c]\<rparr>"

definition ssh_packet_remove_callbacks :: "kex_callbacks \<Rightarrow> ssh_session \<Rightarrow> ssh_session" where
  "ssh_packet_remove_callbacks c s = s\<lparr>s_kex_callbacks := remove1 c (s_kex_callbacks s)\<rparr>"

text \<open>A string read from the packet in the input buffer.\<close>

definition packet_string :: "heap \<Rightarrow> ssh_session \<Rightarrow> ssh_string option \<times> ssh_session" where
  "packet_string h s =
     (case s_in_buffer s of
        None \<Rightarrow> (None, s)
      | Some b \<Rightarrow> (case ssh_buffer_get_ssh_string h b of (str, b1) \<Rightarrow> (str, s\<lparr>s_in_buffer := Some b1\<rparr>)))"

definition unpack_call :: "heap \<Rightarrow> ssh_session \<Rightarrow> string \<Rightarrow> int \<times> nat out list \<times> ssh_session" where
  "unpack_call h s fmt =
     (case s_in_buffer s of
        None \<Rightarrow> (SSH_ERROR, [], s)
      | Some b \<Rightarrow>
          (case ssh_buffer_unpack_va h nat_bignum b fmt (length fmt)
                  (replicate (length fmt) UpPtr @ [UpCanary SSH_BUFFER_PACK_END]) of
             (PackRet rc, outs, b1) \<Rightarrow> (rc, outs, s\<lparr>s_in_buffer := Some b1\<rparr>)
           | (_, outs, b1) \<Rightarrow> (SSH_ERROR, outs, s\<lparr>s_in_buffer := Some b1\<rparr>)))"

definition ssh_dh_import_next_pubkey_blob :: "exchange_ops \<Rightarrow> ssh_string \<Rightarrow> ssh_exchange \<Rightarrow> int \<times> ssh_exchange" where
  "ssh_dh_import_next_pubkey_blob xo blob x =
     (case eo_import_pubkey xo blob of
        None \<Rightarrow> (SSH_ERROR, x)
      | Some k \<Rightarrow> (SSH_OK, x\<lparr>ex_server_pubkey := Some k\<rparr>))"

text \<open>The end of every reply: \<^verbatim>\<open>NEWKEYS\<close> goes out. The first result says whether it did.\<close>

definition send_newkeys :: "packet_env \<Rightarrow> ssh_session \<Rightarrow> (bool \<times> ssh_session) run" where
  "send_newkeys e s =
     (case ssh_buffer_add_u8 (pe_heap e) (s_out_buffer s) 21 of
        (rc, b) \<Rightarrow>
          let s1 = s\<lparr>s_out_buffer := b\<rparr> in
          if rc < 0 then Ret (False, s1)
          else run_bind (ssh_packet_send e s1) (\<lambda>(rc2, s2).
            if rc2 = SSH_ERROR then Ret (False, s2)
            else Ret (True, s2\<lparr>s_dh_handshake_state := DH_STATE_NEWKEYS_SENT\<rparr>)))"

definition kex_failed :: "ssh_session \<Rightarrow> (bool \<times> ssh_session) run" where
  "kex_failed s = Ret (True, s\<lparr>s_session_state := SSH_SESSION_STATE_ERROR\<rparr>)"

subsection \<open>Curve25519\<close>

definition ssh_curve25519_init :: "exchange_ops \<Rightarrow> ssh_session \<Rightarrow> ssh_exchange \<Rightarrow> int \<times> ssh_exchange" where
  "ssh_curve25519_init xo s x =
     (case eo_x25519_keygen xo of
        None \<Rightarrow> (SSH_ERROR, x)
      | Some (pub, priv) \<Rightarrow>
          (SSH_OK, (if s_server s then x\<lparr>ex_curve25519_server_pubkey := pub\<rparr>
                    else x\<lparr>ex_curve25519_client_pubkey := pub\<rparr>)\<lparr>ex_curve25519_privkey := priv\<rparr>))"

definition ssh_client_curve25519_init ::
  "packet_env \<Rightarrow> exchange_ops \<Rightarrow> ssh_session \<Rightarrow> ssh_crypto \<Rightarrow> (int \<times> ssh_session) run" where
  "ssh_client_curve25519_init e xo s next =
     (case ssh_curve25519_init xo s (cr_exchange next) of
        (rc, x) \<Rightarrow>
          let s1 = put_exchange x s in
          if rc \<noteq> SSH_OK then Ret (rc, s1)
          else case pack_call (pe_heap e) (s_out_buffer s1) [FByte 30, FDword 32, FBytes (ex_curve25519_client_pubkey x)] of
              (rc2, b) \<Rightarrow>
                let s2 = s1\<lparr>s_out_buffer := b\<rparr> in
                if rc2 \<noteq> SSH_OK then Ret (SSH_ERROR, s2)
                else ssh_packet_send e
                  ((ssh_packet_set_callbacks ssh_curve25519_client_callbacks s2)\<lparr>s_dh_handshake_state := DH_STATE_INIT_SENT\<rparr>))"

definition ssh_curve25519_build_k :: "exchange_ops \<Rightarrow> ssh_session \<Rightarrow> ssh_exchange \<Rightarrow> int \<times> ssh_exchange" where
  "ssh_curve25519_build_k xo s x =
     (case eo_x25519_derive xo (ex_curve25519_privkey x)
             (if s_server s then ex_curve25519_client_pubkey x else ex_curve25519_server_pubkey x) of
        None \<Rightarrow> (SSH_ERROR, x)
      | Some k \<Rightarrow> (0, x\<lparr>ex_shared_secret := Some (bignum_bin2bn k)\<rparr>))"

definition ssh_packet_client_curve25519_reply ::
  "packet_env \<Rightarrow> exchange_ops \<Rightarrow> ssh_session \<Rightarrow> ssh_crypto \<Rightarrow> (bool \<times> ssh_session) run" where
  "ssh_packet_client_curve25519_reply e xo s next =
     (let s0 = ssh_packet_remove_callbacks ssh_curve25519_client_callbacks s; h = pe_heap e in
      case packet_string h s0 of
        (None, s1) \<Rightarrow> kex_failed s1
      | (Some blob, s1) \<Rightarrow>
          (case ssh_dh_import_next_pubkey_blob xo blob (cr_exchange next) of
             (rc, x1) \<Rightarrow>
               if rc \<noteq> 0 then kex_failed (put_exchange x1 s1)
               else case packet_string h s1 of
                   (None, s2) \<Rightarrow> kex_failed (put_exchange x1 s2)
                 | (Some q, s2) \<Rightarrow>
                     if ssh_string_len (Some q) \<noteq> 32 then kex_failed (put_exchange x1 s2)
                     else
                       let x2 = x1\<lparr>ex_curve25519_server_pubkey := take 32 (ss_data q)\<rparr> in
                       (case packet_string h s2 of
                          (None, s3) \<Rightarrow> kex_failed (put_exchange x2 s3)
                        | (Some sig, s3) \<Rightarrow>
                            (case ssh_curve25519_build_k xo s3 (x2\<lparr>ex_dh_server_signature := Some sig\<rparr>) of
                               (rc2, x3) \<Rightarrow>
                                 if rc2 < 0 then kex_failed (put_exchange x3 s3)
                                 else run_bind (send_newkeys e (put_exchange x3 s3)) (\<lambda>(ok, s4).
                                   if ok then Ret (True, s4) else kex_failed s4)))))"


subsection \<open>The NIST curves\<close>

definition ecdh_kex_type_to_curve :: "ssh_key_exchange \<Rightarrow> ec_curve option" where
  "ecdh_kex_type_to_curve t =
     (if t = SSH_KEX_ECDH_SHA2_NISTP256 then Some NISTP256
      else if t = SSH_KEX_ECDH_SHA2_NISTP384 then Some NISTP384
      else if t = SSH_KEX_ECDH_SHA2_NISTP521 then Some NISTP521
      else None)"

definition ssh_client_ecdh_init ::
  "packet_env \<Rightarrow> exchange_ops \<Rightarrow> ssh_session \<Rightarrow> ssh_crypto \<Rightarrow> (int \<times> ssh_session) run" where
  "ssh_client_ecdh_init e xo s next =
     (let h = pe_heap e in
      case ssh_buffer_add_u8 h (s_out_buffer s) 30 of
        (rc, b1) \<Rightarrow>
          let s1 = s\<lparr>s_out_buffer := b1\<rparr> in
          if rc < 0 then Ret (SSH_ERROR, s1)
          else case ecdh_kex_type_to_curve (cr_kex_type next) of
              None \<Rightarrow> Ret (SSH_ERROR, s1)
            | Some curve \<Rightarrow>
                (case eo_ec_generate xo curve of
                   None \<Rightarrow> Ret (SSH_ERROR, s1)
                 | Some (pub, priv) \<Rightarrow>
                     (case ssh_string_new h (length pub) of
                        None \<Rightarrow> Ret (SSH_ERROR, s1)
                      | Some str0 \<Rightarrow>
                          let str = str0\<lparr>ss_data := mem_write (ss_data str0) 0 pub\<rparr> in
                          (case ssh_buffer_add_ssh_string h b1 (Some str) of
                             (rc2, b2) \<Rightarrow>
                               let s2 = s1\<lparr>s_out_buffer := b2\<rparr> in
                               if rc2 < 0 then Ret (SSH_ERROR, s2)
                               else ssh_packet_send e
                                 ((ssh_packet_set_callbacks ssh_ecdh_client_callbacks
                                    (put_exchange ((cr_exchange next)\<lparr>ex_ecdh_privkey := Some priv,
                                       ex_ecdh_client_pubkey := Some str\<rparr>) s2))\<lparr>s_dh_handshake_state := DH_STATE_INIT_SENT\<rparr>)))))"

text \<open>A private key that was never generated would be dereferenced: no result.\<close>

definition ecdh_build_k :: "heap \<Rightarrow> exchange_ops \<Rightarrow> ssh_session \<Rightarrow> ssh_exchange \<Rightarrow> (int \<times> ssh_exchange) run" where
  "ecdh_build_k h xo s x =
     (case (ex_ecdh_privkey x, if s_server s then ex_ecdh_client_pubkey x else ex_ecdh_server_pubkey x) of
        (Some priv, Some peer) \<Rightarrow>
          (case eo_ec_compute xo priv (take (ssh_string_len (Some peer)) (ss_data peer)) of
             None \<Rightarrow> Ret (- 1, x)
           | Some k \<Rightarrow>
               if \<not> heap_grants h (length k) then Ret (- 1, x)
               else Ret (0, x\<lparr>ex_shared_secret := Some (bignum_bin2bn k), ex_ecdh_privkey := None\<rparr>))
      | _ \<Rightarrow> Overflow)"

definition ssh_packet_client_ecdh_reply ::
  "packet_env \<Rightarrow> exchange_ops \<Rightarrow> ssh_session \<Rightarrow> ssh_crypto \<Rightarrow> (bool \<times> ssh_session) run" where
  "ssh_packet_client_ecdh_reply e xo s next =
     (let s0 = ssh_packet_remove_callbacks ssh_ecdh_client_callbacks s; h = pe_heap e in
      case packet_string h s0 of
        (None, s1) \<Rightarrow> kex_failed s1
      | (Some blob, s1) \<Rightarrow>
          (case ssh_dh_import_next_pubkey_blob xo blob (cr_exchange next) of
             (rc, x1) \<Rightarrow>
               if rc \<noteq> 0 then kex_failed (put_exchange x1 s1)
               else case packet_string h s1 of
                   (None, s2) \<Rightarrow> kex_failed (put_exchange x1 s2)
                 | (Some q, s2) \<Rightarrow>
                     let x2 = x1\<lparr>ex_ecdh_server_pubkey := Some q\<rparr> in
                     (case packet_string h s2 of
                        (None, s3) \<Rightarrow> kex_failed (put_exchange x2 s3)
                      | (Some sig, s3) \<Rightarrow>
                          run_bind (ecdh_build_k h xo s3 (x2\<lparr>ex_dh_server_signature := Some sig\<rparr>)) (\<lambda>(rc2, x3).
                            if rc2 < 0 then kex_failed (put_exchange x3 s3)
                            else run_bind (send_newkeys e (put_exchange x3 s3)) (\<lambda>(ok, s4).
                              if ok then Ret (True, s4) else kex_failed s4)))))"

subsection \<open>Diffie-Hellman\<close>

text \<open>The client's key pair is the first of the two, the server's the second.\<close>

definition DH_CLIENT_KEYPAIR :: nat where
  "DH_CLIENT_KEYPAIR = 0"

definition DH_SERVER_KEYPAIR :: nat where
  "DH_SERVER_KEYPAIR = 1"

definition dh_keypair_of :: "dh_ctx option \<Rightarrow> nat \<Rightarrow> dh_keypair option" where
  "dh_keypair_of ctx peer = (case ctx of None \<Rightarrow> None | Some (c, s) \<Rightarrow> if peer = DH_CLIENT_KEYPAIR then c else s)"

definition put_keypair :: "nat \<Rightarrow> dh_keypair \<Rightarrow> dh_ctx option \<Rightarrow> dh_ctx option" where
  "put_keypair peer k ctx = map_option (\<lambda>(c, s). if peer = DH_CLIENT_KEYPAIR then (Some k, s) else (c, Some k)) ctx"

definition ssh_dh_keypair_get_keys :: "dh_ctx option \<Rightarrow> nat \<Rightarrow> int \<times> nat option" where
  "ssh_dh_keypair_get_keys ctx peer =
     (case dh_keypair_of ctx peer of
        None \<Rightarrow> (SSH_ERROR, None)
      | Some k \<Rightarrow>
          (case dk_public k of
             None \<Rightarrow> (SSH_ERROR, None)
           | Some p \<Rightarrow> if num_bits p = 0 then (SSH_ERROR, Some p) else (SSH_OK, Some p)))"

definition ssh_dh_keypair_set_keys :: "dh_ctx option \<Rightarrow> nat \<Rightarrow> nat option \<Rightarrow> int \<times> dh_ctx option" where
  "ssh_dh_keypair_set_keys ctx peer pub =
     (case (dh_keypair_of ctx peer, pub) of
        (Some k, Some p) \<Rightarrow> (SSH_OK, put_keypair peer (k\<lparr>dk_public := Some p\<rparr>) ctx)
      | _ \<Rightarrow> (SSH_ERROR, ctx))"

definition ssh_dh_set_parameters :: "exchange_ops \<Rightarrow> dh_ctx option \<Rightarrow> nat \<Rightarrow> nat \<Rightarrow> int \<times> dh_ctx option" where
  "ssh_dh_set_parameters xo ctx modulus generator =
     (let k = \<lparr>dk_modulus = modulus, dk_generator = generator, dk_public = None, dk_private = None\<rparr> in
      if ctx = None then (SSH_ERROR, None)
      else if \<not> eo_dh_new xo then (SSH_ERROR, Some (None, None))
      else (SSH_OK, Some (Some k, Some k)))"

text \<open>\<^verbatim>\<open>calloc\<close> of the context, and the group of the method; \<^verbatim>\<open>ssh_dh_cleanup\<close> frees it.\<close>

definition ssh_dh_init_common :: "heap \<Rightarrow> exchange_ops \<Rightarrow> ssh_key_exchange \<Rightarrow> ssh_exchange \<Rightarrow> int \<times> ssh_exchange" where
  "ssh_dh_init_common h xo kex_type x =
     (if \<not> heap_grants h 16 then (SSH_ERROR, x)
      else
        let ctx = Some (None, None);
            (rc, ctx1) =
              (if kex_type = SSH_KEX_DH_GROUP1_SHA1 then ssh_dh_set_parameters xo ctx ssh_dh_group1 ssh_dh_generator
               else if kex_type = SSH_KEX_DH_GROUP14_SHA1 \<or> kex_type = SSH_KEX_DH_GROUP14_SHA256
               then ssh_dh_set_parameters xo ctx ssh_dh_group14 ssh_dh_generator
               else if kex_type = SSH_KEX_DH_GROUP16_SHA512 then ssh_dh_set_parameters xo ctx ssh_dh_group16 ssh_dh_generator
               else if kex_type = SSH_KEX_DH_GROUP18_SHA512 then ssh_dh_set_parameters xo ctx ssh_dh_group18 ssh_dh_generator
               else (SSH_OK, ctx))
        in (rc, x\<lparr>ex_dh_ctx := (if rc \<noteq> SSH_OK then None else ctx1)\<rparr>))"

definition ssh_dh_cleanup :: "ssh_exchange \<Rightarrow> ssh_exchange" where
  "ssh_dh_cleanup x = x\<lparr>ex_dh_ctx := None\<rparr>"

definition ssh_dh_keypair_gen_keys :: "exchange_ops \<Rightarrow> dh_ctx option \<Rightarrow> nat \<Rightarrow> int \<times> dh_ctx option" where
  "ssh_dh_keypair_gen_keys xo ctx peer =
     (case dh_keypair_of ctx peer of
        None \<Rightarrow> (SSH_ERROR, ctx)
      | Some k \<Rightarrow>
          (case eo_dh_generate xo (dk_modulus k) (dk_generator k) of
             None \<Rightarrow> (SSH_ERROR, ctx)
           | Some (pub, priv) \<Rightarrow> (SSH_OK, put_keypair peer (k\<lparr>dk_public := Some pub, dk_private := Some priv\<rparr>) ctx)))"

text \<open>A local key pair without a private key makes \<^verbatim>\<open>DH_compute_key\<close> fail.\<close>

definition ssh_dh_compute_shared_secret ::
  "heap \<Rightarrow> exchange_ops \<Rightarrow> dh_ctx option \<Rightarrow> nat \<Rightarrow> nat \<Rightarrow> int \<times> nat option" where
  "ssh_dh_compute_shared_secret h xo ctx local remote =
     (case (dh_keypair_of ctx local, dh_keypair_of ctx remote) of
        (Some l, Some r) \<Rightarrow>
          if \<not> heap_grants h ((num_bits (dk_modulus l) + 7) div 8) then (SSH_ERROR, None)
          else (case ssh_dh_keypair_get_keys ctx remote of
              (rc, pub) \<Rightarrow>
                if rc \<noteq> SSH_OK then (SSH_ERROR, None)
                else case dk_private l of
                    None \<Rightarrow> (SSH_ERROR, None)
                  | Some priv \<Rightarrow>
                      (case eo_dh_compute xo (dk_modulus l) (the pub) priv of
                         None \<Rightarrow> (SSH_ERROR, None)
                       | Some k \<Rightarrow> (SSH_OK, Some (bignum_bin2bn k))))
      | _ \<Rightarrow> (SSH_ERROR, None))"

definition dh_failed :: "ssh_exchange \<Rightarrow> ssh_session \<Rightarrow> (int \<times> ssh_session) run" where
  "dh_failed x s = Ret (SSH_ERROR, put_exchange (ssh_dh_cleanup x) s)"

definition ssh_client_dh_init ::
  "packet_env \<Rightarrow> exchange_ops \<Rightarrow> ssh_session \<Rightarrow> ssh_crypto \<Rightarrow> (int \<times> ssh_session) run" where
  "ssh_client_dh_init e xo s next =
     (case ssh_dh_init_common (pe_heap e) xo (cr_kex_type next) (cr_exchange next) of
        (rc, x1) \<Rightarrow>
          if rc = SSH_ERROR then dh_failed x1 s
          else case ssh_dh_keypair_gen_keys xo (ex_dh_ctx x1) DH_CLIENT_KEYPAIR of
              (rc2, ctx) \<Rightarrow>
                let x2 = x1\<lparr>ex_dh_ctx := ctx\<rparr> in
                if rc2 = SSH_ERROR then dh_failed x2 s
                else case ssh_dh_keypair_get_keys ctx DH_CLIENT_KEYPAIR of
                    (rc3, pub) \<Rightarrow>
                      if rc3 \<noteq> SSH_OK then dh_failed x2 s
                      else case pack_call (pe_heap e) (s_out_buffer s) [FByte 30, FBignum (the pub)] of
                          (rc4, b) \<Rightarrow>
                            let s1 = s\<lparr>s_out_buffer := b\<rparr> in
                            if rc4 \<noteq> SSH_OK then dh_failed x2 s1
                            else ssh_packet_send e
                              ((ssh_packet_set_callbacks ssh_dh_client_callbacks (put_exchange x2 s1))
                                \<lparr>s_dh_handshake_state := DH_STATE_INIT_SENT\<rparr>))"

text \<open>
  The two replies do the same with the packet: host key, public value and signature are read,
  the secret computed. A signature that was not reached leaves the old one.
\<close>

definition out_string :: "nat out list \<Rightarrow> nat \<Rightarrow> ssh_string option" where
  "out_string outs i = (if i < length outs then (case outs ! i of OutString s \<Rightarrow> s | _ \<Rightarrow> None) else None)"

definition out_bignum :: "nat out list \<Rightarrow> nat \<Rightarrow> nat option" where
  "out_bignum outs i = (if i < length outs then (case outs ! i of OutBignum n \<Rightarrow> n | _ \<Rightarrow> None) else None)"

definition dh_reply_failed :: "ssh_exchange \<Rightarrow> ssh_session \<Rightarrow> (bool \<times> ssh_session) run" where
  "dh_reply_failed x s = kex_failed (put_exchange (ssh_dh_cleanup x) s)"

definition dh_reply ::
  "packet_env \<Rightarrow> exchange_ops \<Rightarrow> ssh_session \<Rightarrow> ssh_exchange \<Rightarrow> (bool \<times> ssh_session) run" where
  "dh_reply e xo s x =
     (case unpack_call (pe_heap e) s ''SBS'' of
        (rc, outs, s1) \<Rightarrow>
          let x1 = (if length outs \<ge> 3 then x\<lparr>ex_dh_server_signature := out_string outs 2\<rparr> else x) in
          if rc = SSH_ERROR then dh_reply_failed x1 s1
          else case ssh_dh_keypair_set_keys (ex_dh_ctx x1) DH_SERVER_KEYPAIR (out_bignum outs 1) of
              (rc2, ctx) \<Rightarrow>
                let x2 = x1\<lparr>ex_dh_ctx := ctx\<rparr> in
                if rc2 \<noteq> SSH_OK then dh_reply_failed x2 s1
                else case out_string outs 0 of
                    None \<Rightarrow> dh_reply_failed x2 s1
                  | Some blob \<Rightarrow>
                      (case ssh_dh_import_next_pubkey_blob xo blob x2 of
                         (rc3, x3) \<Rightarrow>
                           if rc3 \<noteq> 0 then dh_reply_failed x3 s1
                           else case ssh_dh_compute_shared_secret (pe_heap e) xo (ex_dh_ctx x3) DH_CLIENT_KEYPAIR DH_SERVER_KEYPAIR of
                               (rc4, secret) \<Rightarrow>
                                 if rc4 = SSH_ERROR then dh_reply_failed x3 s1
                                 else run_bind (send_newkeys e (put_exchange (x3\<lparr>ex_shared_secret := secret\<rparr>) s1))
                                   (\<lambda>(ok, s2). if ok then Ret (True, s2)
                                     else case s_next_crypto s2 of
                                         None \<Rightarrow> Overflow
                                       | Some next \<Rightarrow> dh_reply_failed (cr_exchange next) s2)))"

definition ssh_packet_client_dh_reply ::
  "packet_env \<Rightarrow> exchange_ops \<Rightarrow> ssh_session \<Rightarrow> ssh_crypto \<Rightarrow> (bool \<times> ssh_session) run" where
  "ssh_packet_client_dh_reply e xo s next =
     dh_reply e xo (ssh_packet_remove_callbacks ssh_dh_client_callbacks s) (cr_exchange next)"

subsection \<open>Group exchange\<close>

definition DH_PMIN :: nat where "DH_PMIN = 2048"
definition DH_PREQ :: nat where "DH_PREQ = 2048"
definition DH_PMAX :: nat where "DH_PMAX = 8192"

definition ssh_client_dhgex_init ::
  "packet_env \<Rightarrow> exchange_ops \<Rightarrow> ssh_session \<Rightarrow> ssh_crypto \<Rightarrow> (int \<times> ssh_session) run" where
  "ssh_client_dhgex_init e xo s next =
     (case ssh_dh_init_common (pe_heap e) xo (cr_kex_type next) (cr_exchange next) of
        (rc, x1) \<Rightarrow>
          if rc \<noteq> SSH_OK then dh_failed x1 s
          else
            let x2 = x1\<lparr>ex_dh_pmin := of_nat DH_PMIN, ex_dh_pn := of_nat DH_PREQ, ex_dh_pmax := of_nat DH_PMAX\<rparr> in
            case pack_call (pe_heap e) (s_out_buffer s)
                   [FByte 34, FDword (ex_dh_pmin x2), FDword (ex_dh_pn x2), FDword (ex_dh_pmax x2)] of
              (rc2, b) \<Rightarrow>
                let s1 = s\<lparr>s_out_buffer := b\<rparr> in
                if rc2 \<noteq> SSH_OK then dh_failed x2 s1
                else run_bind
                  (ssh_packet_send e
                    ((ssh_packet_set_callbacks ssh_dhgex_client_callbacks (put_exchange x2 s1))
                      \<lparr>s_dh_handshake_state := DH_STATE_REQUEST_SENT\<rparr>))
                  (\<lambda>(rc3, s2). if rc3 = SSH_ERROR then dh_failed x2 s2 else Ret (rc3, s2)))"

text \<open>The checks on the group of the server; the test of \<open>p > 1\<close> reports but does not stop.\<close>

definition dhgex_group_ok :: "bool \<Rightarrow> nat \<Rightarrow> nat \<Rightarrow> bool" where
  "dhgex_group_ok fips modulus generator \<longleftrightarrow>
     (fips \<longrightarrow> ssh_dh_is_known_group modulus generator) \<and>
     DH_PMIN \<le> num_bits modulus \<and> num_bits modulus \<le> DH_PMAX \<and> odd modulus \<and>
     1 < generator \<and> generator \<le> modulus - 1"

definition ssh_packet_client_dhgex_group ::
  "packet_env \<Rightarrow> exchange_ops \<Rightarrow> ssh_session \<Rightarrow> ssh_crypto \<Rightarrow> (bool \<times> ssh_session) run" where
  "ssh_packet_client_dhgex_group e xo s next =
     (let x = cr_exchange next in
      if s_dh_handshake_state s \<noteq> DH_STATE_REQUEST_SENT then dh_reply_failed x s
      else case unpack_call (pe_heap e) s ''BB'' of
          (rc, outs, s1) \<Rightarrow>
            (case (out_bignum outs 0, out_bignum outs 1) of
               (Some modulus, Some generator) \<Rightarrow>
                 if rc \<noteq> SSH_OK then dh_reply_failed x s1
                 else if \<not> dhgex_group_ok (pe_fips e) modulus generator then dh_reply_failed x s1
                 else case ssh_dh_set_parameters xo (ex_dh_ctx x) modulus generator of
                     (rc2, ctx) \<Rightarrow>
                       if rc2 \<noteq> SSH_OK then dh_reply_failed x s1
                       else case ssh_dh_keypair_gen_keys xo ctx DH_CLIENT_KEYPAIR of
                           (rc3, ctx3) \<Rightarrow>
                             if rc3 = SSH_ERROR then dh_reply_failed x s1
                             else case ssh_dh_keypair_get_keys ctx3 DH_CLIENT_KEYPAIR of
                                 (rc4, pub) \<Rightarrow>
                                   if rc4 \<noteq> SSH_OK then dh_reply_failed x s1
                                   else case pack_call (pe_heap e) (s_out_buffer s1) [FByte 32, FBignum (the pub)] of
                                       (rc5, b) \<Rightarrow>
                                         let s2 = s1\<lparr>s_out_buffer := b\<rparr>; x5 = x\<lparr>ex_dh_ctx := ctx3\<rparr> in
                                         if rc5 \<noteq> SSH_OK then dh_reply_failed x s2
                                         else run_bind
                                           (ssh_packet_send e
                                             ((put_exchange x5 s2)\<lparr>s_dh_handshake_state := DH_STATE_INIT_SENT\<rparr>))
                                           (\<lambda>(rc6, s3). if rc6 = SSH_ERROR then dh_reply_failed x5 s3 else Ret (True, s3))
             | _ \<Rightarrow> dh_reply_failed x s1))"

definition ssh_packet_client_dhgex_reply ::
  "packet_env \<Rightarrow> exchange_ops \<Rightarrow> ssh_session \<Rightarrow> ssh_crypto \<Rightarrow> (bool \<times> ssh_session) run" where
  "ssh_packet_client_dhgex_reply e xo s next =
     dh_reply e xo (ssh_packet_remove_callbacks ssh_dhgex_client_callbacks s) (cr_exchange next)"

subsection \<open>Starting the exchange\<close>

definition dh_handshake :: "packet_env \<Rightarrow> exchange_ops \<Rightarrow> ssh_session \<Rightarrow> (int \<times> ssh_session) run" where
  "dh_handshake e xo s =
     (case s_dh_handshake_state s of
        DH_STATE_INIT \<Rightarrow>
          (case s_next_crypto s of
             None \<Rightarrow> Overflow
           | Some next \<Rightarrow>
               (case cr_kex_type next of
                  SSH_KEX_DH_GROUP1_SHA1 \<Rightarrow> ssh_client_dh_init e xo s next
                | SSH_KEX_DH_GROUP14_SHA1 \<Rightarrow> ssh_client_dh_init e xo s next
                | SSH_KEX_DH_GROUP14_SHA256 \<Rightarrow> ssh_client_dh_init e xo s next
                | SSH_KEX_DH_GROUP16_SHA512 \<Rightarrow> ssh_client_dh_init e xo s next
                | SSH_KEX_DH_GROUP18_SHA512 \<Rightarrow> ssh_client_dh_init e xo s next
                | SSH_KEX_DH_GEX_SHA1 \<Rightarrow> ssh_client_dhgex_init e xo s next
                | SSH_KEX_DH_GEX_SHA256 \<Rightarrow> ssh_client_dhgex_init e xo s next
                | SSH_KEX_ECDH_SHA2_NISTP256 \<Rightarrow> ssh_client_ecdh_init e xo s next
                | SSH_KEX_ECDH_SHA2_NISTP384 \<Rightarrow> ssh_client_ecdh_init e xo s next
                | SSH_KEX_ECDH_SHA2_NISTP521 \<Rightarrow> ssh_client_ecdh_init e xo s next
                | SSH_KEX_CURVE25519_SHA256 \<Rightarrow> ssh_client_curve25519_init e xo s next
                | SSH_KEX_CURVE25519_SHA256_LIBSSH_ORG \<Rightarrow> ssh_client_curve25519_init e xo s next
                | SSH_KEX_UNSET \<Rightarrow> Ret (SSH_ERROR, s)))
      | DH_STATE_INIT_SENT \<Rightarrow> Ret (SSH_AGAIN, s)
      | DH_STATE_NEWKEYS_SENT \<Rightarrow> Ret (SSH_AGAIN, s)
      | DH_STATE_FINISHED \<Rightarrow> Ret (SSH_OK, s)
      | _ \<Rightarrow> Ret (SSH_ERROR, s))"

end
