(* ===== verification/Auth.thy ===== *)
theory Auth
  imports Key_Exchange
begin

text \<open>
  Authentication on the client's side (\<^verbatim>\<open>src/libssh/src/auth.c\<close>): the requests for the methods
  \<^verbatim>\<open>none\<close>, \<^verbatim>\<open>password\<close> and \<^verbatim>\<open>keyboard-interactive\<close>, the handlers of the server's answers, and what
  the caller is told. The library is taken as built without GSSAPI.
\<close>

subsection \<open>Constants\<close>

definition SSH_AUTH_METHOD_UNKNOWN :: u32 where "SSH_AUTH_METHOD_UNKNOWN = 0"
definition SSH_AUTH_METHOD_NONE :: u32 where "SSH_AUTH_METHOD_NONE = 1"
definition SSH_AUTH_METHOD_PASSWORD :: u32 where "SSH_AUTH_METHOD_PASSWORD = 2"
definition SSH_AUTH_METHOD_PUBLICKEY :: u32 where "SSH_AUTH_METHOD_PUBLICKEY = 4"
definition SSH_AUTH_METHOD_HOSTBASED :: u32 where "SSH_AUTH_METHOD_HOSTBASED = 8"
definition SSH_AUTH_METHOD_INTERACTIVE :: u32 where "SSH_AUTH_METHOD_INTERACTIVE = 16"
definition SSH_AUTH_METHOD_GSSAPI_MIC :: u32 where "SSH_AUTH_METHOD_GSSAPI_MIC = 32"

lemmas auth_method_defs = SSH_AUTH_METHOD_UNKNOWN_def SSH_AUTH_METHOD_NONE_def SSH_AUTH_METHOD_PASSWORD_def
  SSH_AUTH_METHOD_PUBLICKEY_def SSH_AUTH_METHOD_HOSTBASED_def SSH_AUTH_METHOD_INTERACTIVE_def
  SSH_AUTH_METHOD_GSSAPI_MIC_def

abbreviation SSH_AUTH_SUCCESS :: int where "SSH_AUTH_SUCCESS \<equiv> 0"
abbreviation SSH_AUTH_DENIED :: int where "SSH_AUTH_DENIED \<equiv> 1"
abbreviation SSH_AUTH_PARTIAL :: int where "SSH_AUTH_PARTIAL \<equiv> 2"
abbreviation SSH_AUTH_INFO :: int where "SSH_AUTH_INFO \<equiv> 3"
abbreviation SSH_AUTH_AGAIN :: int where "SSH_AUTH_AGAIN \<equiv> 4"
abbreviation SSH_AUTH_ERROR :: int where "SSH_AUTH_ERROR \<equiv> - 1"

text \<open>
  The event loop \<^verbatim>\<open>ssh_handle_packets_termination\<close> runs until its condition holds or it gives up;
  it is a parameter, with the condition as an argument.
\<close>

type_synonym event_loop = "(ssh_session \<Rightarrow> bool) \<Rightarrow> ssh_session \<Rightarrow> (int \<times> ssh_session) run"

subsection \<open>The service\<close>

definition ssh_service_request_termination :: "ssh_session \<Rightarrow> bool" where
  "ssh_service_request_termination s \<longleftrightarrow>
     s_session_state s = SSH_SESSION_STATE_ERROR \<or> s_service_state s \<noteq> SSH_AUTH_SERVICE_SENT"

definition service_pending :: "event_loop \<Rightarrow> ssh_session \<Rightarrow> (int \<times> ssh_session) run" where
  "service_pending wait s =
     run_bind (wait ssh_service_request_termination s) (\<lambda>(rc, s1).
       Ret (if rc = SSH_ERROR then SSH_ERROR
            else (case s_service_state s1 of
                    SSH_AUTH_SERVICE_DENIED \<Rightarrow> rc
                  | SSH_AUTH_SERVICE_ACCEPTED \<Rightarrow> SSH_OK
                  | SSH_AUTH_SERVICE_SENT \<Rightarrow> SSH_AGAIN
                  | SSH_AUTH_SERVICE_NONE \<Rightarrow> SSH_ERROR), s1))"

definition ssh_service_request ::
  "event_loop \<Rightarrow> packet_env \<Rightarrow> ssh_session \<Rightarrow> string \<Rightarrow> (int \<times> ssh_session) run" where
  "ssh_service_request wait e s service =
     (if s_service_state s \<noteq> SSH_AUTH_SERVICE_NONE then service_pending wait s
      else case pack_call (pe_heap e) (s_out_buffer s) [FByte 5, FCStr (map of_char service)] of
          (rc, b) \<Rightarrow>
            let s1 = s\<lparr>s_out_buffer := b\<rparr> in
            if rc \<noteq> SSH_OK then Ret (SSH_ERROR, s1)
            else run_bind (ssh_packet_send e (s1\<lparr>s_service_state := SSH_AUTH_SERVICE_SENT\<rparr>)) (\<lambda>(rc2, s2).
              if rc2 = SSH_ERROR then Ret (SSH_ERROR, s2) else service_pending wait s2))"

definition ssh_userauth_request_service :: "event_loop \<Rightarrow> packet_env \<Rightarrow> ssh_session \<Rightarrow> (int \<times> ssh_session) run" where
  "ssh_userauth_request_service wait e s = ssh_service_request wait e s ''ssh-userauth''"

subsection \<open>Waiting for the answer\<close>

definition ssh_auth_response_termination :: "ssh_session \<Rightarrow> bool" where
  "ssh_auth_response_termination s =
     (case s_auth_state s of
        SSH_AUTH_STATE_NONE \<Rightarrow> False
      | SSH_AUTH_STATE_KBDINT_SENT \<Rightarrow> False
      | SSH_AUTH_STATE_GSSAPI_REQUEST_SENT \<Rightarrow> False
      | SSH_AUTH_STATE_GSSAPI_TOKEN \<Rightarrow> False
      | SSH_AUTH_STATE_GSSAPI_MIC_SENT \<Rightarrow> False
      | SSH_AUTH_STATE_PUBKEY_AUTH_SENT \<Rightarrow> False
      | SSH_AUTH_STATE_PUBKEY_OFFER_SENT \<Rightarrow> False
      | SSH_AUTH_STATE_PASSWORD_AUTH_SENT \<Rightarrow> False
      | SSH_AUTH_STATE_AUTH_NONE_SENT \<Rightarrow> False
      | _ \<Rightarrow> True)"

definition ssh_userauth_get_response :: "event_loop \<Rightarrow> ssh_session \<Rightarrow> (int \<times> ssh_session) run" where
  "ssh_userauth_get_response wait s =
     run_bind (wait ssh_auth_response_termination s) (\<lambda>(rc, s1).
       Ret (if rc = SSH_ERROR then SSH_AUTH_ERROR
            else if \<not> ssh_auth_response_termination s1 then SSH_AUTH_AGAIN
            else (case s_auth_state s1 of
                    SSH_AUTH_STATE_ERROR \<Rightarrow> SSH_AUTH_ERROR
                  | SSH_AUTH_STATE_FAILED \<Rightarrow> SSH_AUTH_DENIED
                  | SSH_AUTH_STATE_INFO \<Rightarrow> SSH_AUTH_INFO
                  | SSH_AUTH_STATE_PARTIAL \<Rightarrow> SSH_AUTH_PARTIAL
                  | SSH_AUTH_STATE_PK_OK \<Rightarrow> SSH_AUTH_SUCCESS
                  | SSH_AUTH_STATE_SUCCESS \<Rightarrow> SSH_AUTH_SUCCESS
                  | _ \<Rightarrow> SSH_AUTH_ERROR), s1))"

text \<open>The label \<^verbatim>\<open>pending\<close> of every request.\<close>

definition auth_pending :: "event_loop \<Rightarrow> ssh_session \<Rightarrow> (int \<times> ssh_session) run" where
  "auth_pending wait s =
     run_bind (ssh_userauth_get_response wait s) (\<lambda>(rc, s1).
       Ret (rc, if rc \<noteq> SSH_AUTH_AGAIN then s1\<lparr>s_pending_call := SSH_PENDING_CALL_NONE\<rparr> else s1))"

subsection \<open>The requests\<close>

text \<open>The user name: the argument, or else the option; without either a null pointer is read.\<close>

definition request_user :: "bytes option \<Rightarrow> ssh_session \<Rightarrow> bytes option" where
  "request_user username s = map_option cstr (case username of Some u \<Rightarrow> Some u | None \<Rightarrow> s_opt_username s)"

text \<open>
  The part the requests share, behind the check of the pending call: the service, the packet
  that starts with the user, the connection service and the method, the new states, and the
  answer. \<open>failed\<close> tells which results of the service request end the call, \<open>secure\<close> marks the
  buffer, \<open>update\<close> is what else changes.
\<close>

definition auth_request ::
  "event_loop \<Rightarrow> packet_env \<Rightarrow> ssh_session \<Rightarrow> (int \<Rightarrow> bool) \<Rightarrow> bytes option \<Rightarrow> string \<Rightarrow> nat wfield list \<Rightarrow> bool \<Rightarrow>
    (ssh_session \<Rightarrow> ssh_session) \<Rightarrow> (int \<times> ssh_session) run" where
  "auth_request wait e s failed username method extra secure update =
     run_bind (ssh_userauth_request_service wait e s) (\<lambda>(rc, s1).
       if rc = SSH_AGAIN then Ret (SSH_AUTH_AGAIN, s1)
       else if failed rc then Ret (SSH_AUTH_ERROR, s1)
       else case request_user username s1 of
           None \<Rightarrow> Overflow
         | Some u \<Rightarrow>
             (case pack_call (pe_heap e) (s_out_buffer s1)
                     ([FByte 50, FCStr u, FCStr (map of_char ''ssh-connection''), FCStr (map of_char method)] @ extra) of
                (rc2, b) \<Rightarrow>
                  if rc2 < 0 then Ret (SSH_AUTH_ERROR, s1\<lparr>s_out_buffer := snd (ssh_buffer_reinit (pe_heap e) b)\<rparr>)
                  else run_bind
                    (ssh_packet_send e (update (s1\<lparr>s_out_buffer := (if secure then b\<lparr>b_secure := True\<rparr> else b)\<rparr>)))
                    (\<lambda>(rc3, s2). if rc3 = SSH_ERROR then Ret (SSH_AUTH_ERROR, s2) else auth_pending wait s2)))"

definition ssh_userauth_none :: "event_loop \<Rightarrow> packet_env \<Rightarrow> ssh_session \<Rightarrow> bytes option \<Rightarrow> (int \<times> ssh_session) run" where
  "ssh_userauth_none wait e s username =
     (if s_pending_call s = SSH_PENDING_CALL_AUTH_NONE then auth_pending wait s
      else if s_pending_call s \<noteq> SSH_PENDING_CALL_NONE then Ret (SSH_AUTH_ERROR, s)
      else auth_request wait e s (\<lambda>rc. rc = SSH_ERROR) username ''none'' [] False
             (\<lambda>s. s\<lparr>s_current_method := SSH_AUTH_METHOD_NONE, s_auth_state := SSH_AUTH_STATE_AUTH_NONE_SENT,
                s_pending_call := SSH_PENDING_CALL_AUTH_NONE\<rparr>))"

definition ssh_userauth_password ::
  "event_loop \<Rightarrow> packet_env \<Rightarrow> ssh_session \<Rightarrow> bytes option \<Rightarrow> bytes \<Rightarrow> (int \<times> ssh_session) run" where
  "ssh_userauth_password wait e s username password =
     (if s_pending_call s = SSH_PENDING_CALL_AUTH_PASSWORD then auth_pending wait s
      else if s_pending_call s \<noteq> SSH_PENDING_CALL_NONE then Ret (SSH_ERROR, s)
      else auth_request wait e s (\<lambda>rc. rc = SSH_ERROR) username ''password'' [FByte 0, FCStr (cstr password)] True
             (\<lambda>s. s\<lparr>s_current_method := SSH_AUTH_METHOD_PASSWORD, s_auth_state := SSH_AUTH_STATE_PASSWORD_AUTH_SENT,
                s_pending_call := SSH_PENDING_CALL_AUTH_PASSWORD\<rparr>))"

definition ssh_userauth_kbdint_init ::
  "event_loop \<Rightarrow> packet_env \<Rightarrow> ssh_session \<Rightarrow> bytes option \<Rightarrow> bytes option \<Rightarrow> (int \<times> ssh_session) run" where
  "ssh_userauth_kbdint_init wait e s username submethods =
     (if s_pending_call s = SSH_PENDING_CALL_AUTH_KBDINT_INIT then auth_pending wait s
      else if s_pending_call s \<noteq> SSH_PENDING_CALL_NONE then Ret (SSH_ERROR, s)
      else auth_request wait e s (\<lambda>rc. rc \<noteq> SSH_OK) username ''keyboard-interactive''
             [FCStr [], FCStr (case submethods of Some m \<Rightarrow> cstr m | None \<Rightarrow> [])] False
             (\<lambda>s. s\<lparr>s_auth_state := SSH_AUTH_STATE_KBDINT_SENT, s_pending_call := SSH_PENDING_CALL_AUTH_KBDINT_INIT\<rparr>))"

text \<open>The answers follow each other in the packet; a missing one is sent empty.\<close>

fun pack_answers :: "heap \<Rightarrow> ssh_buffer \<Rightarrow> bytes list \<Rightarrow> int \<times> ssh_buffer" where
  "pack_answers h b [] = (0, b)"
| "pack_answers h b (a # as) =
     (case pack_call h b [FCStr a] of (rc, b1) \<Rightarrow> if rc < 0 then (rc, b1) else pack_answers h b1 as)"

definition kbdint_answer :: "ssh_kbdint \<Rightarrow> nat \<Rightarrow> bytes" where
  "kbdint_answer kb i =
     (case kb_answers kb of
        None \<Rightarrow> []
      | Some as \<Rightarrow> (case as ! i of Some a \<Rightarrow> cstr a | None \<Rightarrow> []))"

definition ssh_userauth_kbdint_send :: "event_loop \<Rightarrow> packet_env \<Rightarrow> ssh_session \<Rightarrow> (int \<times> ssh_session) run" where
  "ssh_userauth_kbdint_send wait e s =
     (if s_pending_call s = SSH_PENDING_CALL_AUTH_KBDINT_SEND then auth_pending wait s
      else if s_pending_call s \<noteq> SSH_PENDING_CALL_NONE then Ret (SSH_ERROR, s)
      else case s_kbdint s of
          None \<Rightarrow> Overflow
        | Some kb \<Rightarrow>
            (case pack_call (pe_heap e) (s_out_buffer s) [FByte 61, FDword (of_nat (kb_nprompts kb))] of
               (rc, b) \<Rightarrow>
                 case (if rc < 0 then (rc, b) else pack_answers (pe_heap e) b (map (kbdint_answer kb) [0..<kb_nprompts kb])) of
                   (rc2, b2) \<Rightarrow>
                     if rc2 < 0 then Ret (SSH_AUTH_ERROR, s\<lparr>s_out_buffer := snd (ssh_buffer_reinit (pe_heap e) b2)\<rparr>)
                     else run_bind
                       (ssh_packet_send e (s\<lparr>s_out_buffer := b2, s_current_method := SSH_AUTH_METHOD_INTERACTIVE,
                          s_auth_state := SSH_AUTH_STATE_KBDINT_SENT, s_pending_call := SSH_PENDING_CALL_AUTH_KBDINT_SEND,
                          s_kbdint := None\<rparr>))
                       (\<lambda>(rc3, s2). if rc3 = SSH_ERROR then Ret (SSH_AUTH_ERROR, s2) else auth_pending wait s2)))"

definition ssh_userauth_kbdint ::
  "event_loop \<Rightarrow> packet_env \<Rightarrow> ssh_session \<Rightarrow> bytes option \<Rightarrow> bytes option \<Rightarrow> (int \<times> ssh_session) run" where
  "ssh_userauth_kbdint wait e s user submethods =
     (if s_pending_call s = SSH_PENDING_CALL_NONE \<and> s_kbdint s = None \<or>
         s_pending_call s = SSH_PENDING_CALL_AUTH_KBDINT_INIT
      then ssh_userauth_kbdint_init wait e s user submethods
      else if s_pending_call s = SSH_PENDING_CALL_AUTH_KBDINT_SEND \<or> s_kbdint s \<noteq> None
      then ssh_userauth_kbdint_send wait e s
      else Ret (SSH_AUTH_ERROR, s))"

definition ssh_userauth_kbdint_setanswer :: "heap \<Rightarrow> ssh_session \<Rightarrow> nat \<Rightarrow> bytes option \<Rightarrow> int \<times> ssh_session" where
  "ssh_userauth_kbdint_setanswer h s i answer =
     (case (answer, s_kbdint s) of
        (Some a, Some kb) \<Rightarrow>
          if kb_nprompts kb \<le> i then (- 1, s)
          else
            (case (case kb_answers kb of
                     Some as \<Rightarrow> Some as
                   | None \<Rightarrow> if heap_grants h (kb_nprompts kb * 8) then Some (replicate (kb_nprompts kb) None) else None) of
               None \<Rightarrow> (- 1, s)
             | Some as \<Rightarrow>
                 let c = strdup h (cstr a) in
                 (if c = None then - 1 else 0, s\<lparr>s_kbdint := Some (kb\<lparr>kb_answers := Some (as[i := c])\<rparr>)\<rparr>))
      | _ \<Rightarrow> (- 1, s))"

subsection \<open>The server's answers\<close>

text \<open>Handlers as the dispatcher calls them; each uses the packet.\<close>

definition ssh_packet_userauth_banner :: "heap \<Rightarrow> ssh_session \<Rightarrow> (bool \<times> ssh_session) run" where
  "ssh_packet_userauth_banner h s =
     (case packet_string h s of
        (None, s1) \<Rightarrow> Ret (True, s1)
      | (Some banner, s1) \<Rightarrow> Ret (True, s1\<lparr>s_banner := Some banner\<rparr>))"

definition names_method :: "bytes \<Rightarrow> string \<Rightarrow> bool" where
  "names_method auth_methods m \<longleftrightarrow> strstr (cstr auth_methods) (map of_char m) \<noteq> None"

definition listed_methods :: "bytes \<Rightarrow> u32" where
  "listed_methods m =
     (if names_method m ''password'' then SSH_AUTH_METHOD_PASSWORD else 0) OR
     (if names_method m ''keyboard-interactive'' then SSH_AUTH_METHOD_INTERACTIVE else 0) OR
     (if names_method m ''publickey'' then SSH_AUTH_METHOD_PUBLICKEY else 0) OR
     (if names_method m ''hostbased'' then SSH_AUTH_METHOD_HOSTBASED else 0) OR
     (if names_method m ''gssapi-with-mic'' then SSH_AUTH_METHOD_GSSAPI_MIC else 0)"

definition ssh_packet_userauth_failure :: "heap \<Rightarrow> ssh_session \<Rightarrow> (bool \<times> ssh_session) run" where
  "ssh_packet_userauth_failure h s =
     (case unpack_call h s ''sb'' of
        (rc, outs, s1) \<Rightarrow>
          if rc \<noteq> SSH_OK then Ret (True, s1\<lparr>s_auth_state := SSH_AUTH_STATE_ERROR, s_current_method := SSH_AUTH_METHOD_UNKNOWN\<rparr>)
          else case outs of
              [OutCStr (Some auth_methods), OutU8 partial] \<Rightarrow>
                Ret (True, s1\<lparr>s_auth_state := (if partial \<noteq> 0 then SSH_AUTH_STATE_PARTIAL else SSH_AUTH_STATE_FAILED),
                     s_supported_methods := listed_methods auth_methods, s_current_method := SSH_AUTH_METHOD_UNKNOWN\<rparr>)
            | _ \<Rightarrow> Overflow)"

text \<open>Compression that was delayed starts with the success, in each direction on the keys in use.\<close>

definition start_delayed :: "u32 \<Rightarrow> (ssh_crypto \<Rightarrow> ssh_crypto) \<Rightarrow> ssh_session \<Rightarrow> ssh_session" where
  "start_delayed direction f s =
     (case ssh_packet_get_current_crypto s direction of None \<Rightarrow> s | Some (w, c) \<Rightarrow> put_crypto w (f c) s)"

definition ssh_packet_userauth_success :: "ssh_session \<Rightarrow> (bool \<times> ssh_session) run" where
  "ssh_packet_userauth_success s =
     (let s1 = s\<lparr>s_auth_state := SSH_AUTH_STATE_SUCCESS, s_session_state := SSH_SESSION_STATE_AUTHENTICATED,
                 s_flags := s_flags s OR SSH_SESSION_FLAG_AUTHENTICATED\<rparr>;
          s2 = start_delayed SSH_DIRECTION_OUT
                 (\<lambda>c. if cr_delayed_compress_out c then c\<lparr>cr_do_compress_out := True\<rparr> else c) s1;
          s3 = start_delayed SSH_DIRECTION_IN
                 (\<lambda>c. if cr_delayed_compress_in c then c\<lparr>cr_do_compress_in := True\<rparr> else c) s2
      in Ret (True, s3\<lparr>s_current_method := SSH_AUTH_METHOD_UNKNOWN\<rparr>))"

subsection \<open>Questions of the server\<close>

definition KBDINT_MAX_PROMPT :: nat where
  "KBDINT_MAX_PROMPT = 256"

text \<open>\<^verbatim>\<open>calloc\<close> of the structure; its size is that of seven words.\<close>

definition ssh_kbdint_new :: "heap \<Rightarrow> ssh_kbdint option" where
  "ssh_kbdint_new h =
     (if heap_grants h 48 then
        Some \<lparr>kb_nprompts = 0, kb_nanswers = 0, kb_name = None, kb_instruction = None, kb_prompts = [], kb_echo = [],
              kb_answers = None\<rparr>
      else None)"

text \<open>Every prompt and every answer is read for its length: a missing one is a null pointer.\<close>

definition ssh_kbdint_clean :: "ssh_kbdint \<Rightarrow> ssh_kbdint run" where
  "ssh_kbdint_clean kb =
     (if None \<in> set (take (kb_nprompts kb) (kb_prompts kb)) then Overflow
      else if (case kb_answers kb of None \<Rightarrow> False | Some as \<Rightarrow> None \<in> set (take (kb_nanswers kb) as)) then Overflow
      else Ret \<lparr>kb_nprompts = 0, kb_nanswers = 0, kb_name = None, kb_instruction = None, kb_prompts = [], kb_echo = [],
                kb_answers = None\<rparr>)"

fun unpack_prompts :: "heap \<Rightarrow> nat \<Rightarrow> ssh_session \<Rightarrow> (bytes option \<times> u8) list option \<times> ssh_session" where
  "unpack_prompts h 0 s = (Some [], s)"
| "unpack_prompts h (Suc n) s =
     (case unpack_call h s ''sb'' of
        (rc, outs, s1) \<Rightarrow>
          if rc = SSH_ERROR then (None, s1)
          else case outs of
              [OutCStr prompt, OutU8 echo] \<Rightarrow>
                (case unpack_prompts h n s1 of
                   (None, s2) \<Rightarrow> (None, s2) | (Some ps, s2) \<Rightarrow> (Some ((prompt, echo) # ps), s2))
            | _ \<Rightarrow> (None, s1))"

definition ssh_packet_userauth_info_request :: "heap \<Rightarrow> ssh_session \<Rightarrow> (bool \<times> ssh_session) run" where
  "ssh_packet_userauth_info_request h s =
     run_bind (case s_kbdint s of None \<Rightarrow> Ret (ssh_kbdint_new h) | Some kb \<Rightarrow> run_bind (ssh_kbdint_clean kb) (\<lambda>k. Ret (Some k)))
       (\<lambda>fresh. case fresh of
          None \<Rightarrow> Ret (True, s)
        | Some kb \<Rightarrow>
            (case unpack_call h s ''ssSd'' of
               (rc, outs, s1) \<Rightarrow>
                 if rc \<noteq> SSH_OK then Ret (True, s1\<lparr>s_kbdint := None\<rparr>)
                 else case outs of
                     [OutCStr name, OutCStr instruction, _, OutU32 n] \<Rightarrow>
                       let nprompts = unat n in
                       if nprompts > KBDINT_MAX_PROMPT then Ret (True, s1\<lparr>s_kbdint := None\<rparr>)
                       else if \<not> heap_grants h (nprompts * 8) \<or> \<not> heap_grants h nprompts
                       then Ret (True, s1\<lparr>s_kbdint := None\<rparr>)
                       else (case unpack_prompts h nprompts s1 of
                           (None, s2) \<Rightarrow> Ret (True, s2\<lparr>s_kbdint := None\<rparr>)
                         | (Some ps, s2) \<Rightarrow>
                             Ret (True, s2\<lparr>s_kbdint := Some (kb\<lparr>kb_nprompts := nprompts, kb_nanswers := nprompts,
                                    kb_name := name, kb_instruction := instruction, kb_prompts := map fst ps,
                                    kb_echo := map snd ps\<rparr>), s_auth_state := SSH_AUTH_STATE_INFO\<rparr>))
                   | _ \<Rightarrow> Overflow))"

text \<open>The same packet type answers an offered key.\<close>

definition ssh_packet_userauth_pk_ok :: "heap \<Rightarrow> ssh_session \<Rightarrow> (bool \<times> ssh_session) run" where
  "ssh_packet_userauth_pk_ok h s =
     (if s_auth_state s = SSH_AUTH_STATE_KBDINT_SENT then ssh_packet_userauth_info_request h s
      else if s_auth_state s = SSH_AUTH_STATE_PUBKEY_OFFER_SENT then Ret (True, s\<lparr>s_auth_state := SSH_AUTH_STATE_PK_OK\<rparr>)
      else Ret (True, s\<lparr>s_auth_state := SSH_AUTH_STATE_ERROR\<rparr>))"

end
