(* ===== verification/Client.thy ===== *)
theory Client
  imports Auth Packet_Receive
begin

text \<open>
  The client's state machine: the banner exchange and the callback that drives the connection
  (\<^verbatim>\<open>src/libssh/src/client.c\<close>, \<^verbatim>\<open>ssh_analyze_banner\<close> of \<^verbatim>\<open>misc.c\<close>), the proposal of the server
  (\<^verbatim>\<open>ssh_packet_kexinit\<close> of \<^verbatim>\<open>kex.c\<close>), the handlers of \<^verbatim>\<open>packet_cb.c\<close>, and the tables that dispatch a
  packet to its handler (\<^verbatim>\<open>packet.c\<close>).
\<close>

subsection \<open>Banners\<close>

text \<open>
  \<^verbatim>\<open>strtoul\<close> in base ten on the bytes of a string: white space and a sign are skipped, the value
  is cut to an \<^verbatim>\<open>unsigned long\<close>. Without a digit there is no conversion.
\<close>

definition is_digit :: "u8 \<Rightarrow> bool" where
  "is_digit c \<longleftrightarrow> 48 \<le> unat c \<and> unat c \<le> 57"

definition is_space :: "u8 \<Rightarrow> bool" where
  "is_space c \<longleftrightarrow> unat c = 32 \<or> 9 \<le> unat c \<and> unat c \<le> 13"

definition digits_value :: "bytes \<Rightarrow> nat" where
  "digits_value ds = foldl (\<lambda>n d. 10 * n + (unat d - 48)) 0 ds"

definition strtoul :: "bytes \<Rightarrow> nat option" where
  "strtoul s =
     (let t = dropWhile is_space s;
          neg = (t \<noteq> [] \<and> hd t = 45);
          u = (if t \<noteq> [] \<and> (hd t = 45 \<or> hd t = 43) then tl t else t);
          ds = takeWhile is_digit u
      in if ds = [] then None
         else let v = digits_value ds in
           Some (if v \<ge> 18446744073709551616 then 18446744073709551615
                 else if neg then wrap64 (18446744073709551616 - v) else v))"

definition SSH_VERSION_INT :: "nat \<Rightarrow> nat \<Rightarrow> nat \<Rightarrow> nat" where
  "SSH_VERSION_INT a b c = a * 65536 + b * 256 + c"

text \<open>The version of an OpenSSH peer, if its banner names one.\<close>

definition openssh_version :: "bytes \<Rightarrow> nat option" where
  "openssh_version banner =
     (case strstr banner (map of_char ''OpenSSH'') of
        None \<Rightarrow> None
      | Some k \<Rightarrow>
          let openssh = drop k banner in
          if length openssh \<le> 9 then None
          else case (strtoul (drop 8 openssh), strtoul (drop 10 openssh)) of
              (Some major, minor) \<Rightarrow>
                if major < 1 \<or> 100 < major then None
                else (case minor of
                    None \<Rightarrow> None
                  | Some m \<Rightarrow> if 100 < m then None else Some (SSH_VERSION_INT major m 0))
            | _ \<Rightarrow> None)"

definition ssh_analyze_banner :: "ssh_session \<Rightarrow> bool \<Rightarrow> int \<times> ssh_session" where
  "ssh_analyze_banner s server =
     (case (if server then s_clientbanner s else s_serverbanner s) of
        None \<Rightarrow> (- 1, s)
      | Some m \<Rightarrow>
          let banner = cstr m in
          if length banner < 6 \<or> take 4 banner \<noteq> map of_char ''SSH-'' then (- 1, s)
          else if banner ! 4 = of_char (CHR ''2'') \<or>
                  banner ! 4 = of_char (CHR ''1'') \<and> length banner > 6 \<and> banner ! 6 = of_char (CHR ''9'')
          then (0, case openssh_version banner of None \<Rightarrow> s | Some v \<Rightarrow> s\<lparr>s_openssh := v\<rparr>)
          else (- 1, s))"

text \<open>\<open>client_banner\<close> is the string the build defines as \<^verbatim>\<open>CLIENT_BANNER_SSH2\<close>; the client's call.\<close>

definition ssh_send_banner :: "bytes \<Rightarrow> packet_env \<Rightarrow> ssh_session \<Rightarrow> int \<times> ssh_session" where
  "ssh_send_banner client_banner e s =
     (case strdup (pe_heap e) client_banner of
        None \<Rightarrow> (SSH_ERROR, s)
      | Some m \<Rightarrow>
          let s1 = s\<lparr>s_clientbanner := Some m\<rparr>; buffer = take 255 (client_banner @ [13, 10])
          in if pe_write e buffer = SSH_ERROR then (SSH_ERROR, s1)
             else (SSH_OK, s1\<lparr>s_sent := s_sent s1 @ [buffer]\<rparr>))"

subsection \<open>The connection\<close>

definition connection_failed :: "ssh_session \<Rightarrow> ssh_session run" where
  "connection_failed s = Ret (s\<lparr>s_alive := False, s_session_state := SSH_SESSION_STATE_ERROR\<rparr>)"

text \<open>The proposal of the client: made and sent.\<close>

definition client_proposal :: "packet_env \<Rightarrow> ssh_session \<Rightarrow> (bool \<times> ssh_session) run" where
  "client_proposal e s =
     (case s_next_crypto s of
        None \<Rightarrow> Overflow
      | Some next \<Rightarrow>
          run_bind (ssh_set_client_kex e s next) (\<lambda>(rc, next1).
            let s1 = s\<lparr>s_next_crypto := Some next1\<rparr> in
            if rc \<noteq> SSH_OK then Ret (False, s1)
            else run_bind (ssh_send_kex (ssh_packet_send e) e s1 next1 False) (\<lambda>(rc2, s2).
              Ret (\<not> rc2 < 0, s2))))"

definition handshake_done :: "ssh_session \<Rightarrow> ssh_session" where
  "handshake_done s =
     (if s_dh_handshake_state s = DH_STATE_FINISHED then
        s\<lparr>s_connected := True, s_session_state :=
            (if s_flags s AND SSH_SESSION_FLAG_AUTHENTICATED \<noteq> 0 then SSH_SESSION_STATE_AUTHENTICATED
             else SSH_SESSION_STATE_AUTHENTICATING)\<rparr>
      else s)"

definition kexinit_received :: "packet_env \<Rightarrow> exchange_ops \<Rightarrow> ssh_session \<Rightarrow> ssh_session run" where
  "kexinit_received e xo s =
     (case s_next_crypto s of
        None \<Rightarrow> Overflow
      | Some next \<Rightarrow>
          run_bind (if kx_methods (cr_client_kex next) ! 0 = None then client_proposal e s else Ret (True, s)) (\<lambda>(ok, s1).
            if \<not> ok then connection_failed s1
            else case s_next_crypto s1 of
                None \<Rightarrow> Overflow
              | Some next1 \<Rightarrow>
                  (case ssh_kex_select_methods (pe_heap e) next1 of
                     (rc, next2) \<Rightarrow>
                       let s2 = s1\<lparr>s_next_crypto := Some next2\<rparr> in
                       if rc = SSH_ERROR then connection_failed s2
                       else run_bind (dh_handshake e xo (s2\<lparr>s_session_state := SSH_SESSION_STATE_DH\<rparr>)) (\<lambda>(rc2, s3).
                         if rc2 = SSH_ERROR then connection_failed s3 else Ret (handshake_done s3)))))"

definition ssh_client_connection_callback ::
  "bytes \<Rightarrow> packet_env \<Rightarrow> exchange_ops \<Rightarrow> ssh_session \<Rightarrow> ssh_session run" where
  "ssh_client_connection_callback client_banner e xo s =
     (case s_session_state s of
        SSH_SESSION_STATE_SOCKET_CONNECTED \<Rightarrow> Ret (snd (ssh_send_banner client_banner e s))
      | SSH_SESSION_STATE_BANNER_RECEIVED \<Rightarrow>
          if s_serverbanner s = None then connection_failed s
          else (case ssh_analyze_banner s False of
              (rc, s1) \<Rightarrow>
                if rc < 0 then connection_failed s1
                else run_bind (client_proposal e (s1\<lparr>s_session_state := SSH_SESSION_STATE_INITIAL_KEX\<rparr>)) (\<lambda>(ok, s2).
                  if ok then Ret s2 else connection_failed s2))
      | SSH_SESSION_STATE_KEXINIT_RECEIVED \<Rightarrow> kexinit_received e xo s
      | SSH_SESSION_STATE_DH \<Rightarrow> Ret (handshake_done s)
      | SSH_SESSION_STATE_ERROR \<Rightarrow> connection_failed s
      | _ \<Rightarrow> Ret s)"

text \<open>What the socket reports when it is connected, or could not be.\<close>

definition SSH_SOCKET_CONNECTED_OK :: int where
  "SSH_SOCKET_CONNECTED_OK = 1"

definition socket_callback_connected ::
  "bytes \<Rightarrow> packet_env \<Rightarrow> exchange_ops \<Rightarrow> int \<Rightarrow> ssh_session \<Rightarrow> ssh_session run" where
  "socket_callback_connected client_banner e xo code s =
     (if s_session_state s \<noteq> SSH_SESSION_STATE_CONNECTING \<and> s_session_state s \<noteq> SSH_SESSION_STATE_SOCKET_CONNECTED
      then Ret s
      else ssh_client_connection_callback client_banner e xo
        (s\<lparr>s_session_state := (if code = SSH_SOCKET_CONNECTED_OK then SSH_SESSION_STATE_SOCKET_CONNECTED
                              else SSH_SESSION_STATE_ERROR)\<rparr>))"

text \<open>
  The loop of \<^verbatim>\<open>callback_receive_banner\<close>: \<open>before\<close> is the line so far, with carriage returns
  overwritten; a line that is no banner ends the loop too.
\<close>

datatype banner_line = Banner bytes nat | OtherLine nat | TooLong | Incomplete

fun banner_loop :: "bytes \<Rightarrow> bytes \<Rightarrow> banner_line" where
  "banner_loop before [] = Incomplete"
| "banner_loop before (c # cs) =
     (if c = 10 then
        (if take 4 (cstr (before @ [0])) = map of_char ''SSH-''
         then Banner (cstr (before @ [0])) (Suc (length before)) else OtherLine (Suc (length before)))
      else if length before > 255 then TooLong
      else banner_loop (before @ [if c = 13 then 0 else c]) cs)"

definition callback_receive_banner ::
  "bytes \<Rightarrow> packet_env \<Rightarrow> exchange_ops \<Rightarrow> bytes \<Rightarrow> ssh_session \<Rightarrow> (int \<times> ssh_session) run" where
  "callback_receive_banner client_banner e xo data s =
     (if s_session_state s \<noteq> SSH_SESSION_STATE_SOCKET_CONNECTED then Ret (SSH_ERROR, s)
      else case banner_loop [] data of
          Incomplete \<Rightarrow> Ret (0, s)
        | TooLong \<Rightarrow> Ret (0, s\<lparr>s_session_state := SSH_SESSION_STATE_ERROR\<rparr>)
        | OtherLine n \<Rightarrow> Ret (int n, s)
        | Banner line n \<Rightarrow>
            (case strdup (pe_heap e) line of
               None \<Rightarrow> Ret (SSH_ERROR, s)
             | Some str \<Rightarrow>
                 run_bind (ssh_client_connection_callback client_banner e xo
                     (s\<lparr>s_serverbanner := Some str, s_session_state := SSH_SESSION_STATE_BANNER_RECEIVED\<rparr>))
                   (\<lambda>s1. Ret (int n, s1))))"

subsection \<open>The proposal of the peer\<close>

text \<open>
  The ten lists, each added to the buffer that is hashed. The results are the lists as C
  strings, or \<^const>\<open>None\<close> after an error.
\<close>

fun read_methods :: "heap \<Rightarrow> nat \<Rightarrow> ssh_session \<Rightarrow> ssh_buffer \<Rightarrow> bytes option list option \<times> ssh_session \<times> ssh_buffer" where
  "read_methods h 0 s hash = (Some [], s, hash)"
| "read_methods h (Suc n) s hash =
     (case packet_string h s of
        (None, s1) \<Rightarrow> (None, s1, hash)
      | (Some str, s1) \<Rightarrow>
          (case ssh_buffer_add_ssh_string h hash (Some str) of
             (rc, hash1) \<Rightarrow>
               if rc < 0 then (None, s1, hash1)
               else case ssh_string_to_char h (Some str) of
                   None \<Rightarrow> (None, s1, hash1)
                 | Some m \<Rightarrow>
                     (case read_methods h n s1 hash1 of
                        (None, s2, hash2) \<Rightarrow> (None, s2, hash2)
                      | (Some ms, s2, hash2) \<Rightarrow> (Some (Some m # ms), s2, hash2))))"

definition peer_kex :: "bool \<Rightarrow> ssh_crypto \<Rightarrow> ssh_kex" where
  "peer_kex server c = (if server then cr_client_kex c else cr_server_kex c)"

definition put_peer_kex :: "bool \<Rightarrow> ssh_kex \<Rightarrow> ssh_session \<Rightarrow> ssh_session" where
  "put_peer_kex server k s = s\<lparr>s_next_crypto := map_option
     (\<lambda>c. if server then c\<lparr>cr_client_kex := k\<rparr> else c\<lparr>cr_server_kex := k\<rparr>) (s_next_crypto s)\<rparr>"

definition kexinit_failed :: "ssh_kex \<Rightarrow> ssh_session \<Rightarrow> (bool \<times> ssh_session) run" where
  "kexinit_failed k s =
     Ret (True, (put_peer_kex (s_server s) (k\<lparr>kx_methods := replicate SSH_KEX_METHODS None\<rparr>) s)
            \<lparr>s_session_state := SSH_SESSION_STATE_ERROR\<rparr>)"

definition SSH_EXT_NEGOTIATION :: u32 where "SSH_EXT_NEGOTIATION = 1"
definition SSH_EXT_SIG_RSA_SHA256 :: u32 where "SSH_EXT_SIG_RSA_SHA256 = 2"
definition SSH_EXT_SIG_RSA_SHA512 :: u32 where "SSH_EXT_SIG_RSA_SHA512 = 4"

text \<open>The signature algorithms the client's list allows; a choice of both is settled by its order,
  and fails when it is not in the list after all.\<close>

definition sha_extension :: "heap \<Rightarrow> ssh_session \<Rightarrow> bytes \<Rightarrow> string \<Rightarrow> u32 \<Rightarrow> u32 \<Rightarrow> u32" where
  "sha_extension h s hostkeys name flag ext =
     (if ssh_match_group hostkeys (lit name) = 0 then ext
      else case s_wanted_methods s ! 1 of
          None \<Rightarrow> ext
        | Some w \<Rightarrow> if ssh_find_matching h (Some w) (Some (lit name)) \<noteq> None then ext OR flag else ext)"

definition rsa_preference :: "heap \<Rightarrow> bytes \<Rightarrow> u32 \<Rightarrow> bool \<times> u32" where
  "rsa_preference h hostkeys ext =
     (if ext AND SSH_EXT_SIG_RSA_SHA256 \<noteq> 0 \<and> ext AND SSH_EXT_SIG_RSA_SHA512 \<noteq> 0 then
        let cleared = ext AND NOT (SSH_EXT_SIG_RSA_SHA256 OR SSH_EXT_SIG_RSA_SHA512) in
        case ssh_find_matching h (Some (lit ''rsa-sha2-512,rsa-sha2-256'')) (Some hostkeys) of
          None \<Rightarrow> (False, cleared)
        | Some r \<Rightarrow>
            if cstr r = map of_char ''rsa-sha2-512'' then (True, cleared OR SSH_EXT_SIG_RSA_SHA512)
            else if cstr r = map of_char ''rsa-sha2-256'' then (True, cleared OR SSH_EXT_SIG_RSA_SHA256)
            else (False, cleared)
      else (True, ext))"

definition server_extensions :: "heap \<Rightarrow> ssh_session \<Rightarrow> bytes option list \<Rightarrow> bool \<times> u32" where
  "server_extensions h s ms =
     (if ssh_match_group (the (ms ! 0)) (lit KEX_EXTENSION_CLIENT) = 0 then (True, s_extensions s)
      else
        let hostkeys = the (ms ! 1); ext0 = s_extensions s OR SSH_EXT_NEGOTIATION;
            ext1 = sha_extension h s hostkeys ''rsa-sha2-512'' SSH_EXT_SIG_RSA_SHA512 ext0;
            ext2 = sha_extension h s hostkeys ''rsa-sha2-256'' SSH_EXT_SIG_RSA_SHA256 ext1
        in rsa_preference h hostkeys ext2)"

text \<open>
  What a server does with the end of the message: the flag of a guessed packet and four reserved
  bytes go into the hash, the extensions are set, and a wrong guess is remembered.
\<close>

definition kexinit_server_part ::
  "heap \<Rightarrow> ssh_session \<Rightarrow> bytes option list \<Rightarrow> ssh_buffer \<Rightarrow> (bool \<times> ssh_session) run" where
  "kexinit_server_part h s ms hash =
     (case s_in_buffer s of
        None \<Rightarrow> Ret (False, s)
      | Some b \<Rightarrow>
          (case ssh_buffer_get_u8 b of
             (n, follows, b1) \<Rightarrow>
               let s1 = s\<lparr>s_in_buffer := Some b1\<rparr> in
               if n \<noteq> 1 then Ret (False, s1)
               else case ssh_buffer_add_u8 h hash (the follows) of
                   (rc, hash1) \<Rightarrow>
                     if rc < 0 then Ret (False, s1\<lparr>s_in_hashbuf := Some hash1\<rparr>)
                     else case ssh_buffer_add_u32 h hash1 0 of
                         (rc2, hash2) \<Rightarrow>
                           let s2 = s1\<lparr>s_in_hashbuf := Some hash2\<rparr> in
                           if rc2 < 0 then Ret (False, s2)
                           else case server_extensions h s2 ms of
                               (ok, ext) \<Rightarrow>
                                 let s3 = s2\<lparr>s_extensions := ext\<rparr> in
                                 if \<not> ok then Ret (False, s3)
                                 else if the follows = 0 then Ret (True, s3)
                                 else case s_next_crypto s3 of
                                     None \<Rightarrow> Overflow
                                   | Some next \<Rightarrow>
                                       let own = kx_methods (cr_server_kex next) in
                                       Ret (True, s3\<lparr>s_first_kex_follows_guess_wrong :=
                                         cmp_first_kex_algo (the (ms ! 0)) (the (own ! 0)) \<or>
                                         cmp_first_kex_algo (the (ms ! 1)) (the (own ! 1))\<rparr>)))"

definition ssh_packet_kexinit ::
  "(ssh_session \<Rightarrow> ssh_session run) \<Rightarrow> packet_env \<Rightarrow> ssh_session \<Rightarrow> (bool \<times> ssh_session) run" where
  "ssh_packet_kexinit connection_callback e s =
     (let h = pe_heap e in
      case s_next_crypto s of
        None \<Rightarrow> Overflow
      | Some next \<Rightarrow>
          let k0 = peer_kex (s_server s) next in
          if s_session_state s \<noteq> SSH_SESSION_STATE_AUTHENTICATED \<and> s_session_state s \<noteq> SSH_SESSION_STATE_INITIAL_KEX
          then kexinit_failed k0 s
          else case s_in_buffer s of
              None \<Rightarrow> kexinit_failed k0 s
            | Some b \<Rightarrow>
                (case ssh_buffer_get_data b 16 of
                   (n, d, b1) \<Rightarrow>
                     let s1 = s\<lparr>s_in_buffer := Some b1\<rparr> in
                     if n \<noteq> 16 then kexinit_failed k0 s1
                     else
                       let k1 = k0\<lparr>kx_cookie := d\<rparr> in
                       (case ssh_hashbufin_add_cookie h d of
                          (rc, hashbuf) \<Rightarrow>
                            (case hashbuf of
                               None \<Rightarrow> kexinit_failed k1 (s1\<lparr>s_in_hashbuf := None\<rparr>)
                             | Some hash \<Rightarrow>
                                 if rc < 0 then kexinit_failed k1 (s1\<lparr>s_in_hashbuf := Some hash\<rparr>)
                                 else case read_methods h SSH_KEX_METHODS s1 hash of
                                     (None, s2, hash2) \<Rightarrow> kexinit_failed k1 (s2\<lparr>s_in_hashbuf := Some hash2\<rparr>)
                                   | (Some ms, s2, hash2) \<Rightarrow>
                                       let k2 = k1\<lparr>kx_methods := ms\<rparr>;
                                           s3 = put_peer_kex (s_server s2) k2 (s2\<lparr>s_in_hashbuf := Some hash2\<rparr>)
                                       in run_bind (if s_server s3 then kexinit_server_part h s3 ms hash2 else Ret (True, s3))
                                         (\<lambda>(ok, s4).
                                            if \<not> ok then kexinit_failed k2 s4
                                            else run_bind (connection_callback
                                                (s4\<lparr>s_session_state := SSH_SESSION_STATE_KEXINIT_RECEIVED,
                                                    s_dh_handshake_state := DH_STATE_INIT\<rparr>))
                                              (\<lambda>s5. Ret (True, s5)))))))"

subsection \<open>The other handlers\<close>

definition ssh_packet_disconnect_callback :: "heap \<Rightarrow> ssh_session \<Rightarrow> (bool \<times> ssh_session) run" where
  "ssh_packet_disconnect_callback h s =
     (case s_in_buffer s of
        None \<Rightarrow> Ret (True, s\<lparr>s_alive := False, s_session_state := SSH_SESSION_STATE_ERROR\<rparr>)
      | Some b \<Rightarrow>
          (case ssh_buffer_get_u32 b of
             (n, code, b1) \<Rightarrow>
               let s1 = snd (packet_string h (s\<lparr>s_in_buffer := Some b1\<rparr>)) in
               Ret (True, s1\<lparr>s_alive := False, s_session_state := SSH_SESSION_STATE_ERROR\<rparr>)))"

definition ssh_packet_ignore_callback :: "ssh_session \<Rightarrow> (bool \<times> ssh_session) run" where
  "ssh_packet_ignore_callback s = Ret (True, s)"

definition ssh_packet_unimplemented :: "heap \<Rightarrow> ssh_session \<Rightarrow> (bool \<times> ssh_session) run" where
  "ssh_packet_unimplemented h s = (case unpack_call h s ''d'' of (rc, outs, s1) \<Rightarrow> Ret (True, s1))"

definition newkeys_failed :: "ssh_session \<Rightarrow> (bool \<times> ssh_session) run" where
  "newkeys_failed s = Ret (True, s\<lparr>s_session_state := SSH_SESSION_STATE_ERROR\<rparr>)"

text \<open>The host key is checked when the server's \<^verbatim>\<open>NEWKEYS\<close> arrives, before its keys are used.\<close>

definition host_key_accepted :: "exchange_ops \<Rightarrow> ssh_session \<Rightarrow> ssh_exchange \<Rightarrow> bool" where
  "host_key_accepted xo s x \<longleftrightarrow>
     (case ex_server_pubkey x of
        None \<Rightarrow> False
      | Some key \<Rightarrow>
          (case eo_import_signature xo (ex_dh_server_signature x) key of
             None \<Rightarrow> False
           | Some sig \<Rightarrow>
               (case s_wanted_methods s ! 1 of None \<Rightarrow> True | Some w \<Rightarrow> ssh_match_group w (fst sig) \<noteq> 0) \<and>
               eo_signature_verify xo sig key (ex_secret_hash x) \<noteq> SSH_ERROR))"

definition ssh_packet_newkeys ::
  "(ssh_session \<Rightarrow> ssh_session run) \<Rightarrow> packet_env \<Rightarrow> exchange_ops \<Rightarrow> ssh_session \<Rightarrow> (bool \<times> ssh_session) run" where
  "ssh_packet_newkeys connection_callback e xo s =
     (if s_session_state s \<noteq> SSH_SESSION_STATE_DH \<or> s_dh_handshake_state s \<noteq> DH_STATE_NEWKEYS_SENT then newkeys_failed s
      else run_bind
        (if s_server s then Ret (True, s)
         else case s_next_crypto s of
             None \<Rightarrow> Overflow
           | Some next \<Rightarrow>
               let x = cr_exchange next; s1 = put_exchange (x\<lparr>ex_dh_server_signature := None\<rparr>) s in
               if \<not> host_key_accepted xo s x then Ret (False, s1)
               else case ssh_packet_set_newkeys (pe_heap e) (pe_kex e) (pe_now e) s1 SSH_DIRECTION_IN of
                   (rc, s2) \<Rightarrow> Ret (rc = SSH_OK, s2))
        (\<lambda>(ok, s3).
           if \<not> ok then newkeys_failed s3
           else run_bind (connection_callback (s3\<lparr>s_dh_handshake_state := DH_STATE_FINISHED\<rparr>)) (\<lambda>s4. Ret (True, s4))))"

definition ssh_packet_service_accept :: "ssh_session \<Rightarrow> (bool \<times> ssh_session) run" where
  "ssh_packet_service_accept s = Ret (True, s\<lparr>s_service_state := SSH_AUTH_SERVICE_ACCEPTED\<rparr>)"

fun ext_info_loop :: "heap \<Rightarrow> nat \<Rightarrow> ssh_session \<Rightarrow> ssh_session" where
  "ext_info_loop h 0 s = s"
| "ext_info_loop h (Suc n) s =
     (case unpack_call h s ''ss'' of
        (rc, outs, s1) \<Rightarrow>
          if rc \<noteq> SSH_OK then s1
          else case outs of
              [OutCStr (Some name), OutCStr (Some v)] \<Rightarrow>
                if cstr name = map of_char ''server-sig-algs'' then
                  let ext1 = (if ssh_match_group v (lit ''rsa-sha2-512'') \<noteq> 0 then s_extensions s1 OR SSH_EXT_SIG_RSA_SHA512
                              else s_extensions s1);
                      ext2 = (if ssh_match_group v (lit ''rsa-sha2-256'') \<noteq> 0 then ext1 OR SSH_EXT_SIG_RSA_SHA256 else ext1)
                  in ext_info_loop h n (s1\<lparr>s_extensions := ext2\<rparr>)
                else ext_info_loop h n s1
            | _ \<Rightarrow> s1)"

definition ssh_packet_ext_info :: "heap \<Rightarrow> ssh_session \<Rightarrow> (bool \<times> ssh_session) run" where
  "ssh_packet_ext_info h s =
     (case s_in_buffer s of
        None \<Rightarrow> Ret (True, s)
      | Some b \<Rightarrow>
          (case ssh_buffer_get_u32 b of
             (n, count, b1) \<Rightarrow>
               let s1 = s\<lparr>s_in_buffer := Some b1\<rparr> in
               if n = 0 then Ret (True, s1)
               else let nr = unat (bswap (the count)) in
                 if nr > 128 then Ret (True, s1) else Ret (True, ext_info_loop h nr s1)))"

subsection \<open>The tables\<close>

text \<open>
  The default table holds the handlers of the types 1 to 100. Those of the server, of the
  channels and of global requests are not the client's login; they are the argument \<open>other\<close>.
\<close>

definition default_handler ::
  "(ssh_session \<Rightarrow> ssh_session run) \<Rightarrow> packet_env \<Rightarrow> exchange_ops \<Rightarrow> (nat \<Rightarrow> handler option) \<Rightarrow> nat \<Rightarrow> handler option" where
  "default_handler callback e xo other t =
     (if t = 1 then Some (ssh_packet_disconnect_callback (pe_heap e))
      else if t = 2 \<or> t = 4 then Some ssh_packet_ignore_callback
      else if t = 3 then Some (ssh_packet_unimplemented (pe_heap e))
      else if t = 6 then Some ssh_packet_service_accept
      else if t = 7 then Some (ssh_packet_ext_info (pe_heap e))
      else if t = 20 then Some (ssh_packet_kexinit callback e)
      else if t = 21 then Some (ssh_packet_newkeys callback e xo)
      else if t = 51 then Some (ssh_packet_userauth_failure (pe_heap e))
      else if t = 52 then Some ssh_packet_userauth_success
      else if t = 53 then Some (ssh_packet_userauth_banner (pe_heap e))
      else if t = 60 then Some (ssh_packet_userauth_pk_ok (pe_heap e))
      else if t \<in> {5, 30, 50, 61, 66} \<or> 80 \<le> t \<and> t \<le> 82 \<or> 90 \<le> t \<and> t \<le> 100 then other t
      else None)"

definition default_packet_handlers ::
  "(ssh_session \<Rightarrow> ssh_session run) \<Rightarrow> packet_env \<Rightarrow> exchange_ops \<Rightarrow> (nat \<Rightarrow> handler option) \<Rightarrow> handler_table" where
  "default_packet_handlers callback e xo other = (1, map (default_handler callback e xo other) [1..<101])"

definition on_next ::
  "(ssh_session \<Rightarrow> ssh_crypto \<Rightarrow> (bool \<times> ssh_session) run) \<Rightarrow> handler" where
  "on_next f s = (case s_next_crypto s of None \<Rightarrow> Overflow | Some next \<Rightarrow> f s next)"

definition kex_table :: "packet_env \<Rightarrow> exchange_ops \<Rightarrow> kex_callbacks \<Rightarrow> handler_table" where
  "kex_table e xo c =
     (case c of
        ssh_dh_client_callbacks \<Rightarrow> (31, [Some (on_next (ssh_packet_client_dh_reply e xo))])
      | ssh_dhgex_client_callbacks \<Rightarrow>
          (31, [Some (on_next (ssh_packet_client_dhgex_group e xo)), None, Some (on_next (ssh_packet_client_dhgex_reply e xo))])
      | ssh_ecdh_client_callbacks \<Rightarrow> (31, [Some (on_next (ssh_packet_client_ecdh_reply e xo))])
      | ssh_curve25519_client_callbacks \<Rightarrow> (31, [Some (on_next (ssh_packet_client_curve25519_reply e xo))]))"

definition client_tables ::
  "bytes \<Rightarrow> packet_env \<Rightarrow> exchange_ops \<Rightarrow> (nat \<Rightarrow> handler option) \<Rightarrow> ssh_session \<Rightarrow> handler_table list option" where
  "client_tables client_banner e xo other s =
     Some (default_packet_handlers (ssh_client_connection_callback client_banner e xo) e xo other #
           map (kex_table e xo) (s_kex_callbacks s))"

end
