(* ===== verification/Packet_Queue.thy ===== *)
theory Packet_Queue
  imports Packet_Send
begin

text \<open>
  What \<^verbatim>\<open>ssh_packet_send\<close> of \<^verbatim>\<open>src/libssh/src/packet.c\<close> keeps and promises: the buffers of the session
  stay well formed, packets are held back while keys are exchanged and leave in order after
  it, and the recursion through \<^verbatim>\<open>ssh_send_rekex\<close> ends.
\<close>

subsection \<open>The buffers of a session\<close>

definition out_buffers_inv :: "ssh_session \<Rightarrow> bool" where
  "out_buffers_inv s \<longleftrightarrow> buffer_inv (s_out_buffer s) \<and> (\<forall>b \<in> set (s_out_queue s). buffer_inv b)"

text \<open>
  What \<^verbatim>\<open>packet_send2\<close> relies on for its memory accesses: encryption keeps the length, the MAC
  buffer has the size of the longest digest, the random generator fills what it is given, and
  zlib writes at most one block per call.
\<close>

definition env_lengths :: "packet_env \<Rightarrow> bool" where
  "env_lengths e \<longleftrightarrow>
     (\<forall>seq x. length (co_encrypt (pe_ops e) seq x) = length x \<and> 64 \<le> length (co_mac (pe_ops e) seq x)) \<and>
     (\<forall>f seq x. co_aead_encrypt (pe_ops e) = Some f \<longrightarrow>
        length (fst (f seq x)) = length x \<and> 64 \<le> length (snd (f seq x))) \<and>
     (\<forall>n x. pe_random e n = Some x \<longrightarrow> length x = n) \<and>
     (\<forall>seq x out. Some out \<in> set (pe_deflate e seq x) \<longrightarrow> length out \<le> BLOCKSIZE)"

lemma env_encrypt:
  assumes "env_lengths e" and "ssh_packet_encrypt h (pe_ops e) s data = (out, mac)" and "4 \<le> length data"
  shows "length out = length data" and "mac = Some m \<Longrightarrow> 64 \<le> length m"
  using assms
  by (auto simp: ssh_packet_encrypt_def env_lengths_def Let_def mem_write_def
      split: option.splits if_splits prod.splits)
    (metis fst_conv snd_conv)+

lemma newkeys_buffers:
  "ssh_packet_set_newkeys h kx now s d = (rc, s') \<Longrightarrow> s_out_buffer s' = s_out_buffer s \<and> s_out_queue s' = s_out_queue s"
  by (auto simp: ssh_packet_set_newkeys_def newkeys_install_def Let_def split: if_splits option.splits prod.splits)

lemma count_out_buffers [simp]:
  "s_out_buffer (count_out n s) = s_out_buffer s" "s_out_queue (count_out n s) = s_out_queue s"
  by (auto simp: count_out_def put_crypto_def split: option.splits prod.splits which_crypto.splits)

lemma hmac_len_64: "hmac_digest_len t \<le> 64"
  by (cases t) (simp_all add: hmac_digest_len_def)

text \<open>After success the output buffer is empty.\<close>

lemma packet_emit_buffers:
  assumes inv: "buffer_inv b" "4 \<le> length (buf_content b)" and env: "env_lengths e"
    and call: "packet_emit e s b t type n = (rc, s')"
  shows "buffer_inv (s_out_buffer s')" and "s_out_queue s' = s_out_queue s"
    and "rc = SSH_OK \<Longrightarrow> buf_content (s_out_buffer s') = []"
proof -
  obtain data mac where enc: "ssh_packet_encrypt (pe_heap e) (pe_ops e) s (buf_content b) = (data, mac)"
    by (rule prod.exhaust)
  note l = env_encrypt [OF env enc inv(2)]
  let ?b3 = "b\<lparr>b_data := mem_write (b_data b) (b_pos b) data\<rparr>"
  note b3 = overwrite_content [OF inv(1) l(1)]
  obtain rc4 b4 where b4: "(case mac of None \<Rightarrow> (0, ?b3)
      | Some m \<Rightarrow> ssh_buffer_add_data (pe_heap e) ?b3 (Some m) (hmac_digest_len t)) = (rc4, b4)"
    by (rule prod.exhaust)
  have i4: "buffer_inv b4"
  proof (cases mac)
    case (Some m)
    then have "hmac_digest_len t \<le> length m"
      using l(2) hmac_len_64 by (metis le_trans)
    then have "buffer_inv (snd (ssh_buffer_add_data (pe_heap e) ?b3 (Some m) (hmac_digest_len t)))"
      using hmac_len_64 [of t] by (intro add_data_inv [OF b3(1)]) simp_all
    with Some b4 show ?thesis
      by simp
  qed (use b3 b4 in auto)
  obtain rc5 b5 where b5: "ssh_buffer_reinit (pe_heap e) b4 = (rc5, b5)"
    by (rule prod.exhaust)
  note i5 = reinit_props(1,2) [OF i4 b5]
  have "buffer_inv (s_out_buffer s') \<and> s_out_queue s' = s_out_queue s \<and>
      (rc = SSH_OK \<longrightarrow> buf_content (s_out_buffer s') = [])"
    using call i4 i5 newkeys_buffers
    by (auto simp: packet_emit_def enc b4 b5 Let_def split: if_splits)
  then show "buffer_inv (s_out_buffer s')" and "s_out_queue s' = s_out_queue s"
    and "rc = SSH_OK \<Longrightarrow> buf_content (s_out_buffer s') = []"
    by simp_all
qed

lemma gzip_loop_inv: "buffer_inv dest \<Longrightarrow> \<forall>x. Some x \<in> set outs \<longrightarrow> length x \<le> BLOCKSIZE \<Longrightarrow>
  gzip_loop h dest outs = Some d \<Longrightarrow> buffer_inv d"
proof (induction h dest outs rule: gzip_loop.induct)
  case (3 h dest out rest)
  obtain rc dest1 where d: "ssh_buffer_add_data h dest (Some out) (length out) = (rc, dest1)"
    by (rule prod.exhaust)
  then have i: "buffer_inv dest1"
    using add_data_inv [OF "3.prems"(1), of "length out" out h] "3.prems"(2) by (auto simp: BLOCKSIZE_def)
  show ?case
  proof (cases "rc < 0")
    case False
    with "3.IH" [OF d [symmetric] False _ i] "3.prems"(2,3) d i show ?thesis
      by (auto split: if_splits)
  qed (use d "3.prems"(3) in simp)
qed simp_all

lemma replace_content_inv:
  assumes "buffer_inv b" and "\<And>d. dest = Some d \<Longrightarrow> buffer_inv d" and "replace_content h b dest = (rc, b')"
  shows "buffer_inv b'"
proof (cases dest)
  case (Some d)
  obtain rc1 b1 where b1: "ssh_buffer_reinit h b = (rc1, b1)"
    by (rule prod.exhaust)
  note i1 = reinit_props(1) [OF assms(1) b1]
  have d: "buffer_inv d"
    by (rule assms(2) [OF Some])
  note bounds = buffer_inv_bounds [OF d]
  have len: "ssh_buffer_get_len d = length (buf_content d)" "length (buf_content d) \<le> 268435456"
    using get_len_content [OF d] content_bound [OF d] by simp_all
  have "buffer_inv (snd (ssh_buffer_add_data h b1 (ssh_buffer_get d) (ssh_buffer_get_len d)))"
  proof (cases "b_alloc d = 0")
    case True
    then show ?thesis
      using i1 by (simp add: ssh_buffer_get_def ssh_buffer_add_data_def)
  next
    case False
    have "length (buf_content d) \<le> length (drop (b_pos d) (b_data d))"
      using bounds by (simp add: buf_content_def)
    with False len show ?thesis
      using add_data_inv [OF i1, of "ssh_buffer_get_len d" "drop (b_pos d) (b_data d)" h] by (simp add: ssh_buffer_get_def)
  qed
  with assms(3) Some b1 i1 show ?thesis
    by (auto simp: replace_content_def split: if_splits prod.splits)
qed (use assms in \<open>auto simp: replace_content_def\<close>)

lemma compress_buffer_inv:
  assumes "buffer_inv b" and "env_lengths e" and "compress_buffer e s b = (rc, b')"
  shows "buffer_inv b'"
proof (rule replace_content_inv [OF assms(1) _ assms(3) [unfolded compress_buffer_def]])
  fix d
  assume "gzip_compress e s b = Some d"
  then obtain dest where "ssh_buffer_new (pe_heap e) = Some dest"
    and "gzip_loop (pe_heap e) dest (pe_deflate e (s_send_seq s) (buf_content b)) = Some d"
    by (auto simp: gzip_compress_def split: if_splits option.splits)
  with gzip_loop_inv [OF buffer_new_Some(1)] assms(2) show "buffer_inv d"
    unfolding env_lengths_def by blast
qed

text \<open>\<^verbatim>\<open>packet_send2\<close> behind the compression.\<close>

definition send_compresses :: "ssh_session \<Rightarrow> bool" where
  "send_compresses s = (case ssh_packet_get_current_crypto s SSH_DIRECTION_OUT of
      Some (_, c) \<Rightarrow> cr_do_compress_out c \<and> ssh_buffer_get_len (s_out_buffer s) > 0 | None \<Rightarrow> False)"

lemma packet_send2_unfold:
  assumes "out_params s = (bs, lf0, t, etm)"
    and "(if send_compresses s then compress_buffer e s (s_out_buffer s) else (SSH_ERROR, s_out_buffer s)) = (rc0, b0)"
  shows "packet_send2 e s =
    (let pad = padding_size bs (if etm then 0 else lf0) (if etm then 4 else 0) (ssh_buffer_get_len b0);
         header = be_bytes (of_nat (wrap32 (ssh_buffer_get_len b0 + 4294967296 - (if etm then 4 else 0) + pad + 1)) :: u32) @
           [of_nat pad :: u8]
     in if send_compresses s \<and> rc0 < 0 then (rc0, s\<lparr>s_out_buffer := b0\<rparr>)
        else case (if ssh_packet_get_current_crypto s SSH_DIRECTION_OUT = None then Some (replicate pad 0) else pe_random e pad) of
            None \<Rightarrow> (rc0, s\<lparr>s_out_buffer := b0\<rparr>)
          | Some padding \<Rightarrow>
              (case ssh_buffer_prepend_data (pe_heap e) b0 header 5 of
                 (rc1, b1) \<Rightarrow>
                   if rc1 < 0 then (rc1, s\<lparr>s_out_buffer := b1\<rparr>)
                   else case ssh_buffer_add_data (pe_heap e) b1 (Some padding) pad of
                       (rc2, b2) \<Rightarrow>
                         if rc2 < 0 then (rc2, s\<lparr>s_out_buffer := b2\<rparr>)
                         else packet_emit e s b2 t (hd (buf_content (s_out_buffer s))) (ssh_buffer_get_len (s_out_buffer s))))"
  unfolding packet_send2_def assms(1) prod.case Let_def send_compresses_def [symmetric] assms(2) by (rule refl)

text \<open>Only a random generator that fails makes a success of \<^verbatim>\<open>packet_send2\<close> that sends nothing.\<close>

lemma packet_send2_buffers:
  assumes inv: "buffer_inv (s_out_buffer s)" and env: "env_lengths e" and call: "packet_send2 e s = (rc, s')"
  shows "buffer_inv (s_out_buffer s')" and "s_out_queue s' = s_out_queue s"
    and "rc = SSH_OK \<Longrightarrow> \<forall>n. pe_random e n \<noteq> None \<Longrightarrow> buf_content (s_out_buffer s') = []"
proof -
  obtain bs lf0 t etm where params: "out_params s = (bs, lf0, t, etm)"
    by (cases "out_params s") auto
  let ?compress = "send_compresses s"
  obtain rc0 b0 where b0: "(if ?compress then compress_buffer e s (s_out_buffer s) else (SSH_ERROR, s_out_buffer s)) = (rc0, b0)"
    by (rule prod.exhaust)
  have i0: "buffer_inv b0"
    using b0 inv compress_buffer_inv [OF inv env] by (auto split: if_splits)
  let ?type = "hd (buf_content (s_out_buffer s))" and ?n = "ssh_buffer_get_len (s_out_buffer s)"
  define pad where "pad = padding_size bs (if etm then 0 else lf0) (if etm then 4 else 0) (ssh_buffer_get_len b0)"
  have pad: "pad < 256"
    by (simp add: pad_def padding_size_def Let_def)
  define header where "header = be_bytes (of_nat (wrap32 (ssh_buffer_get_len b0 + 4294967296 - (if etm then 4 else 0) + pad + 1)) :: u32) @ [of_nat pad :: u8]"
  have header: "length header = 5"
    by (simp add: header_def)
  let ?random = "if ssh_packet_get_current_crypto s SSH_DIRECTION_OUT = None then Some (replicate pad 0) else pe_random e pad"
  note step = packet_send2_unfold [OF params b0, unfolded Let_def, folded pad_def, folded header_def]
  have "buffer_inv (s_out_buffer s') \<and> s_out_queue s' = s_out_queue s \<and>
      (rc = SSH_OK \<and> (\<forall>n. pe_random e n \<noteq> None) \<longrightarrow> buf_content (s_out_buffer s') = [])"
  proof (cases "?compress \<and> rc0 < 0 \<or> ?random = None")
    case True
    with call step i0 show ?thesis
      by (auto split: if_splits) (metis option.distinct(1))+
  next
    case False
    then obtain padding where padding: "?random = Some padding"
      by blast
    then have lp: "length padding = pad"
      using env by (auto simp: env_lengths_def split: if_splits)
    obtain rc1 b1 where b1: "ssh_buffer_prepend_data (pe_heap e) b0 header 5 = (rc1, b1)"
      by (rule prod.exhaust)
    obtain rc2 b2 where b2: "ssh_buffer_add_data (pe_heap e) b1 (Some padding) pad = (rc2, b2)"
      by (rule prod.exhaust)
    have i1: "buffer_inv b1" "\<not> rc1 < 0 \<Longrightarrow> buf_content b1 = header @ buf_content b0" "rc1 = 0 \<or> rc1 = - 1"
      using b1 i0 header
      by (cases rule: prepend_data_cases [OF i0, where h = "pe_heap e" and d = header and len = 5]; simp)+
    have app: "appends b1 padding (rc2, b2)"
      using add_data_appends [OF i1(1), of pad padding "pe_heap e"] b2 lp pad by simp
    note i2 = appends_pair [OF app]
    consider (bad) "rc1 < 0" "rc = rc1" "s' = s\<lparr>s_out_buffer := b1\<rparr>"
      | (full) "rc2 < 0" "rc = rc2" "s' = s\<lparr>s_out_buffer := b2\<rparr>"
      | (emit) "\<not> rc1 < 0" "\<not> rc2 < 0" "packet_emit e s b2 t ?type ?n = (rc, s')"
      using call False unfolding step padding option.case b1 prod.case b2 by (auto split: if_splits)
    then show ?thesis
    proof cases
      case emit
      have "4 \<le> length (buf_content b2)"
        using i2 emit i1(2) header by auto
      from packet_emit_buffers [OF i2(1) this env emit(3)] show ?thesis
        by simp
    qed (use i1 i2 in auto)
  qed
  then show "buffer_inv (s_out_buffer s')" and "s_out_queue s' = s_out_queue s"
    and "rc = SSH_OK \<Longrightarrow> \<forall>n. pe_random e n \<noteq> None \<Longrightarrow> buf_content (s_out_buffer s') = []"
    by simp_all
qed

lemma newkeys_role:
  "ssh_packet_set_newkeys h kx now s d = (rc, s') \<Longrightarrow> s_server s' = s_server s \<and> s_client s' = s_client s"
  by (auto simp: ssh_packet_set_newkeys_def newkeys_install_def Let_def split: if_splits option.splits prod.splits)

lemma count_out_role [simp]: "s_server (count_out n s) = s_server s" "s_client (count_out n s) = s_client s"
  by (auto simp: count_out_def put_crypto_def split: option.splits prod.splits which_crypto.splits)

lemma emit_role:
  assumes "packet_emit e s b t type n = (rc, s')"
  shows "s_server s' = s_server s \<and> s_client s' = s_client s"
proof -
  obtain data mac where enc: "ssh_packet_encrypt (pe_heap e) (pe_ops e) s (buf_content b) = (data, mac)"
    by (rule prod.exhaust)
  obtain rc4 b4 where b4: "(case mac of None \<Rightarrow> (0, b\<lparr>b_data := mem_write (b_data b) (b_pos b) data\<rparr>)
      | Some m \<Rightarrow> ssh_buffer_add_data (pe_heap e) (b\<lparr>b_data := mem_write (b_data b) (b_pos b) data\<rparr>)
          (Some m) (hmac_digest_len t)) = (rc4, b4)"
    by (rule prod.exhaust)
  obtain rc5 b5 where b5: "ssh_buffer_reinit (pe_heap e) b4 = (rc5, b5)"
    by (rule prod.exhaust)
  show ?thesis
    using assms by (auto simp: packet_emit_def enc b4 b5 Let_def split: if_splits dest: newkeys_role)
qed

lemma send2_role:
  assumes call: "packet_send2 e s = (rc, s')"
  shows "s_server s' = s_server s \<and> s_client s' = s_client s"
proof -
  obtain bs lf0 t etm where params: "out_params s = (bs, lf0, t, etm)"
    by (cases "out_params s") auto
  obtain rc0 b0 where b0: "(if send_compresses s then compress_buffer e s (s_out_buffer s) else (SSH_ERROR, s_out_buffer s)) = (rc0, b0)"
    by (rule prod.exhaust)
  show ?thesis
    using call unfolding packet_send2_unfold [OF params b0] Let_def
    by (auto split: if_splits option.splits prod.splits dest: emit_role)
qed

lemma ssh_packet_send_unfold:
  "ssh_packet_send e s = packet_send_body (ssh_send_rekex (packet_send_depth 1 e) e) e s"
  by (simp add: ssh_packet_send_def numeral_2_eq_2)

subsection \<open>The message of a key exchange goes out at once\<close>

definition kexinit_ready :: "ssh_session \<Rightarrow> bool" where
  "kexinit_ready t \<longleftrightarrow> buffer_inv (s_out_buffer t) \<and> (\<exists>rest. buf_content (s_out_buffer t) = 20 # rest) \<and>
     s_dh_handshake_state t \<noteq> DH_STATE_FINISHED"

lemma kexinit_sent: "kexinit_ready t \<Longrightarrow> packet_send_body rekex e t = Ret (packet_send2 e t)"
  using get_len_content [of "s_out_buffer t"]
  by (auto simp: kexinit_ready_def packet_send_body_def ssh_packet_need_rekey_def ssh_packet_is_kex_def Let_def
      split: prod.splits)

lemma kex_strings_extends:
  assumes "buffer_inv hash" and "buffer_inv out" and "kex_strings h ms hash out = (rc, hash', out')"
  shows "buffer_inv out' \<and> (\<exists>y. buf_content out' = buf_content out @ y)"
  using assms
proof (induction h ms hash out rule: kex_strings.induct)
  case (2 h m ms hash out)
  show ?case
  proof (cases "ssh_string_from_char h m")
    case (Some str)
    then obtain w where "m = Some w"
      by (auto simp: ssh_string_from_char_def split: option.splits)
    with Some ssh_string_from_char_Some have ok: "ssh_string_ok str"
      by blast
    obtain rc1 hash1 where h1: "ssh_buffer_add_ssh_string h hash (Some str) = (rc1, hash1)"
      by (rule prod.exhaust)
    obtain rc2 out1 where o1: "ssh_buffer_add_ssh_string h out (Some str) = (rc2, out1)"
      by (rule prod.exhaust)
    note a1 = appends_pair [OF add_ssh_string_appends [OF "2.prems"(1) ok, of h, unfolded h1]]
    note a2 = appends_pair [OF add_ssh_string_appends [OF "2.prems"(2) ok, of h, unfolded o1]]
    show ?thesis
    proof (cases "rc1 < 0 \<or> rc2 < 0")
      case True
      with "2.prems" Some h1 o1 a2 show ?thesis
        by (auto split: if_splits)
    next
      case False
      with "2.prems"(3) Some h1 o1 have "kex_strings h ms hash1 out1 = (rc, hash', out')"
        by simp
      from "2.IH" [OF Some h1 [symmetric] _ o1 [symmetric] _ a1(1) a2(1) this] False a2(4) show ?thesis
        by (metis append_assoc)
    qed
  qed (use "2.prems" in simp)
qed auto

lemma hashbufout_inv:
  assumes "ssh_hashbufout_add_cookie e s next = (rc, Some hash)" and "\<not> rc < 0"
    and "length (kx_cookie (if s_server s then cr_server_kex next else cr_client_kex next)) = 16"
  shows "buffer_inv hash"
proof -
  let ?h = "pe_heap e" and ?cookie = "if s_server s then kx_cookie (cr_server_kex next) else kx_cookie (cr_client_kex next)"
  obtain b where b: "ssh_buffer_new ?h = Some b"
    using assms(1) by (auto simp: ssh_hashbufout_add_cookie_def Let_def split: option.splits)
  obtain rc1 b1 where b1: "ssh_buffer_allocate_size ?h b (1 + 16) = (rc1, b1)"
    by (rule prod.exhaust)
  obtain rc2 b2 where b2: "ssh_buffer_add_u8 ?h b1 20 = (rc2, b2)"
    by (rule prod.exhaust)
  obtain rc3 b3 where b3: "ssh_buffer_add_data ?h b2 (Some ?cookie) 16 = (rc3, b3)"
    by (rule prod.exhaust)
  have i1: "buffer_inv b1"
    using allocate_size_props(1) [OF buffer_new_Some(1) [OF b] b1] .
  have i2: "buffer_inv b2"
    using add_data_inv [OF i1, of 1 "[20]" ?h] b2 by (auto simp: ssh_buffer_add_u8_def split: prod.splits if_splits)
  have "buffer_inv b3"
    using add_data_inv [OF i2, of 16 ?cookie ?h] b3 assms(3) by (auto split: if_splits)
  with assms(1,2) b b1 b2 b3 show ?thesis
    by (auto simp: ssh_hashbufout_add_cookie_def Let_def split: if_splits)
qed

lemma ssh_send_kex_cong:
  assumes inv: "buffer_inv (s_out_buffer s)" "buf_content (s_out_buffer s) = []" "s_dh_handshake_state s \<noteq> DH_STATE_FINISHED"
    and cookie: "length (kx_cookie (if s_server s then cr_server_kex next else cr_client_kex next)) = 16"
    and eq: "\<And>t. kexinit_ready t \<Longrightarrow> send t = send' t"
  shows "ssh_send_kex send e s next (s_server s) = ssh_send_kex send' e s next (s_server s)"
proof -
  let ?h = "pe_heap e" and ?kex = "if s_server s then cr_server_kex next else cr_client_kex next"
  obtain rc1 b1 where b1: "pack_call ?h (s_out_buffer s) [FByte 20, FBytes (kx_cookie ?kex)] = (rc1, b1)"
    by (rule prod.exhaust)
  obtain rc2 ho where ho: "ssh_hashbufout_add_cookie e s next = (rc2, ho)"
    by (rule prod.exhaust)
  have app: "appends (s_out_buffer s) (wire_of nat_bignum [FByte 20, FBytes (kx_cookie ?kex)]) (rc1, b1)"
    unfolding b1 [symmetric] using cookie by (intro pack_call_appends [OF inv(1)]) auto
  have ready: "kexinit_ready (s\<lparr>s_out_buffer := b3, s_out_hashbuf := Some hash1\<rparr>)"
    if ok: "rc1 = SSH_OK" "ho = Some hash" "\<not> rc2 < 0"
      "kex_strings ?h (kx_methods ?kex) hash b1 = (rc3, hash1, b2)" "pack_call ?h b2 [FByte 0, FDword 0] = (rc4, b3)"
    for hash hash1 b2 b3 rc3 rc4
  proof -
    note i1 = appends_pair(1) [OF app] appends_pair(3) [OF app ok(1)]
    have c1: "buf_content b1 = 20 # kx_cookie ?kex"
      using i1(2) inv(2) by (simp add: wire_of_def)
    have "buffer_inv hash"
      using hashbufout_inv [of e s "next" rc2 hash] ho ok(2,3) cookie by simp
    from kex_strings_extends [OF this i1(1) ok(4)] c1
    have i2: "buffer_inv b2" "\<exists>y. buf_content b2 = 20 # y"
      by auto
    have "appends b2 (wire_of nat_bignum [FByte 0, FDword 0]) (rc4, b3)"
      unfolding ok(5) [symmetric] by (intro pack_call_appends [OF i2(1)]) auto
    from appends_pair(1,4) [OF this] i2(2) inv(3) show ?thesis
      by (auto simp: kexinit_ready_def)
  qed
  show ?thesis
    unfolding ssh_send_kex_def Let_def b1 ho prod.case
    by (auto split: option.splits prod.splits simp: eq [OF ready])
qed

text \<open>
  A session whose output buffer is empty and whose side is known, in an environment where the
  server's proposal has a cookie too.
\<close>

definition rekey_ready :: "ssh_session \<Rightarrow> bool" where
  "rekey_ready s \<longleftrightarrow> buffer_inv (s_out_buffer s) \<and> buf_content (s_out_buffer s) = [] \<and> s_server s = (\<not> s_client s)"

definition env_cookies :: "packet_env \<Rightarrow> bool" where
  "env_cookies e \<longleftrightarrow> (\<forall>c rc c'. pe_server_set_kex e c = (rc, c') \<longrightarrow> length (kx_cookie (cr_server_kex c')) = 16)"

lemma client_cookie:
  assumes "ssh_set_client_kex e s next = Ret (SSH_OK, next1)" and "env_lengths e"
  shows "length (kx_cookie (cr_client_kex next1)) = 16"
  using assms
  by (auto simp: ssh_set_client_kex_def env_lengths_def run_bind_Ret Let_def split: option.splits if_splits)

lemma ssh_send_rekex_cong:
  assumes ready: "rekey_ready s" and env: "env_lengths e" "env_cookies e"
    and eq: "\<And>t. kexinit_ready t \<Longrightarrow> send t = send' t"
  shows "ssh_send_rekex send e s = ssh_send_rekex send' e s"
proof -
  have kex: "ssh_send_kex send e (s\<lparr>s_next_crypto := n, s_dh_handshake_state := DH_STATE_INIT\<rparr>) next1 (s_server s) =
      ssh_send_kex send' e (s\<lparr>s_next_crypto := n, s_dh_handshake_state := DH_STATE_INIT\<rparr>) next1 (s_server s)"
    if "length (kx_cookie (if s_server s then cr_server_kex next1 else cr_client_kex next1)) = 16" for n next1
    using ssh_send_kex_cong [OF _ _ _ _ eq, of "s\<lparr>s_next_crypto := n, s_dh_handshake_state := DH_STATE_INIT\<rparr>"] that ready
    by (simp add: rekey_ready_def)
  show ?thesis
  proof (cases "s_client s")
    case True
    then show ?thesis
      using kex client_cookie [OF _ env(1)] ready
      by (auto simp: ssh_send_rekex_def rekey_ready_def Let_def run_bind_def split: option.splits run.splits)
  next
    case False
    then show ?thesis
      using kex env(2) ready
      by (auto simp: ssh_send_rekex_def rekey_ready_def env_cookies_def Let_def split: option.splits prod.splits)
  qed
qed

lemma flush_queue_cong:
  assumes "rekey_ready s" and "\<forall>b \<in> set q. buffer_inv b" and "env_lengths e" and "\<forall>n. pe_random e n \<noteq> None"
    and "\<And>t. rekey_ready t \<Longrightarrow> rekex t = rekex' t"
  shows "flush_queue rekex e q s = flush_queue rekex' e q s"
  using assms(1,2)
proof (induction q arbitrary: s)
  case (Cons b bs)
  obtain rc s1 where s1: "packet_send2 e (s\<lparr>s_out_buffer := b, s_out_queue := bs\<rparr>) = (rc, s1)"
    by (rule prod.exhaust)
  show ?case
  proof (cases "rc = SSH_OK")
    case True
    have "rekey_ready s1"
      using packet_send2_buffers [OF _ assms(3) s1] send2_role [OF s1] Cons.prems True assms(4)
      by (simp add: rekey_ready_def)
    with Cons.IH Cons.prems s1 True assms(5) [OF Cons.prems(1)] show ?thesis
      by simp
  qed (use s1 assms(5) [OF Cons.prems(1)] in simp)
qed simp

subsection \<open>Order\<close>

text \<open>
  Sending a list of packets one after the other, with the bytes each put on the wire. The
  session may change between two of them only by what sending does.
\<close>

inductive sends :: "packet_env \<Rightarrow> ssh_session \<Rightarrow> ssh_buffer list \<Rightarrow> bytes list \<Rightarrow> ssh_session \<Rightarrow> bool" for e where
  none: "sends e s [] [] s"
| one: "packet_send2 e (s\<lparr>s_out_buffer := b, s_out_queue := q\<rparr>) = (SSH_OK, s1) \<Longrightarrow> s_sent s1 = s_sent s @ [w] \<Longrightarrow>
    sends e s1 bs ws s2 \<Longrightarrow> sends e s (b # bs) (w # ws) s2"

lemma sends_order: "sends e s bs ws s' \<Longrightarrow> s_sent s' = s_sent s @ ws \<and> length ws = length bs"
  by (induction rule: sends.induct) auto

lemma newkeys_sent: "ssh_packet_set_newkeys h kx now s d = (rc, s') \<Longrightarrow> s_sent s' = s_sent s"
  by (auto simp: ssh_packet_set_newkeys_def newkeys_install_def Let_def split: if_splits option.splits prod.splits)

lemma count_out_sent [simp]: "s_sent (count_out n s) = s_sent s"
  by (auto simp: count_out_def put_crypto_def split: option.splits prod.splits which_crypto.splits)

lemma emit_one:
  assumes "packet_emit e s b t type n = (SSH_OK, s')"
  shows "\<exists>w. s_sent s' = s_sent s @ [w]"
proof -
  obtain data mac where enc: "ssh_packet_encrypt (pe_heap e) (pe_ops e) s (buf_content b) = (data, mac)"
    by (rule prod.exhaust)
  obtain rc4 b4 where b4: "(case mac of None \<Rightarrow> (0, b\<lparr>b_data := mem_write (b_data b) (b_pos b) data\<rparr>)
      | Some m \<Rightarrow> ssh_buffer_add_data (pe_heap e) (b\<lparr>b_data := mem_write (b_data b) (b_pos b) data\<rparr>)
          (Some m) (hmac_digest_len t)) = (rc4, b4)"
    by (rule prod.exhaust)
  obtain rc5 b5 where b5: "ssh_buffer_reinit (pe_heap e) b4 = (rc5, b5)"
    by (rule prod.exhaust)
  show ?thesis
    using assms by (auto simp: packet_emit_def enc b4 b5 Let_def split: if_splits dest: newkeys_sent)
qed

lemma send2_one:
  assumes call: "packet_send2 e s = (SSH_OK, s')" and rnd: "\<forall>n. pe_random e n \<noteq> None"
  shows "\<exists>w. s_sent s' = s_sent s @ [w]"
proof -
  obtain bs lf0 t etm where params: "out_params s = (bs, lf0, t, etm)"
    by (cases "out_params s") auto
  obtain rc0 b0 where b0: "(if send_compresses s then compress_buffer e s (s_out_buffer s) else (SSH_ERROR, s_out_buffer s)) = (rc0, b0)"
    by (rule prod.exhaust)
  show ?thesis
    using call rnd unfolding packet_send2_unfold [OF params b0] Let_def
    by (auto split: if_splits option.splits prod.splits dest: emit_one) (metis option.distinct(1))+
qed

lemma flush_queue_sends:
  assumes "flush_queue rekex e q s = Ret (SSH_OK, s')" and "s_out_queue s = q"
    and "\<forall>b \<in> set q. buffer_inv b" and "env_lengths e" and "\<forall>n. pe_random e n \<noteq> None"
  shows "\<exists>k ws t. sends e s (take k q) ws t \<and> s_out_queue t = drop k q \<and>
    (k = length q \<and> s' = t \<or>
     k < length q \<and> ssh_packet_need_rekey (pe_now e) t (ssh_buffer_get_len (q ! k)) \<and> rekex t = Ret (SSH_OK, s'))"
  using assms(1-3)
proof (induction q arbitrary: s)
  case (Cons b bs)
  show ?case
  proof (cases "ssh_packet_need_rekey (pe_now e) s (ssh_buffer_get_len b)")
    case True
    with Cons.prems show ?thesis
      by (intro exI [of _ 0] exI [of _ "[]"] exI [of _ s]) (auto intro: sends.none)
  next
    case False
    then obtain s1 where s1: "packet_send2 e (s\<lparr>s_out_buffer := b, s_out_queue := bs\<rparr>) = (SSH_OK, s1)"
      and rest: "flush_queue rekex e bs s1 = Ret (SSH_OK, s')"
      using Cons.prems(1) by (auto split: prod.splits if_splits)
    have "s_out_queue s1 = bs"
      using packet_send2_buffers(2) [OF _ assms(4) s1] Cons.prems(3) by simp
    with Cons.IH [OF rest] Cons.prems(3) obtain k ws t where
      "sends e s1 (take k bs) ws t" "s_out_queue t = drop k bs"
      "k = length bs \<and> s' = t \<or>
       k < length bs \<and> ssh_packet_need_rekey (pe_now e) t (ssh_buffer_get_len (bs ! k)) \<and> rekex t = Ret (SSH_OK, s')"
      by auto
    moreover obtain w where "s_sent s1 = s_sent s @ [w]"
      using send2_one [OF s1 assms(5)] by auto
    ultimately show ?thesis
      using sends.one [OF s1] by (intro exI [of _ "Suc k"] exI [of _ "w # ws"] exI [of _ t]) auto
  qed
qed (auto intro: sends.none)

subsection \<open>Properties\<close>

text \<open>An environment and a session in the middle of an exchange, for concrete runs.\<close>

definition wide_env :: packet_env where
  "wide_env = sample_env\<lparr>pe_ops := sample_ops\<lparr>co_mac := (\<lambda>_ _. replicate 64 1)\<rparr>, pe_deflate := (\<lambda>_ _. []),
     pe_server_set_kex := (\<lambda>c. (SSH_OK, c\<lparr>cr_server_kex := empty_kex\<rparr>))\<rparr>"

lemma wide_env_props:
  "env_lengths wide_env" "env_cookies wide_env" "\<forall>n. pe_random wide_env n \<noteq> None"
  "\<forall>n. \<exists>x. pe_random wide_env n = Some x \<and> length x = n" "\<forall>n. heap_grants (pe_heap wide_env) n"
  "\<forall>w. pe_write wide_env w \<noteq> SSH_ERROR" "ops_lengths (pe_ops wide_env) SSH_HMAC_SHA512"
  by (simp_all add: env_lengths_def env_cookies_def wide_env_def sample_env_def sample_ops_def empty_kex_def
      ops_lengths_def hmac_digest_len_def)

definition rekey_session :: ssh_session where
  "rekey_session = sample_session\<lparr>s_flags := 2, s_dh_handshake_state := DH_STATE_INIT_SENT,
     s_next_crypto := Some (sample_crypto\<lparr>cr_out_hmac := SSH_HMAC_SHA512\<rparr>)\<rparr>"

text \<open>A packet outside the exchange joins the queue.\<close>

lemma packet_queued:
  assumes "ssh_packet_in_rekey s" and "buffer_inv (s_out_buffer s)"
    and "buf_content (s_out_buffer s) = type # rest" and "\<not> ssh_packet_is_kex (unat type)"
    and "\<forall>n. heap_grants (pe_heap e) n"
  shows "\<exists>b. ssh_packet_send e s = Ret (SSH_OK, s\<lparr>s_out_queue := s_out_queue s @ [s_out_buffer s], s_out_buffer := b\<rparr>) \<and>
    buffer_inv b \<and> buf_content b = []"
proof -
  obtain b where b: "ssh_buffer_new (pe_heap e) = Some b"
    using buffer_new_granted [OF assms(5)] by blast
  have "ssh_buffer_get_len (s_out_buffer s) = Suc (length rest)"
    using get_len_content [OF assms(2)] assms(3) by simp
  moreover have "\<not> ssh_packet_need_rekey (pe_now e) s n" for n
    using assms(1) by (simp add: ssh_packet_need_rekey_def ssh_packet_in_rekey_def)
  ultimately show ?thesis
    using assms b buffer_new_Some [OF b]
    by (intro exI [of _ b]) (simp add: ssh_packet_send_def numeral_2_eq_2 packet_send_body_def Let_def)
qed

text \<open>
  C13. While keys are exchanged again, a packet that is not part of the exchange waits:
  \<^verbatim>\<open>ssh_packet_send\<close> succeeds, hands nothing to the socket, does not count the packet, puts it
  behind the packets that wait already, and leaves an empty output buffer for the next one.
\<close>

theorem packet_waits_for_keys:
  assumes "ssh_packet_in_rekey s" and "buffer_inv (s_out_buffer s)"
    and "buf_content (s_out_buffer s) = type # rest" and "\<not> ssh_packet_is_kex (unat type)"
    and "\<forall>n. heap_grants (pe_heap e) n"
  shows "\<exists>b. ssh_packet_send e s = Ret (SSH_OK, s\<lparr>s_out_queue := s_out_queue s @ [s_out_buffer s], s_out_buffer := b\<rparr>) \<and>
    buffer_inv b \<and> buf_content b = []"
  using assms by (rule packet_queued)

theorem packet_waits_for_keys_witness:
  "\<exists>s'. ssh_packet_send wide_env (rekey_session\<lparr>s_out_buffer := holding [94, 7], s_out_queue := [holding [90]]\<rparr>) = Ret (SSH_OK, s') \<and>
    map buf_content (s_out_queue s') = [[90], [94, 7]] \<and> s_sent s' = []"
proof -
  let ?s = "rekey_session\<lparr>s_out_buffer := holding [94, 7], s_out_queue := [holding [90]]\<rparr>"
  have "ssh_packet_in_rekey ?s" and "\<not> ssh_packet_is_kex (unat (94 :: u8))" and "s_sent rekey_session = []"
    by code_simp+
  with packet_waits_for_keys [of ?s 94 "[7]" wide_env] obtain b where
    "ssh_packet_send wide_env ?s = Ret (SSH_OK, ?s\<lparr>s_out_queue := s_out_queue ?s @ [s_out_buffer ?s], s_out_buffer := b\<rparr>)"
    and "s_sent rekey_session = []"
    by (auto simp: holding_props wide_env_props)
  then show ?thesis
    by (simp add: holding_props)
qed

text \<open>
  C12. After the keys are switched the waiting packets leave in the order they came: when the
  sending of \<^verbatim>\<open>NEWKEYS\<close> succeeds, the packets of the queue follow it on the wire, each as one write,
  first come first served, and the queue keeps exactly those not sent yet. It is not emptied
  only when the new keys are used up in turn and another exchange was started.
\<close>

theorem queue_leaves_in_order:
  assumes inv: "out_buffers_inv s" and env: "env_lengths e" "\<forall>n. pe_random e n \<noteq> None"
    and newkeys: "buf_content (s_out_buffer s) = 21 # rest" and idle: "\<not> ssh_packet_need_rekey (pe_now e) s (Suc (length rest))"
    and call: "ssh_packet_send e s = Ret (SSH_OK, s')"
  shows "\<exists>w s1 k ws t. packet_send2 e s = (SSH_OK, s1) \<and> s_sent s1 = s_sent s @ [w] \<and>
    sends e s1 (take k (s_out_queue s)) ws t \<and> s_sent t = s_sent s @ w # ws \<and> length ws = min k (length (s_out_queue s)) \<and>
    s_out_queue t = drop k (s_out_queue s) \<and>
    (k = length (s_out_queue s) \<and> s' = t \<or>
     k < length (s_out_queue s) \<and> ssh_packet_need_rekey (pe_now e) t (ssh_buffer_get_len (s_out_queue s ! k)) \<and>
     ssh_send_rekex (packet_send_depth 1 e) e t = Ret (SSH_OK, s'))"
proof -
  have b: "buffer_inv (s_out_buffer s)"
    using inv by (simp add: out_buffers_inv_def)
  have "ssh_buffer_get_len (s_out_buffer s) = Suc (length rest)"
    using get_len_content [OF b] newkeys by simp
  moreover have "ssh_packet_is_kex (unat (21 :: u8))"
    by (simp add: ssh_packet_is_kex_def)
  ultimately obtain s1 where s1: "packet_send2 e s = (SSH_OK, s1)"
    and flush: "flush_queue (ssh_send_rekex (packet_send_depth 1 e) e) e (s_out_queue s1) s1 = Ret (SSH_OK, s')"
    using call newkeys idle that unfolding ssh_packet_send_def numeral_2_eq_2 packet_send_depth.simps One_nat_def
    by (cases "packet_send2 e s") (simp del: unat_numeral add: packet_send_body_def split: if_splits)
  have q: "s_out_queue s1 = s_out_queue s"
    by (rule packet_send2_buffers(2) [OF b env(1) s1])
  obtain w where w: "s_sent s1 = s_sent s @ [w]"
    using send2_one [OF s1 env(2)] by blast
  obtain k ws t where k: "sends e s1 (take k (s_out_queue s)) ws t" "s_out_queue t = drop k (s_out_queue s)"
    "k = length (s_out_queue s) \<and> s' = t \<or>
     k < length (s_out_queue s) \<and> ssh_packet_need_rekey (pe_now e) t (ssh_buffer_get_len (s_out_queue s ! k)) \<and>
     ssh_send_rekex (packet_send_depth 1 e) e t = Ret (SSH_OK, s')"
    using flush_queue_sends [OF flush refl _ env] inv q by (auto simp: out_buffers_inv_def)
  moreover have "s_sent t = s_sent s @ w # ws \<and> length ws = min k (length (s_out_queue s))"
    using sends_order [OF k(1)] w by (simp add: min.commute)
  ultimately show ?thesis
    using s1 w by blast
qed

theorem queue_leaves_in_order_witness:
  "\<exists>s' (t :: ssh_session) w ws k. ssh_packet_send wide_env (rekey_session\<lparr>s_out_buffer := holding [21], s_out_queue := [holding [94, 7]]\<rparr>) =
      Ret (SSH_OK, s') \<and> s_sent t = w # ws \<and> length ws = min k 1 \<and> s_out_queue t = drop k [holding [94, 7]]"
proof -
  let ?s = "rekey_session\<lparr>s_out_buffer := holding [21], s_out_queue := [holding [94, 7]]\<rparr>"
  note defs = rekey_session_def sample_session_def
  have p: "out_params ?s = (8, 0, SSH_HMAC_SHA512, False)" and c: "\<not> compresses ?s"
    by (simp_all add: out_params_def compresses_def ssh_packet_get_current_crypto_def defs sample_crypto_def direction_defs)
  have inv: "buffer_inv (s_out_buffer ?s)"
    by (simp add: holding_props)
  obtain w b5 where sent: "packet_send2 wide_env ?s = emitted wide_env 21 (sent_session ?s w 1 b5)"
    by (rule packet_send2_runs [OF inv p wide_env_props(7,4) c _ _ _ wide_env_props(5,6)])
      (use that in \<open>simp_all add: holding_props\<close>)
  obtain s1 where s1: "packet_send2 wide_env ?s = (SSH_OK, s1)"
    and n: "s_out_queue s1 = [holding [94, 7]]" "s_dh_handshake_state s1 = DH_STATE_INIT_SENT"
      "out_params (s1\<lparr>s_out_buffer := holding [94, 7], s_out_queue := []\<rparr>) = (16, 0, SSH_HMAC_SHA512, False)"
      "\<not> compresses (s1\<lparr>s_out_buffer := holding [94, 7], s_out_queue := []\<rparr>)"
    unfolding sent
    by (auto simp: emitted_def sent_session_def count_out_def ssh_packet_get_current_crypto_def ssh_packet_set_newkeys_def
        newkeys_install_def wide_env_def sample_env_def sample_kex_def sample_crypto_def sample_cipher_def defs direction_defs
        out_params_def compresses_def ssh_init_rekey_state_def Let_def)
  have inv2: "buffer_inv (s_out_buffer (s1\<lparr>s_out_buffer := holding [94, 7], s_out_queue := []\<rparr>))"
    by (simp add: holding_props)
  obtain s2 where s2: "packet_send2 wide_env (s1\<lparr>s_out_buffer := holding [94, 7], s_out_queue := []\<rparr>) = (SSH_OK, s2)"
    by (rule packet_send2_runs [OF inv2 n(3) wide_env_props(7,4) n(4) _ _ _ wide_env_props(5,6)])
      (use that in \<open>simp_all add: holding_props emitted_def\<close>)
  have len: "ssh_buffer_get_len (holding [21]) = 1"
    using get_len_content [OF inv] by (simp add: holding_props)
  have idle: "\<not> ssh_packet_need_rekey now t m" if "s_dh_handshake_state t = DH_STATE_INIT_SENT" for now t m
    using that by (simp add: ssh_packet_need_rekey_def)
  have dh: "s_dh_handshake_state ?s = DH_STATE_INIT_SENT" and kex: "ssh_packet_is_kex 21"
    and out: "buf_content (s_out_buffer ?s) = [21]" and none: "s_sent ?s = []"
    and len': "ssh_buffer_get_len (s_out_buffer ?s) = 1"
    by (simp_all add: defs ssh_packet_is_kex_def holding_props len)
  have send: "ssh_packet_send wide_env ?s = Ret (SSH_OK, s2)"
    using s2 n(1)
    by (simp add: ssh_packet_send_unfold packet_send_body_def Let_def
        idle [OF dh] idle [OF n(2)] kex s1 out len' holding_props(2) len)
  have "out_buffers_inv ?s"
    by (simp add: out_buffers_inv_def holding_props)
  from queue_leaves_in_order [OF this wide_env_props(1,3) out idle [OF dh] send]
  obtain t :: ssh_session and w ws k where "s_sent t = s_sent ?s @ w # ws" "length ws = min k (length (s_out_queue ?s))"
    "s_out_queue t = drop k (s_out_queue ?s)"
    by blast
  then have "s_sent t = w # ws" "length ws = min k 1" "s_out_queue t = drop k [holding [94, 7]]"
    using none by simp_all
  with send show ?thesis
    by blast
qed



end
