(* ===== verification/Login.thy ===== *)
theory Login
  imports Client Packet_Queue
begin

text \<open>
  What the operations of a client may do to the state of its login. One relation, \<open>keeps\<close>, says
  that a step neither finishes an exchange of keys nor authenticates; every operation is shown to
  stay in it, function by function, save the handlers of \<^verbatim>\<open>NEWKEYS\<close> and \<^verbatim>\<open>USERAUTH_SUCCESS\<close>.
\<close>

subsection \<open>What no step may do\<close>

text \<open>A run whose result, if it has one, satisfies a predicate.\<close>

definition ends :: "('a \<Rightarrow> bool) \<Rightarrow> 'a run \<Rightarrow> bool" where
  "ends P r \<longleftrightarrow> (\<forall>x. r = Ret x \<longrightarrow> P x)"

lemma ends_Ret [simp]: "ends P (Ret x) = P x"
  and ends_Overflow [simp]: "ends P Overflow"
  by (simp_all add: ends_def)

lemma ends_bind: "ends Q r \<Longrightarrow> (\<And>x. Q x \<Longrightarrow> ends P (f x)) \<Longrightarrow> ends P (run_bind r f)"
  by (cases r) (simp_all add: ends_def)

lemma endsD: "ends P r \<Longrightarrow> r = Ret x \<Longrightarrow> P x"
  by (simp add: ends_def)

text \<open>
  The part of the session the login is about. \<open>keeps s t\<close>: from \<open>s\<close> to \<open>t\<close> no exchange of keys
  was finished and nobody authenticated; a finished exchange may have been turned into a connection.
\<close>

definition keeps :: "ssh_session \<Rightarrow> ssh_session \<Rightarrow> bool" where
  "keeps s t \<longleftrightarrow> s_server t = s_server s \<and> s_flags t = s_flags s \<and>
     (s_dh_handshake_state t = DH_STATE_FINISHED \<longrightarrow> s_dh_handshake_state s = DH_STATE_FINISHED) \<and>
     (s_connected t \<longrightarrow> s_connected s \<or> s_dh_handshake_state s = DH_STATE_FINISHED) \<and>
     (s_session_state t = SSH_SESSION_STATE_AUTHENTICATING \<longrightarrow>
        s_session_state s = SSH_SESSION_STATE_AUTHENTICATING \<or> s_dh_handshake_state s = DH_STATE_FINISHED) \<and>
     (s_session_state t = SSH_SESSION_STATE_AUTHENTICATED \<longrightarrow>
        s_session_state s = SSH_SESSION_STATE_AUTHENTICATED \<or> s_flags s AND SSH_SESSION_FLAG_AUTHENTICATED \<noteq> 0)"

lemma keeps_refl [simp]: "keeps s s"
  by (simp add: keeps_def)

lemma keeps_trans: "keeps s t \<Longrightarrow> keeps t u \<Longrightarrow> keeps s u"
  by (auto simp: keeps_def)

text \<open>Fields outside that part.\<close>

lemma keeps_fields [simp]:
  "keeps s (t\<lparr>s_out_buffer := ob\<rparr>) = keeps s t"
  "keeps s (t\<lparr>s_in_buffer := ib\<rparr>) = keeps s t"
  "keeps s (t\<lparr>s_out_queue := q\<rparr>) = keeps s t"
  "keeps s (t\<lparr>s_current_crypto := c\<rparr>) = keeps s t"
  "keeps s (t\<lparr>s_next_crypto := c\<rparr>) = keeps s t"
  "keeps s (t\<lparr>s_sent := l\<rparr>) = keeps s t"
  "keeps s (t\<lparr>s_send_seq := k\<rparr>) = keeps s t"
  "keeps s (t\<lparr>s_recv_seq := k\<rparr>) = keeps s t"
  "keeps s (t\<lparr>s_in_type := y\<rparr>) = keeps s t"
  "keeps s (t\<lparr>s_in_len := k\<rparr>) = keeps s t"
  "keeps s (t\<lparr>s_packet_state := ps\<rparr>) = keeps s t"
  "keeps s (t\<lparr>s_in_hashbuf := ib\<rparr>) = keeps s t"
  "keeps s (t\<lparr>s_out_hashbuf := ib\<rparr>) = keeps s t"
  "keeps s (t\<lparr>s_last_rekey_time := tm\<rparr>) = keeps s t"
  "keeps s (t\<lparr>s_extensions := k\<rparr>) = keeps s t"
  "keeps s (t\<lparr>s_alive := al\<rparr>) = keeps s t"
  "keeps s (t\<lparr>s_kex_callbacks := kc\<rparr>) = keeps s t"
  "keeps s (t\<lparr>s_first_kex_follows_guess_wrong := al\<rparr>) = keeps s t"
  by (simp_all add: keeps_def)

lemma keeps_fields2 [simp]:
  "keeps s (t\<lparr>s_service_state := sv\<rparr>) = keeps s t"
  "keeps s (t\<lparr>s_auth_state := au\<rparr>) = keeps s t"
  "keeps s (t\<lparr>s_supported_methods := k\<rparr>) = keeps s t"
  "keeps s (t\<lparr>s_current_method := k\<rparr>) = keeps s t"
  "keeps s (t\<lparr>s_pending_call := pc\<rparr>) = keeps s t"
  "keeps s (t\<lparr>s_kbdint := kb\<rparr>) = keeps s t"
  "keeps s (t\<lparr>s_banner := bn\<rparr>) = keeps s t"
  "keeps s (t\<lparr>s_serverbanner := sb\<rparr>) = keeps s t"
  "keeps s (t\<lparr>s_clientbanner := sb\<rparr>) = keeps s t"
  "keeps s (t\<lparr>s_openssh := n\<rparr>) = keeps s t"
  "keeps s (t\<lparr>s_opt_username := sb\<rparr>) = keeps s t"
  "keeps s (t\<lparr>s_channels := chs\<rparr>) = keeps s t"
  "keeps s (t\<lparr>s_maxchannel := k\<rparr>) = keeps s t"
  "keeps s (t\<lparr>s_global_req_state := gr\<rparr>) = keeps s t"
  by (simp_all add: keeps_def)

lemma keeps_states:
  "keeps s t \<Longrightarrow> d \<noteq> DH_STATE_FINISHED \<Longrightarrow> keeps s (t\<lparr>s_dh_handshake_state := d\<rparr>)"
  "keeps s t \<Longrightarrow> st \<noteq> SSH_SESSION_STATE_AUTHENTICATING \<Longrightarrow> st \<noteq> SSH_SESSION_STATE_AUTHENTICATED \<Longrightarrow>
     keeps s (t\<lparr>s_session_state := st\<rparr>)"
  by (simp_all add: keeps_def)

lemma keeps_put_crypto [simp]: "keeps s (put_crypto w c t) = keeps s t"
  by (cases w) (simp_all add: put_crypto_def)

lemma keeps_put_exchange [simp]: "keeps s (put_exchange x t) = keeps s t"
  by (simp add: put_exchange_def)

abbreviation kept :: "ssh_session \<Rightarrow> ('a \<times> ssh_session) run \<Rightarrow> bool" where
  "kept s r \<equiv> ends (\<lambda>y. keeps s (snd y)) r"

lemma kept_trans: "keeps s t \<Longrightarrow> kept t r \<Longrightarrow> kept s r"
  by (auto simp: ends_def intro: keeps_trans)

lemma kept_bind: "kept s r \<Longrightarrow> (\<And>x t. keeps s t \<Longrightarrow> ends P (f (x, t))) \<Longrightarrow> ends P (run_bind r f)"
  by (cases r) (auto simp: ends_def)

lemma ends_prod: "(\<And>a b. p = (a, b) \<Longrightarrow> ends P (f a b)) \<Longrightarrow> ends P (case p of (a, b) \<Rightarrow> f a b)"
  by (cases p) simp

lemma ends_option:
  "(x = None \<Longrightarrow> ends P f) \<Longrightarrow> (\<And>y. x = Some y \<Longrightarrow> ends P (g y)) \<Longrightarrow>
   ends P (case x of None \<Rightarrow> f | Some y \<Rightarrow> g y)"
  by (cases x) simp_all

lemma ends_if: "(b \<Longrightarrow> ends P f) \<Longrightarrow> (\<not> b \<Longrightarrow> ends P g) \<Longrightarrow> ends P (if b then f else g)"
  by simp

lemma ends_Let: "(\<And>x. x = t \<Longrightarrow> ends P (f x)) \<Longrightarrow> ends P (Let t f)"
  by simp

lemmas ends_rules = ends_prod ends_option ends_if ends_Let

subsection \<open>Sending\<close>

lemma set_newkeys_keeps: "ssh_packet_set_newkeys h kx now t d = (rc, u) \<Longrightarrow> keeps s u = keeps s t"
  by (auto simp: ssh_packet_set_newkeys_def newkeys_install_def Let_def split: if_splits option.splits prod.splits)

lemma count_out_keeps [simp]: "keeps s (count_out n t) = keeps s t"
  by (auto simp: count_out_def split: option.splits prod.splits)

lemma packet_emit_keeps: "packet_emit e t b y k n = (rc, u) \<Longrightarrow> keeps s u = keeps s t"
  by (auto simp: packet_emit_def Let_def set_newkeys_keeps split: if_splits prod.splits)

lemma packet_send2_keeps: "packet_send2 e t = (rc, u) \<Longrightarrow> keeps s u = keeps s t"
  by (auto simp: packet_send2_def Let_def packet_emit_keeps split: if_splits prod.splits option.splits)

lemma ssh_send_kex_kept:
  assumes "\<And>t. keeps s t \<Longrightarrow> kept s (send t)" and "keeps s t"
  shows "kept s (ssh_send_kex send e t next k)"
  unfolding ssh_send_kex_def
  by (intro ends_rules kept_bind [OF assms(1)]) (use assms(2) in auto)

lemma ssh_send_rekex_kept:
  assumes "\<And>t. keeps s t \<Longrightarrow> kept s (send t)" and "keeps s t"
  shows "kept s (ssh_send_rekex send e t)"
  unfolding ssh_send_rekex_def
  by (intro ends_rules ends_bind [where Q = "\<lambda>_. True"] kept_bind [OF ssh_send_kex_kept [OF assms(1)]])
     (use assms(2) in \<open>auto intro: keeps_states simp: ends_def\<close>)

lemma flush_queue_kept:
  assumes "\<And>t. keeps s t \<Longrightarrow> kept s (rekex t)"
  shows "keeps s t \<Longrightarrow> kept s (flush_queue rekex e q t)"
proof (induction q arbitrary: t)
  case (Cons b q)
  show ?case
    using Cons.prems by (auto simp: assms packet_send2_keeps intro!: ends_rules Cons.IH)
qed simp

lemma packet_send_depth_kept: "keeps s t \<Longrightarrow> kept s (packet_send_depth n e t)"
proof (induction n arbitrary: t)
  case (Suc n)
  note rekex = ssh_send_rekex_kept [where send = "packet_send_depth n e", OF Suc.IH]
  show ?case
    unfolding packet_send_depth.simps packet_send_body_def
    using Suc.prems by (auto simp: packet_send2_keeps intro!: ends_rules rekex flush_queue_kept)
qed simp

lemma ssh_packet_send_kept: "keeps s t \<Longrightarrow> kept s (ssh_packet_send e t)"
  unfolding ssh_packet_send_def by (rule packet_send_depth_kept)

lemmas sends_kept = ssh_packet_send_kept ssh_send_kex_kept [where send = "ssh_packet_send e" for e, OF ssh_packet_send_kept]
  ssh_send_rekex_kept [where send = "ssh_packet_send e" for e, OF ssh_packet_send_kept]

lemma send_unimplemented_kept: "keeps s t \<Longrightarrow> kept s (ssh_packet_send_unimplemented e t n)"
  unfolding ssh_packet_send_unimplemented_def by (intro ends_rules) (auto intro!: sends_kept)

subsection \<open>The exchange of keys\<close>

lemma packet_string_keeps: "packet_string h t = (x, u) \<Longrightarrow> keeps s u = keeps s t"
  by (auto simp: packet_string_def split: option.splits prod.splits)

lemma packet_string_snd_keeps [simp]: "keeps s (snd (packet_string h t)) = keeps s t"
  by (cases "packet_string h t") (simp add: packet_string_keeps)

lemma unpack_call_keeps: "unpack_call h t fmt = (rc, outs, u) \<Longrightarrow> keeps s u = keeps s t"
  by (auto simp: unpack_call_def split: option.splits prod.splits pack_result.splits)

lemma callbacks_keep [simp]:
  "keeps s (ssh_packet_set_callbacks c t) = keeps s t"
  "keeps s (ssh_packet_remove_callbacks c t) = keeps s t"
  by (simp_all add: ssh_packet_set_callbacks_def ssh_packet_remove_callbacks_def)

lemma send_newkeys_kept: "keeps s t \<Longrightarrow> kept s (send_newkeys e t)"
  unfolding send_newkeys_def
  by (intro ends_rules kept_bind [OF ssh_packet_send_kept]) (auto intro: keeps_states)

lemma kex_failed_kept: "keeps s t \<Longrightarrow> kept s (kex_failed t)"
  by (simp add: kex_failed_def keeps_states)

lemma dh_reply_failed_kept: "keeps s t \<Longrightarrow> kept s (dh_reply_failed x t)"
  by (simp add: dh_reply_failed_def kex_failed_kept)

lemmas kex_kept = send_newkeys_kept kex_failed_kept dh_reply_failed_kept

lemma curve25519_reply_kept: "keeps s t \<Longrightarrow> kept s (ssh_packet_client_curve25519_reply e xo t next)"
  unfolding ssh_packet_client_curve25519_reply_def
  by (intro ends_rules kept_bind [OF send_newkeys_kept]) (auto simp: packet_string_keeps intro!: kex_kept)

lemma ecdh_reply_kept: "keeps s t \<Longrightarrow> kept s (ssh_packet_client_ecdh_reply e xo t next)"
  unfolding ssh_packet_client_ecdh_reply_def
  by (intro ends_rules ends_bind [where Q = "\<lambda>_. True"] kept_bind [OF send_newkeys_kept])
     (auto simp: packet_string_keeps ends_def [of "\<lambda>_. True"] intro!: kex_kept)

lemma dh_reply_kept: "keeps s t \<Longrightarrow> kept s (dh_reply e xo t x)"
  unfolding dh_reply_def
  by (intro ends_rules kept_bind [OF send_newkeys_kept]) (auto simp: unpack_call_keeps intro!: kex_kept)

lemma dhgex_group_kept: "keeps s t \<Longrightarrow> kept s (ssh_packet_client_dhgex_group e xo t next)"
  unfolding ssh_packet_client_dhgex_group_def
  by (intro ends_rules kept_bind [OF ssh_packet_send_kept])
     (auto simp: unpack_call_keeps intro!: kex_kept keeps_states)

lemma dh_failed_kept: "keeps s t \<Longrightarrow> kept s (dh_failed x t)"
  by (simp add: dh_failed_def)

lemma client_inits_kept:
  assumes "keeps s t"
  shows "kept s (ssh_client_dh_init e xo t next)" and "kept s (ssh_client_dhgex_init e xo t next)"
    and "kept s (ssh_client_ecdh_init e xo t next)" and "kept s (ssh_client_curve25519_init e xo t next)"
  unfolding ssh_client_dh_init_def ssh_client_dhgex_init_def ssh_client_ecdh_init_def ssh_client_curve25519_init_def
  using assms
  by (intro ends_rules kept_bind [OF ssh_packet_send_kept]; force intro!: dh_failed_kept sends_kept keeps_states)+

lemma dh_handshake_kept: "keeps s t \<Longrightarrow> kept s (dh_handshake e xo t)"
  by (auto simp: dh_handshake_def client_inits_kept split: ssh_dh_state.split option.split ssh_key_exchange.split)

subsection \<open>The connection\<close>

lemma handshake_done_keeps: "keeps s t \<Longrightarrow> keeps s (handshake_done t)"
  by (auto simp: handshake_done_def keeps_def)

lemma connection_failed_keeps: "keeps s t \<Longrightarrow> ends (keeps s) (connection_failed t)"
  by (simp add: connection_failed_def keeps_states)

lemma client_proposal_kept: "keeps s t \<Longrightarrow> kept s (client_proposal e t)"
  unfolding client_proposal_def
  by (intro ends_rules ends_bind [where Q = "\<lambda>_. True"] kept_bind [OF sends_kept(2)])
     (auto simp: ends_def [of "\<lambda>_. True"])

lemma kexinit_received_keeps: "keeps s t \<Longrightarrow> ends (keeps s) (kexinit_received e xo t)"
  unfolding kexinit_received_def
  by (intro ends_rules kept_bind [where s = s] kept_bind [OF dh_handshake_kept])
     (auto intro: client_proposal_kept connection_failed_keeps handshake_done_keeps keeps_states)

lemma analyze_banner_keeps: "ssh_analyze_banner t sv = (rc, u) \<Longrightarrow> keeps s u = keeps s t"
  by (auto simp: ssh_analyze_banner_def Let_def split: if_splits option.splits)

lemma send_banner_keeps: "ssh_send_banner cb e t = (rc, u) \<Longrightarrow> keeps s u = keeps s t"
  by (auto simp: ssh_send_banner_def Let_def split: if_splits option.splits)

lemma connection_callback_keeps: "keeps s t \<Longrightarrow> ends (keeps s) (ssh_client_connection_callback cb e xo t)"
  unfolding ssh_client_connection_callback_def
  by (cases "s_session_state t"; cases "ssh_send_banner cb e t")
     (auto simp: send_banner_keeps analyze_banner_keeps
           intro!: ends_rules kept_bind [OF client_proposal_kept] connection_failed_keeps kexinit_received_keeps
             handshake_done_keeps keeps_states)

lemma callback_receive_banner_kept: "keeps s t \<Longrightarrow> kept s (callback_receive_banner cb e xo data t)"
  unfolding callback_receive_banner_def
  by (cases "banner_loop [] data")
     (auto intro!: ends_rules ends_bind [OF connection_callback_keeps] keeps_states)

subsection \<open>The handlers\<close>

lemma read_methods_keeps: "read_methods h n t hash = (ms, u, hash') \<Longrightarrow> keeps s u = keeps s t"
  by (induction h n t hash arbitrary: ms u hash' rule: read_methods.induct)
     (auto simp: packet_string_keeps split: prod.splits option.splits if_splits)

lemma put_peer_kex_keeps [simp]: "keeps s (put_peer_kex b k t) = keeps s t"
  by (simp add: put_peer_kex_def)

lemma kexinit_failed_kept: "keeps s t \<Longrightarrow> kept s (kexinit_failed k t)"
  by (simp add: kexinit_failed_def keeps_states)

lemma kexinit_server_part_kept: "keeps s t \<Longrightarrow> kept s (kexinit_server_part h t ms hash)"
  unfolding kexinit_server_part_def by (intro ends_rules) auto

lemma kexinit_kept: "keeps s t \<Longrightarrow> kept s (ssh_packet_kexinit (ssh_client_connection_callback cb e xo) e t)"
  unfolding ssh_packet_kexinit_def
  by (intro ends_rules kept_bind [where s = s] ends_bind [OF connection_callback_keeps])
     (auto simp: read_methods_keeps intro!: kexinit_failed_kept kexinit_server_part_kept keeps_states)

lemma ext_info_loop_keeps [simp]: "keeps s (ext_info_loop h n t) = keeps s t"
  by (induction h n t rule: ext_info_loop.induct)
     (auto simp: unpack_call_keeps Let_def split: prod.splits list.splits out.splits option.splits)

lemma transport_handlers_kept:
  assumes "keeps s t"
  shows "kept s (ssh_packet_disconnect_callback h t)" and "kept s (ssh_packet_ignore_callback t)"
    and "kept s (ssh_packet_unimplemented h t)" and "kept s (ssh_packet_service_accept t)"
    and "kept s (ssh_packet_ext_info h t)"
  using assms
  by (auto simp: ssh_packet_disconnect_callback_def ssh_packet_ignore_callback_def ssh_packet_unimplemented_def
      ssh_packet_service_accept_def ssh_packet_ext_info_def Let_def packet_string_keeps unpack_call_keeps
      intro!: ends_rules keeps_states
      split: prod.split)

lemma unpack_prompts_keeps: "unpack_prompts h n t = (ps, u) \<Longrightarrow> keeps s u = keeps s t"
  by (induction h n t arbitrary: ps u rule: unpack_prompts.induct)
     (auto simp: unpack_call_keeps split: prod.splits list.splits out.splits option.splits if_splits)

lemma auth_handlers_kept:
  assumes "keeps s t"
  shows "kept s (ssh_packet_userauth_banner h t)" and "kept s (ssh_packet_userauth_failure h t)"
  using assms
  by (auto simp: ssh_packet_userauth_banner_def ssh_packet_userauth_failure_def packet_string_keeps unpack_call_keeps
      intro!: ends_rules split: list.splits out.splits option.splits)

lemma info_request_kept: "keeps s t \<Longrightarrow> kept s (ssh_packet_userauth_info_request h t)"
  unfolding ssh_packet_userauth_info_request_def
  by (intro ends_bind [where Q = "\<lambda>_. True"] ends_rules)
     (auto simp: ends_def [of "\<lambda>_. True"] unpack_call_keeps unpack_prompts_keeps Let_def
      intro!: ends_rules split: list.split out.split)

lemma pk_ok_kept: "keeps s t \<Longrightarrow> kept s (ssh_packet_userauth_pk_ok h t)"
  by (simp add: ssh_packet_userauth_pk_ok_def info_request_kept)

subsection \<open>Reading and dispatch\<close>

definition staged :: "('a \<Rightarrow> ssh_session) \<Rightarrow> (ssh_session \<Rightarrow> bool) \<Rightarrow> 'a stage \<Rightarrow> bool" where
  "staged f P st \<longleftrightarrow> (case st of Stop r u \<Rightarrow> P u | Fail k u \<Rightarrow> P u | Go x \<Rightarrow> P (f x))"

lemma staged_simps [simp]:
  "staged f P (Stop r u) = P u" "staged f P (Fail k u) = P u" "staged f P (Go x) = P (f x)"
  by (simp_all add: staged_def)

lemma read_length_keeps: "keeps s t \<Longrightarrow> staged id (keeps s) (read_length e p data t)"
  by (auto simp: read_length_def Let_def split: option.split prod.split)

lemma read_cleartext_keeps: "keeps s t \<Longrightarrow> staged snd (keeps s) (read_cleartext e p data t k r ptr b)"
  by (auto simp: read_cleartext_def Let_def split: prod.split)

lemma count_in_keeps [simp]: "keeps s (count_in n t) = keeps s t"
  by (auto simp: count_in_def split: option.splits prod.splits)

lemma read_payload_keeps: "keeps s t \<Longrightarrow> staged id (keeps s) (read_payload e p k t)"
  by (auto simp: read_payload_def Let_def split: option.split prod.split)

lemma read_packet_keeps:
  assumes "keeps s t"
  shows "staged snd (keeps s) (read_packet e p data t)"
proof -
  have payload: "staged snd (keeps s) (case read_payload e p k u of
      Stop r v \<Rightarrow> Stop r v | Fail j v \<Rightarrow> Fail j v | Go v \<Rightarrow> Go (k, v))" if "keeps s u" for k u
    using read_payload_keeps [OF that, of e p k] by (cases "read_payload e p k u") auto
  have clear: "staged snd (keeps s) (case read_cleartext e p data u k r ptr b of
      Stop r v \<Rightarrow> Stop r v | Fail j v \<Rightarrow> Fail j v
    | Go (k, v) \<Rightarrow> (case read_payload e p k v of Stop r v \<Rightarrow> Stop r v | Fail j v \<Rightarrow> Fail j v | Go v \<Rightarrow> Go (k, v)))"
    if "keeps s u" for u k r ptr b
    using read_cleartext_keeps [OF that, of e p data k r ptr b] payload
    by (cases "read_cleartext e p data u k r ptr b") auto
  show ?thesis
    using assms by (auto simp: read_packet_def Let_def payload clear split: option.split prod.split)
qed

lemma parse_type_keeps [simp]: "keeps s (snd (ssh_packet_parse_type t)) = keeps s t"
  by (auto simp: ssh_packet_parse_type_def Let_def split: option.split prod.split)

text \<open>The handlers of the layers above the login do not touch it.\<close>

definition keeps_login :: "(nat \<Rightarrow> handler option) \<Rightarrow> bool" where
  "keeps_login other \<longleftrightarrow> (\<forall>n f s t. other n = Some f \<longrightarrow> keeps s t \<longrightarrow> kept s (f t))"

lemma dispatch_kept:
  assumes "\<forall>(start, cs) \<in> set ts. start \<le> n \<and> n < start + length cs \<longrightarrow>
      (\<forall>f u. cs ! (n - start) = Some f \<longrightarrow> keeps s u \<longrightarrow> kept s (f u))"
    and "keeps s t"
  shows "kept s (dispatch ts n t)"
  using assms
proof (induction ts arbitrary: t)
  case (Cons table rest)
  obtain start cs where table: "table = (start, cs)"
    by (rule prod.exhaust)
  have rest: "kept s (dispatch rest n u)" if "keeps s u" for u
    using Cons that by simp
  show ?case
    using Cons.prems rest by (auto simp: table intro!: ends_rules kept_bind split: option.split)
qed simp

end
