(* ===== verification/Public_Key.thy ===== *)
theory Public_Key
  imports Key_Exchange Base64
begin

text \<open>
  Public keys (\<^verbatim>\<open>src/libssh/src/pki.c\<close>, \<^verbatim>\<open>pki_ed25519_common.c\<close>): their types and names, and the
  import of a key from its blob or its base64 text. The numbers of RSA, DSA and ECDSA keys are
  those of a cryptographic library: building a key from its strings, comparing two and writing one
  as a blob are functions of \<open>key_ops\<close>. Only the public half of a key is modelled.
\<close>

datatype ssh_keytypes = SSH_KEYTYPE_UNKNOWN | SSH_KEYTYPE_DSS | SSH_KEYTYPE_RSA | SSH_KEYTYPE_RSA1 | SSH_KEYTYPE_ECDSA
  | SSH_KEYTYPE_ED25519 | SSH_KEYTYPE_DSS_CERT01 | SSH_KEYTYPE_RSA_CERT01 | SSH_KEYTYPE_ECDSA_P256
  | SSH_KEYTYPE_ECDSA_P384 | SSH_KEYTYPE_ECDSA_P521 | SSH_KEYTYPE_ECDSA_P256_CERT01 | SSH_KEYTYPE_ECDSA_P384_CERT01
  | SSH_KEYTYPE_ECDSA_P521_CERT01 | SSH_KEYTYPE_ED25519_CERT01

text \<open>\<open>pk_material\<close> is what the library holds for the types it knows.\<close>

record ssh_key =
  pk_type :: ssh_keytypes
  pk_type_c :: "string option"
  pk_material :: "bytes option"
  pk_ed25519 :: "bytes option"
  pk_cert :: "ssh_buffer option"

record key_ops =
  ko_build_dss :: "ssh_string \<Rightarrow> ssh_string \<Rightarrow> ssh_string \<Rightarrow> ssh_string \<Rightarrow> bytes option"
  ko_build_rsa :: "ssh_string \<Rightarrow> ssh_string \<Rightarrow> bytes option"
  ko_ecdsa_nid :: "bytes \<Rightarrow> int"
  ko_build_ecdsa :: "int \<Rightarrow> ssh_string \<Rightarrow> bytes option"
  ko_ecdsa_name :: "bytes \<Rightarrow> string"
  ko_compare :: "ssh_keytypes \<Rightarrow> bytes option \<Rightarrow> bytes option \<Rightarrow> int"
  ko_blob :: "ssh_key \<Rightarrow> ssh_string option"

subsection \<open>Types and names\<close>

fun ssh_key_type_to_char :: "ssh_keytypes \<Rightarrow> string option" where
  "ssh_key_type_to_char SSH_KEYTYPE_DSS = Some ''ssh-dss''"
| "ssh_key_type_to_char SSH_KEYTYPE_RSA = Some ''ssh-rsa''"
| "ssh_key_type_to_char SSH_KEYTYPE_ECDSA = Some ''ssh-ecdsa''"
| "ssh_key_type_to_char SSH_KEYTYPE_ECDSA_P256 = Some ''ecdsa-sha2-nistp256''"
| "ssh_key_type_to_char SSH_KEYTYPE_ECDSA_P384 = Some ''ecdsa-sha2-nistp384''"
| "ssh_key_type_to_char SSH_KEYTYPE_ECDSA_P521 = Some ''ecdsa-sha2-nistp521''"
| "ssh_key_type_to_char SSH_KEYTYPE_ED25519 = Some ''ssh-ed25519''"
| "ssh_key_type_to_char SSH_KEYTYPE_DSS_CERT01 = Some ''ssh-dss-cert-v01@openssh.com''"
| "ssh_key_type_to_char SSH_KEYTYPE_RSA_CERT01 = Some ''ssh-rsa-cert-v01@openssh.com''"
| "ssh_key_type_to_char SSH_KEYTYPE_ECDSA_P256_CERT01 = Some ''ecdsa-sha2-nistp256-cert-v01@openssh.com''"
| "ssh_key_type_to_char SSH_KEYTYPE_ECDSA_P384_CERT01 = Some ''ecdsa-sha2-nistp384-cert-v01@openssh.com''"
| "ssh_key_type_to_char SSH_KEYTYPE_ECDSA_P521_CERT01 = Some ''ecdsa-sha2-nistp521-cert-v01@openssh.com''"
| "ssh_key_type_to_char SSH_KEYTYPE_ED25519_CERT01 = Some ''ssh-ed25519-cert-v01@openssh.com''"
| "ssh_key_type_to_char SSH_KEYTYPE_RSA1 = None"
| "ssh_key_type_to_char SSH_KEYTYPE_UNKNOWN = None"

text \<open>The chain of comparisons, in its order.\<close>

definition key_names :: "(string \<times> ssh_keytypes) list" where
  "key_names =
     [(''rsa'', SSH_KEYTYPE_RSA), (''dsa'', SSH_KEYTYPE_DSS), (''ssh-rsa'', SSH_KEYTYPE_RSA), (''ssh-dss'', SSH_KEYTYPE_DSS),
      (''ssh-ecdsa'', SSH_KEYTYPE_ECDSA_P256), (''ecdsa'', SSH_KEYTYPE_ECDSA_P256),
      (''ecdsa-sha2-nistp256'', SSH_KEYTYPE_ECDSA_P256), (''ecdsa-sha2-nistp384'', SSH_KEYTYPE_ECDSA_P384),
      (''ecdsa-sha2-nistp521'', SSH_KEYTYPE_ECDSA_P521), (''ssh-ed25519'', SSH_KEYTYPE_ED25519),
      (''ssh-dss-cert-v01@openssh.com'', SSH_KEYTYPE_DSS_CERT01),
      (''ssh-rsa-cert-v01@openssh.com'', SSH_KEYTYPE_RSA_CERT01),
      (''ecdsa-sha2-nistp256-cert-v01@openssh.com'', SSH_KEYTYPE_ECDSA_P256_CERT01),
      (''ecdsa-sha2-nistp384-cert-v01@openssh.com'', SSH_KEYTYPE_ECDSA_P384_CERT01),
      (''ecdsa-sha2-nistp521-cert-v01@openssh.com'', SSH_KEYTYPE_ECDSA_P521_CERT01),
      (''ssh-ed25519-cert-v01@openssh.com'', SSH_KEYTYPE_ED25519_CERT01)]"

definition ssh_key_type_from_name :: "bytes option \<Rightarrow> ssh_keytypes" where
  "ssh_key_type_from_name name =
     (case name of
        None \<Rightarrow> SSH_KEYTYPE_UNKNOWN
      | Some n \<Rightarrow>
          (case find (\<lambda>p. map of_char (fst p) = cstr n) key_names of None \<Rightarrow> SSH_KEYTYPE_UNKNOWN | Some p \<Rightarrow> snd p))"

definition is_cert_type :: "ssh_keytypes \<Rightarrow> bool" where
  "is_cert_type t \<longleftrightarrow> t \<in> {SSH_KEYTYPE_DSS_CERT01, SSH_KEYTYPE_RSA_CERT01, SSH_KEYTYPE_ECDSA_P256_CERT01,
     SSH_KEYTYPE_ECDSA_P384_CERT01, SSH_KEYTYPE_ECDSA_P521_CERT01, SSH_KEYTYPE_ED25519_CERT01}"

fun ssh_key_type_plain :: "ssh_keytypes \<Rightarrow> ssh_keytypes" where
  "ssh_key_type_plain SSH_KEYTYPE_DSS_CERT01 = SSH_KEYTYPE_DSS"
| "ssh_key_type_plain SSH_KEYTYPE_RSA_CERT01 = SSH_KEYTYPE_RSA"
| "ssh_key_type_plain SSH_KEYTYPE_ECDSA_P256_CERT01 = SSH_KEYTYPE_ECDSA_P256"
| "ssh_key_type_plain SSH_KEYTYPE_ECDSA_P384_CERT01 = SSH_KEYTYPE_ECDSA_P384"
| "ssh_key_type_plain SSH_KEYTYPE_ECDSA_P521_CERT01 = SSH_KEYTYPE_ECDSA_P521"
| "ssh_key_type_plain SSH_KEYTYPE_ED25519_CERT01 = SSH_KEYTYPE_ED25519"
| "ssh_key_type_plain t = t"

subsection \<open>Comparing\<close>

definition pki_ed25519_key_cmp :: "ssh_key \<Rightarrow> ssh_key \<Rightarrow> int" where
  "pki_ed25519_key_cmp k1 k2 =
     (case (pk_ed25519 k1, pk_ed25519 k2) of
        (Some p, Some q) \<Rightarrow> if take 32 p \<noteq> take 32 q then 1 else 0
      | _ \<Rightarrow> 1)"

text \<open>\<^verbatim>\<open>ssh_key_cmp\<close> of the public halves.\<close>

definition ssh_key_cmp :: "key_ops \<Rightarrow> ssh_key option \<Rightarrow> ssh_key option \<Rightarrow> int" where
  "ssh_key_cmp ko k1 k2 =
     (case (k1, k2) of
        (Some a, Some b) \<Rightarrow>
          if pk_type a \<noteq> pk_type b then 1
          else if pk_type a = SSH_KEYTYPE_ED25519 then pki_ed25519_key_cmp a b
          else ko_compare ko (pk_type a) (pk_material a) (pk_material b)
      | _ \<Rightarrow> 1)"

subsection \<open>Importing\<close>

definition key_of_type :: "ssh_keytypes \<Rightarrow> ssh_key" where
  "key_of_type t = \<lparr>pk_type = t, pk_type_c = ssh_key_type_to_char t, pk_material = None, pk_ed25519 = None, pk_cert = None\<rparr>"

definition import_ed25519 :: "heap \<Rightarrow> ssh_buffer \<Rightarrow> bytes option" where
  "import_ed25519 h b =
     (case fst (ssh_buffer_get_ssh_string h b) of
        None \<Rightarrow> None
      | Some p \<Rightarrow>
          if ssh_string_len (Some p) \<noteq> 32 \<or> \<not> heap_grants h 32 then None
          else Some (take 32 (the (ssh_string_data (Some p)))))"

definition pki_import_pubkey_buffer :: "heap \<Rightarrow> key_ops \<Rightarrow> ssh_buffer \<Rightarrow> ssh_keytypes \<Rightarrow> ssh_key option" where
  "pki_import_pubkey_buffer h ko b t =
     (let key = key_of_type t; strings = (\<lambda>n. case unpack_from h b (replicate n CHR ''S'') of
            (rc, outs, b1) \<Rightarrow> if rc \<noteq> SSH_OK then None else Some (map (out_string outs) [0..<n]))
      in if \<not> heap_grants h 72 then None
         else if t = SSH_KEYTYPE_DSS then
           (case strings 4 of
              Some [Some p, Some q, Some g, Some y] \<Rightarrow> map_option (\<lambda>m. key\<lparr>pk_material := Some m\<rparr>) (ko_build_dss ko p q g y)
            | _ \<Rightarrow> None)
         else if t = SSH_KEYTYPE_RSA then
           (case strings 2 of
              Some [Some e, Some n] \<Rightarrow> map_option (\<lambda>m. key\<lparr>pk_material := Some m\<rparr>) (ko_build_rsa ko e n)
            | _ \<Rightarrow> None)
         else if t \<in> {SSH_KEYTYPE_ECDSA, SSH_KEYTYPE_ECDSA_P256, SSH_KEYTYPE_ECDSA_P384, SSH_KEYTYPE_ECDSA_P521} then
           (case strings 2 of
              Some [Some i, Some e] \<Rightarrow>
                (case fst (ssh_string_get_char (Some i)) of
                   None \<Rightarrow> None
                 | Some name \<Rightarrow>
                     let nid = ko_ecdsa_nid ko (cstr name) in
                     if nid = - 1 then None
                     else map_option (\<lambda>m. key\<lparr>pk_material := Some m,
                            pk_type_c := (if t = SSH_KEYTYPE_ECDSA then Some (ko_ecdsa_name ko m) else pk_type_c key)\<rparr>)
                          (ko_build_ecdsa ko nid e))
            | _ \<Rightarrow> None)
         else if t = SSH_KEYTYPE_ED25519 then map_option (\<lambda>p. key\<lparr>pk_ed25519 := Some p\<rparr>) (import_ed25519 h b)
         else None)"

text \<open>A certificate: its blob is kept, and the key behind the nonce is read.\<close>

definition pki_import_cert_buffer :: "heap \<Rightarrow> key_ops \<Rightarrow> ssh_buffer \<Rightarrow> ssh_keytypes \<Rightarrow> ssh_key option" where
  "pki_import_cert_buffer h ko b t =
     (case (ssh_buffer_new h, ssh_key_type_to_char t) of
        (Some cert, Some type_c) \<Rightarrow>
          (case ssh_string_from_char h (Some (map of_char type_c @ [0])) of
             None \<Rightarrow> None
           | Some name \<Rightarrow>
               (case ssh_buffer_add_ssh_string h cert (Some name) of
                  (rc, cert1) \<Rightarrow>
                    if rc \<noteq> 0 then None
                    else case ssh_buffer_add_buffer h cert1 b of
                        (rc2, cert2) \<Rightarrow>
                          if rc2 \<noteq> 0 then None
                          else case ssh_buffer_get_ssh_string h b of
                              (None, b1) \<Rightarrow> None
                            | (Some nonce, b1) \<Rightarrow>
                                map_option (\<lambda>k. k\<lparr>pk_type := t, pk_type_c := Some type_c, pk_cert := Some cert2\<rparr>)
                                  (pki_import_pubkey_buffer h ko b1 (ssh_key_type_plain t))))
      | _ \<Rightarrow> None)"

definition import_by_type :: "heap \<Rightarrow> key_ops \<Rightarrow> ssh_buffer \<Rightarrow> ssh_keytypes \<Rightarrow> ssh_key option" where
  "import_by_type h ko b t = (if is_cert_type t then pki_import_cert_buffer h ko b t else pki_import_pubkey_buffer h ko b t)"

definition ssh_pki_import_pubkey_base64 :: "heap \<Rightarrow> key_ops \<Rightarrow> bytes \<Rightarrow> ssh_keytypes \<Rightarrow> ssh_key option" where
  "ssh_pki_import_pubkey_base64 h ko b64_key t =
     (case base64_to_bin h b64_key of
        None \<Rightarrow> None
      | Some b \<Rightarrow>
          (case ssh_buffer_get_ssh_string h b of
             (None, b1) \<Rightarrow> None
           | (Some type_s, b1) \<Rightarrow> import_by_type h ko b1 t))"

definition ssh_pki_import_pubkey_blob :: "heap \<Rightarrow> key_ops \<Rightarrow> ssh_string option \<Rightarrow> ssh_key option" where
  "ssh_pki_import_pubkey_blob h ko key_blob =
     (case (key_blob, ssh_buffer_new h) of
        (Some blob, Some b) \<Rightarrow>
          (case ssh_buffer_add_data h b (ssh_string_data (Some blob)) (ssh_string_len (Some blob)) of
             (rc, b1) \<Rightarrow>
               if rc < 0 then None
               else case ssh_buffer_get_ssh_string h b1 of
                   (None, b2) \<Rightarrow> None
                 | (Some type_s, b2) \<Rightarrow>
                     let t = ssh_key_type_from_name (fst (ssh_string_get_char (Some type_s))) in
                     if t = SSH_KEYTYPE_UNKNOWN then None else import_by_type h ko b2 t)
      | _ \<Rightarrow> None)"

definition ssh_pki_export_pubkey_base64 :: "heap \<Rightarrow> key_ops \<Rightarrow> ssh_key option \<Rightarrow> bytes option" where
  "ssh_pki_export_pubkey_base64 h ko key =
     (case key of
        None \<Rightarrow> None
      | Some k \<Rightarrow>
          (case ko_blob ko k of
             None \<Rightarrow> None
           | Some blob \<Rightarrow> bin_to_base64 h (the (ssh_string_data (Some blob))) (ssh_string_len (Some blob))))"

end
