(* ===== verification/Agent.thy ===== *)
theory Agent
  imports Auth Client Public_Key
begin

text \<open>
  The agent that holds the keys of the user (\<^verbatim>\<open>src/libssh/src/agent.c\<close>): the requests for its keys and for
  signatures, as the library is built for Unix. What the agent answers to the bytes written to it is a
  function: the stream it writes back, or nothing when the socket fails.
\<close>

record ssh_agent =
  ag_ident :: "ssh_buffer option"
  ag_count :: u32

type_synonym agent_peer = "bytes \<Rightarrow> bytes option"

definition AGENT_MSG_MAXLEN :: nat where
  "AGENT_MSG_MAXLEN = 256 * 1024"

text \<open>The message types that say the agent refuses.\<close>

definition agent_failed :: "u8 \<Rightarrow> bool" where
  "agent_failed t \<longleftrightarrow> t = 5 \<or> t = 102 \<or> t = 30"

subsection \<open>One request\<close>

text \<open>The reply is read in pieces of at most 1024 bytes.\<close>

function agent_read_loop :: "heap \<Rightarrow> bytes \<Rightarrow> nat \<Rightarrow> ssh_buffer \<Rightarrow> int \<times> ssh_buffer" where
  "agent_read_loop h stream len reply =
     (if len = 0 then (0, reply)
      else
        let n = min len 1024 in
        if length stream < n then (- 1, reply)
        else case ssh_buffer_add_data h reply (Some (take n stream)) n of
            (rc, reply1) \<Rightarrow> if rc < 0 then (- 1, reply1) else agent_read_loop h (drop n stream) (len - n) reply1)"
  by pat_completeness auto

termination
  by (relation "measure (\<lambda>(h, stream, len, reply). len)") auto

declare agent_read_loop.simps [simp del]

definition agent_talk :: "heap \<Rightarrow> agent_peer \<Rightarrow> ssh_buffer \<Rightarrow> ssh_buffer \<Rightarrow> int \<times> ssh_buffer" where
  "agent_talk h peer request reply =
     (case peer (be_bytes (of_nat (ssh_buffer_get_len request) :: u32) @ buf_content request) of
        None \<Rightarrow> (- 1, reply)
      | Some stream \<Rightarrow>
          if length stream < 4 then (- 1, reply)
          else
            let len = unat (bswap (load_bytes (take 4 stream)) :: u32) in
            if len > AGENT_MSG_MAXLEN then (- 1, reply)
            else agent_read_loop h (drop 4 stream) len reply)"

text \<open>What the two requests share: an answer of the type they wait for, behind its type.\<close>

definition agent_answer :: "heap \<Rightarrow> agent_peer \<Rightarrow> ssh_buffer \<Rightarrow> u8 \<Rightarrow> ssh_buffer option" where
  "agent_answer h peer request expected =
     (case ssh_buffer_new h of
        None \<Rightarrow> None
      | Some reply0 \<Rightarrow>
          (case agent_talk h peer request reply0 of
             (rc, reply) \<Rightarrow>
               if rc < 0 then None
               else case ssh_buffer_get_u8 reply of
                   (n, t, reply1) \<Rightarrow>
                     if n \<noteq> 1 then None
                     else if agent_failed (the t) \<or> the t \<noteq> expected then None
                     else Some reply1))"

subsection \<open>The keys of the agent\<close>

definition ssh_agent_get_ident_count :: "heap \<Rightarrow> agent_peer \<Rightarrow> ssh_agent \<Rightarrow> u32 \<times> ssh_agent" where
  "ssh_agent_get_ident_count h peer ag =
     (case ssh_buffer_new h of
        None \<Rightarrow> (0, ag)
      | Some request0 \<Rightarrow>
          (case ssh_buffer_add_u8 h request0 11 of
             (rc, request) \<Rightarrow>
               if rc < 0 then (0, ag)
               else case agent_answer h peer request 12 of
                   None \<Rightarrow> (0, ag)
                 | Some reply \<Rightarrow>
                     (case ssh_buffer_get_u32 reply of
                        (n, count, reply1) \<Rightarrow>
                          if n \<noteq> 4 then (0, ag)
                          else
                            let ag1 = ag\<lparr>ag_count := bswap (the count)\<rparr> in
                            if ag_count ag1 > 1024 then (0, ag1)
                            else (ag_count ag1, ag1\<lparr>ag_ident := Some reply1\<rparr>))))"

text \<open>The next key, its comment, and the agent without them. The count does not change.\<close>

definition ssh_agent_get_next_ident ::
  "heap \<Rightarrow> key_ops \<Rightarrow> ssh_agent \<Rightarrow> (ssh_key option \<times> bytes option \<times> ssh_agent) run" where
  "ssh_agent_get_next_ident h ko ag =
     (if ag_count ag = 0 then Ret (None, None, ag)
      else case ag_ident ag of
          None \<Rightarrow> Overflow
        | Some ident \<Rightarrow>
            (case ssh_buffer_get_ssh_string h ident of
               (None, ident1) \<Rightarrow> Ret (None, None, ag\<lparr>ag_ident := Some ident1\<rparr>)
             | (Some blob, ident1) \<Rightarrow>
                 (case ssh_buffer_get_ssh_string h ident1 of
                    (None, ident2) \<Rightarrow> Ret (None, None, ag\<lparr>ag_ident := Some ident2\<rparr>)
                  | (Some tmp, ident2) \<Rightarrow>
                      Ret (ssh_pki_import_pubkey_blob h ko (Some blob), ssh_string_to_char h (Some tmp),
                        ag\<lparr>ag_ident := Some ident2\<rparr>))))"

definition ssh_agent_get_first_ident ::
  "heap \<Rightarrow> agent_peer \<Rightarrow> key_ops \<Rightarrow> ssh_agent \<Rightarrow> (ssh_key option \<times> bytes option \<times> ssh_agent) run" where
  "ssh_agent_get_first_ident h peer ko ag =
     (case ssh_agent_get_ident_count h peer ag of
        (n, ag1) \<Rightarrow> if n > 0 then ssh_agent_get_next_ident h ko ag1 else Ret (None, None, ag1))"

subsection \<open>Signatures\<close>

definition agent_sign_flags :: "ssh_session \<Rightarrow> ssh_key \<Rightarrow> u32" where
  "agent_sign_flags s pubkey =
     (if ssh_key_type_plain (pk_type pubkey) = SSH_KEYTYPE_RSA then
        if s_extensions s AND SSH_EXT_SIG_RSA_SHA512 \<noteq> 0 then 4
        else if s_extensions s AND SSH_EXT_SIG_RSA_SHA256 \<noteq> 0 then 2 else 0
      else 0)"

text \<open>The request: its type, the key, the data with its length, and the flags.\<close>

definition sign_request :: "heap \<Rightarrow> ssh_session \<Rightarrow> ssh_key \<Rightarrow> ssh_string \<Rightarrow> ssh_buffer \<Rightarrow> ssh_buffer option" where
  "sign_request h s pubkey key_blob data =
     (case ssh_buffer_new h of
        None \<Rightarrow> None
      | Some r0 \<Rightarrow>
          (case ssh_buffer_add_u8 h r0 13 of
             (rc1, r1) \<Rightarrow> if rc1 < 0 then None
          else case ssh_buffer_allocate_size h r1 (10 + ssh_string_len (Some key_blob)) of
             (rc2, r2) \<Rightarrow> if rc2 < 0 then None
          else case ssh_buffer_add_ssh_string h r2 (Some key_blob) of
             (rc3, r3) \<Rightarrow> if rc3 < 0 then None
          else case ssh_buffer_add_u32 h r3 (bswap (of_nat (ssh_buffer_get_len data))) of
             (rc4, r4) \<Rightarrow> if rc4 < 0 then None
          else case ssh_buffer_add_data h r4 (ssh_buffer_get data) (ssh_buffer_get_len data) of
             (rc5, r5) \<Rightarrow> if rc5 < 0 then None
          else case ssh_buffer_add_u32 h r5 (bswap (agent_sign_flags s pubkey)) of
             (rc6, r6) \<Rightarrow> if rc6 < 0 then None else Some r6))"

definition ssh_agent_sign_data ::
  "heap \<Rightarrow> agent_peer \<Rightarrow> key_ops \<Rightarrow> ssh_session \<Rightarrow> ssh_key \<Rightarrow> ssh_buffer \<Rightarrow> ssh_string option" where
  "ssh_agent_sign_data h peer ko s pubkey data =
     (case ko_blob ko pubkey of
        None \<Rightarrow> None
      | Some key_blob \<Rightarrow>
          (case sign_request h s pubkey key_blob data of
             None \<Rightarrow> None
           | Some request \<Rightarrow>
               (case agent_answer h peer request 14 of
                  None \<Rightarrow> None
                | Some reply \<Rightarrow> fst (ssh_buffer_get_ssh_string h reply))))"

end
