(* ===== verification/Auth_Publickey.thy ===== *)
theory Auth_Publickey
  imports Agent
begin

text \<open>
  Authentication with public keys on the client's side (\<^verbatim>\<open>src/libssh/src/auth.c\<close> and the choice of algorithms
  and the signing in \<^verbatim>\<open>src/libssh/src/pki.c\<close>): the offer of a key, the signed request, the keys of an agent, and the
  automatic search over the agent and the files of the user. The operations on private keys and the
  files are functions of \<open>pubkey_env\<close>; what the calls keep between them is \<open>pubkey_auth\<close>.
\<close>

datatype ssh_digest = SSH_DIGEST_AUTO | SSH_DIGEST_SHA1 | SSH_DIGEST_SHA256 | SSH_DIGEST_SHA384 | SSH_DIGEST_SHA512

text \<open>A key with its private half, and the type of a certificate that was copied to it.\<close>

record ssh_privkey =
  pv_public :: ssh_key
  pv_cert_type :: ssh_keytypes
  pv_secret :: bytes

text \<open>A signature: the name of its algorithm, and the blob the library makes of it.\<close>

record ssh_signature =
  sg_type_c :: bytes
  sg_blob :: "ssh_string option"

datatype 'a file_result = FileOk 'a | FileEof | FileError

record pubkey_env =
  pu_keys :: key_ops
  pu_accepted :: "bytes option"
  pu_enabled :: bool
  pu_identities :: "bytes list"
  pu_pubkey_file :: "bytes \<Rightarrow> ssh_key file_result"
  pu_privkey_file :: "bytes \<Rightarrow> ssh_privkey file_result"
  pu_public_of :: "ssh_privkey \<Rightarrow> ssh_key option"
  pu_sign :: "ssh_privkey \<Rightarrow> ssh_digest \<Rightarrow> bytes \<Rightarrow> ssh_signature option"
  pu_agent_running :: bool
  pu_agent :: agent_peer

subsection \<open>Algorithms\<close>

fun ssh_key_signature_to_char :: "ssh_keytypes \<Rightarrow> ssh_digest \<Rightarrow> string option" where
  "ssh_key_signature_to_char SSH_KEYTYPE_RSA d =
     (case d of SSH_DIGEST_SHA256 \<Rightarrow> Some ''rsa-sha2-256'' | SSH_DIGEST_SHA512 \<Rightarrow> Some ''rsa-sha2-512''
      | SSH_DIGEST_SHA384 \<Rightarrow> None | _ \<Rightarrow> Some ''ssh-rsa'')"
| "ssh_key_signature_to_char SSH_KEYTYPE_RSA_CERT01 d =
     (case d of SSH_DIGEST_SHA256 \<Rightarrow> Some ''rsa-sha2-256-cert-v01@openssh.com''
      | SSH_DIGEST_SHA512 \<Rightarrow> Some ''rsa-sha2-512-cert-v01@openssh.com''
      | SSH_DIGEST_SHA384 \<Rightarrow> None | _ \<Rightarrow> Some ''ssh-rsa-cert-v01@openssh.com'')"
| "ssh_key_signature_to_char t d = ssh_key_type_to_char t"

definition ssh_key_algorithm_allowed :: "packet_env \<Rightarrow> pubkey_env \<Rightarrow> ssh_session \<Rightarrow> string \<Rightarrow> bool" where
  "ssh_key_algorithm_allowed e pk s type =
     (case (if s_client s then
              (case pu_accepted pk of
                 Some l \<Rightarrow> Some l
               | None \<Rightarrow> if pe_fips e then ssh_kex_get_fips_methods 1 else ssh_kex_get_default_methods 1)
            else if s_server s then s_wanted_methods s ! 1
            else None) of
        None \<Rightarrow> False
      | Some allowed_list \<Rightarrow> ssh_match_group allowed_list (map of_char type @ [0]) \<noteq> 0)"

definition rsa_hash :: "packet_env \<Rightarrow> pubkey_env \<Rightarrow> ssh_session \<Rightarrow> ssh_digest" where
  "rsa_hash e pk s =
     (if ssh_key_algorithm_allowed e pk s ''rsa-sha2-512'' \<and> s_extensions s AND SSH_EXT_SIG_RSA_SHA512 \<noteq> 0
      then SSH_DIGEST_SHA512
      else if ssh_key_algorithm_allowed e pk s ''rsa-sha2-256'' \<and> s_extensions s AND SSH_EXT_SIG_RSA_SHA256 \<noteq> 0
      then SSH_DIGEST_SHA256
      else SSH_DIGEST_SHA1)"

definition older_openssh :: "ssh_session \<Rightarrow> nat \<Rightarrow> bool" where
  "older_openssh s v \<longleftrightarrow> 0 < s_openssh s \<and> s_openssh s < v"

definition ssh_key_type_to_hash :: "packet_env \<Rightarrow> pubkey_env \<Rightarrow> ssh_session \<Rightarrow> ssh_keytypes \<Rightarrow> ssh_digest" where
  "ssh_key_type_to_hash e pk s type =
     (if type \<in> {SSH_KEYTYPE_DSS_CERT01, SSH_KEYTYPE_DSS} then SSH_DIGEST_SHA1
      else if type = SSH_KEYTYPE_RSA_CERT01 then
        (if older_openssh s (SSH_VERSION_INT 7 2 0) then SSH_DIGEST_SHA1 else rsa_hash e pk s)
      else if type = SSH_KEYTYPE_RSA then rsa_hash e pk s
      else if type \<in> {SSH_KEYTYPE_ECDSA_P256_CERT01, SSH_KEYTYPE_ECDSA_P256} then SSH_DIGEST_SHA256
      else if type \<in> {SSH_KEYTYPE_ECDSA_P384_CERT01, SSH_KEYTYPE_ECDSA_P384} then SSH_DIGEST_SHA384
      else if type \<in> {SSH_KEYTYPE_ECDSA_P521_CERT01, SSH_KEYTYPE_ECDSA_P521} then SSH_DIGEST_SHA512
      else SSH_DIGEST_AUTO)"

definition ssh_key_get_signature_algorithm ::
  "packet_env \<Rightarrow> pubkey_env \<Rightarrow> ssh_session \<Rightarrow> ssh_keytypes \<Rightarrow> string option" where
  "ssh_key_get_signature_algorithm e pk s type =
     (if type = SSH_KEYTYPE_RSA_CERT01 \<and> older_openssh s (SSH_VERSION_INT 7 8 0) then Some ''ssh-rsa-cert-v01@openssh.com''
      else ssh_key_signature_to_char type (ssh_key_type_to_hash e pk s type))"

definition pki_key_check_hash_compatible :: "bool \<Rightarrow> ssh_keytypes \<Rightarrow> ssh_digest \<Rightarrow> bool" where
  "pki_key_check_hash_compatible fips type d \<longleftrightarrow>
     (if type \<in> {SSH_KEYTYPE_DSS_CERT01, SSH_KEYTYPE_DSS} then d = SSH_DIGEST_SHA1 \<and> \<not> fips
      else if type \<in> {SSH_KEYTYPE_RSA_CERT01, SSH_KEYTYPE_RSA} then
        (if d = SSH_DIGEST_SHA1 then \<not> fips else d \<in> {SSH_DIGEST_SHA256, SSH_DIGEST_SHA512})
      else if type \<in> {SSH_KEYTYPE_ECDSA_P256_CERT01, SSH_KEYTYPE_ECDSA_P256} then d = SSH_DIGEST_SHA256
      else if type \<in> {SSH_KEYTYPE_ECDSA_P384_CERT01, SSH_KEYTYPE_ECDSA_P384} then d = SSH_DIGEST_SHA384
      else if type \<in> {SSH_KEYTYPE_ECDSA_P521_CERT01, SSH_KEYTYPE_ECDSA_P521} then d = SSH_DIGEST_SHA512
      else type \<in> {SSH_KEYTYPE_ED25519_CERT01, SSH_KEYTYPE_ED25519} \<and> d = SSH_DIGEST_AUTO)"

subsection \<open>Signing\<close>

definition pki_do_sign :: "packet_env \<Rightarrow> pubkey_env \<Rightarrow> ssh_privkey \<Rightarrow> bytes \<Rightarrow> ssh_digest \<Rightarrow> ssh_signature option" where
  "pki_do_sign e pk privkey input d =
     (if pki_key_check_hash_compatible (pe_fips e) (pk_type (pv_public privkey)) d then pu_sign pk privkey d input else None)"

text \<open>The blob of a signature: its algorithm and its own blob, as two strings in one.\<close>

definition ssh_pki_export_signature_blob :: "heap \<Rightarrow> ssh_signature \<Rightarrow> ssh_string option" where
  "ssh_pki_export_signature_blob h sig =
     (case (ssh_buffer_new h, ssh_string_from_char h (Some (sg_type_c sig)), sg_blob sig) of
        (Some buf0, Some name, blob) \<Rightarrow>
          (case ssh_buffer_add_ssh_string h buf0 (Some name) of
             (rc, buf1) \<Rightarrow>
               if rc < 0 \<or> blob = None then None
               else case ssh_buffer_add_ssh_string h buf1 blob of
                   (rc2, buf) \<Rightarrow>
                     if rc2 < 0 then None
                     else (case ssh_string_new h (ssh_buffer_get_len buf) of
                             None \<Rightarrow> None
                           | Some str \<Rightarrow> snd (ssh_string_fill (Some str) (ssh_buffer_get buf) (ssh_buffer_get_len buf))))
      | _ \<Rightarrow> None)"

text \<open>The identifier of the session as a string.\<close>

definition session_id_string :: "heap \<Rightarrow> ssh_session \<Rightarrow> ssh_string option" where
  "session_id_string h s =
     (case ssh_packet_get_current_crypto s SSH_DIRECTION_BOTH of
        None \<Rightarrow> None
      | Some (w, crypto) \<Rightarrow>
          (case ssh_string_new h (cr_digest_len crypto) of
             None \<Rightarrow> None
           | Some str \<Rightarrow> snd (ssh_string_fill (Some str) (Some (cr_session_id crypto)) (cr_digest_len crypto))))"

definition ssh_pki_do_sign ::
  "packet_env \<Rightarrow> pubkey_env \<Rightarrow> ssh_session \<Rightarrow> ssh_buffer \<Rightarrow> ssh_privkey \<Rightarrow> ssh_digest \<Rightarrow> ssh_string option" where
  "ssh_pki_do_sign e pk s sigbuf privkey d =
     (case (session_id_string (pe_heap e) s, ssh_buffer_new (pe_heap e)) of
        (Some session_id, Some input0) \<Rightarrow>
          (case pack_call (pe_heap e) (ssh_buffer_set_secure input0) [FString session_id, FBytes (buf_content sigbuf)] of
             (rc, input) \<Rightarrow>
               if rc \<noteq> SSH_OK then None
               else (case pki_do_sign e pk privkey (buf_content input) d of
                       None \<Rightarrow> None
                     | Some sig \<Rightarrow> ssh_pki_export_signature_blob (pe_heap e) sig))
      | _ \<Rightarrow> None)"

definition ssh_pki_do_sign_agent :: "packet_env \<Rightarrow> pubkey_env \<Rightarrow> ssh_session \<Rightarrow> ssh_buffer \<Rightarrow> ssh_key \<Rightarrow> ssh_string option" where
  "ssh_pki_do_sign_agent e pk s buf pubkey =
     (case (session_id_string (pe_heap e) s, ssh_buffer_new (pe_heap e)) of
        (Some session_id, Some sig0) \<Rightarrow>
          (case ssh_buffer_add_ssh_string (pe_heap e) sig0 (Some session_id) of
             (rc, sig1) \<Rightarrow>
               if rc < 0 then None
               else case ssh_buffer_add_buffer (pe_heap e) sig1 buf of
                   (rc2, sig_buf) \<Rightarrow>
                     if rc2 < 0 then None
                     else ssh_agent_sign_data (pe_heap e) (pu_agent pk) (pu_keys pk) s pubkey sig_buf)
      | _ \<Rightarrow> None)"

subsection \<open>The requests\<close>

text \<open>The part of the packet both requests share; \<open>None\<close> when there is no user name to read.\<close>

definition publickey_fields :: "pubkey_env \<Rightarrow> ssh_session \<Rightarrow> bytes option \<Rightarrow> u8 \<Rightarrow> string \<Rightarrow> ssh_string \<Rightarrow> nat wfield list option" where
  "publickey_fields pk s username has_signature alg blob =
     map_option (\<lambda>u. [FByte 50, FCStr u, FCStr (map of_char ''ssh-connection''), FCStr (map of_char ''publickey''),
         FByte has_signature, FCStr (map of_char alg), FString blob])
       (request_user username s)"

definition publickey_failed :: "packet_env \<Rightarrow> ssh_session \<Rightarrow> ssh_buffer \<Rightarrow> (int \<times> ssh_session) run" where
  "publickey_failed e s b = Ret (SSH_AUTH_ERROR, s\<lparr>s_out_buffer := snd (ssh_buffer_reinit (pe_heap e) b)\<rparr>)"

definition publickey_sent ::
  "event_loop \<Rightarrow> packet_env \<Rightarrow> ssh_session \<Rightarrow> ssh_buffer \<Rightarrow> ssh_auth_state \<Rightarrow> ssh_pending_call \<Rightarrow> (int \<times> ssh_session) run" where
  "publickey_sent wait e s b state pending =
     run_bind
       (ssh_packet_send e (s\<lparr>s_out_buffer := b, s_current_method := SSH_AUTH_METHOD_PUBLICKEY, s_auth_state := state,
          s_pending_call := pending\<rparr>))
       (\<lambda>(rc, s1). if rc = SSH_ERROR then Ret (SSH_AUTH_ERROR, s1) else auth_pending wait s1)"

text \<open>The algorithm of a key, if it may be used.\<close>

definition allowed_algorithm :: "packet_env \<Rightarrow> pubkey_env \<Rightarrow> ssh_session \<Rightarrow> ssh_keytypes \<Rightarrow> string option" where
  "allowed_algorithm e pk s type =
     (case ssh_key_get_signature_algorithm e pk s type of
        None \<Rightarrow> None
      | Some alg \<Rightarrow> if ssh_key_algorithm_allowed e pk s alg then Some alg else None)"

definition ssh_userauth_try_publickey ::
  "event_loop \<Rightarrow> packet_env \<Rightarrow> pubkey_env \<Rightarrow> ssh_session \<Rightarrow> bytes option \<Rightarrow> ssh_key option \<Rightarrow> (int \<times> ssh_session) run" where
  "ssh_userauth_try_publickey wait e pk s username pubkey =
     (case pubkey of
        None \<Rightarrow> Ret (SSH_AUTH_ERROR, s)
      | Some key \<Rightarrow>
          if s_pending_call s = SSH_PENDING_CALL_AUTH_OFFER_PUBKEY then auth_pending wait s
          else if s_pending_call s \<noteq> SSH_PENDING_CALL_NONE then Ret (SSH_ERROR, s)
          else (case allowed_algorithm e pk s (pk_type key) of
             None \<Rightarrow> Ret (SSH_AUTH_DENIED, s)
           | Some alg \<Rightarrow>
               run_bind (ssh_userauth_request_service wait e s) (\<lambda>(rc, s1).
                 if rc = SSH_AGAIN then Ret (SSH_AUTH_AGAIN, s1)
                 else if rc = SSH_ERROR then Ret (SSH_AUTH_ERROR, s1)
                 else case ko_blob (pu_keys pk) key of
                     None \<Rightarrow> publickey_failed e s1 (s_out_buffer s1)
                   | Some blob \<Rightarrow>
                       (case publickey_fields pk s1 username 0 alg blob of
                          None \<Rightarrow> Overflow
                        | Some fs \<Rightarrow>
                            (case pack_call (pe_heap e) (s_out_buffer s1) fs of
                               (rc2, b) \<Rightarrow>
                                 if rc2 < 0 then publickey_failed e s1 b
                                 else publickey_sent wait e s1 b SSH_AUTH_STATE_PUBKEY_OFFER_SENT
                                        SSH_PENDING_CALL_AUTH_OFFER_PUBKEY)))))"

text \<open>The signed packet: the request, signed, and the signature behind it.\<close>

definition signed_packet :: "packet_env \<Rightarrow> ssh_buffer \<Rightarrow> nat wfield list \<Rightarrow> (ssh_buffer \<Rightarrow> ssh_string option) \<Rightarrow> bool \<times> ssh_buffer" where
  "signed_packet e out fs sign =
     (case pack_call (pe_heap e) out fs of
        (rc, b) \<Rightarrow>
          if rc < 0 then (False, b)
          else (case sign b of
                  None \<Rightarrow> (False, b)
                | Some sig \<Rightarrow>
                    (case ssh_buffer_add_ssh_string (pe_heap e) b (Some sig) of (rc2, b2) \<Rightarrow> (\<not> rc2 < 0, b2))))"

definition ssh_userauth_publickey ::
  "event_loop \<Rightarrow> packet_env \<Rightarrow> pubkey_env \<Rightarrow> ssh_session \<Rightarrow> bytes option \<Rightarrow> ssh_privkey option \<Rightarrow> (int \<times> ssh_session) run" where
  "ssh_userauth_publickey wait e pk s username privkey =
     (case privkey of
        None \<Rightarrow> Ret (SSH_AUTH_ERROR, s)
      | Some key \<Rightarrow>
          if s_pending_call s = SSH_PENDING_CALL_AUTH_PUBKEY then auth_pending wait s
          else if s_pending_call s \<noteq> SSH_PENDING_CALL_NONE then Ret (SSH_AUTH_ERROR, s)
          else (case allowed_algorithm e pk s
                       (if pk_cert (pv_public key) \<noteq> None then pv_cert_type key else pk_type (pv_public key)) of
             None \<Rightarrow> Ret (SSH_AUTH_DENIED, s)
           | Some alg \<Rightarrow>
               run_bind (ssh_userauth_request_service wait e s) (\<lambda>(rc, s1).
                 if rc = SSH_AGAIN then Ret (SSH_AUTH_AGAIN, s1)
                 else if rc = SSH_ERROR then Ret (SSH_AUTH_ERROR, s1)
                 else case ko_blob (pu_keys pk) (pv_public key) of
                     None \<Rightarrow> publickey_failed e s1 (s_out_buffer s1)
                   | Some blob \<Rightarrow>
                       (case publickey_fields pk s1 username 1 alg blob of
                          None \<Rightarrow> Overflow
                        | Some fs \<Rightarrow>
                            (case signed_packet e (s_out_buffer s1) fs (\<lambda>b. ssh_pki_do_sign e pk (s1\<lparr>s_out_buffer := b\<rparr>) b key
                                      (ssh_key_type_to_hash e pk s1 (pk_type (pv_public key)))) of
                               (ok, b) \<Rightarrow>
                                 if \<not> ok then publickey_failed e s1 b
                                 else publickey_sent wait e s1 b SSH_AUTH_STATE_PUBKEY_AUTH_SENT SSH_PENDING_CALL_AUTH_PUBKEY)))))"

definition ssh_userauth_agent_publickey ::
  "event_loop \<Rightarrow> packet_env \<Rightarrow> pubkey_env \<Rightarrow> ssh_session \<Rightarrow> bytes option \<Rightarrow> ssh_key \<Rightarrow> (int \<times> ssh_session) run" where
  "ssh_userauth_agent_publickey wait e pk s username key =
     (if s_pending_call s = SSH_PENDING_CALL_AUTH_AGENT then auth_pending wait s
      else if s_pending_call s \<noteq> SSH_PENDING_CALL_NONE then Ret (SSH_ERROR, s)
      else
        run_bind (ssh_userauth_request_service wait e s) (\<lambda>(rc, s1).
          if rc = SSH_AGAIN then Ret (SSH_AUTH_AGAIN, s1)
          else if rc = SSH_ERROR then Ret (SSH_AUTH_ERROR, s1)
          else case ko_blob (pu_keys pk) key of
              None \<Rightarrow> publickey_failed e s1 (s_out_buffer s1)
            | Some blob \<Rightarrow>
                (case allowed_algorithm e pk s1 (pk_type key) of
                   None \<Rightarrow> Ret (SSH_AUTH_DENIED, s1)
                 | Some alg \<Rightarrow>
                     (case publickey_fields pk s1 username 1 alg blob of
                        None \<Rightarrow> Overflow
                      | Some fs \<Rightarrow>
                          (case signed_packet e (s_out_buffer s1) fs
                                  (\<lambda>b. ssh_pki_do_sign_agent e pk (s1\<lparr>s_out_buffer := b\<rparr>) b key) of
                             (ok, b) \<Rightarrow>
                               if \<not> ok then publickey_failed e s1 b
                               else publickey_sent wait e s1 b SSH_AUTH_STATE_PUBKEY_AUTH_SENT SSH_PENDING_CALL_AUTH_AGENT)))))"

subsection \<open>The keys of the agent\<close>

datatype ssh_agent_state_kind = SSH_AGENT_STATE_NONE | SSH_AGENT_STATE_PUBKEY | SSH_AGENT_STATE_AUTH

record ssh_agent_state =
  ast_state :: ssh_agent_state_kind
  ast_pubkey :: "ssh_key option"
  ast_comment :: "bytes option"

datatype ssh_auth_auto_state_kind = SSH_AUTH_AUTO_STATE_NONE | SSH_AUTH_AUTO_STATE_PUBKEY
  | SSH_AUTH_AUTO_STATE_KEY_IMPORTED | SSH_AUTH_AUTO_STATE_PUBKEY_ACCEPTED

text \<open>The iterator over the files is the list of those that are left.\<close>

record ssh_auth_auto_state =
  aut_state :: ssh_auth_auto_state_kind
  aut_it :: "bytes list"
  aut_privkey :: "ssh_privkey option"
  aut_pubkey :: "ssh_key option"

record pubkey_auth =
  pa_agent :: ssh_agent
  pa_agent_state :: "ssh_agent_state option"
  pa_auto :: "ssh_auth_auto_state option"

type_synonym auth_result = "int \<times> pubkey_auth \<times> ssh_session"

text \<open>
  The loop over the identities. A key the server refuses is followed by the next one of the agent; the
  loop ends without a key. The fuel counts identities.
\<close>

fun agent_loop ::
  "nat \<Rightarrow> event_loop \<Rightarrow> packet_env \<Rightarrow> pubkey_env \<Rightarrow> bytes option \<Rightarrow> int \<Rightarrow> ssh_agent_state \<Rightarrow> pubkey_auth \<Rightarrow> ssh_session \<Rightarrow>
    auth_result run" where
  "agent_loop 0 wait e pk username rc st pa s = Overflow"
| "agent_loop (Suc n) wait e pk username rc st pa s =
     (case ast_pubkey st of
        None \<Rightarrow> Ret (rc, pa\<lparr>pa_agent_state := None\<rparr>, s)
      | Some key \<Rightarrow>
          let following = (\<lambda>rc1 s1. run_bind (ssh_agent_get_next_ident (pe_heap e) (pu_keys pk) (pa_agent pa))
                (\<lambda>(k, c, ag). agent_loop n wait e pk username rc1
                   \<lparr>ast_state = SSH_AGENT_STATE_NONE, ast_pubkey = k, ast_comment = c\<rparr> (pa\<lparr>pa_agent := ag\<rparr>) s1));
              authenticate = (\<lambda>s0. run_bind (ssh_userauth_agent_publickey wait e pk s0 username key) (\<lambda>(rc1, s1).
                if rc1 = SSH_AUTH_AGAIN then Ret (rc1, pa\<lparr>pa_agent_state := Some (st\<lparr>ast_state := SSH_AGENT_STATE_AUTH\<rparr>)\<rparr>, s1)
                else if rc1 \<in> {SSH_AUTH_ERROR, SSH_AUTH_PARTIAL, SSH_AUTH_SUCCESS}
                then Ret (rc1, pa\<lparr>pa_agent_state := None\<rparr>, s1)
                else following rc1 s1))
          in if ast_state st = SSH_AGENT_STATE_AUTH then authenticate s
             else run_bind (ssh_userauth_try_publickey wait e pk s username (Some key)) (\<lambda>(rc1, s1).
               if rc1 = SSH_AUTH_ERROR then Ret (rc1, pa\<lparr>pa_agent_state := None\<rparr>, s1)
               else if rc1 = SSH_AUTH_AGAIN
               then Ret (rc1, pa\<lparr>pa_agent_state := Some (st\<lparr>ast_state := SSH_AGENT_STATE_PUBKEY\<rparr>)\<rparr>, s1)
               else if rc1 \<noteq> SSH_AUTH_SUCCESS then following rc1 s1
               else authenticate s1))"

definition ssh_userauth_agent ::
  "nat \<Rightarrow> event_loop \<Rightarrow> packet_env \<Rightarrow> pubkey_env \<Rightarrow> bytes option \<Rightarrow> pubkey_auth \<Rightarrow> ssh_session \<Rightarrow> auth_result run" where
  "ssh_userauth_agent n wait e pk username pa s =
     (if \<not> pu_agent_running pk then Ret (SSH_AUTH_DENIED, pa, s)
      else if pa_agent_state pa = None \<and> \<not> heap_grants (pe_heap e) 24 then Ret (SSH_AUTH_ERROR, pa, s)
      else
        let st = (case pa_agent_state pa of
                    Some st \<Rightarrow> st
                  | None \<Rightarrow> \<lparr>ast_state = SSH_AGENT_STATE_NONE, ast_pubkey = None, ast_comment = None\<rparr>)
        in run_bind (if ast_pubkey st \<noteq> None then Ret (ast_pubkey st, ast_comment st, pa_agent pa)
                     else ssh_agent_get_first_ident (pe_heap e) (pu_agent pk) (pu_keys pk) (pa_agent pa))
             (\<lambda>(k, c, ag).
               let st1 = st\<lparr>ast_pubkey := k, ast_comment := c\<rparr>; pa1 = pa\<lparr>pa_agent := ag, pa_agent_state := Some st1\<rparr>
               in if k = None then Ret (SSH_AUTH_DENIED, pa1, s)
                  else agent_loop n wait e pk username SSH_AUTH_ERROR st1 pa1 s))"

subsection \<open>The files of the user\<close>

text \<open>What importing the keys of a file gives: an error that ends the search, no key, or keys to try.\<close>

datatype imported = ImportFails | NotImported | Imported "ssh_privkey option" ssh_key

definition pubkey_file_name :: "bytes \<Rightarrow> bytes" where
  "pubkey_file_name f = take 1023 (cstr f @ map of_char ''.pub'') @ [0]"

definition import_identity :: "pubkey_env \<Rightarrow> bytes \<Rightarrow> imported" where
  "import_identity pk f =
     (case pu_pubkey_file pk (pubkey_file_name f) of
        FileError \<Rightarrow> ImportFails
      | FileOk key \<Rightarrow> Imported None key
      | FileEof \<Rightarrow>
          (case pu_privkey_file pk f of
             FileOk priv \<Rightarrow> (case pu_public_of pk priv of None \<Rightarrow> ImportFails | Some key \<Rightarrow> Imported (Some priv) key)
           | _ \<Rightarrow> NotImported))"

fun auto_loop ::
  "bytes list \<Rightarrow> event_loop \<Rightarrow> packet_env \<Rightarrow> pubkey_env \<Rightarrow> bytes option \<Rightarrow> ssh_auth_auto_state \<Rightarrow> pubkey_auth \<Rightarrow> ssh_session \<Rightarrow>
    auth_result run" where
  "auto_loop [] wait e pk username st pa s = Ret (SSH_AUTH_DENIED, pa\<lparr>pa_auto := None\<rparr>, s)"
| "auto_loop (f # fs) wait e pk username st pa s =
     (let done = pa\<lparr>pa_auto := None\<rparr>;
          keep = (\<lambda>st1. pa\<lparr>pa_auto := Some (st1\<lparr>aut_it := f # fs\<rparr>)\<rparr>);
          skip = auto_loop fs wait e pk username (st\<lparr>aut_state := SSH_AUTH_AUTO_STATE_PUBKEY\<rparr>) pa;
          accepted = (\<lambda>st1 s1.
            case (case aut_privkey st1 of Some k \<Rightarrow> FileOk k | None \<Rightarrow> pu_privkey_file pk f) of
              FileOk priv \<Rightarrow>
                run_bind (ssh_userauth_publickey wait e pk s1 username (Some priv)) (\<lambda>(rc, s2).
                  if rc = SSH_AUTH_AGAIN
                  then Ret (rc, keep (st1\<lparr>aut_state := SSH_AUTH_AUTO_STATE_PUBKEY_ACCEPTED, aut_privkey := Some priv\<rparr>), s2)
                  else if rc \<noteq> SSH_AUTH_DENIED then Ret (rc, done, s2)
                  else skip s2)
            | _ \<Rightarrow> skip s1);
          try = (\<lambda>st1. run_bind (ssh_userauth_try_publickey wait e pk s username (aut_pubkey st1)) (\<lambda>(rc, s1).
                  if rc = SSH_AUTH_ERROR then Ret (rc, done, s1)
                  else if rc = SSH_AUTH_AGAIN
                  then Ret (rc, keep (st1\<lparr>aut_state := SSH_AUTH_AUTO_STATE_KEY_IMPORTED\<rparr>), s1)
                  else if rc \<noteq> SSH_AUTH_SUCCESS then skip s1
                  else accepted st1 s1))
      in case aut_state st of
           SSH_AUTH_AUTO_STATE_PUBKEY \<Rightarrow>
             (case import_identity pk f of
                ImportFails \<Rightarrow> Ret (SSH_AUTH_ERROR, done, s)
              | NotImported \<Rightarrow> skip s
              | Imported priv key \<Rightarrow> try (st\<lparr>aut_privkey := priv, aut_pubkey := Some key\<rparr>))
         | SSH_AUTH_AUTO_STATE_KEY_IMPORTED \<Rightarrow> try st
         | SSH_AUTH_AUTO_STATE_PUBKEY_ACCEPTED \<Rightarrow> accepted st s
         | SSH_AUTH_AUTO_STATE_NONE \<Rightarrow> Overflow)"

definition ssh_userauth_publickey_auto ::
  "nat \<Rightarrow> event_loop \<Rightarrow> packet_env \<Rightarrow> pubkey_env \<Rightarrow> bytes option \<Rightarrow> pubkey_auth \<Rightarrow> ssh_session \<Rightarrow> auth_result run" where
  "ssh_userauth_publickey_auto n wait e pk username pa s =
     (if \<not> pu_enabled pk
      then Ret (SSH_AUTH_DENIED, pa, s\<lparr>s_supported_methods := s_supported_methods s AND NOT SSH_AUTH_METHOD_PUBLICKEY\<rparr>)
      else if pa_auto pa = None \<and> \<not> heap_grants (pe_heap e) 32 then Ret (SSH_AUTH_ERROR, pa, s)
      else
        let st = (case pa_auto pa of
                    Some st \<Rightarrow> st
                  | None \<Rightarrow> \<lparr>aut_state = SSH_AUTH_AUTO_STATE_NONE, aut_it = [], aut_privkey = None, aut_pubkey = None\<rparr>);
            files = (\<lambda>st1 pa1 s1. let it = (if aut_it st1 = [] then pu_identities pk else aut_it st1)
                                   in auto_loop it wait e pk username (st1\<lparr>aut_it := it\<rparr>) pa1 s1)
        in if aut_state st = SSH_AUTH_AUTO_STATE_NONE then
             run_bind (ssh_userauth_agent n wait e pk username (pa\<lparr>pa_auto := Some st\<rparr>) s) (\<lambda>(rc, pa1, s1).
               if rc \<in> {SSH_AUTH_SUCCESS, SSH_AUTH_PARTIAL, SSH_AUTH_AGAIN} then Ret (rc, pa1, s1)
               else files (st\<lparr>aut_state := SSH_AUTH_AUTO_STATE_PUBKEY\<rparr>) pa1 s1)
           else files st pa s)"

end
