(* ===== verification/Login_Trace.thy ===== *)
theory Login_Trace
  imports Login Auth_Publickey
begin

text \<open>
  The login of a client as a whole: which sessions a client can reach when it feeds what the
  socket delivers to \<^verbatim>\<open>ssh_packet_socket_callback\<close>, exchanges banners and asks for services and
  authentication. No connection counts as made before a host key has been checked, and only the
  server's \<^verbatim>\<open>USERAUTH_SUCCESS\<close>, as the answer to a request, authenticates.
\<close>

subsection \<open>The record of a run\<close>

text \<open>
  The packets handled by one call of \<^verbatim>\<open>ssh_packet_socket_callback\<close>: type and session of every call
  of \<^verbatim>\<open>ssh_packet_process\<close>, in the order of the calls.
\<close>

fun packets_handled ::
  "nat \<Rightarrow> (ssh_session \<Rightarrow> handler_table list option) \<Rightarrow> packet_env \<Rightarrow> bytes \<Rightarrow> ssh_session \<Rightarrow> (nat \<times> ssh_session) list" where
  "packets_handled 0 tables e data s = []"
| "packets_handled (Suc n) tables e data s =
     (if s_session_state s = SSH_SESSION_STATE_ERROR \<or> s_packet_state s = PACKET_STATE_PROCESSING then []
      else case (if s_packet_state s = PACKET_STATE_INIT then read_length e (read_params s) data s else Go s) of
          Go s1 \<Rightarrow>
            (case read_packet e (read_params s) data s1 of
               Go (processed, s2) \<Rightarrow>
                 let s3 = snd (ssh_packet_parse_type (s2\<lparr>s_packet_state := PACKET_STATE_PROCESSING\<rparr>)) in
                 (if ssh_packet_incoming_filter s3 = SSH_PACKET_ALLOWED then [(unat (s_in_type s3), s3)] else []) @
                 (case handle_packet tables e processed s2 of
                    Ret (Go s4) \<Rightarrow>
                      if processed < length data then packets_handled n tables e (drop processed data) s4 else []
                  | _ \<Rightarrow> [])
             | _ \<Rightarrow> [])
        | _ \<Rightarrow> [])"

text \<open>A client before its first key exchange is finished.\<close>

definition new_client :: "ssh_session \<Rightarrow> bool" where
  "new_client s \<longleftrightarrow> \<not> s_server s \<and> s_flags s AND SSH_SESSION_FLAG_AUTHENTICATED = 0 \<and> \<not> s_connected s \<and>
     s_dh_handshake_state s \<noteq> DH_STATE_FINISHED \<and> s_session_state s \<noteq> SSH_SESSION_STATE_AUTHENTICATING \<and>
     s_session_state s \<noteq> SSH_SESSION_STATE_AUTHENTICATED"

text \<open>
  The sessions a client reaches, with the packets it handled. Every step has its own environment:
  time, memory, randomness and the answers of the socket change. The requests are those of a
  session that does not block: the event loop returns at once and the call is repeated later.
\<close>

inductive client_run ::
  "bytes \<Rightarrow> exchange_ops \<Rightarrow> (nat \<Rightarrow> handler option) \<Rightarrow> (nat \<times> ssh_session) list \<Rightarrow> ssh_session \<Rightarrow> bool"
  for banner :: bytes and xo :: exchange_ops and other :: "nat \<Rightarrow> handler option" where
  start: "new_client s \<Longrightarrow> client_run banner xo other [] s"
| connected: "client_run banner xo other tr s \<Longrightarrow> socket_callback_connected banner e xo code s = Ret t \<Longrightarrow>
    client_run banner xo other tr t"
| banner: "client_run banner xo other tr s \<Longrightarrow> callback_receive_banner banner e xo data s = Ret (rc, t) \<Longrightarrow>
    client_run banner xo other tr t"
| bytes: "client_run banner xo other tr s \<Longrightarrow>
    ssh_packet_socket_callback (client_tables banner e xo other) e data s = Ret (rc, t) \<Longrightarrow>
    client_run banner xo other (tr @ packets_handled (Suc (length data)) (client_tables banner e xo other) e data s) t"
| service: "client_run banner xo other tr s \<Longrightarrow>
    ssh_service_request (\<lambda>c s. Ret (w, s)) e s name = Ret (rc, t) \<Longrightarrow> client_run banner xo other tr t"
| auth_none: "client_run banner xo other tr s \<Longrightarrow>
    ssh_userauth_none (\<lambda>c s. Ret (w, s)) e s user = Ret (rc, t) \<Longrightarrow> client_run banner xo other tr t"
| password: "client_run banner xo other tr s \<Longrightarrow>
    ssh_userauth_password (\<lambda>c s. Ret (w, s)) e s user pass = Ret (rc, t) \<Longrightarrow> client_run banner xo other tr t"
| kbdint: "client_run banner xo other tr s \<Longrightarrow>
    ssh_userauth_kbdint (\<lambda>c s. Ret (w, s)) e s user submethods = Ret (rc, t) \<Longrightarrow> client_run banner xo other tr t"
| setanswer: "client_run banner xo other tr s \<Longrightarrow>
    ssh_userauth_kbdint_setanswer h s i answer = (rc, t) \<Longrightarrow> client_run banner xo other tr t"
| offer: "client_run banner xo other tr s \<Longrightarrow>
    ssh_userauth_try_publickey (\<lambda>c s. Ret (w, s)) e pk s user pubkey = Ret (rc, t) \<Longrightarrow> client_run banner xo other tr t"
| publickey: "client_run banner xo other tr s \<Longrightarrow>
    ssh_userauth_publickey (\<lambda>c s. Ret (w, s)) e pk s user privkey = Ret (rc, t) \<Longrightarrow> client_run banner xo other tr t"
| agent: "client_run banner xo other tr s \<Longrightarrow>
    ssh_userauth_agent n (\<lambda>c s. Ret (w, s)) e pk user pa s = Ret (rc, pa1, t) \<Longrightarrow> client_run banner xo other tr t"
| automatic: "client_run banner xo other tr s \<Longrightarrow>
    ssh_userauth_publickey_auto n (\<lambda>c s. Ret (w, s)) e pk user pa s = Ret (rc, pa1, t) \<Longrightarrow> client_run banner xo other tr t"
| packet_out: "client_run banner xo other tr s \<Longrightarrow>
    ssh_packet_send e (s\<lparr>s_out_buffer := b\<rparr>) = Ret (rc, t) \<Longrightarrow> client_run banner xo other tr t"

text \<open>What the record has to show.\<close>

definition key_checked :: "exchange_ops \<Rightarrow> nat \<times> ssh_session \<Rightarrow> bool" where
  "key_checked xo p \<longleftrightarrow> fst p = 21 \<and> s_session_state (snd p) = SSH_SESSION_STATE_DH \<and>
     s_dh_handshake_state (snd p) = DH_STATE_NEWKEYS_SENT \<and>
     (\<exists>next. s_next_crypto (snd p) = Some next \<and> host_key_accepted xo (snd p) (cr_exchange next))"

definition login_granted :: "nat \<times> ssh_session \<Rightarrow> bool" where
  "login_granted p \<longleftrightarrow> fst p = 52 \<and> s_session_state (snd p) = SSH_SESSION_STATE_AUTHENTICATING \<and>
     s_auth_state (snd p) \<in> {SSH_AUTH_STATE_KBDINT_SENT, SSH_AUTH_STATE_PUBKEY_AUTH_SENT,
       SSH_AUTH_STATE_PASSWORD_AUTH_SENT, SSH_AUTH_STATE_GSSAPI_MIC_SENT, SSH_AUTH_STATE_AUTH_NONE_SENT}"

text \<open>One packet of each kind, in this order.\<close>

definition checked_then_granted :: "exchange_ops \<Rightarrow> (nat \<times> ssh_session) list \<Rightarrow> bool" where
  "checked_then_granted xo tr \<longleftrightarrow>
     (\<exists>tr1 tr2 p. tr = tr1 @ p # tr2 \<and> login_granted p \<and> (\<exists>q \<in> set tr1. key_checked xo q))"

definition login_inv :: "exchange_ops \<Rightarrow> (nat \<times> ssh_session) list \<Rightarrow> ssh_session \<Rightarrow> bool" where
  "login_inv xo tr s \<longleftrightarrow> \<not> s_server s \<and>
     (s_dh_handshake_state s = DH_STATE_FINISHED \<or> s_connected s \<or>
      s_session_state s = SSH_SESSION_STATE_AUTHENTICATING \<longrightarrow> (\<exists>q \<in> set tr. key_checked xo q)) \<and>
     (s_flags s AND SSH_SESSION_FLAG_AUTHENTICATED \<noteq> 0 \<or> s_session_state s = SSH_SESSION_STATE_AUTHENTICATED
        \<longrightarrow> checked_then_granted xo tr)"

lemma login_inv_keeps: "login_inv xo tr s \<Longrightarrow> keeps s t \<Longrightarrow> login_inv xo tr t"
  by (auto simp: login_inv_def keeps_def)

lemma checked_then_granted_append: "checked_then_granted xo tr \<Longrightarrow> checked_then_granted xo (tr @ l)"
  unfolding checked_then_granted_def by (metis append_Cons append_assoc)

lemma login_inv_append: "login_inv xo tr s \<Longrightarrow> login_inv xo (tr @ l) s"
  by (auto simp: login_inv_def intro: checked_then_granted_append)

lemma login_inv_packet_state [simp]: "login_inv xo tr (s\<lparr>s_packet_state := ps\<rparr>) = login_inv xo tr s"
  by (simp add: login_inv_def)

lemma login_inv_start: "new_client s \<Longrightarrow> login_inv xo [] s"
  by (simp add: login_inv_def new_client_def)

subsection \<open>One packet\<close>

lemma newkeys_kept:
  assumes "\<not> s_server t"
  shows "ends (\<lambda>(used, u). keeps t u \<or>
      key_checked xo (21, t) \<and> keeps (t\<lparr>s_dh_handshake_state := DH_STATE_FINISHED\<rparr>) u)
    (ssh_packet_newkeys (ssh_client_connection_callback banner e xo) e xo t)"
proof (cases "s_session_state t = SSH_SESSION_STATE_DH \<and> s_dh_handshake_state t = DH_STATE_NEWKEYS_SENT")
  case True
  let ?fin = "\<lambda>u. u\<lparr>s_dh_handshake_state := DH_STATE_FINISHED\<rparr>"
  have failed: "keeps t u \<Longrightarrow> keeps t (u\<lparr>s_session_state := SSH_SESSION_STATE_ERROR\<rparr>)" for u
    by (simp add: keeps_states)
  show ?thesis
  proof (cases "s_next_crypto t")
    case None
    with True assms show ?thesis
      by (simp add: ssh_packet_newkeys_def)
  next
    case (Some nx)
    let ?t = "put_exchange ((cr_exchange nx)\<lparr>ex_dh_server_signature := None\<rparr>) t"
    obtain rc u where keys: "ssh_packet_set_newkeys (pe_heap e) (pe_kex e) (pe_now e) ?t SSH_DIRECTION_IN = (rc, u)"
      by (rule prod.exhaust)
    have u: "keeps t u"
      by (simp add: set_newkeys_keeps [OF keys])
    have "keeps (?fin t) (?fin u)"
      using u by (auto simp: keeps_def)
    then have conn: "ends (keeps (?fin t)) (ssh_client_connection_callback banner e xo (?fin u))"
      by (rule connection_callback_keeps)
    show ?thesis
    proof (cases "host_key_accepted xo t (cr_exchange nx) \<and> rc = SSH_OK")
      case ok: True
      then have "key_checked xo (21, t)"
        using True Some by (simp add: key_checked_def)
      with conn ok True Some assms keys show ?thesis
        by (cases "ssh_client_connection_callback banner e xo (?fin u)")
           (simp_all add: ssh_packet_newkeys_def Let_def)
    next
      case False
      with True Some assms keys u show ?thesis
        by (auto simp: ssh_packet_newkeys_def newkeys_failed_def Let_def intro!: failed)
    qed
  qed
next
  case False
  then show ?thesis
    by (simp add: ssh_packet_newkeys_def newkeys_failed_def keeps_states)
qed

lemma success_granted:
  assumes "ssh_packet_userauth_success t = Ret (used, u)"
  shows "s_server u = s_server t" and "s_dh_handshake_state u = s_dh_handshake_state t"
    and "s_connected u = s_connected t" and "s_session_state u = SSH_SESSION_STATE_AUTHENTICATED" and "used"
  using assms
  by (auto simp: ssh_packet_userauth_success_def start_delayed_def put_crypto_def Let_def
      split: option.splits prod.splits which_crypto.splits)

lemma table_entry:
  assumes "1 \<le> n" and "n \<le> 100"
  shows "snd (default_packet_handlers cb e xo other) ! (n - 1) = default_handler cb e xo other n"
  using assms by (simp add: default_packet_handlers_def)

lemma default_handler_kept:
  assumes "keeps_login other" and "n \<noteq> 21" and "n \<noteq> 52" and "keeps s t"
    and "default_handler (ssh_client_connection_callback banner e xo) e xo other n = Some f"
  shows "kept s (f t)"
  using assms
  by (auto simp: default_handler_def keeps_login_def split: if_splits
      intro: transport_handlers_kept kexinit_kept auth_handlers_kept pk_ok_kept)

lemma kex_table_kept:
  assumes "kex_table e xo c = (start, cs)" and "start \<le> n" and "n < start + length cs" and "keeps s t"
    and "cs ! (n - start) = Some f"
  shows "kept s (f t)"
proof -
  have on_next: "(\<And>next. kept s (g t next)) \<Longrightarrow> kept s (on_next g t)" for g
    by (simp add: on_next_def split: option.split)
  have "n - start < 3"
    using assms(1-3) by (cases c) (auto simp: kex_table_def)
  then have "n - start = 0 \<or> n - start = 1 \<or> n - start = 2"
    by arith
  with assms show ?thesis
    by (cases c)
       (auto simp: kex_table_def ssh_packet_client_dh_reply_def ssh_packet_client_dhgex_reply_def nth_Cons'
         intro!: on_next curve25519_reply_kept ecdh_reply_kept dh_reply_kept dhgex_group_kept split: if_splits)
qed

lemma process_dispatch:
  assumes "ssh_packet_process tables e s n = Ret u" and "tables s = Some ts"
  obtains used v where "dispatch ts (unat n) s = Ret (used, v)" and "if used then u = v else keeps v u"
proof -
  obtain used v where d: "dispatch ts (unat n) s = Ret (used, v)"
    and rest: "(if used then Ret v else run_bind (ssh_packet_send_unimplemented e v (s_recv_seq v - 1)) (\<lambda>(_, s2). Ret s2)) = Ret u"
    using assms by (auto simp: ssh_packet_process_def run_bind_Ret)
  have "keeps v u" if nu: "\<not> used"
  proof -
    obtain rc where "ssh_packet_send_unimplemented e v (s_recv_seq v - 1) = Ret (rc, u)"
      using rest nu by (auto simp: run_bind_Ret)
    from endsD [OF send_unimplemented_kept [OF keeps_refl] this] show ?thesis
      by simp
  qed
  with d rest that show ?thesis
    by (cases used) auto
qed

lemma newkeys_login:
  assumes inv: "login_inv xo tr s"
    and call: "ssh_packet_newkeys (ssh_client_connection_callback banner e xo) e xo s = Ret (used, u)"
  shows "login_inv xo (tr @ [(21, s)]) u"
proof -
  have "\<not> s_server s"
    using inv by (simp add: login_inv_def)
  from endsD [OF newkeys_kept [OF this] call]
  consider "keeps s u" | "key_checked xo (21, s)" "keeps (s\<lparr>s_dh_handshake_state := DH_STATE_FINISHED\<rparr>) u"
    by auto
  then show ?thesis
  proof cases
    case 1
    with inv show ?thesis
      by (blast intro: login_inv_keeps login_inv_append)
  next
    case 2
    have "login_inv xo (tr @ [(21, s)]) (s\<lparr>s_dh_handshake_state := DH_STATE_FINISHED\<rparr>)"
      using login_inv_append [OF inv, of "[(21, s)]"] 2(1) by (auto simp: login_inv_def)
    with 2(2) show ?thesis
      by (simp add: login_inv_keeps)
  qed
qed

lemma success_login:
  assumes inv: "login_inv xo tr s" and n: "unat (s_in_type s) = 52"
    and allowed: "ssh_packet_incoming_filter s = SSH_PACKET_ALLOWED"
    and call: "ssh_packet_userauth_success s = Ret (used, u)"
  shows "login_inv xo (tr @ [(52, s)]) u"
proof -
  have granted: "login_granted (52, s)" "s_dh_handshake_state s = DH_STATE_FINISHED"
    using allowed n by (auto simp: login_granted_def ssh_packet_incoming_filter_def filter_defs split: if_splits)
  then have checked: "\<exists>q \<in> set tr. key_checked xo q"
    using inv by (simp add: login_inv_def)
  with granted(1) have "checked_then_granted xo (tr @ [(52, s)])"
    unfolding checked_then_granted_def by blast
  with success_granted [OF call] inv checked show ?thesis
    by (simp add: login_inv_def)
qed

lemma other_login:
  assumes other: "keeps_login other" and inv: "login_inv xo tr s" and n: "n \<noteq> 21" "n \<noteq> 52" "1 \<le> n" "n \<le> 100"
    and call: "dispatch (default_packet_handlers (ssh_client_connection_callback banner e xo) e xo other #
        map (kex_table e xo) cs) n s = Ret (used, u)"
  shows "keeps s u"
proof -
  let ?cb = "ssh_client_connection_callback banner e xo"
  have "kept s (dispatch (default_packet_handlers ?cb e xo other # map (kex_table e xo) cs) n s)"
  proof (rule dispatch_kept)
    show "\<forall>(start, fs) \<in> set (default_packet_handlers ?cb e xo other # map (kex_table e xo) cs).
        start \<le> n \<and> n < start + length fs \<longrightarrow> (\<forall>f u. fs ! (n - start) = Some f \<longrightarrow> keeps s u \<longrightarrow> kept s (f u))"
      using table_entry [OF n(3,4), of ?cb e xo other] default_handler_kept [OF other n(1,2)] kex_table_kept
      by (auto simp: default_packet_handlers_def)
  qed simp
  from endsD [OF this call] show ?thesis
    by simp
qed

lemma process_login:
  assumes other: "keeps_login other" and inv: "login_inv xo tr s"
    and allowed: "ssh_packet_incoming_filter s = SSH_PACKET_ALLOWED"
    and call: "ssh_packet_process (client_tables banner e xo other) e s (s_in_type s) = Ret u"
  shows "login_inv xo (tr @ [(unat (s_in_type s), s)]) u"
proof -
  let ?n = "unat (s_in_type s)" and ?cb = "ssh_client_connection_callback banner e xo"
  have n: "1 \<le> ?n" "?n \<le> 100"
    using allowed by (auto simp: ssh_packet_incoming_filter_def Let_def split: if_splits)
  obtain used v where d: "dispatch (default_packet_handlers ?cb e xo other # map (kex_table e xo) (s_kex_callbacks s)) ?n s = Ret (used, v)"
    and u: "if used then u = v else keeps v u"
    using process_dispatch [OF call client_tables_def] by blast
  consider "?n = 21" | "?n = 52" | "?n \<noteq> 21" "?n \<noteq> 52"
    by blast
  then have "login_inv xo (tr @ [(?n, s)]) v"
  proof cases
    case 1
    with d table_entry [OF n, of ?cb e xo other] have "ssh_packet_newkeys ?cb e xo s = Ret (used, v)"
      by (auto simp: default_packet_handlers_def default_handler_def run_bind_Ret ssh_packet_newkeys_def newkeys_failed_def
          split: if_splits)
    with inv 1 show ?thesis
      by (simp add: newkeys_login)
  next
    case 2
    with d table_entry [OF n, of ?cb e xo other] have "ssh_packet_userauth_success s = Ret (used, v)"
      by (auto simp: default_packet_handlers_def default_handler_def run_bind_Ret ssh_packet_userauth_success_def)
    with inv 2 allowed show ?thesis
      by (simp add: success_login)
  next
    case 3
    with inv other_login [OF other inv 3 n d] show ?thesis
      by (blast intro: login_inv_keeps login_inv_append)
  qed
  with u show ?thesis
    by (cases used) (auto intro: login_inv_keeps)
qed

subsection \<open>A call of the packet reader\<close>

lemma handle_packet_login:
  assumes other: "keeps_login other" and inv: "login_inv xo tr s"
  defines "s3 \<equiv> snd (ssh_packet_parse_type (s\<lparr>s_packet_state := PACKET_STATE_PROCESSING\<rparr>))"
  shows "ends (staged id (login_inv xo
      (tr @ (if ssh_packet_incoming_filter s3 = SSH_PACKET_ALLOWED then [(unat (s_in_type s3), s3)] else []))))
    (handle_packet (client_tables banner e xo other) e k s)"
proof -
  have s3: "login_inv xo tr s3"
    by (rule login_inv_keeps [OF inv]) (simp add: s3_def)
  show ?thesis
  proof (cases "ssh_packet_incoming_filter s3")
    case SSH_PACKET_ALLOWED
    then show ?thesis
      using process_login [OF other s3]
      by (cases "ssh_packet_process (client_tables banner e xo other) e s3 (s_in_type s3)")
         (auto simp: handle_packet_def Let_def s3_def [symmetric] intro: login_inv_keeps)
  next
    case SSH_PACKET_DENIED
    with s3 show ?thesis
      by (simp add: handle_packet_def s3_def [symmetric])
  next
    case SSH_PACKET_UNKNOWN
    with s3 show ?thesis
      by (auto simp: handle_packet_def s3_def [symmetric] intro!: kept_bind [OF send_unimplemented_kept [OF keeps_refl]]
          intro: login_inv_keeps)
  qed
qed

lemma rekey_if_due_kept: "keeps s t \<Longrightarrow> kept s (rekey_if_due e k t)"
  unfolding rekey_if_due_def by (intro ends_rules kept_bind [OF sends_kept(3)]) auto

lemma error_exit_kept: "keeps s t \<Longrightarrow> kept s (error_exit k t)"
  by (simp add: error_exit_def keeps_states)

lemma login_inv_end:
  assumes "login_inv xo tr s" and "kept s r" and "r = Ret (rc, t)"
  shows "login_inv xo tr t"
  using endsD [OF assms(2,3)] login_inv_keeps [OF assms(1)] by simp

lemma error_exit_login: "login_inv xo tr s \<Longrightarrow> error_exit k s = Ret (rc, t) \<Longrightarrow> login_inv xo tr t"
  by (rule login_inv_end [OF _ error_exit_kept [OF keeps_refl]])

lemma read_stages_login:
  assumes inv: "login_inv xo tr s"
    and st: "st = (if s_packet_state s = PACKET_STATE_INIT then read_length e p data s else Go s)"
  shows "staged id (login_inv xo tr) st" and "st = Go s1 \<Longrightarrow> staged snd (login_inv xo tr) (read_packet e p data s1)"
proof -
  show st: "staged id (login_inv xo tr) st"
    using read_length_keeps [OF keeps_refl, of s e p data] inv
    by (auto simp: st staged_def split: stage.splits intro: login_inv_keeps)
  show "staged snd (login_inv xo tr) (read_packet e p data s1)" if "st = Go s1"
    using st read_packet_keeps [OF keeps_refl, of s1 e p data] that
    by (auto simp: staged_def split: stage.splits intro: login_inv_keeps)
qed

lemma next_packets_login:
  assumes run: "(if k < length data
      then run_bind (socket_callback n tables e (drop k data) s) (\<lambda>(rc, s1). rekey_if_due e (int k + rc) s1)
      else rekey_if_due e (int k) s) = Ret (rc, t)"
    and inv: "login_inv xo tr s"
    and again: "\<And>data rc t. socket_callback n tables e data s = Ret (rc, t) \<Longrightarrow>
      login_inv xo (tr @ packets_handled n tables e data s) t"
  shows "login_inv xo (tr @ (if k < length data then packets_handled n tables e (drop k data) s else [])) t"
proof (cases "k < length data")
  case True
  then obtain rc1 s1 where "socket_callback n tables e (drop k data) s = Ret (rc1, s1)"
    and "rekey_if_due e (int k + rc1) s1 = Ret (rc, t)"
    using run by (auto simp: run_bind_Ret)
  with again True show ?thesis
    by (auto intro: login_inv_end [OF _ rekey_if_due_kept [OF keeps_refl]])
next
  case False
  with run inv show ?thesis
    by (auto intro: login_inv_end [OF _ rekey_if_due_kept [OF keeps_refl]])
qed

lemma socket_callback_login:
  assumes other: "keeps_login other" and tables: "tables = client_tables banner e xo other"
  shows "login_inv xo tr s \<Longrightarrow> socket_callback n tables e data s = Ret (rc, t) \<Longrightarrow>
    login_inv xo (tr @ packets_handled n tables e data s) t"
proof (induction n arbitrary: tr data s rc t)
  case (Suc n)
  define st where "st = (if s_packet_state s = PACKET_STATE_INIT then read_length e (read_params s) data s else Go s)"
  note run = Suc.prems(2) [unfolded socket_callback.simps Let_def st_def [symmetric]]
  note packets = packets_handled.simps(2) [of n tables e data s, folded st_def]
  note read = read_stages_login [OF Suc.prems(1) st_def]
  show ?case
  proof (cases "s_session_state s = SSH_SESSION_STATE_ERROR \<or> s_packet_state s = PACKET_STATE_PROCESSING")
    case True
    with Suc.prems error_exit_login show ?thesis
      by (auto split: if_splits)
  next
    case False
    show ?thesis
    proof (cases "\<exists>s1 k s2. st = Go s1 \<and> read_packet e (read_params s) data s1 = Go (k, s2)")
      case True
      then obtain s1 k s2 where s1: "st = Go s1" and s2: "read_packet e (read_params s) data s1 = Go (k, s2)"
        by blast
      then have inv2: "login_inv xo tr s2"
        using read(2) [OF s1] by simp
      define s3 where "s3 = snd (ssh_packet_parse_type (s2\<lparr>s_packet_state := PACKET_STATE_PROCESSING\<rparr>))"
      define l where "l = (if ssh_packet_incoming_filter s3 = SSH_PACKET_ALLOWED then [(unat (s_in_type s3), s3)] else [])"
      obtain st2 where st2: "handle_packet tables e k s2 = Ret st2"
        using run False by (auto simp: s1 s2 run_bind_Ret)
      have h: "staged id (login_inv xo (tr @ l)) st2"
        unfolding l_def s3_def by (rule endsD [OF handle_packet_login [OF other inv2] st2 [unfolded tables]])
      show ?thesis
      proof (cases st2)
        case (Go s4)
        then have inv4: "login_inv xo (tr @ l) s4"
          using h by simp
        have tail: "(if k < length data
            then run_bind (socket_callback n tables e (drop k data) s4) (\<lambda>(rc, s1). rekey_if_due e (int k + rc) s1)
            else rekey_if_due e (int k) s4) = Ret (rc, t)"
          using run False by (simp add: s1 s2 st2 Go)
        have "packets_handled (Suc n) tables e data s =
            l @ (if k < length data then packets_handled n tables e (drop k data) s4 else [])"
          using False by (simp add: packets s1 s2 st2 Go l_def s3_def Let_def del: packets_handled.simps)
        with next_packets_login [OF tail inv4 Suc.IH [OF inv4]] show ?thesis
          by simp
      qed (use run False h error_exit_login in
          \<open>auto simp: packets s1 s2 st2 l_def s3_def Let_def simp del: packets_handled.simps\<close>)
    next
      case none: False
      then have "packets_handled (Suc n) tables e data s = []"
        by (auto simp: packets simp del: packets_handled.simps split: stage.split)
      with none run False read error_exit_login show ?thesis
        by (cases st) (auto split: stage.splits)
    qed
  qed
qed simp

subsection \<open>Requests\<close>

lemma auth_pending_kept: "keeps s t \<Longrightarrow> kept s (auth_pending (\<lambda>c s. Ret (w, s)) t)"
  by (simp add: auth_pending_def ssh_userauth_get_response_def)

lemma service_request_kept: "keeps s t \<Longrightarrow> kept s (ssh_service_request (\<lambda>c s. Ret (w, s)) e t name)"
  unfolding ssh_service_request_def service_pending_def
  by (intro ends_rules kept_bind [OF ssh_packet_send_kept]) auto

lemma auth_request_kept:
  assumes "keeps s t" and "\<And>u. keeps s u \<Longrightarrow> keeps s (update u)"
  shows "kept s (auth_request (\<lambda>c s. Ret (w, s)) e t failed user method extra secure update)"
  unfolding auth_request_def ssh_userauth_request_service_def
  by (intro ends_rules kept_bind [OF service_request_kept [OF assms(1)]] kept_bind [OF ssh_packet_send_kept])
     (auto intro: assms(2) auth_pending_kept)

lemma requests_kept:
  assumes "keeps s t"
  shows "kept s (ssh_userauth_none (\<lambda>c s. Ret (w, s)) e t user)"
    and "kept s (ssh_userauth_password (\<lambda>c s. Ret (w, s)) e t user pass)"
    and "kept s (ssh_userauth_kbdint (\<lambda>c s. Ret (w, s)) e t user submethods)"
  using assms
  by (auto simp: ssh_userauth_none_def ssh_userauth_password_def ssh_userauth_kbdint_def ssh_userauth_kbdint_init_def
      ssh_userauth_kbdint_send_def Let_def
      intro!: auth_request_kept auth_pending_kept ends_rules kept_bind [OF ssh_packet_send_kept])

text \<open>The calls with public keys; their own state is behind the session in the result.\<close>

lemma publickey_ends_kept:
  assumes "keeps s t"
  shows "kept s (publickey_failed e t b)" and "kept s (publickey_sent (\<lambda>c s. Ret (w, s)) e t b st p)"
  using assms unfolding publickey_failed_def publickey_sent_def
  by (auto intro!: kept_bind [OF ssh_packet_send_kept] ends_rules auth_pending_kept)

lemma publickey_requests_kept:
  assumes "keeps s t"
  shows "kept s (ssh_userauth_try_publickey (\<lambda>c s. Ret (w, s)) e pk t user pubkey)"
    and "kept s (ssh_userauth_publickey (\<lambda>c s. Ret (w, s)) e pk t user privkey)"
    and "kept s (ssh_userauth_agent_publickey (\<lambda>c s. Ret (w, s)) e pk t user key)"
  using assms
  unfolding ssh_userauth_try_publickey_def ssh_userauth_publickey_def ssh_userauth_agent_publickey_def
    ssh_userauth_request_service_def
  by (auto intro!: ends_rules auth_pending_kept kept_bind [OF service_request_kept] publickey_ends_kept)

abbreviation kept_behind :: "ssh_session \<Rightarrow> auth_result run \<Rightarrow> bool" where
  "kept_behind s r \<equiv> ends (\<lambda>y. keeps s (snd (snd y))) r"

lemma agent_loop_kept: "keeps s t \<Longrightarrow> kept_behind s (agent_loop n (\<lambda>c s. Ret (w, s)) e pk user rc st pa t)"
proof (induction n arbitrary: t rc st pa)
  case (Suc n)
  have following: "kept_behind s (run_bind (ssh_agent_get_next_ident (pe_heap e) (pu_keys pk) (pa_agent pa))
      (\<lambda>(k, c, ag). agent_loop n (\<lambda>c s. Ret (w, s)) e pk user rc1
        \<lparr>ast_state = SSH_AGENT_STATE_NONE, ast_pubkey = k, ast_comment = c\<rparr> (pa\<lparr>pa_agent := ag\<rparr>) u))" if "keeps s u" for u rc1
    using that by (intro ends_bind [where Q = "\<lambda>_. True"]) (auto simp: ends_def [where P = "\<lambda>_. True"] intro!: ends_rules Suc.IH)
  show ?case
    using Suc.prems
    by (auto simp: Let_def intro!: ends_rules kept_bind [OF publickey_requests_kept(1)]
        kept_bind [OF publickey_requests_kept(3)] following)
qed simp

lemma agent_kept: "keeps s t \<Longrightarrow> kept_behind s (ssh_userauth_agent n (\<lambda>c s. Ret (w, s)) e pk user pa t)"
  unfolding ssh_userauth_agent_def
  by (intro ends_rules ends_bind [where Q = "\<lambda>_. True"])
     (auto simp: ends_def [where P = "\<lambda>_. True"] Let_def intro!: ends_rules agent_loop_kept)

lemma ends_cases:
  "(\<And>y. x = FileOk y \<Longrightarrow> ends P (f y)) \<Longrightarrow> (x = FileEof \<Longrightarrow> ends P g) \<Longrightarrow> (x = FileError \<Longrightarrow> ends P h) \<Longrightarrow>
    ends P (case x of FileOk y \<Rightarrow> f y | FileEof \<Rightarrow> g | FileError \<Rightarrow> h)"
  "(i = ImportFails \<Longrightarrow> ends P g) \<Longrightarrow> (i = NotImported \<Longrightarrow> ends P h) \<Longrightarrow> (\<And>a b. i = Imported a b \<Longrightarrow> ends P (f2 a b)) \<Longrightarrow>
    ends P (case i of ImportFails \<Rightarrow> g | NotImported \<Rightarrow> h | Imported a b \<Rightarrow> f2 a b)"
  "ends P r1 \<Longrightarrow> ends P r2 \<Longrightarrow> ends P r3 \<Longrightarrow> ends P r4 \<Longrightarrow>
    ends P (case k of SSH_AUTH_AUTO_STATE_NONE \<Rightarrow> r1 | SSH_AUTH_AUTO_STATE_PUBKEY \<Rightarrow> r2
      | SSH_AUTH_AUTO_STATE_KEY_IMPORTED \<Rightarrow> r3 | SSH_AUTH_AUTO_STATE_PUBKEY_ACCEPTED \<Rightarrow> r4)"
  by (simp_all split: file_result.split imported.split ssh_auth_auto_state_kind.split)

lemma auto_loop_kept: "keeps s t \<Longrightarrow> kept_behind s (auto_loop fs (\<lambda>c s. Ret (w, s)) e pk user st pa t)"
proof (induction fs arbitrary: t st)
  case (Cons f fs)
  then show ?case
    by (auto simp: Let_def intro!: ends_rules ends_cases kept_bind [OF publickey_requests_kept(1)]
        kept_bind [OF publickey_requests_kept(2)])
qed simp

lemma publickey_auto_kept: "keeps s t \<Longrightarrow> kept_behind s (ssh_userauth_publickey_auto n (\<lambda>c s. Ret (w, s)) e pk user pa t)"
  unfolding ssh_userauth_publickey_auto_def
  by (auto simp: Let_def intro!: ends_rules auto_loop_kept ends_bind [OF agent_kept])

lemma setanswer_keeps: "ssh_userauth_kbdint_setanswer h t i a = (rc, u) \<Longrightarrow> keeps s u = keeps s t"
  by (auto simp: ssh_userauth_kbdint_setanswer_def Let_def split: option.splits if_splits)

lemma socket_connected_keeps: "keeps s t \<Longrightarrow> ends (keeps s) (socket_callback_connected banner e xo code t)"
  by (auto simp: socket_callback_connected_def intro!: connection_callback_keeps keeps_states)

lemma client_run_login:
  assumes other: "keeps_login other"
  shows "client_run banner xo other tr s \<Longrightarrow> login_inv xo tr s"
proof (induction rule: client_run.induct)
  case (connected tr s e code t)
  with endsD [OF socket_connected_keeps [OF keeps_refl]] show ?case
    by (blast intro: login_inv_keeps)
next
  case (bytes tr s e data rc t)
  then show ?case
    unfolding ssh_packet_socket_callback_def by (blast intro: socket_callback_login [OF other refl])
next
  case (setanswer tr s h i answer rc t)
  with setanswer_keeps [OF setanswer(2), of s] show ?case
    by (auto intro: login_inv_keeps)
next
  case (packet_out tr s e b rc t)
  show ?case
    by (rule login_inv_end [OF packet_out(3) _ packet_out(2)]) (simp add: ssh_packet_send_kept)
qed (auto intro: login_inv_start login_inv_end [OF _ callback_receive_banner_kept [OF keeps_refl]]
    login_inv_end [OF _ service_request_kept [OF keeps_refl]] login_inv_end [OF _ requests_kept(1) [OF keeps_refl]]
    login_inv_end [OF _ requests_kept(2) [OF keeps_refl]] login_inv_end [OF _ requests_kept(3) [OF keeps_refl]]
    login_inv_end [OF _ publickey_requests_kept(1) [OF keeps_refl]]
    login_inv_end [OF _ publickey_requests_kept(2) [OF keeps_refl]]
    dest: endsD [OF agent_kept [OF keeps_refl]] endsD [OF publickey_auto_kept [OF keeps_refl]] login_inv_keeps)

subsection \<open>A concrete run\<close>

text \<open>
  A client that has sent its \<^verbatim>\<open>NEWKEYS\<close> receives the server's, signed with a key it accepts, and
  then the success of its password.
\<close>

definition login_ops :: exchange_ops where
  "login_ops = \<lparr>eo_x25519_keygen = None, eo_x25519_derive = (\<lambda>_ _. None), eo_ec_generate = (\<lambda>_. None),
     eo_ec_compute = (\<lambda>_ _. None), eo_dh_new = False, eo_dh_generate = (\<lambda>_ _. None), eo_dh_compute = (\<lambda>_ _ _. None),
     eo_import_pubkey = (\<lambda>_. None), eo_import_signature = (\<lambda>_ _. Some (lit ''ssh-ed25519'', [])),
     eo_signature_verify = (\<lambda>sig key hash. if hash = [9] then SSH_OK else SSH_ERROR)\<rparr>"

definition login_env :: packet_env where
  "login_env = \<lparr>pe_heap = roomy_heap,
     pe_ops = \<lparr>co_encrypt = (\<lambda>_ bs. bs), co_decrypt = (\<lambda>_ _ bs. bs), co_hmac_init = True,
       co_mac = (\<lambda>_ _. replicate 12 1), co_aead_encrypt = None, co_aead_decrypt_length = None, co_aead_decrypt = None\<rparr>,
     pe_kex = sample_kex, pe_now = time_zero, pe_random = (\<lambda>_. None), pe_deflate = (\<lambda>_ _. []), pe_inflate = (\<lambda>_ _. []),
     pe_write = (\<lambda>_. SSH_OK), pe_fips = False, pe_known_hosts = None, pe_server_set_kex = (\<lambda>c. (SSH_OK, c))\<rparr>"

abbreviation login_tables :: "ssh_session \<Rightarrow> handler_table list option" where
  "login_tables \<equiv> client_tables [] login_env login_ops (\<lambda>_. None)"

definition checked_crypto :: ssh_crypto where
  "checked_crypto = sample_crypto\<lparr>cr_in_cipher := Some sample_cipher, cr_out_cipher := Some sample_cipher,
     cr_exchange := empty_exchange\<lparr>ex_server_pubkey := Some [1], ex_secret_hash := [9]\<rparr>\<rparr>"

definition keys_sent_session :: ssh_session where
  "keys_sent_session = sample_session\<lparr>s_session_state := SSH_SESSION_STATE_DH,
     s_dh_handshake_state := DH_STATE_NEWKEYS_SENT,
     s_next_crypto := Some (checked_crypto\<lparr>cr_used := SSH_DIRECTION_OUT\<rparr>)\<rparr>"

definition keys_packet :: bytes where
  "keys_packet = [0, 0, 0, 12, 10, 21, 0, 0, 0, 0, 0, 0, 0, 0, 0, 0]"

definition success_packet :: bytes where
  "success_packet = [0, 0, 0, 12, 10, 52, 0, 0, 0, 0, 0, 0, 0, 0, 0, 0] @ replicate 12 1"

abbreviation block_buffer :: "bytes \<Rightarrow> nat \<Rightarrow> nat \<Rightarrow> ssh_buffer" where
  "block_buffer ds used pos \<equiv>
     \<lparr>b_secure = False, b_used = used, b_alloc = 64, b_pos = pos, b_data = ds, b_freed = []\<rparr>"

definition key_block :: bytes where
  "key_block = keys_packet @ replicate 48 204"

definition success_block :: bytes where
  "success_block = take 16 success_packet @ replicate 48 204"

text \<open>The session after each stage.\<close>

definition connected_session :: ssh_session where
  "connected_session = keys_sent_session\<lparr>s_session_state := SSH_SESSION_STATE_AUTHENTICATING,
     s_dh_handshake_state := DH_STATE_FINISHED, s_connected := True, s_recv_seq := 1, s_in_type := 21,
     s_in_buffer := Some (block_buffer key_block 6 6),
     s_current_crypto := Some (checked_crypto\<lparr>cr_used := SSH_DIRECTION_BOTH\<rparr>),
     s_next_crypto := map_option (\<lambda>c. c\<lparr>cr_session_id := []\<rparr>) (crypto_new roomy_heap)\<rparr>"

definition length_read :: ssh_session where
  "length_read = connected_session\<lparr>s_in_type := 0, s_in_len := 12,
     s_in_buffer := Some (block_buffer success_block 16 0), s_packet_state := PACKET_STATE_SIZEREAD\<rparr>"

definition success_read :: ssh_session where
  "success_read = length_read\<lparr>s_in_buffer := Some (block_buffer success_block 6 5), s_recv_seq := 2,
     s_current_crypto := map_option (\<lambda>c. c\<lparr>cr_in_cipher := map_option (count_packet 1) (cr_in_cipher c)\<rparr>)
       (s_current_crypto length_read)\<rparr>"

lemma keys_accepted:
  "ssh_packet_socket_callback login_tables login_env keys_packet keys_sent_session = Ret (16, connected_session)"
  by code_simp

lemma login_env_fields: "pe_heap login_env = roomy_heap" "co_aead_decrypt_length (pe_ops login_env) = None"
  by (simp_all add: login_env_def)

lemma success_length:
  "ssh_packet_decrypt_len (pe_ops login_env) connected_session success_packet = (12, take 16 success_packet)"
proof -
  have "ssh_packet_get_current_crypto connected_session SSH_DIRECTION_IN =
      Some (CurrentCrypto, checked_crypto\<lparr>cr_used := SSH_DIRECTION_BOTH\<rparr>)"
    and "cr_in_cipher (checked_crypto\<lparr>cr_used := SSH_DIRECTION_BOTH\<rparr>) = Some sample_cipher"
    and "ci_blocksize sample_cipher = 16"
    and "ssh_packet_decrypt (pe_ops login_env) connected_session success_packet 0 16 = (0, take 16 success_packet)"
    and "(bswap (load_bytes (take 4 (take 16 success_packet))) :: u32) = 12"
    by code_simp+
  then show ?thesis
    unfolding ssh_packet_decrypt_len_def by (simp add: login_env_fields del: take_take)
qed

lemma success_stage1:
  "read_length login_env (read_params connected_session) success_packet connected_session = Go length_read"
proof -
  have p: "read_params connected_session =
      \<lparr>ip_mac = 12, ip_hmac = SSH_HMAC_MD5_96, ip_blocksize = 16, ip_lf = 16, ip_etm = False, ip_off = 0\<rparr>"
    and "length success_packet = 28" and "s_in_buffer connected_session = Some (block_buffer key_block 6 6)"
    and "ssh_buffer_reinit roomy_heap (block_buffer key_block 6 6) = (0, block_buffer key_block 0 0)"
    and "ssh_buffer_allocate roomy_heap (block_buffer key_block 0 0) 16 = (Some 0, block_buffer key_block 16 0)"
    and "mem_write key_block 0 (take 16 success_packet) = success_block" and "to_int32 0 = 0"
    by code_simp+
  then show ?thesis
    unfolding read_length_def p
    by (simp add: login_env_fields success_length length_read_def MAX_PACKET_LEN_def Let_def)
qed

lemma success_stage2:
  "read_packet login_env (read_params connected_session) success_packet length_read = Go (28, success_read)"
  by code_simp

lemma success_stage3:
  "case handle_packet login_tables login_env 28 success_read of
     Ret (Go s) \<Rightarrow> s_session_state s = SSH_SESSION_STATE_AUTHENTICATED \<and> \<not> ssh_packet_need_rekey time_zero s 0
   | _ \<Rightarrow> False"
  by code_simp

lemma success_accepted:
  obtains rc t where
    "ssh_packet_socket_callback login_tables login_env success_packet connected_session = Ret (rc, t)"
    and "s_session_state t = SSH_SESSION_STATE_AUTHENTICATED"
proof -
  obtain s where "handle_packet login_tables login_env 28 success_read = Ret (Go s)"
    and auth: "s_session_state s = SSH_SESSION_STATE_AUTHENTICATED" and "\<not> ssh_packet_need_rekey time_zero s 0"
    using success_stage3 by (auto split: run.splits stage.splits)
  moreover have len: "length success_packet = 28" and "pe_now login_env = time_zero"
    and "s_session_state connected_session \<noteq> SSH_SESSION_STATE_ERROR"
    and "s_packet_state connected_session = PACKET_STATE_INIT"
    by code_simp+
  ultimately have "socket_callback (Suc 28) login_tables login_env success_packet connected_session = Ret (28, s)"
    unfolding socket_callback.simps by (simp add: success_stage1 success_stage2 rekey_if_due_def)
  then show thesis
    using that auth len unfolding ssh_packet_socket_callback_def len by blast
qed

lemma keys_sent_client: "client_run [] login_ops (\<lambda>_. None) [] keys_sent_session"
  by (rule client_run.start) code_simp

lemma no_handlers_keep: "keeps_login (\<lambda>_. None)"
  by (simp add: keeps_login_def)

subsection \<open>Properties\<close>

text \<open>
  C2. No connection without a checked host key: in every session a client can reach, if the
  connection counts as made, the key exchange as finished or the authentication as begun, then
  among the packets handled so far is a \<^verbatim>\<open>NEWKEYS\<close> that came in answer to the client's own, at the
  end of an exchange whose host key and signature were accepted. The hypothesis says that the
  handlers above the login (channels, global requests) leave it alone.
\<close>

theorem no_connection_without_host_key:
  assumes "keeps_login other" and "client_run banner xo other tr s"
    and "s_connected s \<or> s_dh_handshake_state s = DH_STATE_FINISHED \<or>
      s_session_state s = SSH_SESSION_STATE_AUTHENTICATING"
  shows "\<exists>u next. (21, u) \<in> set tr \<and> s_session_state u = SSH_SESSION_STATE_DH \<and>
    s_dh_handshake_state u = DH_STATE_NEWKEYS_SENT \<and> s_next_crypto u = Some next \<and>
    host_key_accepted xo u (cr_exchange next)"
  using client_run_login [OF assms(1,2)] assms(3)
  by (auto simp: login_inv_def key_checked_def)

theorem no_connection_without_host_key_witness:
  "\<exists>tr. client_run [] login_ops (\<lambda>_. None) tr connected_session \<and> s_connected connected_session \<and>
     (\<exists>u. (21, u) \<in> set tr)"
proof -
  let ?tr = "packets_handled (Suc (length keys_packet)) login_tables login_env keys_packet keys_sent_session"
  have run: "client_run [] login_ops (\<lambda>_. None) ?tr connected_session"
    using client_run.bytes [OF keys_sent_client keys_accepted] by simp
  moreover have connected: "s_connected connected_session"
    by code_simp
  moreover have "\<exists>u. (21, u) \<in> set ?tr"
    using no_connection_without_host_key [OF no_handlers_keep run] connected by blast
  ultimately show ?thesis
    by blast
qed

text \<open>
  C1. Nobody but the server logs the user in: in every session a client can reach, if it carries
  the mark of an authenticated session or is in the authenticated state, the packets handled so
  far contain a \<^verbatim>\<open>USERAUTH_SUCCESS\<close> that was handled while the session was authenticating and a
  request of the client was out, and before it a \<^verbatim>\<open>NEWKEYS\<close> with an accepted host key.
\<close>

theorem login_only_by_success:
  assumes "keeps_login other" and "client_run banner xo other tr s"
    and "s_flags s AND SSH_SESSION_FLAG_AUTHENTICATED \<noteq> 0 \<or> s_session_state s = SSH_SESSION_STATE_AUTHENTICATED"
  shows "\<exists>tr1 tr2 u v next. tr = tr1 @ (52, u) # tr2 \<and> s_session_state u = SSH_SESSION_STATE_AUTHENTICATING \<and>
    s_auth_state u \<in> {SSH_AUTH_STATE_KBDINT_SENT, SSH_AUTH_STATE_PUBKEY_AUTH_SENT,
      SSH_AUTH_STATE_PASSWORD_AUTH_SENT, SSH_AUTH_STATE_GSSAPI_MIC_SENT, SSH_AUTH_STATE_AUTH_NONE_SENT} \<and>
    (21, v) \<in> set tr1 \<and> s_next_crypto v = Some next \<and> host_key_accepted xo v (cr_exchange next)"
proof -
  obtain tr1 tr2 p q where tr: "tr = tr1 @ p # tr2" and p: "login_granted p" and q: "q \<in> set tr1" "key_checked xo q"
    using client_run_login [OF assms(1,2)] assms(3) unfolding login_inv_def checked_then_granted_def by blast
  obtain u v where "p = (52, u)" and "q = (21, v)"
    using p q by (cases p, cases q) (simp add: login_granted_def key_checked_def)
  with tr p q show ?thesis
    unfolding login_granted_def key_checked_def
    by (intro exI [of _ tr1] exI [of _ tr2] exI [of _ u] exI [of _ v]) auto
qed

theorem login_only_by_success_witness:
  "\<exists>tr t. client_run [] login_ops (\<lambda>_. None) tr t \<and> s_session_state t = SSH_SESSION_STATE_AUTHENTICATED \<and>
     (\<exists>tr1 tr2 u v. tr = tr1 @ (52, u) # tr2 \<and> (21, v) \<in> set tr1)"
proof -
  obtain rc t where "ssh_packet_socket_callback login_tables login_env success_packet connected_session = Ret (rc, t)"
    and auth: "s_session_state t = SSH_SESSION_STATE_AUTHENTICATED"
    by (rule success_accepted)
  from client_run.bytes [OF client_run.bytes [OF keys_sent_client keys_accepted] this(1)]
  obtain tr where run: "client_run [] login_ops (\<lambda>_. None) tr t"
    by blast
  from login_only_by_success [OF no_handlers_keep this] auth
  have "\<exists>tr1 tr2 u v. tr = tr1 @ (52, u) # tr2 \<and> (21, v) \<in> set tr1"
    by blast
  with run auth show ?thesis
    by blast
qed

end
