(* ===== verification/Channel.thy ===== *)
theory Channel
  imports Auth Packet_Receive
begin

text \<open>
  Channels (\<^verbatim>\<open>src/libssh/src/channels.c\<close>): opening and closing, data in both directions under the
  windows of the two sides, requests, and the handlers of the messages of the connection
  protocol. A channel is known by its address in the session's list. The user's callbacks do not
  call back into the library: those for data get the unread bytes and say how many they took,
  the others are not modelled. The library is taken as built without the server.
\<close>

subsection \<open>The list of channels\<close>

definition channel_at :: "nat \<Rightarrow> ssh_session \<Rightarrow> ssh_channel option" where
  "channel_at a s = map_of (s_channels s) a"

definition put_channel :: "nat \<Rightarrow> ssh_channel \<Rightarrow> ssh_session \<Rightarrow> ssh_session" where
  "put_channel a c s = s\<lparr>s_channels := map (\<lambda>(b, d). (b, if b = a then c else d)) (s_channels s)\<rparr>"

text \<open>A use of a channel that was freed has no result.\<close>

definition with_channel :: "nat \<Rightarrow> ssh_session \<Rightarrow> (ssh_channel \<Rightarrow> 'a run) \<Rightarrow> 'a run" where
  "with_channel a s f = (case channel_at a s of None \<Rightarrow> Overflow | Some c \<Rightarrow> f c)"

definition WINDOWBASE :: u32 where
  "WINDOWBASE = 1280000"

definition WINDOWLIMIT :: u32 where
  "WINDOWLIMIT = 640000"

definition CHANNEL_MAX_PACKET :: u32 where
  "CHANNEL_MAX_PACKET = 32768"

definition CHANNEL_INITIAL_WINDOW :: u32 where
  "CHANNEL_INITIAL_WINDOW = 64000"

text \<open>
  \<^verbatim>\<open>ssh_channel_new\<close>: \<^verbatim>\<open>calloc\<close> of the channel and its two buffers; the new one is the head of the
  list, at an address no other channel has.
\<close>

definition calloc_channel :: "ssh_buffer \<Rightarrow> ssh_buffer \<Rightarrow> ssh_channel" where
  "calloc_channel out err =
     \<lparr>ch_local_channel = 0, ch_local_window = 0, ch_local_eof = False, ch_local_maxpacket = 0,
      ch_remote_channel = 0, ch_remote_window = 0, ch_remote_eof = False, ch_remote_maxpacket = 0,
      ch_state = SSH_CHANNEL_STATE_NOT_OPEN, ch_delayed_close = False, ch_flags = SSH_CHANNEL_FLAG_NOT_BOUND,
      ch_stdout = Some out, ch_stderr = Some err, ch_exit_status = - 1,
      ch_request_state = SSH_CHANNEL_REQ_STATE_NONE, ch_counter = None\<rparr>"

definition ssh_channel_new :: "heap \<Rightarrow> ssh_session \<Rightarrow> nat option \<times> ssh_session" where
  "ssh_channel_new h s =
     (if s_flags s AND SSH_SESSION_FLAG_AUTHENTICATED = 0 then (None, s)
      else if \<not> heap_grants h 120 then (None, s)
      else case (ssh_buffer_new h, ssh_buffer_new h) of
          (Some out, Some err) \<Rightarrow>
            let a = Suc (fold max (map fst (s_channels s)) 0)
            in (Some a, s\<lparr>s_channels := (a, calloc_channel out err) # s_channels s\<rparr>)
        | _ \<Rightarrow> (None, s))"

definition ssh_channel_new_id :: "ssh_session \<Rightarrow> u32 \<times> ssh_session" where
  "ssh_channel_new_id s = (s_maxchannel s + 1, s\<lparr>s_maxchannel := s_maxchannel s + 1\<rparr>)"

definition ssh_channel_from_local :: "ssh_session \<Rightarrow> u32 \<Rightarrow> (nat \<times> ssh_channel) option" where
  "ssh_channel_from_local s n = find (\<lambda>(a, c). ch_local_channel c = n) (s_channels s)"

definition channel_from_msg :: "heap \<Rightarrow> ssh_session \<Rightarrow> (nat \<times> ssh_channel) option \<times> ssh_session" where
  "channel_from_msg h s =
     (case unpack_call h s ''d'' of
        (rc, outs, s1) \<Rightarrow>
          (if rc \<noteq> SSH_OK then None
           else (case outs of [OutU32 chan] \<Rightarrow> ssh_channel_from_local s1 chan | _ \<Rightarrow> None), s1))"

definition ssh_channel_do_free :: "nat \<Rightarrow> ssh_session \<Rightarrow> ssh_session" where
  "ssh_channel_do_free a s = s\<lparr>s_channels := filter (\<lambda>(b, c). b \<noteq> a) (s_channels s)\<rparr>"

subsection \<open>The windows\<close>

text \<open>What a side does to its window when data arrives, and how much it grants.\<close>

definition consume_window :: "nat \<Rightarrow> ssh_channel \<Rightarrow> ssh_channel" where
  "consume_window len c =
     c\<lparr>ch_local_window := (if len \<le> unat (ch_local_window c) then ch_local_window c - of_nat len else 0)\<rparr>"

definition window_goal :: "u32 \<Rightarrow> u32" where
  "window_goal minimumsize = (if minimumsize > WINDOWBASE then minimumsize else WINDOWBASE)"

text \<open>\<^verbatim>\<open>grow_window\<close>: the increment is sent, then the window grows.\<close>

definition grow_window :: "packet_env \<Rightarrow> ssh_session \<Rightarrow> nat \<Rightarrow> u32 \<Rightarrow> (int \<times> ssh_session) run" where
  "grow_window e s a minimumsize =
     with_channel a s (\<lambda>c.
       let new_window = window_goal minimumsize; h = pe_heap e;
           fail = (\<lambda>t. Ret (SSH_ERROR, t\<lparr>s_out_buffer := snd (ssh_buffer_reinit h (s_out_buffer t))\<rparr>))
       in if new_window \<le> ch_local_window c then Ret (SSH_OK, s)
          else case pack_call h (s_out_buffer s)
                 [FByte 93, FDword (ch_remote_channel c), FDword (new_window - ch_local_window c)] of
              (rc, b) \<Rightarrow>
                let s1 = s\<lparr>s_out_buffer := b\<rparr> in
                if rc \<noteq> SSH_OK then fail s1
                else run_bind (ssh_packet_send e s1) (\<lambda>(rc2, s2).
                  if rc2 = SSH_ERROR then fail s2
                  else with_channel a s2 (\<lambda>c2. Ret (SSH_OK, put_channel a (c2\<lparr>ch_local_window := new_window\<rparr>) s2))))"

definition channel_rcv_change_window :: "heap \<Rightarrow> ssh_session \<Rightarrow> (bool \<times> ssh_session) run" where
  "channel_rcv_change_window h s =
     (case channel_from_msg h s of
        (found, s1) \<Rightarrow>
          (case unpack_call h s1 ''d'' of
             (rc, outs, s2) \<Rightarrow>
               (case (found, outs) of
                  (Some (a, c), [OutU32 bytes]) \<Rightarrow>
                    if rc \<noteq> SSH_OK then Ret (True, s2)
                    else Ret (True, put_channel a (c\<lparr>ch_remote_window := ch_remote_window c + bytes\<rparr>) s2)
                | _ \<Rightarrow> Ret (True, s2))))"

subsection \<open>Data that arrives\<close>

definition channel_buffer :: "bool \<Rightarrow> ssh_channel \<Rightarrow> ssh_buffer option" where
  "channel_buffer is_stderr c = (if is_stderr then ch_stderr c else ch_stdout c)"

definition put_buffer :: "bool \<Rightarrow> ssh_buffer option \<Rightarrow> ssh_channel \<Rightarrow> ssh_channel" where
  "put_buffer is_stderr b c = (if is_stderr then c\<lparr>ch_stderr := b\<rparr> else c\<lparr>ch_stdout := b\<rparr>)"

definition unread_len :: "bool \<Rightarrow> ssh_channel \<Rightarrow> nat" where
  "unread_len is_stderr c = (case channel_buffer is_stderr c of None \<Rightarrow> 0 | Some b \<Rightarrow> ssh_buffer_get_len b)"

definition channel_default_bufferize :: "heap \<Rightarrow> ssh_channel \<Rightarrow> bytes \<Rightarrow> nat \<Rightarrow> bool \<Rightarrow> int \<times> ssh_channel" where
  "channel_default_bufferize h c data len is_stderr =
     (case (case channel_buffer is_stderr c of Some b \<Rightarrow> Some b | None \<Rightarrow> ssh_buffer_new h) of
        None \<Rightarrow> (- 1, c)
      | Some b \<Rightarrow>
          (case ssh_buffer_add_data h b (Some data) len of
             (rc, b1) \<Rightarrow> if rc < 0 then (- 1, put_buffer is_stderr None c) else (0, put_buffer is_stderr (Some b1) c)))"

text \<open>The users of the data, one after the other.\<close>

type_synonym data_function = "bytes \<Rightarrow> bool \<Rightarrow> int"

definition count_read :: "nat \<Rightarrow> ssh_channel \<Rightarrow> ssh_channel" where
  "count_read n c = c\<lparr>ch_counter := map_option (\<lambda>(i, out). (wrap64 (i + n), out)) (ch_counter c)\<rparr>"

fun data_callbacks :: "data_function list \<Rightarrow> bool \<Rightarrow> ssh_channel \<Rightarrow> ssh_channel" where
  "data_callbacks [] is_stderr c = c"
| "data_callbacks (f # fs) is_stderr c =
     (case channel_buffer is_stderr c of
        None \<Rightarrow> c
      | Some b \<Rightarrow>
          let rest = f (buf_content b) is_stderr in
          data_callbacks fs is_stderr
            (if rest > 0 then put_buffer is_stderr (Some (snd (ssh_buffer_pass_bytes b (nat rest)))) (count_read (nat rest) c)
             else c))"

definition channel_rcv_data :: "data_function list \<Rightarrow> packet_env \<Rightarrow> nat \<Rightarrow> ssh_session \<Rightarrow> (bool \<times> ssh_session) run" where
  "channel_rcv_data fs e type s =
     (let h = pe_heap e; is_stderr = (type \<noteq> 94) in
      case channel_from_msg h s of
        (None, s1) \<Rightarrow> Ret (True, s1)
      | (Some (a, c), s1) \<Rightarrow>
          let s2 = (if is_stderr then s1\<lparr>s_in_buffer := map_option (\<lambda>b. snd (snd (ssh_buffer_get_u32 b))) (s_in_buffer s1)\<rparr>
                    else s1)
          in case packet_string h s2 of
              (None, s3) \<Rightarrow> Ret (True, s3)
            | (Some str, s3) \<Rightarrow>
                let len = ssh_string_len (Some str) in
                (case channel_default_bufferize h c (ss_data str) len is_stderr of
                   (rc, c1) \<Rightarrow>
                     if rc < 0 then Ret (True, put_channel a c1 s3)
                     else
                       let c2 = data_callbacks fs is_stderr (consume_window len c1);
                           s4 = put_channel a c2 s3
                       in if ch_local_window c2 + of_nat (unread_len is_stderr c2) < WINDOWLIMIT
                          then run_bind (grow_window e s4 a 0) (\<lambda>(rc2, s5). Ret (\<not> rc2 < 0, s5))
                          else Ret (True, s4)))"

subsection \<open>Opening\<close>

definition out_u32 :: "nat out list \<Rightarrow> nat \<Rightarrow> u32 \<Rightarrow> u32" where
  "out_u32 outs i old = (if i < length outs then (case outs ! i of OutU32 n \<Rightarrow> n | _ \<Rightarrow> old) else old)"

definition ssh_packet_channel_open_conf :: "heap \<Rightarrow> ssh_session \<Rightarrow> (bool \<times> ssh_session) run" where
  "ssh_packet_channel_open_conf h s =
     (case channel_from_msg h s of
        (None, s1) \<Rightarrow> Ret (True, s1)
      | (Some (a, c), s1) \<Rightarrow>
          (case unpack_call h s1 ''ddd'' of
             (rc, outs, s2) \<Rightarrow>
               let c1 = c\<lparr>ch_remote_channel := out_u32 outs 0 (ch_remote_channel c),
                          ch_remote_window := out_u32 outs 1 (ch_remote_window c),
                          ch_remote_maxpacket := out_u32 outs 2 (ch_remote_maxpacket c)\<rparr>
               in if rc \<noteq> SSH_OK \<or> ch_state c \<noteq> SSH_CHANNEL_STATE_OPENING then Ret (True, put_channel a c1 s2)
                  else Ret (True, put_channel a (c1\<lparr>ch_state := SSH_CHANNEL_STATE_OPEN,
                         ch_flags := ch_flags c1 AND NOT SSH_CHANNEL_FLAG_NOT_BOUND\<rparr>) s2)))"

definition ssh_packet_channel_open_fail :: "heap \<Rightarrow> ssh_session \<Rightarrow> (bool \<times> ssh_session) run" where
  "ssh_packet_channel_open_fail h s =
     (case channel_from_msg h s of
        (None, s1) \<Rightarrow> Ret (True, s1)
      | (Some (a, c), s1) \<Rightarrow>
          (case unpack_call h s1 ''ds'' of
             (rc, outs, s2) \<Rightarrow>
               if rc \<noteq> SSH_OK \<or> ch_state c \<noteq> SSH_CHANNEL_STATE_OPENING then Ret (True, s2)
               else Ret (True, put_channel a (c\<lparr>ch_state := SSH_CHANNEL_STATE_OPEN_DENIED\<rparr>) s2)))"

definition ssh_channel_open_termination :: "nat \<Rightarrow> ssh_session \<Rightarrow> bool" where
  "ssh_channel_open_termination a s \<longleftrightarrow>
     (case channel_at a s of None \<Rightarrow> True | Some c \<Rightarrow> ch_state c \<noteq> SSH_CHANNEL_STATE_OPENING) \<or>
     s_session_state s = SSH_SESSION_STATE_ERROR"

text \<open>The labels \<^verbatim>\<open>pending\<close> and \<^verbatim>\<open>end\<close> of \<^verbatim>\<open>channel_open\<close>.\<close>

definition open_end :: "nat \<Rightarrow> int \<Rightarrow> ssh_session \<Rightarrow> (int \<times> ssh_session) run" where
  "open_end a err s =
     with_channel a s (\<lambda>c.
       Ret (if ch_state c = SSH_CHANNEL_STATE_OPEN then SSH_OK else if err \<noteq> SSH_AGAIN then SSH_ERROR else err, s))"

definition open_pending :: "event_loop \<Rightarrow> nat \<Rightarrow> ssh_session \<Rightarrow> (int \<times> ssh_session) run" where
  "open_pending wait a s =
     run_bind (wait (ssh_channel_open_termination a) s) (\<lambda>(err, s1).
       open_end a (if s_session_state s1 = SSH_SESSION_STATE_ERROR then SSH_ERROR else err) s1)"

definition channel_open ::
  "event_loop \<Rightarrow> packet_env \<Rightarrow> nat \<Rightarrow> string \<Rightarrow> u32 \<Rightarrow> u32 \<Rightarrow> ssh_buffer option \<Rightarrow> ssh_session \<Rightarrow> (int \<times> ssh_session) run" where
  "channel_open wait e a type window maxpacket payload s =
     with_channel a s (\<lambda>c.
       case ch_state c of
         SSH_CHANNEL_STATE_OPENING \<Rightarrow> open_pending wait a s
       | SSH_CHANNEL_STATE_NOT_OPEN \<Rightarrow>
           (case ssh_channel_new_id s of
              (n, s1) \<Rightarrow>
                let h = pe_heap e; c1 = c\<lparr>ch_local_channel := n, ch_local_maxpacket := maxpacket, ch_local_window := window\<rparr>;
                    s2 = put_channel a c1 s1
                in case pack_call h (s_out_buffer s2)
                      [FByte 90, FCStr (map of_char type), FDword n, FDword window, FDword maxpacket] of
                  (rc, b) \<Rightarrow>
                    if rc \<noteq> SSH_OK then Ret (SSH_ERROR, s2\<lparr>s_out_buffer := b\<rparr>)
                    else case (case payload of None \<Rightarrow> (0, b) | Some p \<Rightarrow> ssh_buffer_add_buffer h b p) of
                        (rc2, b2) \<Rightarrow>
                          if rc2 < 0 then Ret (SSH_ERROR, s2\<lparr>s_out_buffer := b2\<rparr>)
                          else run_bind
                            (ssh_packet_send e ((put_channel a (c1\<lparr>ch_state := SSH_CHANNEL_STATE_OPENING\<rparr>) s2)\<lparr>s_out_buffer := b2\<rparr>))
                            (\<lambda>(rc3, s3). if rc3 = SSH_ERROR then Ret (SSH_ERROR, s3) else open_pending wait a s3))
       | _ \<Rightarrow> open_end a SSH_ERROR s)"

definition ssh_channel_open_session :: "event_loop \<Rightarrow> packet_env \<Rightarrow> nat \<Rightarrow> ssh_session \<Rightarrow> (int \<times> ssh_session) run" where
  "ssh_channel_open_session wait e a s =
     channel_open wait e a ''session'' CHANNEL_INITIAL_WINDOW CHANNEL_MAX_PACKET None s"

definition ssh_channel_open_auth_agent :: "event_loop \<Rightarrow> packet_env \<Rightarrow> nat \<Rightarrow> ssh_session \<Rightarrow> (int \<times> ssh_session) run" where
  "ssh_channel_open_auth_agent wait e a s =
     channel_open wait e a ''auth-agent@openssh.com'' CHANNEL_INITIAL_WINDOW CHANNEL_MAX_PACKET None s"

subsection \<open>End of file and closing\<close>

text \<open>
  The socket of the model takes every write at once: nothing is ever buffered, and the condition
  of a flush holds from the start.
\<close>

definition ssh_flush_termination :: "ssh_session \<Rightarrow> bool" where
  "ssh_flush_termination s = True"

definition ssh_blocking_flush :: "event_loop \<Rightarrow> ssh_session \<Rightarrow> (int \<times> ssh_session) run" where
  "ssh_blocking_flush wait s =
     run_bind (wait ssh_flush_termination s) (\<lambda>(rc, s1).
       Ret (if rc = SSH_ERROR then rc else if \<not> ssh_flush_termination s1 then SSH_AGAIN else rc, s1))"

definition ssh_channel_flush :: "event_loop \<Rightarrow> ssh_session \<Rightarrow> (int \<times> ssh_session) run" where
  "ssh_channel_flush wait s = ssh_blocking_flush wait s"

definition drop_output :: "heap \<Rightarrow> ssh_session \<Rightarrow> ssh_session" where
  "drop_output h s = s\<lparr>s_out_buffer := snd (ssh_buffer_reinit h (s_out_buffer s))\<rparr>"

definition ssh_channel_send_eof :: "event_loop \<Rightarrow> packet_env \<Rightarrow> nat \<Rightarrow> ssh_session \<Rightarrow> (int \<times> ssh_session) run" where
  "ssh_channel_send_eof wait e a s =
     with_channel a s (\<lambda>c.
       if ch_local_eof c then Ret (SSH_OK, s)
       else case pack_call (pe_heap e) (s_out_buffer s) [FByte 96, FDword (ch_remote_channel c)] of
           (err, b) \<Rightarrow>
             let s1 = s\<lparr>s_out_buffer := b\<rparr> in
             if err \<noteq> SSH_OK then Ret (SSH_ERROR, drop_output (pe_heap e) s1)
             else run_bind (ssh_packet_send e s1) (\<lambda>(rc, s2).
               if rc \<noteq> SSH_OK then Ret (rc, drop_output (pe_heap e) s2)
               else run_bind (ssh_channel_flush wait s2) (\<lambda>(rc2, s3).
                 if rc2 = SSH_ERROR then Ret (rc2, drop_output (pe_heap e) s3)
                 else with_channel a s3 (\<lambda>c3. Ret (rc2, put_channel a (c3\<lparr>ch_local_eof := True\<rparr>) s3)))))"

definition ssh_channel_close :: "event_loop \<Rightarrow> packet_env \<Rightarrow> nat \<Rightarrow> ssh_session \<Rightarrow> (int \<times> ssh_session) run" where
  "ssh_channel_close wait e a s =
     with_channel a s (\<lambda>c.
       if ch_flags c AND SSH_CHANNEL_FLAG_CLOSED_LOCAL \<noteq> 0 then Ret (SSH_OK, s)
       else run_bind (ssh_channel_send_eof wait e a s) (\<lambda>(rc, s1).
         if rc \<noteq> SSH_OK then Ret (rc, s1)
         else with_channel a s1 (\<lambda>c1.
           case pack_call (pe_heap e) (s_out_buffer s1) [FByte 97, FDword (ch_remote_channel c1)] of
             (rc2, b) \<Rightarrow>
               let s2 = s1\<lparr>s_out_buffer := b\<rparr> in
               if rc2 \<noteq> SSH_OK then Ret (rc2, drop_output (pe_heap e) s2)
               else run_bind (ssh_packet_send e s2) (\<lambda>(rc3, s3).
                 with_channel a s3 (\<lambda>c3.
                   let s4 = (if rc3 = SSH_OK then put_channel a (c3\<lparr>ch_state := SSH_CHANNEL_STATE_CLOSED,
                               ch_flags := ch_flags c3 OR SSH_CHANNEL_FLAG_CLOSED_LOCAL\<rparr>) s3 else s3)
                   in run_bind (ssh_channel_flush wait s4) (\<lambda>(rc4, s5).
                        Ret (rc4, if rc4 = SSH_ERROR then drop_output (pe_heap e) s5 else s5)))))))"

definition ssh_channel_free :: "event_loop \<Rightarrow> packet_env \<Rightarrow> nat \<Rightarrow> ssh_session \<Rightarrow> ssh_session run" where
  "ssh_channel_free wait e a s =
     with_channel a s (\<lambda>c.
       let send_close = (case ch_state c of
             SSH_CHANNEL_STATE_OPEN \<Rightarrow> True
           | SSH_CHANNEL_STATE_CLOSED \<Rightarrow>
               ch_flags c AND SSH_CHANNEL_FLAG_CLOSED_REMOTE \<noteq> 0 \<and> ch_flags c AND SSH_CHANNEL_FLAG_CLOSED_LOCAL = 0
           | _ \<Rightarrow> False)
       in run_bind (if s_alive s \<and> send_close then ssh_channel_close wait e a s else Ret (SSH_OK, s)) (\<lambda>(rc, s1).
            with_channel a s1 (\<lambda>c1.
              let flags = ch_flags c1 OR SSH_CHANNEL_FLAG_FREED_LOCAL; s2 = put_channel a (c1\<lparr>ch_flags := flags\<rparr>) s1
              in Ret (if flags AND SSH_CHANNEL_FLAG_CLOSED_REMOTE \<noteq> 0 \<or> flags AND SSH_CHANNEL_FLAG_NOT_BOUND \<noteq> 0
                      then ssh_channel_do_free a s2 else s2))))"

definition channel_rcv_eof :: "heap \<Rightarrow> ssh_session \<Rightarrow> (bool \<times> ssh_session) run" where
  "channel_rcv_eof h s =
     (case channel_from_msg h s of
        (None, s1) \<Rightarrow> Ret (True, s1)
      | (Some (a, c), s1) \<Rightarrow> Ret (True, put_channel a (c\<lparr>ch_remote_eof := True\<rparr>) s1))"

definition channel_rcv_close :: "heap \<Rightarrow> ssh_session \<Rightarrow> (bool \<times> ssh_session) run" where
  "channel_rcv_close h s =
     (case channel_from_msg h s of
        (None, s1) \<Rightarrow> Ret (True, s1)
      | (Some (a, c), s1) \<Rightarrow>
          let c1 = (if unread_len False c > 0 \<or> unread_len True c > 0 then c\<lparr>ch_delayed_close := True\<rparr>
                    else c\<lparr>ch_state := SSH_CHANNEL_STATE_CLOSED\<rparr>);
              c2 = c1\<lparr>ch_remote_eof := True, ch_flags := ch_flags c1 OR SSH_CHANNEL_FLAG_CLOSED_REMOTE\<rparr>;
              s2 = put_channel a c2 s1
          in Ret (True, if ch_flags c2 AND SSH_CHANNEL_FLAG_FREED_LOCAL \<noteq> 0 then ssh_channel_do_free a s2 else s2))"

subsection \<open>Writing\<close>

definition ssh_channel_waitwindow_termination :: "nat \<Rightarrow> ssh_session \<Rightarrow> bool" where
  "ssh_channel_waitwindow_termination a s \<longleftrightarrow>
     (case channel_at a s of
        None \<Rightarrow> True
      | Some c \<Rightarrow> ch_remote_window c > 0 \<or> ch_state c = SSH_CHANNEL_STATE_CLOSED) \<or>
     s_session_state s = SSH_SESSION_STATE_ERROR"

definition ssh_waitsession_unblocked :: "ssh_session \<Rightarrow> bool" where
  "ssh_waitsession_unblocked s =
     (case s_session_state s of
        SSH_SESSION_STATE_DH \<Rightarrow> False
      | SSH_SESSION_STATE_INITIAL_KEX \<Rightarrow> False
      | SSH_SESSION_STATE_KEXINIT_RECEIVED \<Rightarrow> False
      | _ \<Rightarrow> True)"

text \<open>How much the next packet carries, and what it leaves of the peer's window.\<close>

definition effective_len :: "ssh_channel \<Rightarrow> nat \<Rightarrow> nat \<Rightarrow> nat" where
  "effective_len c maxpacketlen len =
     min (if unat (ch_remote_window c) < len then min len (unat (ch_remote_window c)) else len) maxpacketlen"

definition count_write :: "nat \<Rightarrow> ssh_channel \<Rightarrow> ssh_channel" where
  "count_write n c =
     c\<lparr>ch_remote_window := ch_remote_window c - of_nat n,
       ch_counter := map_option (\<lambda>(i, out). (i, wrap64 (out + n))) (ch_counter c)\<rparr>"

text \<open>One packet of data, in the output buffer; the three calls append to it.\<close>

definition pack_data :: "heap \<Rightarrow> bool \<Rightarrow> u32 \<Rightarrow> bytes \<Rightarrow> ssh_buffer \<Rightarrow> int \<times> ssh_buffer" where
  "pack_data h is_stderr remote chunk b =
     (case pack_call h b [FByte (if is_stderr then 95 else 94), FDword remote] of
        (rc, b1) \<Rightarrow>
          if rc \<noteq> SSH_OK then (rc, b1)
          else case (if is_stderr then pack_call h b1 [FDword 1] else (SSH_OK, b1)) of
              (rc2, b2) \<Rightarrow>
                if rc2 \<noteq> SSH_OK then (rc2, b2)
                else pack_call h b2 [FDword (of_nat (length chunk)), FBytes chunk])"

text \<open>
  The loop may go on for ever, so it has fuel. It ends because everything was written, at the
  label \<^verbatim>\<open>out\<close>, at the label \<^verbatim>\<open>error\<close>, or by a plain return of \<^verbatim>\<open>SSH_ERROR\<close>; the list is what was not
  written.
\<close>

datatype write_end = AllWritten | GoOut | GoError | ReturnError

fun write_loop ::
  "nat \<Rightarrow> event_loop \<Rightarrow> packet_env \<Rightarrow> nat \<Rightarrow> bool \<Rightarrow> nat \<Rightarrow> bytes \<Rightarrow> ssh_session \<Rightarrow> (write_end \<times> bytes \<times> ssh_session) run" where
  "write_loop 0 wait e a is_stderr maxpacketlen data s = Overflow"
| "write_loop (Suc n) wait e a is_stderr maxpacketlen data s =
     (if data = [] then Ret (AllWritten, [], s)
      else with_channel a s (\<lambda>c.
        if unat (ch_remote_window c) < length data \<and> ch_remote_window c = 0 then
          run_bind (wait (ssh_channel_waitwindow_termination a) s) (\<lambda>(rc, s1).
            with_channel a s1 (\<lambda>c1.
              if rc = SSH_ERROR \<or> \<not> ssh_channel_waitwindow_termination a s1 \<or>
                 s_session_state s1 = SSH_SESSION_STATE_ERROR \<or> ch_state c1 = SSH_CHANNEL_STATE_CLOSED
              then Ret (GoOut, data, s1)
              else write_loop n wait e a is_stderr maxpacketlen data s1))
        else
          let eff = effective_len c maxpacketlen (length data) in
          (case pack_data (pe_heap e) is_stderr (ch_remote_channel c) (take eff data) (s_out_buffer s) of
             (rc, b) \<Rightarrow>
               let s1 = s\<lparr>s_out_buffer := b\<rparr> in
               if rc \<noteq> SSH_OK then Ret (GoError, data, s1)
               else run_bind (ssh_packet_send e s1) (\<lambda>(rc2, s2).
                 if rc2 = SSH_ERROR then Ret (ReturnError, data, s2)
                 else with_channel a s2 (\<lambda>c2.
                   write_loop n wait e a is_stderr maxpacketlen (drop eff data) (put_channel a (count_write eff c2) s2))))))"

text \<open>\<^verbatim>\<open>maxpacketlen\<close> is a difference of 32 bit numbers.\<close>

definition max_packet_len :: "ssh_channel \<Rightarrow> nat" where
  "max_packet_len c = unat (ch_remote_maxpacket c - 10)"

definition channel_write_common ::
  "nat \<Rightarrow> event_loop \<Rightarrow> packet_env \<Rightarrow> nat \<Rightarrow> bytes option \<Rightarrow> bool \<Rightarrow> ssh_session \<Rightarrow> (int \<times> ssh_session) run" where
  "channel_write_common fuel wait e a data is_stderr s =
     with_channel a s (\<lambda>c.
       case data of
         None \<Rightarrow> Ret (- 1, s)
       | Some d \<Rightarrow>
           if length d > 2147483647 then Ret (SSH_ERROR, s)
           else if ch_local_eof c then Ret (- 1, s)
           else if ch_state c \<noteq> SSH_CHANNEL_STATE_OPEN \<or> ch_delayed_close c then Ret (- 1, s)
           else if s_session_state s = SSH_SESSION_STATE_ERROR then Ret (SSH_ERROR, s)
           else run_bind (if \<not> ssh_waitsession_unblocked s then wait ssh_waitsession_unblocked s else Ret (SSH_OK, s))
             (\<lambda>(rc, s1).
               if \<not> ssh_waitsession_unblocked s \<and> (rc = SSH_ERROR \<or> \<not> ssh_waitsession_unblocked s1) then Ret (0, s1)
               else run_bind (write_loop fuel wait e a is_stderr (max_packet_len c) d s1) (\<lambda>(ending, rest, s2).
                 case ending of
                   AllWritten \<Rightarrow>
                     run_bind (ssh_channel_flush wait s2) (\<lambda>(rc2, s3).
                       Ret (if rc2 = SSH_ERROR then (SSH_ERROR, drop_output (pe_heap e) s3) else (int (length d), s3)))
                 | GoOut \<Rightarrow> Ret (int (length d - length rest), s2)
                 | GoError \<Rightarrow> Ret (SSH_ERROR, drop_output (pe_heap e) s2)
                 | ReturnError \<Rightarrow> Ret (SSH_ERROR, s2))))"

text \<open>A turn of the loop that waits is followed by one that writes: twice the length is enough.\<close>

definition ssh_channel_write :: "event_loop \<Rightarrow> packet_env \<Rightarrow> nat \<Rightarrow> bytes option \<Rightarrow> ssh_session \<Rightarrow> (int \<times> ssh_session) run" where
  "ssh_channel_write wait e a data s =
     channel_write_common (2 * (case data of None \<Rightarrow> 0 | Some d \<Rightarrow> length d) + 1) wait e a data False s"

definition ssh_channel_write_stderr :: "event_loop \<Rightarrow> packet_env \<Rightarrow> nat \<Rightarrow> bytes option \<Rightarrow> ssh_session \<Rightarrow> (int \<times> ssh_session) run" where
  "ssh_channel_write_stderr wait e a data s =
     channel_write_common (2 * (case data of None \<Rightarrow> 0 | Some d \<Rightarrow> length d) + 1) wait e a data True s"

definition ssh_channel_window_size :: "ssh_channel \<Rightarrow> u32" where
  "ssh_channel_window_size c = ch_remote_window c"

definition ssh_channel_is_open :: "ssh_session \<Rightarrow> ssh_channel \<Rightarrow> bool" where
  "ssh_channel_is_open s c \<longleftrightarrow> ch_state c = SSH_CHANNEL_STATE_OPEN \<and> s_alive s"

definition ssh_channel_is_closed :: "ssh_session \<Rightarrow> ssh_channel \<Rightarrow> bool" where
  "ssh_channel_is_closed s c \<longleftrightarrow> ch_state c \<noteq> SSH_CHANNEL_STATE_OPEN \<or> \<not> s_alive s"

definition ssh_channel_is_eof :: "ssh_channel \<Rightarrow> bool" where
  "ssh_channel_is_eof c \<longleftrightarrow> \<not> (unread_len False c > 0 \<or> unread_len True c > 0) \<and> ch_remote_eof c"

subsection \<open>Reading\<close>

definition SSH_SESSION_FLAG_BLOCKING :: u32 where
  "SSH_SESSION_FLAG_BLOCKING = 1"

definition ssh_is_blocking :: "ssh_session \<Rightarrow> bool" where
  "ssh_is_blocking s \<longleftrightarrow> s_flags s AND SSH_SESSION_FLAG_BLOCKING \<noteq> 0"

definition ssh_set_blocking :: "bool \<Rightarrow> ssh_session \<Rightarrow> ssh_session" where
  "ssh_set_blocking blocking s =
     s\<lparr>s_flags := (s_flags s AND NOT SSH_SESSION_FLAG_BLOCKING) OR (if blocking then SSH_SESSION_FLAG_BLOCKING else 0)\<rparr>"

definition ssh_channel_read_termination :: "nat \<Rightarrow> bool \<Rightarrow> nat \<Rightarrow> ssh_session \<Rightarrow> bool" where
  "ssh_channel_read_termination a is_stderr count s \<longleftrightarrow>
     (case channel_at a s of None \<Rightarrow> True | Some c \<Rightarrow> unread_len is_stderr c \<ge> count \<or> ch_remote_eof c) \<or>
     s_session_state s = SSH_SESSION_STATE_ERROR"

text \<open>The bytes that are copied to the caller, and the channel without them.\<close>

definition take_unread :: "bool \<Rightarrow> nat \<Rightarrow> ssh_channel \<Rightarrow> bytes \<times> ssh_channel" where
  "take_unread is_stderr count c =
     (case channel_buffer is_stderr c of
        None \<Rightarrow> ([], c)
      | Some b \<Rightarrow>
          let len = (if ssh_buffer_get_len b > count then count else ssh_buffer_get_len b) in
          (take len (buf_content b), count_read len (put_buffer is_stderr (Some (snd (ssh_buffer_pass_bytes b len))) c)))"

definition ssh_channel_read_timeout ::
  "event_loop \<Rightarrow> packet_env \<Rightarrow> nat \<Rightarrow> nat \<Rightarrow> bool \<Rightarrow> ssh_session \<Rightarrow> (int \<times> bytes \<times> ssh_session) run" where
  "ssh_channel_read_timeout wait e a count is_stderr s =
     with_channel a s (\<lambda>c.
       if count = 0 then Ret (0, [], s)
       else
         let have = unread_len is_stderr c in
         run_bind (if count > unat (of_nat have + ch_local_window c) then grow_window e s a (of_nat count - of_nat have)
                   else Ret (SSH_OK, s)) (\<lambda>(rc, s1).
           if rc < 0 then Ret (- 1, [], s1)
           else run_bind (wait (ssh_channel_read_termination a is_stderr 1) s1) (\<lambda>(rc2, s2).
             if rc2 = SSH_AGAIN \<and> ssh_is_blocking s2 then Ret (rc2, [], s2)
             else if rc2 = SSH_ERROR then Ret (rc2, [], s2)
             else if s_session_state s2 = SSH_SESSION_STATE_ERROR then Ret (SSH_ERROR, [], s2)
             else with_channel a s2 (\<lambda>c2.
               if ch_remote_eof c2 \<and> unread_len is_stderr c2 = 0 then Ret (0, [], s2)
               else if ch_state c2 = SSH_CHANNEL_STATE_CLOSED then Ret (SSH_ERROR, [], s2)
               else case take_unread is_stderr count c2 of
                   (dest, c3) \<Rightarrow>
                     let s3 = put_channel a c3 s2 in
                     run_bind (if ch_local_window c3 < WINDOWLIMIT then grow_window e s3 a 0 else Ret (SSH_OK, s3))
                       (\<lambda>(rc3, s4). Ret (if rc3 < 0 then - 1 else int (length dest), dest, s4))))))"

definition ssh_channel_read :: "event_loop \<Rightarrow> packet_env \<Rightarrow> nat \<Rightarrow> nat \<Rightarrow> bool \<Rightarrow> ssh_session \<Rightarrow> (int \<times> bytes \<times> ssh_session) run" where
  "ssh_channel_read wait e a count is_stderr s = ssh_channel_read_timeout wait e a count is_stderr s"

abbreviation SSH_EOF :: int where "SSH_EOF \<equiv> - 127"

text \<open>\<open>handle\<close> is one turn of the event loop, \<^verbatim>\<open>ssh_handle_packets\<close>.\<close>

definition ssh_channel_poll ::
  "(ssh_session \<Rightarrow> (int \<times> ssh_session) run) \<Rightarrow> nat \<Rightarrow> bool \<Rightarrow> ssh_session \<Rightarrow> (int \<times> ssh_session) run" where
  "ssh_channel_poll handle a is_stderr s =
     with_channel a s (\<lambda>c.
       let empty = (unread_len is_stderr c = 0 \<and> \<not> ch_remote_eof c) in
       if empty \<and> s_session_state s = SSH_SESSION_STATE_ERROR then Ret (SSH_ERROR, s)
       else run_bind (if empty then handle s else Ret (SSH_OK, s)) (\<lambda>(rc, s1).
         if empty \<and> rc = SSH_ERROR then Ret (SSH_ERROR, s1)
         else with_channel a s1 (\<lambda>c1.
           Ret (if unread_len is_stderr c1 > 0 then int (unread_len is_stderr c1)
                else if ch_remote_eof c1 then SSH_EOF else int (unread_len is_stderr c1), s1))))"

definition ssh_channel_poll_timeout ::
  "event_loop \<Rightarrow> nat \<Rightarrow> bool \<Rightarrow> ssh_session \<Rightarrow> (int \<times> ssh_session) run" where
  "ssh_channel_poll_timeout wait a is_stderr s =
     run_bind (wait (ssh_channel_read_termination a is_stderr 1) s) (\<lambda>(rc, s1).
       if rc = SSH_ERROR \<or> s_session_state s1 = SSH_SESSION_STATE_ERROR then Ret (SSH_ERROR, s1)
       else if rc = SSH_AGAIN then Ret (SSH_OK, s1)
       else with_channel a s1 (\<lambda>c.
         let len = unread_len is_stderr c in
         Ret (if len > 0 then (if len > 2147483647 then SSH_ERROR else int len)
              else if ch_remote_eof c then SSH_EOF else rc, s1)))"

definition ssh_channel_read_nonblocking ::
  "(ssh_session \<Rightarrow> (int \<times> ssh_session) run) \<Rightarrow> event_loop \<Rightarrow> packet_env \<Rightarrow> nat \<Rightarrow> nat \<Rightarrow> bool \<Rightarrow> ssh_session \<Rightarrow>
     (int \<times> bytes \<times> ssh_session) run" where
  "ssh_channel_read_nonblocking handle wait e a count is_stderr s =
     run_bind (ssh_channel_poll handle a is_stderr s) (\<lambda>(to_read, s1).
       if to_read \<le> 0 then
         Ret (if s_session_state s1 = SSH_SESSION_STATE_ERROR then SSH_ERROR else to_read, [], s1)
       else
         run_bind (ssh_channel_read wait e a (if nat to_read > count then count else nat to_read) is_stderr
                     (ssh_set_blocking False s1))
           (\<lambda>(rc, dest, s2). Ret (rc, dest, ssh_set_blocking (ssh_is_blocking s1) s2)))"

definition ssh_channel_exit_status_termination :: "nat \<Rightarrow> ssh_session \<Rightarrow> bool" where
  "ssh_channel_exit_status_termination a s \<longleftrightarrow>
     (case channel_at a s of
        None \<Rightarrow> True
      | Some c \<Rightarrow> ch_exit_status c \<noteq> - 1 \<or> ch_flags c AND SSH_CHANNEL_FLAG_CLOSED_REMOTE \<noteq> 0) \<or>
     s_session_state s = SSH_SESSION_STATE_ERROR"

definition ssh_channel_get_exit_status :: "event_loop \<Rightarrow> nat \<Rightarrow> ssh_session \<Rightarrow> (int \<times> ssh_session) run" where
  "ssh_channel_get_exit_status wait a s =
     run_bind (wait (ssh_channel_exit_status_termination a) s) (\<lambda>(rc, s1).
       if rc = SSH_ERROR \<or> s_session_state s1 = SSH_SESSION_STATE_ERROR then Ret (SSH_ERROR, s1)
       else with_channel a s1 (\<lambda>c. Ret (sint (ch_exit_status c), s1)))"

subsection \<open>Requests\<close>

definition ssh_packet_channel_success :: "heap \<Rightarrow> ssh_session \<Rightarrow> (bool \<times> ssh_session) run" where
  "ssh_packet_channel_success h s =
     (case channel_from_msg h s of
        (None, s1) \<Rightarrow> Ret (True, s1)
      | (Some (a, c), s1) \<Rightarrow>
          Ret (True, if ch_request_state c \<noteq> SSH_CHANNEL_REQ_STATE_PENDING then s1
                     else put_channel a (c\<lparr>ch_request_state := SSH_CHANNEL_REQ_STATE_ACCEPTED\<rparr>) s1))"

definition ssh_packet_channel_failure :: "heap \<Rightarrow> ssh_session \<Rightarrow> (bool \<times> ssh_session) run" where
  "ssh_packet_channel_failure h s =
     (case channel_from_msg h s of
        (None, s1) \<Rightarrow> Ret (True, s1)
      | (Some (a, c), s1) \<Rightarrow>
          Ret (True, if ch_request_state c \<noteq> SSH_CHANNEL_REQ_STATE_PENDING then s1
                     else put_channel a (c\<lparr>ch_request_state := SSH_CHANNEL_REQ_STATE_DENIED\<rparr>) s1))"

definition ssh_channel_request_termination :: "nat \<Rightarrow> ssh_session \<Rightarrow> bool" where
  "ssh_channel_request_termination a s \<longleftrightarrow>
     (case channel_at a s of None \<Rightarrow> True | Some c \<Rightarrow> ch_request_state c \<noteq> SSH_CHANNEL_REQ_STATE_PENDING) \<or>
     s_session_state s = SSH_SESSION_STATE_ERROR"

definition request_pending :: "event_loop \<Rightarrow> nat \<Rightarrow> ssh_session \<Rightarrow> (int \<times> ssh_session) run" where
  "request_pending wait a s =
     run_bind (wait (ssh_channel_request_termination a) s) (\<lambda>(rc, s1).
       with_channel a s1 (\<lambda>c.
         let st = (if s_session_state s1 = SSH_SESSION_STATE_ERROR \<or> rc = SSH_ERROR then SSH_CHANNEL_REQ_STATE_ERROR
                   else ch_request_state c);
             done = (\<lambda>r. Ret (r, put_channel a (c\<lparr>ch_request_state := SSH_CHANNEL_REQ_STATE_NONE\<rparr>) s1))
         in case st of
              SSH_CHANNEL_REQ_STATE_ERROR \<Rightarrow> done SSH_ERROR
            | SSH_CHANNEL_REQ_STATE_DENIED \<Rightarrow> done SSH_ERROR
            | SSH_CHANNEL_REQ_STATE_ACCEPTED \<Rightarrow> done SSH_OK
            | SSH_CHANNEL_REQ_STATE_PENDING \<Rightarrow> Ret (SSH_AGAIN, s1)
            | SSH_CHANNEL_REQ_STATE_NONE \<Rightarrow> done SSH_ERROR))"

definition channel_request ::
  "event_loop \<Rightarrow> packet_env \<Rightarrow> nat \<Rightarrow> string \<Rightarrow> ssh_buffer option \<Rightarrow> bool \<Rightarrow> ssh_session \<Rightarrow> (int \<times> ssh_session) run" where
  "channel_request wait e a request buffer reply s =
     with_channel a s (\<lambda>c.
       if ch_request_state c \<noteq> SSH_CHANNEL_REQ_STATE_NONE then request_pending wait a s
       else
         let h = pe_heap e in
         case pack_call h (s_out_buffer s)
                [FByte 98, FDword (ch_remote_channel c), FCStr (map of_char request), FByte (if reply then 1 else 0)] of
           (ret, b) \<Rightarrow>
             if ret \<noteq> SSH_OK then Ret (SSH_ERROR, drop_output h (s\<lparr>s_out_buffer := b\<rparr>))
             else case (case buffer of None \<Rightarrow> (0, b)
                        | Some p \<Rightarrow> ssh_buffer_add_data h b (Some (buf_content p)) (ssh_buffer_get_len p)) of
                 (rc, b2) \<Rightarrow>
                   if rc < 0 then Ret (SSH_ERROR, drop_output h (s\<lparr>s_out_buffer := b2\<rparr>))
                   else run_bind
                     (ssh_packet_send e
                       ((put_channel a (c\<lparr>ch_request_state := SSH_CHANNEL_REQ_STATE_PENDING\<rparr>) s)\<lparr>s_out_buffer := b2\<rparr>))
                     (\<lambda>(rc2, s1).
                       if rc2 = SSH_ERROR then Ret (SSH_ERROR, s1)
                       else if \<not> reply then with_channel a s1 (\<lambda>c1.
                         Ret (SSH_OK, put_channel a (c1\<lparr>ch_request_state := SSH_CHANNEL_REQ_STATE_NONE\<rparr>) s1))
                       else request_pending wait a s1))"

text \<open>
  The requests with fields of their own: the buffer they go into is made first, unless an answer
  is still expected and the request is one that waits for it.
\<close>

definition request_with ::
  "event_loop \<Rightarrow> packet_env \<Rightarrow> nat \<Rightarrow> string \<Rightarrow> nat wfield list \<Rightarrow> bool \<Rightarrow> ssh_session \<Rightarrow> (int \<times> ssh_session) run" where
  "request_with wait e a request fs reply s =
     with_channel a s (\<lambda>c.
       if reply \<and> ch_request_state c \<noteq> SSH_CHANNEL_REQ_STATE_NONE then channel_request wait e a request None reply s
       else case ssh_buffer_new (pe_heap e) of
           None \<Rightarrow> Ret (SSH_ERROR, s)
         | Some b0 \<Rightarrow>
             (case pack_call (pe_heap e) b0 fs of
                (rc, b) \<Rightarrow> if rc \<noteq> SSH_OK then Ret (rc, s) else channel_request wait e a request (Some b) reply s))"

definition ssh_channel_request_pty_size ::
  "event_loop \<Rightarrow> packet_env \<Rightarrow> nat \<Rightarrow> bytes \<Rightarrow> u32 \<Rightarrow> u32 \<Rightarrow> ssh_session \<Rightarrow> (int \<times> ssh_session) run" where
  "ssh_channel_request_pty_size wait e a terminal col row s =
     request_with wait e a ''pty-req''
       [FCStr (cstr terminal), FDword col, FDword row, FDword 0, FDword 0, FDword 1, FByte 0] True s"

definition ssh_channel_request_pty :: "event_loop \<Rightarrow> packet_env \<Rightarrow> nat \<Rightarrow> ssh_session \<Rightarrow> (int \<times> ssh_session) run" where
  "ssh_channel_request_pty wait e a s = ssh_channel_request_pty_size wait e a (lit ''xterm'') 80 24 s"

definition ssh_channel_change_pty_size ::
  "event_loop \<Rightarrow> packet_env \<Rightarrow> nat \<Rightarrow> u32 \<Rightarrow> u32 \<Rightarrow> ssh_session \<Rightarrow> (int \<times> ssh_session) run" where
  "ssh_channel_change_pty_size wait e a cols rows s =
     request_with wait e a ''window-change'' [FDword cols, FDword rows, FDword 0, FDword 0] False s"

definition ssh_channel_request_shell :: "event_loop \<Rightarrow> packet_env \<Rightarrow> nat \<Rightarrow> ssh_session \<Rightarrow> (int \<times> ssh_session) run" where
  "ssh_channel_request_shell wait e a s = channel_request wait e a ''shell'' None True s"

definition ssh_channel_request_subsystem ::
  "event_loop \<Rightarrow> packet_env \<Rightarrow> nat \<Rightarrow> bytes \<Rightarrow> ssh_session \<Rightarrow> (int \<times> ssh_session) run" where
  "ssh_channel_request_subsystem wait e a subsys s = request_with wait e a ''subsystem'' [FCStr (cstr subsys)] True s"

definition ssh_channel_request_sftp :: "event_loop \<Rightarrow> packet_env \<Rightarrow> nat \<Rightarrow> ssh_session \<Rightarrow> (int \<times> ssh_session) run" where
  "ssh_channel_request_sftp wait e a s = ssh_channel_request_subsystem wait e a (lit ''sftp'') s"

definition ssh_channel_request_auth_agent :: "event_loop \<Rightarrow> packet_env \<Rightarrow> nat \<Rightarrow> ssh_session \<Rightarrow> (int \<times> ssh_session) run" where
  "ssh_channel_request_auth_agent wait e a s = channel_request wait e a ''auth-agent-req@openssh.com'' None False s"

definition ssh_channel_request_env ::
  "event_loop \<Rightarrow> packet_env \<Rightarrow> nat \<Rightarrow> bytes \<Rightarrow> bytes \<Rightarrow> ssh_session \<Rightarrow> (int \<times> ssh_session) run" where
  "ssh_channel_request_env wait e a name v s = request_with wait e a ''env'' [FCStr (cstr name), FCStr (cstr v)] True s"

definition ssh_channel_request_exec ::
  "event_loop \<Rightarrow> packet_env \<Rightarrow> nat \<Rightarrow> bytes \<Rightarrow> ssh_session \<Rightarrow> (int \<times> ssh_session) run" where
  "ssh_channel_request_exec wait e a cmd s = request_with wait e a ''exec'' [FCStr (cstr cmd)] True s"

definition ssh_channel_request_send_signal ::
  "event_loop \<Rightarrow> packet_env \<Rightarrow> nat \<Rightarrow> bytes \<Rightarrow> ssh_session \<Rightarrow> (int \<times> ssh_session) run" where
  "ssh_channel_request_send_signal wait e a sig s = request_with wait e a ''signal'' [FCStr (cstr sig)] False s"

definition ssh_channel_request_send_break ::
  "event_loop \<Rightarrow> packet_env \<Rightarrow> nat \<Rightarrow> u32 \<Rightarrow> ssh_session \<Rightarrow> (int \<times> ssh_session) run" where
  "ssh_channel_request_send_break wait e a len s = request_with wait e a ''break'' [FDword len] False s"

text \<open>Requests of the server; the user is told through callbacks.\<close>

definition channel_rcv_request :: "packet_env \<Rightarrow> ssh_session \<Rightarrow> (bool \<times> ssh_session) run" where
  "channel_rcv_request e s =
     (let h = pe_heap e in
      case channel_from_msg h s of
        (None, s1) \<Rightarrow> Ret (True, s1)
      | (Some (a, c), s1) \<Rightarrow>
          (case unpack_call h s1 ''sb'' of
             (rc, outs, s2) \<Rightarrow>
               if rc \<noteq> SSH_OK then Ret (True, s2)
               else case outs of
                   [OutCStr (Some request), OutU8 status] \<Rightarrow>
                     if cstr request = map of_char ''exit-status'' then
                       (case unpack_call h s2 ''d'' of
                          (rc2, outs2, s3) \<Rightarrow>
                            Ret (True, put_channel a (c\<lparr>ch_exit_status := out_u32 outs2 0 (ch_exit_status c)\<rparr>) s3))
                     else if cstr request = map of_char ''signal'' then
                       (case unpack_call h s2 ''s'' of (rc2, outs2, s3) \<Rightarrow> Ret (True, s3))
                     else if cstr request = map of_char ''exit-signal'' then
                       (case unpack_call h s2 ''sbss'' of (rc2, outs2, s3) \<Rightarrow> Ret (True, s3))
                     else if cstr request = map of_char ''keepalive@openssh.com'' then
                       (case pack_call h (s_out_buffer s2) [FByte 100, FDword (ch_remote_channel c)] of
                          (rc2, b) \<Rightarrow>
                            let s3 = s2\<lparr>s_out_buffer := b\<rparr> in
                            if rc2 \<noteq> SSH_OK then Ret (True, s3)
                            else run_bind (ssh_packet_send e s3) (\<lambda>(rc3, s4). Ret (True, s4)))
                     else Ret (True, s2)
                 | _ \<Rightarrow> Overflow))"

subsection \<open>Global requests\<close>

definition ssh_request_success :: "ssh_session \<Rightarrow> (bool \<times> ssh_session) run" where
  "ssh_request_success s =
     Ret (True, if s_global_req_state s \<noteq> SSH_CHANNEL_REQ_STATE_PENDING then s
                else s\<lparr>s_global_req_state := SSH_CHANNEL_REQ_STATE_ACCEPTED\<rparr>)"

definition ssh_request_denied :: "ssh_session \<Rightarrow> (bool \<times> ssh_session) run" where
  "ssh_request_denied s =
     Ret (True, if s_global_req_state s \<noteq> SSH_CHANNEL_REQ_STATE_PENDING then s
                else s\<lparr>s_global_req_state := SSH_CHANNEL_REQ_STATE_DENIED\<rparr>)"

definition ssh_global_request_termination :: "ssh_session \<Rightarrow> bool" where
  "ssh_global_request_termination s \<longleftrightarrow>
     s_global_req_state s \<noteq> SSH_CHANNEL_REQ_STATE_PENDING \<or> s_session_state s = SSH_SESSION_STATE_ERROR"

definition global_pending :: "event_loop \<Rightarrow> ssh_session \<Rightarrow> (int \<times> ssh_session) run" where
  "global_pending wait s =
     run_bind (wait ssh_global_request_termination s) (\<lambda>(rc, s1).
       let st = (if rc = SSH_ERROR \<or> s_session_state s1 = SSH_SESSION_STATE_ERROR then SSH_CHANNEL_REQ_STATE_ERROR
                 else s_global_req_state s1);
           done = (\<lambda>r. Ret (r, s1\<lparr>s_global_req_state := SSH_CHANNEL_REQ_STATE_NONE\<rparr>))
       in case st of
            SSH_CHANNEL_REQ_STATE_ACCEPTED \<Rightarrow> done SSH_OK
          | SSH_CHANNEL_REQ_STATE_DENIED \<Rightarrow> done SSH_ERROR
          | SSH_CHANNEL_REQ_STATE_ERROR \<Rightarrow> done SSH_ERROR
          | SSH_CHANNEL_REQ_STATE_NONE \<Rightarrow> done SSH_ERROR
          | SSH_CHANNEL_REQ_STATE_PENDING \<Rightarrow> Ret (SSH_AGAIN, s1))"

definition ssh_global_request ::
  "event_loop \<Rightarrow> packet_env \<Rightarrow> string \<Rightarrow> ssh_buffer option \<Rightarrow> bool \<Rightarrow> ssh_session \<Rightarrow> (int \<times> ssh_session) run" where
  "ssh_global_request wait e request buffer reply s =
     (if s_global_req_state s \<noteq> SSH_CHANNEL_REQ_STATE_NONE then global_pending wait s
      else
        let h = pe_heap e in
        case pack_call h (s_out_buffer s) [FByte 80, FCStr (map of_char request), FByte (if reply then 1 else 0)] of
          (rc, b) \<Rightarrow>
            if rc \<noteq> SSH_OK then Ret (SSH_ERROR, drop_output h (s\<lparr>s_out_buffer := b\<rparr>))
            else case (case buffer of None \<Rightarrow> (0, b)
                       | Some p \<Rightarrow> ssh_buffer_add_data h b (Some (buf_content p)) (ssh_buffer_get_len p)) of
                (rc2, b2) \<Rightarrow>
                  if rc2 < 0 then Ret (SSH_ERROR, drop_output h (s\<lparr>s_out_buffer := b2\<rparr>))
                  else run_bind
                    (ssh_packet_send e (s\<lparr>s_out_buffer := b2, s_global_req_state := SSH_CHANNEL_REQ_STATE_PENDING\<rparr>))
                    (\<lambda>(rc3, s1).
                      if rc3 = SSH_ERROR then Ret (rc3, s1)
                      else if \<not> reply then Ret (SSH_OK, s1\<lparr>s_global_req_state := SSH_CHANNEL_REQ_STATE_NONE\<rparr>)
                      else global_pending wait s1))"

subsection \<open>The handlers of the connection protocol\<close>

text \<open>
  Their entries in the default table; global requests and channels opened by the server (80 and
  90) are \<open>incoming\<close>.
\<close>

definition channel_handler :: "data_function list \<Rightarrow> packet_env \<Rightarrow> (nat \<Rightarrow> handler option) \<Rightarrow> nat \<Rightarrow> handler option" where
  "channel_handler fs e incoming t =
     (if t = 81 then Some ssh_request_success
      else if t = 82 then Some ssh_request_denied
      else if t = 91 then Some (ssh_packet_channel_open_conf (pe_heap e))
      else if t = 92 then Some (ssh_packet_channel_open_fail (pe_heap e))
      else if t = 93 then Some (channel_rcv_change_window (pe_heap e))
      else if t = 94 \<or> t = 95 then Some (channel_rcv_data fs e t)
      else if t = 96 then Some (channel_rcv_eof (pe_heap e))
      else if t = 97 then Some (channel_rcv_close (pe_heap e))
      else if t = 98 then Some (channel_rcv_request e)
      else if t = 99 then Some (ssh_packet_channel_success (pe_heap e))
      else if t = 100 then Some (ssh_packet_channel_failure (pe_heap e))
      else incoming t)"

end
