(* ===== verification/Sftp.thy ===== *)
theory Sftp
  imports Channel
begin

text \<open>
  The file transfer protocol of the client (\<^verbatim>\<open>src/libssh/src/sftp.c\<close>): its packets on a channel,
  the queue of replies, the requests, attributes of files. Where the code loops until a packet
  or a reply is complete the loop has fuel. Messages for the user are not modelled; \<^verbatim>\<open>errnum\<close> is.
  A pointer that is \<^verbatim>\<open>NULL\<close> is \<^const>\<open>None\<close>; reading outside a block has no result. The two arrays
  of the extensions are one list of pairs.
\<close>

definition LIBSFTP_VERSION :: u32 where
  "LIBSFTP_VERSION = 3"

definition SFTP_PACKET_SIZE_MAX :: nat where
  "SFTP_PACKET_SIZE_MAX = 268435456"

definition SFTP_BUFFER_SIZE_MAX :: nat where
  "SFTP_BUFFER_SIZE_MAX = 16384"

abbreviation SSH_FX_OK :: u32 where "SSH_FX_OK \<equiv> 0"
abbreviation SSH_FX_EOF :: u32 where "SSH_FX_EOF \<equiv> 1"
abbreviation SSH_FX_FAILURE :: u32 where "SSH_FX_FAILURE \<equiv> 4"
abbreviation SSH_FX_BAD_MESSAGE :: u32 where "SSH_FX_BAD_MESSAGE \<equiv> 5"
abbreviation SSH_FX_FILE_ALREADY_EXISTS :: u32 where "SSH_FX_FILE_ALREADY_EXISTS \<equiv> 11"

subsection \<open>The session\<close>

record sftp_message =
  sm_packet_type :: u8
  sm_payload :: ssh_buffer
  sm_id :: u32

text \<open>The channel is an address; the packet being read is its type and its payload.\<close>

record sftp_session =
  sf_channel :: nat
  sf_server_version :: int
  sf_version :: int
  sf_queue :: "sftp_message list"
  sf_id_counter :: u32
  sf_errnum :: u32
  sf_ext :: "(bytes \<times> bytes) list"
  sf_read_packet :: "(u8 \<times> ssh_buffer option) option"

text \<open>
  What the calls need besides: the event loop, one turn of it, the packet layer, and the fuel of
  the loops.
\<close>

record sftp_io =
  io_wait :: event_loop
  io_handle :: "ssh_session \<Rightarrow> (int \<times> ssh_session) run"
  io_env :: packet_env
  io_fuel :: nat

definition io_heap :: "sftp_io \<Rightarrow> heap" where
  "io_heap io = pe_heap (io_env io)"

definition sftp_set_error :: "u32 \<Rightarrow> sftp_session \<Rightarrow> sftp_session" where
  "sftp_set_error errnum sf = sf\<lparr>sf_errnum := errnum\<rparr>"

definition sftp_get_error :: "sftp_session option \<Rightarrow> int" where
  "sftp_get_error sf = (case sf of None \<Rightarrow> - 1 | Some f \<Rightarrow> sint (sf_errnum f))"

text \<open>\<^verbatim>\<open>sftp_new\<close> opens its own channel; \<^verbatim>\<open>sftp_new_channel\<close> is given one and makes no packet to read into.\<close>

definition empty_sftp :: "nat \<Rightarrow> (u8 \<times> ssh_buffer option) option \<Rightarrow> sftp_session" where
  "empty_sftp a packet = \<lparr>sf_channel = a, sf_server_version = 0, sf_version = 0, sf_queue = [], sf_id_counter = 0,
     sf_errnum = 0, sf_ext = [], sf_read_packet = packet\<rparr>"

definition sftp_new :: "sftp_io \<Rightarrow> ssh_session \<Rightarrow> (sftp_session option \<times> ssh_session) run" where
  "sftp_new io s =
     (let h = io_heap io; wait = io_wait io; e = io_env io in
      if \<not> heap_grants h 72 then Ret (None, s)
      else if \<not> heap_grants h 24 then Ret (None, s)
      else case ssh_buffer_new h of
          None \<Rightarrow> Ret (None, s)
        | Some b \<Rightarrow>
            (case ssh_channel_new h s of
               (None, s1) \<Rightarrow> Ret (None, s1)
             | (Some a, s1) \<Rightarrow>
                 let fail = (\<lambda>t. run_bind (ssh_channel_free wait e a t) (\<lambda>u. Ret (None, u))) in
                 run_bind (ssh_channel_open_session wait e a s1) (\<lambda>(rc, s2).
                   if rc \<noteq> 0 then fail s2
                   else run_bind (ssh_channel_request_sftp wait e a s2) (\<lambda>(rc2, s3).
                     if rc2 \<noteq> 0 then fail s3 else Ret (Some (empty_sftp a (Some (0, Some b))), s3)))))"

definition sftp_new_channel :: "heap \<Rightarrow> nat \<Rightarrow> sftp_session option" where
  "sftp_new_channel h a =
     (if \<not> heap_grants h 72 then None else if \<not> heap_grants h 24 then None else Some (empty_sftp a None))"

definition sftp_free :: "sftp_io \<Rightarrow> sftp_session \<Rightarrow> ssh_session \<Rightarrow> ssh_session run" where
  "sftp_free io sf s =
     run_bind (ssh_channel_send_eof (io_wait io) (io_env io) (sf_channel sf) s) (\<lambda>(rc, s1).
       run_bind (ssh_channel_free (io_wait io) (io_env io) (sf_channel sf) s1) (\<lambda>s2.
         if sf_read_packet sf = None then Overflow else Ret s2))"

subsection \<open>Packets\<close>

text \<open>The length, the type and the payload; the caller's buffer gets the header in front.\<close>

definition sftp_header :: "u8 \<Rightarrow> nat \<Rightarrow> bytes" where
  "sftp_header type n = be_bytes (of_nat n + 1 :: u32) @ [type]"

definition sftp_packet_write ::
  "sftp_io \<Rightarrow> u8 \<Rightarrow> ssh_buffer \<Rightarrow> sftp_session \<Rightarrow> ssh_session \<Rightarrow> (int \<times> sftp_session \<times> ssh_session) run" where
  "sftp_packet_write io type payload sf s =
     (case ssh_buffer_prepend_data (io_heap io) payload (sftp_header type (ssh_buffer_get_len payload)) 5 of
        (rc, b) \<Rightarrow>
          if rc < 0 then Ret (- 1, sftp_set_error SSH_FX_FAILURE sf, s)
          else run_bind (ssh_channel_write (io_wait io) (io_env io) (sf_channel sf) (Some (buf_content b)) s)
            (\<lambda>(len, s1). if len < 0 then Ret (- 1, sftp_set_error SSH_FX_FAILURE sf, s1) else Ret (len, sf, s1)))"

text \<open>
  The loops that read the length and the type: until there are as many bytes, an error, or the
  end of the channel.
\<close>

fun read_exact ::
  "nat \<Rightarrow> sftp_io \<Rightarrow> nat \<Rightarrow> bytes \<Rightarrow> sftp_session \<Rightarrow> ssh_session \<Rightarrow> (bytes option \<times> sftp_session \<times> ssh_session) run" where
  "read_exact 0 io n acc sf s = Overflow"
| "read_exact (Suc k) io n acc sf s =
     run_bind (ssh_channel_read (io_wait io) (io_env io) (sf_channel sf) (n - length acc) False s) (\<lambda>(rc, d, s1).
       if rc < 0 then Ret (None, sf, s1)
       else if rc = 0 then with_channel (sf_channel sf) s1 (\<lambda>c.
         if ssh_channel_is_eof c then Ret (None, sftp_set_error SSH_FX_EOF sf, s1) else read_exact k io n acc sf s1)
       else if length (acc @ d) < n then read_exact k io n (acc @ d) sf s1
       else Ret (Some (acc @ d), sf, s1))"

text \<open>The loop that reads the payload, in pieces of at most the local array.\<close>

fun read_rest ::
  "nat \<Rightarrow> sftp_io \<Rightarrow> nat \<Rightarrow> ssh_buffer \<Rightarrow> sftp_session \<Rightarrow> ssh_session \<Rightarrow>
     (bool \<times> ssh_buffer \<times> sftp_session \<times> ssh_session) run" where
  "read_rest 0 io len b sf s = Overflow"
| "read_rest (Suc k) io len b sf s =
     (if \<not> (0 < len \<and> len < SFTP_PACKET_SIZE_MAX) then Ret (True, b, sf, s)
      else run_bind (ssh_channel_read (io_wait io) (io_env io) (sf_channel sf)
                       (if SFTP_BUFFER_SIZE_MAX > len then len else SFTP_BUFFER_SIZE_MAX) False s) (\<lambda>(rc, d, s1).
        if rc < 0 then Ret (False, b, sf, s1)
        else if rc > 0 then
          (case ssh_buffer_add_data (io_heap io) b (Some d) (nat rc) of
             (rc2, b1) \<Rightarrow>
               if rc2 \<noteq> 0 then Ret (False, b1, sftp_set_error SSH_FX_FAILURE sf, s1)
               else read_rest k io (len - nat rc) b1 sf s1)
        else with_channel (sf_channel sf) s1 (\<lambda>c.
          if ssh_channel_is_eof c then Ret (False, b, sftp_set_error SSH_FX_EOF sf, s1) else read_rest k io len b sf s1)))"

definition sftp_packet_read :: "sftp_io \<Rightarrow> sftp_session \<Rightarrow> ssh_session \<Rightarrow> (bool \<times> sftp_session \<times> ssh_session) run" where
  "sftp_packet_read io sf s =
     (let h = io_heap io; k = io_fuel io;
          put = (\<lambda>type b f. f\<lparr>sf_read_packet := Some (type, Some b)\<rparr>);
          error = (\<lambda>type b f t. Ret (False, put type (snd (ssh_buffer_reinit h b)) f, t))
      in case sf_read_packet sf of
          None \<Rightarrow> Overflow
        | Some (type0, payload) \<Rightarrow>
            (case (case payload of
                     Some b \<Rightarrow> (case ssh_buffer_reinit h b of (rc, b1) \<Rightarrow> if rc \<noteq> 0 then None else Some b1)
                   | None \<Rightarrow> ssh_buffer_new h) of
               None \<Rightarrow> Ret (False, sftp_set_error SSH_FX_FAILURE sf, s)
             | Some b0 \<Rightarrow>
                 run_bind (read_exact k io 4 [] (put type0 b0 sf) s) (\<lambda>(header, sf1, s1).
                   case header of
                     None \<Rightarrow> error type0 b0 sf1 s1
                   | Some d \<Rightarrow>
                       let len = unat (bswap (load_bytes d) :: u32) in
                       if len = 0 \<or> len > SFTP_PACKET_SIZE_MAX then error type0 b0 (sftp_set_error SSH_FX_FAILURE sf1) s1
                       else run_bind (read_exact k io 1 [] sf1 s1) (\<lambda>(byte, sf2, s2).
                         case byte of
                           None \<Rightarrow> error type0 b0 sf2 s2
                         | Some t \<Rightarrow>
                             let type = hd t in
                             (case ssh_buffer_allocate_size h b0 (len - 1) of
                                (rc, b1) \<Rightarrow>
                                  if rc < 0 then error type b1 (sftp_set_error SSH_FX_FAILURE sf2) s2
                                  else run_bind (read_rest k io (len - 1) b1 sf2 s2) (\<lambda>(ok, b2, sf3, s3).
                                    if ok then Ret (True, put type b2 sf3, s3) else error type b2 sf3 s3))))))"

subsection \<open>Replies\<close>

text \<open>The payload moves from the packet to the message; an invalid one is freed.\<close>

definition sftp_get_message :: "heap \<Rightarrow> sftp_session \<Rightarrow> (sftp_message option \<times> sftp_session) run" where
  "sftp_get_message h sf =
     (case sf_read_packet sf of
        Some (type, Some b) \<Rightarrow>
          Ret (if type \<notin> {101, 102, 103, 104, 105, 201} then (None, sftp_set_error SSH_FX_FAILURE sf)
               else if \<not> heap_grants h 32 then (None, sftp_set_error SSH_FX_FAILURE sf)
               else
                 let sf1 = sf\<lparr>sf_read_packet := Some (type, None)\<rparr> in
                 (case unpack_from h b ''d'' of
                    (rc, outs, b1) \<Rightarrow>
                      if rc \<noteq> SSH_OK then (None, sftp_set_error SSH_FX_FAILURE sf1)
                      else (Some \<lparr>sm_packet_type = type, sm_payload = b1, sm_id = out_u32 outs 0 0\<rparr>, sf1)))
      | _ \<Rightarrow> Overflow)"

definition sftp_enqueue :: "heap \<Rightarrow> sftp_message \<Rightarrow> sftp_session \<Rightarrow> int \<times> sftp_session" where
  "sftp_enqueue h msg sf =
     (if \<not> heap_grants h 16 then (- 1, sftp_set_error SSH_FX_FAILURE sf) else (0, sf\<lparr>sf_queue := sf_queue sf @ [msg]\<rparr>))"

fun dequeue_from :: "u32 \<Rightarrow> sftp_message list \<Rightarrow> sftp_message option \<times> sftp_message list" where
  "dequeue_from n [] = (None, [])"
| "dequeue_from n (m # ms) =
     (if sm_id m = n then (Some m, ms) else (case dequeue_from n ms of (r, rest) \<Rightarrow> (r, m # rest)))"

definition sftp_dequeue :: "u32 \<Rightarrow> sftp_session \<Rightarrow> sftp_message option \<times> sftp_session" where
  "sftp_dequeue n sf = (case dequeue_from n (sf_queue sf) of (m, q) \<Rightarrow> (m, sf\<lparr>sf_queue := q\<rparr>))"

definition sftp_get_new_id :: "sftp_session \<Rightarrow> u32 \<times> sftp_session" where
  "sftp_get_new_id sf = (sf_id_counter sf + 1, sf\<lparr>sf_id_counter := sf_id_counter sf + 1\<rparr>)"

definition sftp_read_and_dispatch :: "sftp_io \<Rightarrow> sftp_session \<Rightarrow> ssh_session \<Rightarrow> (int \<times> sftp_session \<times> ssh_session) run" where
  "sftp_read_and_dispatch io sf s =
     run_bind (sftp_packet_read io sf s) (\<lambda>(ok, sf1, s1).
       if \<not> ok then Ret (- 1, sf1, s1)
       else run_bind (sftp_get_message (io_heap io) sf1) (\<lambda>(msg, sf2).
         case msg of
           None \<Rightarrow> Ret (- 1, sf2, s1)
         | Some m \<Rightarrow> (case sftp_enqueue (io_heap io) m sf2 of (rc, sf3) \<Rightarrow> Ret (if rc < 0 then - 1 else 0, sf3, s1))))"

text \<open>The loop of every request: packets are read until the reply with its number is there.\<close>

datatype awaited = Reply sftp_message | NothingYet | Broken

fun await_reply ::
  "nat \<Rightarrow> sftp_io \<Rightarrow> bool \<Rightarrow> u32 \<Rightarrow> sftp_session \<Rightarrow> ssh_session \<Rightarrow> (awaited \<times> sftp_session \<times> ssh_session) run" where
  "await_reply 0 io nonblocking n sf s = Overflow"
| "await_reply (Suc k) io nonblocking n sf s =
     run_bind (if nonblocking then ssh_channel_poll (io_handle io) (sf_channel sf) False s else Ret (1, s)) (\<lambda>(got, s0).
       if got = 0 then Ret (NothingYet, sf, s0)
       else run_bind (sftp_read_and_dispatch io sf s0) (\<lambda>(rc, sf1, s1).
         if rc < 0 then Ret (Broken, sf1, s1)
         else case sftp_dequeue n sf1 of
             (Some m, sf2) \<Rightarrow> Ret (Reply m, sf2, s1)
           | (None, sf2) \<Rightarrow> await_reply k io nonblocking n sf2 s1))"

record sftp_status =
  st_status :: u32
  st_errormsg :: bytes
  st_langmsg :: bytes

definition parse_status_msg :: "heap \<Rightarrow> sftp_message \<Rightarrow> sftp_session \<Rightarrow> sftp_status option \<times> sftp_session" where
  "parse_status_msg h msg sf =
     (let failed = (None, sftp_set_error SSH_FX_FAILURE sf) in
      if sm_packet_type msg \<noteq> 101 then (None, sftp_set_error SSH_FX_BAD_MESSAGE sf)
      else if \<not> heap_grants h 40 then failed
      else case unpack_from h (sm_payload msg) ''d'' of
          (rc, outs, b1) \<Rightarrow>
            if rc \<noteq> SSH_OK then failed
            else case unpack_from h b1 ''ss'' of
                (rc2, outs2, b2) \<Rightarrow>
                  if rc2 \<noteq> SSH_OK \<and> sf_version sf \<ge> 3 then failed
                  else case (case outs2 of
                               [OutCStr (Some m), OutCStr (Some l)] \<Rightarrow> (Some m, Some l)
                             | _ \<Rightarrow> (strdup h (map of_char ''No error message in packet''), strdup h [])) of
                      (Some m, Some l) \<Rightarrow> (Some \<lparr>st_status = out_u32 outs 0 0, st_errormsg = m, st_langmsg = l\<rparr>, sf)
                    | _ \<Rightarrow> failed)"

text \<open>A status that was received, and the error number it sets.\<close>

definition received_status :: "heap \<Rightarrow> sftp_message \<Rightarrow> sftp_session \<Rightarrow> u32 option \<times> sftp_session" where
  "received_status h msg sf =
     (case parse_status_msg h msg sf of
        (None, sf1) \<Rightarrow> (None, sf1)
      | (Some st, sf1) \<Rightarrow> (Some (st_status st), sftp_set_error (st_status st) sf1))"

definition parse_handle_msg :: "heap \<Rightarrow> sftp_message \<Rightarrow> sftp_session \<Rightarrow> ssh_string option \<times> sftp_session" where
  "parse_handle_msg h msg sf =
     (if sm_packet_type msg \<noteq> 102 then (None, sf)
      else if \<not> heap_grants h 40 then (None, sftp_set_error SSH_FX_FAILURE sf)
      else case ssh_buffer_get_ssh_string h (sm_payload msg) of
          (None, b) \<Rightarrow> (None, sftp_set_error SSH_FX_FAILURE sf)
        | (Some handle, b) \<Rightarrow> (Some handle, sf))"


subsection \<open>The version\<close>

fun read_extensions ::
  "nat \<Rightarrow> heap \<Rightarrow> ssh_buffer \<Rightarrow> (bytes \<times> bytes) list \<Rightarrow> (bool \<times> (bytes \<times> bytes) list \<times> ssh_buffer) run" where
  "read_extensions 0 h b ext = Overflow"
| "read_extensions (Suc k) h b ext =
     (case unpack_from h b ''s'' of
        (rc, outs, b1) \<Rightarrow>
          if rc \<noteq> SSH_OK then Ret (True, ext, b1)
          else case unpack_from h b1 ''s'' of
              (rc2, outs2, b2) \<Rightarrow>
                if rc2 = SSH_ERROR then Ret (True, ext, b2)
                else (case (outs, outs2) of
                        ([OutCStr (Some name)], [OutCStr (Some v)]) \<Rightarrow>
                          if \<not> heap_grants h (8 * Suc (length ext)) then Ret (False, ext, b2)
                          else read_extensions k h b2 (ext @ [(name, v)])
                      | _ \<Rightarrow> Overflow))"

definition sftp_init :: "sftp_io \<Rightarrow> sftp_session \<Rightarrow> ssh_session \<Rightarrow> (int \<times> sftp_session \<times> ssh_session) run" where
  "sftp_init io sf s =
     (let h = io_heap io; failed = (\<lambda>f t. Ret (- 1, sftp_set_error SSH_FX_FAILURE f, t)) in
      case ssh_buffer_new h of
        None \<Rightarrow> failed sf s
      | Some b \<Rightarrow>
          (case pack_call h b [FDword LIBSFTP_VERSION] of
             (rc, b1) \<Rightarrow>
               if rc \<noteq> SSH_OK then failed sf s
               else run_bind (sftp_packet_write io 1 b1 sf s) (\<lambda>(n, sf1, s1).
                 if n < 0 then Ret (- 1, sf1, s1)
                 else run_bind (sftp_packet_read io sf1 s1) (\<lambda>(ok, sf2, s2).
                   if \<not> ok then Ret (- 1, sf2, s2)
                   else case sf_read_packet sf2 of
                       Some (type, Some p) \<Rightarrow>
                         if type \<noteq> 2 then Ret (- 1, sf2, s2)
                         else (case unpack_from h p ''d'' of
                                 (rc2, outs, p1) \<Rightarrow>
                                   if rc2 \<noteq> SSH_OK then failed (sf2\<lparr>sf_read_packet := Some (type, Some p1)\<rparr>) s2
                                   else run_bind (read_extensions (Suc (length (buf_content p1))) h p1 (sf_ext sf2))
                                     (\<lambda>(done, ext, p2).
                                        let sf3 = sf2\<lparr>sf_ext := ext, sf_read_packet := Some (type, Some p2)\<rparr>;
                                            v = sint (out_u32 outs 0 0)
                                        in if \<not> done then failed sf3 s2
                                           else Ret (0, sf3\<lparr>sf_version := v, sf_server_version := v\<rparr>, s2)))
                     | _ \<Rightarrow> Overflow))))"

definition sftp_server_version :: "sftp_session \<Rightarrow> int" where
  "sftp_server_version sf = sf_server_version sf"

definition sftp_extensions_get_count :: "sftp_session option \<Rightarrow> nat" where
  "sftp_extensions_get_count sf = (case sf of None \<Rightarrow> 0 | Some f \<Rightarrow> length (sf_ext f))"

text \<open>The index of one past the last is let through.\<close>

definition extension_at :: "sftp_session option \<Rightarrow> nat \<Rightarrow> (bytes \<times> bytes) option run" where
  "extension_at sf i =
     (case sf of
        None \<Rightarrow> Ret None
      | Some f \<Rightarrow>
          if sf_ext f = [] then Ret None
          else if i > length (sf_ext f) then Ret None
          else if i < length (sf_ext f) then Ret (Some (sf_ext f ! i)) else Overflow)"

definition sftp_extensions_get_name :: "sftp_session option \<Rightarrow> nat \<Rightarrow> bytes option run" where
  "sftp_extensions_get_name sf i = run_bind (extension_at sf i) (\<lambda>e. Ret (map_option fst e))"

definition sftp_extensions_get_data :: "sftp_session option \<Rightarrow> nat \<Rightarrow> bytes option run" where
  "sftp_extensions_get_data sf i = run_bind (extension_at sf i) (\<lambda>e. Ret (map_option snd e))"

fun extension_loop :: "sftp_session option \<Rightarrow> bytes \<Rightarrow> bytes \<Rightarrow> nat list \<Rightarrow> int run" where
  "extension_loop sf name v [] = Ret 0"
| "extension_loop sf name v (i # is) =
     run_bind (sftp_extensions_get_name sf i) (\<lambda>en. run_bind (sftp_extensions_get_data sf i) (\<lambda>ed.
       case (en, ed) of
         (Some n, Some d) \<Rightarrow> if cstr n = cstr name \<and> cstr d = cstr v then Ret 1 else extension_loop sf name v is
       | _ \<Rightarrow> extension_loop sf name v is))"

definition sftp_extension_supported :: "sftp_session option \<Rightarrow> bytes option \<Rightarrow> bytes option \<Rightarrow> int run" where
  "sftp_extension_supported sf name v =
     (case (sf, name, v) of
        (Some f, Some n, Some d) \<Rightarrow> extension_loop sf n d [0..<sftp_extensions_get_count sf]
      | _ \<Rightarrow> Ret 0)"

subsection \<open>Attributes\<close>

abbreviation SSH_FILEXFER_ATTR_SIZE :: u32 where "SSH_FILEXFER_ATTR_SIZE \<equiv> 0x1"
abbreviation SSH_FILEXFER_ATTR_UIDGID :: u32 where "SSH_FILEXFER_ATTR_UIDGID \<equiv> 0x2"
abbreviation SSH_FILEXFER_ATTR_PERMISSIONS :: u32 where "SSH_FILEXFER_ATTR_PERMISSIONS \<equiv> 0x4"
abbreviation SSH_FILEXFER_ATTR_ACMODTIME :: u32 where "SSH_FILEXFER_ATTR_ACMODTIME \<equiv> 0x8"
abbreviation SSH_FILEXFER_ATTR_CREATETIME :: u32 where "SSH_FILEXFER_ATTR_CREATETIME \<equiv> 0x10"
abbreviation SSH_FILEXFER_ATTR_MODIFYTIME :: u32 where "SSH_FILEXFER_ATTR_MODIFYTIME \<equiv> 0x20"
abbreviation SSH_FILEXFER_ATTR_ACL :: u32 where "SSH_FILEXFER_ATTR_ACL \<equiv> 0x40"
abbreviation SSH_FILEXFER_ATTR_OWNERGROUP :: u32 where "SSH_FILEXFER_ATTR_OWNERGROUP \<equiv> 0x80"
abbreviation SSH_FILEXFER_ATTR_SUBSECOND_TIMES :: u32 where "SSH_FILEXFER_ATTR_SUBSECOND_TIMES \<equiv> 0x100"
abbreviation SSH_FILEXFER_ATTR_EXTENDED :: u32 where "SSH_FILEXFER_ATTR_EXTENDED \<equiv> 0x80000000"

definition attr_has :: "u32 \<Rightarrow> u32 \<Rightarrow> bool" where
  "attr_has flags m \<longleftrightarrow> flags AND m \<noteq> 0"

text \<open>The extended pair is read as two C strings by one version of the parser, as two strings by the other.\<close>

datatype ext_text = ExtNone | ExtChars bytes | ExtString ssh_string

record sftp_attributes =
  at_name :: "bytes option"
  at_longname :: "bytes option"
  at_flags :: u32
  at_type :: u8
  at_size :: u64
  at_uid :: u32
  at_gid :: u32
  at_owner :: "bytes option"
  at_group :: "bytes option"
  at_permissions :: u32
  at_atime64 :: u64
  at_atime :: u32
  at_atime_nseconds :: u32
  at_createtime :: u64
  at_createtime_nseconds :: u32
  at_mtime64 :: u64
  at_mtime :: u32
  at_mtime_nseconds :: u32
  at_acl :: "ssh_string option"
  at_extended_count :: u32
  at_extended_type :: ext_text
  at_extended_data :: ext_text

definition zero_attr :: sftp_attributes where
  "zero_attr = \<lparr>at_name = None, at_longname = None, at_flags = 0, at_type = 0, at_size = 0, at_uid = 0, at_gid = 0,
     at_owner = None, at_group = None, at_permissions = 0, at_atime64 = 0, at_atime = 0, at_atime_nseconds = 0,
     at_createtime = 0, at_createtime_nseconds = 0, at_mtime64 = 0, at_mtime = 0, at_mtime_nseconds = 0,
     at_acl = None, at_extended_count = 0, at_extended_type = ExtNone, at_extended_data = ExtNone\<rparr>"

definition file_type :: "u32 \<Rightarrow> u8" where
  "file_type permissions =
     (let t = permissions AND 0xF000 in
      if t \<in> {0xC000, 0x6000, 0x2000, 0x1000} then 4
      else if t = 0xA000 then 3 else if t = 0x8000 then 1 else if t = 0x4000 then 2 else 5)"

text \<open>
  A reader takes values from a buffer and may fail; what it took before the failure stays taken.
  One that reads outside a block has no result.
\<close>

type_synonym 'a reader = "ssh_buffer \<Rightarrow> ('a option \<times> ssh_buffer) run"

definition read_return :: "'a \<Rightarrow> 'a reader" where
  "read_return x b = Ret (Some x, b)"

definition read_bind :: "'a reader \<Rightarrow> ('a \<Rightarrow> 'b reader) \<Rightarrow> 'b reader" where
  "read_bind r f b = run_bind (r b) (\<lambda>(v, b1). case v of None \<Rightarrow> Ret (None, b1) | Some x \<Rightarrow> f x b1)"

definition read_if :: "bool \<Rightarrow> ('a \<Rightarrow> 'a reader) \<Rightarrow> 'a \<Rightarrow> 'a reader" where
  "read_if c r a = (if c then r a else read_return a)"

definition read_format :: "heap \<Rightarrow> string \<Rightarrow> nat out list reader" where
  "read_format h fmt b = (case unpack_from h b fmt of (rc, outs, b1) \<Rightarrow> Ret (if rc = SSH_OK then Some outs else None, b1))"

definition read_u32 :: "u32 reader" where
  "read_u32 b = (case ssh_buffer_get_u32 b of (n, v, b1) \<Rightarrow> Ret (if n = 4 then map_option bswap v else None, b1))"

definition read_u64 :: "u64 reader" where
  "read_u64 b = (case ssh_buffer_get_u64 b of (n, v, b1) \<Rightarrow> Ret (if n = 8 then map_option bswap v else None, b1))"

definition read_ssh_string :: "heap \<Rightarrow> ssh_string reader" where
  "read_ssh_string h b = Ret (ssh_buffer_get_ssh_string h b)"

definition read_chars :: "heap \<Rightarrow> bytes reader" where
  "read_chars h = read_bind (read_ssh_string h) (\<lambda>x b. Ret (ssh_string_to_char h (Some x), b))"

fun read_extended_4 :: "heap \<Rightarrow> nat \<Rightarrow> sftp_attributes \<Rightarrow> sftp_attributes reader" where
  "read_extended_4 h 0 a = read_return a"
| "read_extended_4 h (Suc n) a =
     read_bind (read_ssh_string h) (\<lambda>t. read_bind (read_ssh_string h) (\<lambda>d.
       read_extended_4 h n (a\<lparr>at_extended_type := ExtString t, at_extended_data := ExtString d,
                             at_extended_count := at_extended_count a - 1\<rparr>)))"

definition attr_4_owner :: "heap \<Rightarrow> sftp_attributes \<Rightarrow> sftp_attributes reader" where
  "attr_4_owner h a =
     read_bind (read_chars h) (\<lambda>u. read_bind (read_chars h) (\<lambda>g. read_return (a\<lparr>at_owner := Some u, at_group := Some g\<rparr>)))"

definition attr_4_body :: "heap \<Rightarrow> sftp_attributes reader" where
  "attr_4_body h =
     read_bind read_u32 (\<lambda>flags.
       let on = attr_has flags; nsec = on SSH_FILEXFER_ATTR_SUBSECOND_TIMES in
       read_bind (read_if (on SSH_FILEXFER_ATTR_SIZE)
         (\<lambda>a. read_bind read_u64 (\<lambda>v. read_return (a\<lparr>at_size := v\<rparr>))) (zero_attr\<lparr>at_flags := flags\<rparr>)) (\<lambda>a1.
       read_bind (read_if (on SSH_FILEXFER_ATTR_OWNERGROUP) (attr_4_owner h) a1) (\<lambda>a2.
       read_bind (read_if (on SSH_FILEXFER_ATTR_PERMISSIONS)
         (\<lambda>a. read_bind read_u32 (\<lambda>v. read_return (a\<lparr>at_permissions := v, at_type := file_type v\<rparr>))) a2) (\<lambda>a3.
       read_bind (read_if (on SSH_FILEXFER_ATTR_ACMODTIME)
         (\<lambda>a. read_bind read_u64 (\<lambda>v. read_if nsec
            (\<lambda>c. read_bind read_u32 (\<lambda>w. read_return (c\<lparr>at_atime_nseconds := w\<rparr>))) (a\<lparr>at_atime64 := v\<rparr>))) a3) (\<lambda>a4.
       read_bind (read_if (on SSH_FILEXFER_ATTR_CREATETIME)
         (\<lambda>a. read_bind read_u64 (\<lambda>v. read_if nsec
            (\<lambda>c. read_bind read_u32 (\<lambda>w. read_return (c\<lparr>at_createtime_nseconds := w\<rparr>))) (a\<lparr>at_createtime := v\<rparr>))) a4) (\<lambda>a5.
       read_bind (read_if (on SSH_FILEXFER_ATTR_MODIFYTIME)
         (\<lambda>a. read_bind read_u64 (\<lambda>v. read_if nsec
            (\<lambda>c. read_bind read_u32 (\<lambda>w. read_return (c\<lparr>at_mtime_nseconds := w\<rparr>))) (a\<lparr>at_mtime64 := v\<rparr>))) a5) (\<lambda>a6.
       read_bind (read_if (on SSH_FILEXFER_ATTR_ACL)
         (\<lambda>a. read_bind (read_ssh_string h) (\<lambda>x. read_return (a\<lparr>at_acl := Some x\<rparr>))) a6) (\<lambda>a7.
       read_if (on SSH_FILEXFER_ATTR_EXTENDED)
         (\<lambda>a. read_bind read_u32 (\<lambda>n. read_extended_4 h (unat n) (a\<lparr>at_extended_count := n\<rparr>))) a7))))))))"

definition sftp_parse_attr_4 ::
  "heap \<Rightarrow> sftp_session \<Rightarrow> ssh_buffer \<Rightarrow> (sftp_attributes option \<times> ssh_buffer \<times> sftp_session) run" where
  "sftp_parse_attr_4 h sf b =
     (if \<not> heap_grants h 144 then Ret (None, b, sftp_set_error SSH_FX_FAILURE sf)
      else run_bind (attr_4_body h b) (\<lambda>(a, b1). Ret (a, b1, sf)))"

text \<open>
  A field of the long name of a file: past so many groups of blanks, up to the next blank. The
  end of the string is no blank.
\<close>

fun find_field :: "nat \<Rightarrow> bool \<Rightarrow> bytes \<Rightarrow> bytes option" where
  "find_field n blanks [] = (if n = 0 \<and> \<not> blanks then Some [] else None)"
| "find_field n blanks (c # p) =
     (if blanks \<and> isspace c then find_field n True p
      else if n = 0 then Some (c # p)
      else if isspace c then find_field (n - 1) True p
      else find_field n False p)"

definition sftp_parse_longname :: "heap \<Rightarrow> bytes \<Rightarrow> nat \<Rightarrow> bytes option run" where
  "sftp_parse_longname h longname field =
     (case find_field field False longname of
        None \<Rightarrow> Overflow
      | Some p \<Rightarrow>
          if \<exists>c\<in>set p. isspace c then Ret (strdup h (takeWhile (\<lambda>c. c \<noteq> 0) (takeWhile (\<lambda>c. \<not> isspace c) p)))
          else Overflow)"

text \<open>The names of a directory entry, with owner and group out of the long name when the server is OpenSSH.\<close>

definition attr_3_names :: "heap \<Rightarrow> bool \<Rightarrow> sftp_attributes \<Rightarrow> sftp_attributes reader" where
  "attr_3_names h openssh a =
     read_bind (read_format h ''ss'') (\<lambda>outs b.
       case outs of
         [OutCStr (Some name), OutCStr (Some longname)] \<Rightarrow>
           let a1 = a\<lparr>at_name := Some name, at_longname := Some longname\<rparr> in
           if \<not> openssh then Ret (Some a1, b)
           else run_bind (sftp_parse_longname h longname 2) (\<lambda>owner.
             if owner = None then Ret (None, b)
             else run_bind (sftp_parse_longname h longname 3) (\<lambda>group.
               if group = None then Ret (None, b)
               else Ret (Some (a1\<lparr>at_owner := owner, at_group := group\<rparr>), b)))
       | _ \<Rightarrow> Overflow)"

definition out_u64 :: "nat out list \<Rightarrow> nat \<Rightarrow> u64" where
  "out_u64 outs i = (if i < length outs then (case outs ! i of OutU64 n \<Rightarrow> n | _ \<Rightarrow> 0) else 0)"

definition out_chars :: "nat out list \<Rightarrow> nat \<Rightarrow> ext_text" where
  "out_chars outs i = (if i < length outs then (case outs ! i of OutCStr (Some x) \<Rightarrow> ExtChars x | _ \<Rightarrow> ExtNone) else ExtNone)"

fun skip_extended :: "heap \<Rightarrow> nat \<Rightarrow> sftp_attributes \<Rightarrow> sftp_attributes reader" where
  "skip_extended h 0 a = read_return a"
| "skip_extended h (Suc n) a =
     read_bind (read_format h ''SS'') (\<lambda>_. skip_extended h n (a\<lparr>at_extended_count := at_extended_count a - 1\<rparr>))"

definition attr_3_extended :: "heap \<Rightarrow> sftp_attributes \<Rightarrow> sftp_attributes reader" where
  "attr_3_extended h a =
     read_bind (read_format h ''d'') (\<lambda>outs.
       let n = out_u32 outs 0 0; a1 = a\<lparr>at_extended_count := n\<rparr> in
       if n = 0 then read_return a1
       else read_bind (read_format h ''ss'') (\<lambda>pair.
         skip_extended h (unat (n - 1))
           (a1\<lparr>at_extended_type := out_chars pair 0, at_extended_data := out_chars pair 1, at_extended_count := n - 1\<rparr>)))"

definition attr_3_fields :: "heap \<Rightarrow> sftp_attributes \<Rightarrow> sftp_attributes reader" where
  "attr_3_fields h a0 =
     read_bind (read_format h ''d'') (\<lambda>o0.
       let flags = out_u32 o0 0 0; on = attr_has flags in
       read_bind (read_if (on SSH_FILEXFER_ATTR_SIZE)
         (\<lambda>a. read_bind (read_format h ''q'') (\<lambda>o1. read_return (a\<lparr>at_size := out_u64 o1 0\<rparr>))) (a0\<lparr>at_flags := flags\<rparr>)) (\<lambda>a1.
       read_bind (read_if (on SSH_FILEXFER_ATTR_UIDGID)
         (\<lambda>a. read_bind (read_format h ''dd'') (\<lambda>o1. read_return (a\<lparr>at_uid := out_u32 o1 0 0, at_gid := out_u32 o1 1 0\<rparr>))) a1) (\<lambda>a2.
       read_bind (read_if (on SSH_FILEXFER_ATTR_PERMISSIONS)
         (\<lambda>a. read_bind (read_format h ''d'') (\<lambda>o1. read_return
            (a\<lparr>at_permissions := out_u32 o1 0 0, at_type := file_type (out_u32 o1 0 0)\<rparr>))) a2) (\<lambda>a3.
       read_bind (read_if (on SSH_FILEXFER_ATTR_ACMODTIME)
         (\<lambda>a. read_bind (read_format h ''dd'') (\<lambda>o1. read_return (a\<lparr>at_atime := out_u32 o1 0 0, at_mtime := out_u32 o1 1 0\<rparr>))) a3) (\<lambda>a4.
       read_if (on SSH_FILEXFER_ATTR_EXTENDED) (attr_3_extended h) a4)))))"

definition sftp_parse_attr_3 ::
  "heap \<Rightarrow> bool \<Rightarrow> sftp_session \<Rightarrow> ssh_buffer \<Rightarrow> bool \<Rightarrow> (sftp_attributes option \<times> ssh_buffer \<times> sftp_session) run" where
  "sftp_parse_attr_3 h openssh sf b expectname =
     (if \<not> heap_grants h 144 then Ret (None, b, sftp_set_error SSH_FX_FAILURE sf)
      else run_bind (read_bind (read_if expectname (attr_3_names h openssh) zero_attr) (attr_3_fields h) b) (\<lambda>(a, b1).
        Ret (a, b1, if a = None then sftp_set_error SSH_FX_FAILURE sf else sf)))"

definition sftp_parse_attr ::
  "heap \<Rightarrow> bool \<Rightarrow> sftp_session \<Rightarrow> ssh_buffer \<Rightarrow> bool \<Rightarrow> (sftp_attributes option \<times> ssh_buffer \<times> sftp_session) run" where
  "sftp_parse_attr h openssh sf b expectname =
     (if sf_version sf = 4 then sftp_parse_attr_4 h sf b
      else if sf_version sf \<in> {0, 1, 2, 3} then sftp_parse_attr_3 h openssh sf b expectname
      else Ret (None, b, sf))"

text \<open>What is written: the flags of the fields the code writes, then these fields.\<close>

definition attribute_fields :: "sftp_attributes \<Rightarrow> u32 \<Rightarrow> nat wfield list list" where
  "attribute_fields a flags =
     [if attr_has flags SSH_FILEXFER_ATTR_SIZE then [FQword (at_size a)] else [],
      if attr_has flags SSH_FILEXFER_ATTR_UIDGID then [FDword (at_uid a), FDword (at_gid a)] else [],
      if attr_has flags SSH_FILEXFER_ATTR_PERMISSIONS then [FDword (at_permissions a)] else [],
      if attr_has flags SSH_FILEXFER_ATTR_ACMODTIME then [FDword (at_atime a), FDword (at_mtime a)] else []]"

fun pack_calls :: "heap \<Rightarrow> ssh_buffer \<Rightarrow> nat wfield list list \<Rightarrow> int \<times> ssh_buffer" where
  "pack_calls h b [] = (0, b)"
| "pack_calls h b (fs # rest) =
     (if fs = [] then pack_calls h b rest
      else case pack_call h b fs of (rc, b1) \<Rightarrow> if rc \<noteq> SSH_OK then (- 1, b1) else pack_calls h b1 rest)"

definition written_flags :: "sftp_attributes option \<Rightarrow> u32" where
  "written_flags attr = (case attr of None \<Rightarrow> 0 | Some a \<Rightarrow> at_flags a) AND
     (SSH_FILEXFER_ATTR_SIZE OR SSH_FILEXFER_ATTR_UIDGID OR SSH_FILEXFER_ATTR_PERMISSIONS OR SSH_FILEXFER_ATTR_ACMODTIME)"

definition buffer_add_attributes :: "heap \<Rightarrow> ssh_buffer \<Rightarrow> sftp_attributes option \<Rightarrow> int \<times> ssh_buffer" where
  "buffer_add_attributes h b attr =
     pack_calls h b ([FDword (written_flags attr)] #
       (case attr of None \<Rightarrow> [] | Some a \<Rightarrow> attribute_fields a (written_flags attr)))"

subsection \<open>Requests\<close>

text \<open>
  What the requests share: a buffer, a number, the fields packed, the packet written, and the
  wait for the reply with the number. \<open>oom\<close> says whether a missing buffer sets the error number.
\<close>

definition sftp_send ::
  "sftp_io \<Rightarrow> bool \<Rightarrow> u8 \<Rightarrow> (sftp_session \<Rightarrow> nat wfield list) \<Rightarrow> (ssh_buffer \<Rightarrow> int \<times> ssh_buffer) \<Rightarrow>
     sftp_session \<Rightarrow> ssh_session \<Rightarrow> (u32 option \<times> sftp_session \<times> ssh_session) run" where
  "sftp_send io oom type parts tail sf s =
     (case ssh_buffer_new (io_heap io) of
        None \<Rightarrow> Ret (None, if oom then sftp_set_error SSH_FX_FAILURE sf else sf, s)
      | Some b \<Rightarrow>
          (case sftp_get_new_id sf of
             (n, sf1) \<Rightarrow>
               (case pack_call (io_heap io) b (FDword n # parts sf1) of
                  (rc, b1) \<Rightarrow>
                    if rc \<noteq> SSH_OK then Ret (None, sftp_set_error SSH_FX_FAILURE sf1, s)
                    else (case tail b1 of
                            (rc2, b2) \<Rightarrow>
                              if rc2 < 0 then Ret (None, sftp_set_error SSH_FX_FAILURE sf1, s)
                              else run_bind (sftp_packet_write io type b2 sf1 s) (\<lambda>(rc3, sf2, s2).
                                Ret (if rc3 < 0 then None else Some n, sf2, s2))))))"

definition sftp_ask ::
  "sftp_io \<Rightarrow> bool \<Rightarrow> bool \<Rightarrow> u8 \<Rightarrow> (sftp_session \<Rightarrow> nat wfield list) \<Rightarrow> (ssh_buffer \<Rightarrow> int \<times> ssh_buffer) \<Rightarrow>
     sftp_session \<Rightarrow> ssh_session \<Rightarrow> (awaited \<times> sftp_session \<times> ssh_session) run" where
  "sftp_ask io oom nonblocking type parts tail sf s =
     run_bind (sftp_send io oom type parts tail sf s) (\<lambda>(n, sf1, s1).
       case n of None \<Rightarrow> Ret (Broken, sf1, s1) | Some i \<Rightarrow> await_reply (io_fuel io) io nonblocking i sf1 s1)"

definition no_tail :: "ssh_buffer \<Rightarrow> int \<times> ssh_buffer" where
  "no_tail b = (0, b)"

text \<open>A reply that ought to be a status, and one that ought not to be anything else than another type.\<close>

definition status_reply :: "heap \<Rightarrow> awaited \<Rightarrow> sftp_session \<Rightarrow> int \<times> sftp_session" where
  "status_reply h r sf =
     (case r of
        Reply m \<Rightarrow>
          if sm_packet_type m = 101
          then (case received_status h m sf of (st, sf1) \<Rightarrow> (if st = Some SSH_FX_OK then 0 else - 1, sf1))
          else (- 1, sftp_set_error SSH_FX_BAD_MESSAGE sf)
      | _ \<Rightarrow> (- 1, sf))"

definition refusal :: "heap \<Rightarrow> sftp_message \<Rightarrow> sftp_session \<Rightarrow> sftp_session" where
  "refusal h m sf =
     (if sm_packet_type m = 101 then snd (received_status h m sf) else sftp_set_error SSH_FX_BAD_MESSAGE sf)"

definition sftp_command ::
  "sftp_io \<Rightarrow> u8 \<Rightarrow> (sftp_session \<Rightarrow> nat wfield list) \<Rightarrow> (ssh_buffer \<Rightarrow> int \<times> ssh_buffer) \<Rightarrow>
     sftp_session \<Rightarrow> ssh_session \<Rightarrow> (int \<times> sftp_session \<times> ssh_session) run" where
  "sftp_command io type parts tail sf s =
     run_bind (sftp_ask io True False type parts tail sf s) (\<lambda>(r, sf1, s1).
       case status_reply (io_heap io) r sf1 of (rc, sf2) \<Rightarrow> Ret (rc, sf2, s1))"

subsection \<open>Directories\<close>

text \<open>The handle of a directory or a file is that of a reply, so it is there until the close.\<close>

record sftp_dir =
  dir_name :: bytes
  dir_handle :: ssh_string
  dir_buffer :: "ssh_buffer option"
  dir_count :: u32
  dir_at_end :: bool

definition sftp_opendir ::
  "sftp_io \<Rightarrow> bytes \<Rightarrow> sftp_session \<Rightarrow> ssh_session \<Rightarrow> (sftp_dir option \<times> sftp_session \<times> ssh_session) run" where
  "sftp_opendir io path sf s =
     (let h = io_heap io in
      run_bind (sftp_ask io True False 11 (\<lambda>f. [FCStr (cstr path)]) no_tail sf s) (\<lambda>(r, sf1, s1).
        case r of
          Reply m \<Rightarrow>
            if sm_packet_type m = 101 then Ret (None, snd (received_status h m sf1), s1)
            else if sm_packet_type m = 102 then
              (case parse_handle_msg h m sf1 of
                 (None, sf2) \<Rightarrow> Ret (None, sf2, s1)
               | (Some handle, sf2) \<Rightarrow>
                   if \<not> heap_grants h 40 then Ret (None, sf2, s1)
                   else (case strdup h (cstr path) of
                           None \<Rightarrow> Ret (None, sf2, s1)
                         | Some name \<Rightarrow>
                             Ret (Some \<lparr>dir_name = name, dir_handle = handle, dir_buffer = None, dir_count = 0,
                                        dir_at_end = False\<rparr>, sf2, s1)))
            else Ret (None, sf1, s1)
        | _ \<Rightarrow> Ret (None, sf1, s1)))"

text \<open>The first part of \<^verbatim>\<open>sftp_readdir\<close> fills the buffer of the directory, unless it has one.\<close>

definition fill_dir ::
  "sftp_io \<Rightarrow> sftp_dir \<Rightarrow> sftp_session \<Rightarrow> ssh_session \<Rightarrow> (bool \<times> sftp_dir \<times> sftp_session \<times> ssh_session) run" where
  "fill_dir io dir sf s =
     (let h = io_heap io in
      if dir_buffer dir \<noteq> None then Ret (True, dir, sf, s)
      else run_bind (sftp_ask io True False 12 (\<lambda>f. [FString (dir_handle dir)]) no_tail sf s) (\<lambda>(r, sf1, s1).
        case r of
          Reply m \<Rightarrow>
            if sm_packet_type m = 101 then
              (case received_status h m sf1 of
                 (st, sf2) \<Rightarrow> Ret (False, if st = Some SSH_FX_EOF then dir\<lparr>dir_at_end := True\<rparr> else dir, sf2, s1))
            else if sm_packet_type m = 104 then
              (case ssh_buffer_get_u32 (sm_payload m) of
                 (n, v, b1) \<Rightarrow>
                   Ret (True, dir\<lparr>dir_count := bswap (case v of Some c \<Rightarrow> c | None \<Rightarrow> dir_count dir), dir_buffer := Some b1\<rparr>,
                        sf1, s1))
            else Ret (False, dir, sftp_set_error SSH_FX_BAD_MESSAGE sf1, s1)
        | _ \<Rightarrow> Ret (False, dir, sf1, s1)))"

definition sftp_readdir ::
  "sftp_io \<Rightarrow> sftp_dir \<Rightarrow> sftp_session \<Rightarrow> ssh_session \<Rightarrow>
     (sftp_attributes option \<times> sftp_dir \<times> sftp_session \<times> ssh_session) run" where
  "sftp_readdir io dir sf s =
     run_bind (fill_dir io dir sf s) (\<lambda>(ok, dir1, sf1, s1).
       case dir_buffer dir1 of
         Some b \<Rightarrow>
           if \<not> ok \<or> dir_count dir1 = 0 then Ret (None, dir1, sf1, s1)
           else run_bind (sftp_parse_attr (io_heap io) (s_openssh s1 \<noteq> 0) sf1 b True) (\<lambda>(attr, b1, sf2).
             case attr of
               None \<Rightarrow> Ret (None, dir1\<lparr>dir_buffer := Some b1\<rparr>, sf2, s1)
             | Some a \<Rightarrow>
                 let n = dir_count dir1 - 1 in
                 Ret (Some a, dir1\<lparr>dir_count := n, dir_buffer := (if n = 0 then None else Some b1)\<rparr>, sf2, s1))
       | None \<Rightarrow> Ret (None, dir1, sf1, s1))"

definition sftp_dir_eof :: "sftp_dir \<Rightarrow> bool" where
  "sftp_dir_eof dir = dir_at_end dir"

definition sftp_handle_close ::
  "sftp_io \<Rightarrow> ssh_string \<Rightarrow> sftp_session \<Rightarrow> ssh_session \<Rightarrow> (int \<times> sftp_session \<times> ssh_session) run" where
  "sftp_handle_close io handle sf s = sftp_command io 4 (\<lambda>f. [FString handle]) no_tail sf s"

definition sftp_closedir ::
  "sftp_io \<Rightarrow> sftp_dir \<Rightarrow> sftp_session \<Rightarrow> ssh_session \<Rightarrow> (int \<times> sftp_session \<times> ssh_session) run" where
  "sftp_closedir io dir sf s = sftp_handle_close io (dir_handle dir) sf s"

subsection \<open>Attributes of a path\<close>

text \<open>The reply with attributes, or a refusal.\<close>

definition attr_reply ::
  "sftp_io \<Rightarrow> awaited \<Rightarrow> sftp_session \<Rightarrow> ssh_session \<Rightarrow> (sftp_attributes option \<times> sftp_session \<times> ssh_session) run" where
  "attr_reply io r sf s =
     (case r of
        Reply m \<Rightarrow>
          if sm_packet_type m = 105
          then run_bind (sftp_parse_attr (io_heap io) (s_openssh s \<noteq> 0) sf (sm_payload m) False) (\<lambda>(a, b, sf1). Ret (a, sf1, s))
          else Ret (None, refusal (io_heap io) m sf, s)
      | _ \<Rightarrow> Ret (None, sf, s))"

definition sftp_xstat ::
  "sftp_io \<Rightarrow> u8 \<Rightarrow> bytes option \<Rightarrow> sftp_session \<Rightarrow> ssh_session \<Rightarrow> (sftp_attributes option \<times> sftp_session \<times> ssh_session) run" where
  "sftp_xstat io param path sf s =
     (case path of
        None \<Rightarrow> Ret (None, sftp_set_error SSH_FX_FAILURE sf, s)
      | Some p \<Rightarrow>
          run_bind (sftp_ask io True False param (\<lambda>f. [FCStr (cstr p)]) no_tail sf s)
            (\<lambda>(r, sf1, s1). attr_reply io r sf1 s1))"

definition sftp_stat where "sftp_stat io = sftp_xstat io 17"

definition sftp_lstat where "sftp_lstat io = sftp_xstat io 7"

subsection \<open>Files\<close>

record sftp_file =
  fl_handle :: ssh_string
  fl_offset :: u64
  fl_eof :: bool
  fl_nonblocking :: bool

definition sftp_close ::
  "sftp_io \<Rightarrow> sftp_file \<Rightarrow> sftp_session \<Rightarrow> ssh_session \<Rightarrow> (int \<times> sftp_session \<times> ssh_session) run" where
  "sftp_close io fl sf s = sftp_handle_close io (fl_handle fl) sf s"

text \<open>The flags of \<^verbatim>\<open>open\<close>, with the numbers of Linux.\<close>

definition flag_set :: "nat \<Rightarrow> u32 \<Rightarrow> bool" where
  "flag_set m flags \<longleftrightarrow> flags AND of_nat m = of_nat m"

definition sftp_open_flags :: "u32 \<Rightarrow> u32" where
  "sftp_open_flags flags =
     ((((if flag_set 2 flags then 3 else if flag_set 1 flags then 2 else 1)
        OR (if flag_set 64 flags then 8 else 0))
        OR (if flag_set 512 flags then 16 else 0))
        OR (if flag_set 128 flags then 32 else 0))
        OR (if flag_set 1024 flags then 4 else 0)"

definition permissions_attr :: "u32 \<Rightarrow> sftp_attributes" where
  "permissions_attr mode = zero_attr\<lparr>at_permissions := mode, at_flags := SSH_FILEXFER_ATTR_PERMISSIONS\<rparr>"

definition open_reply ::
  "sftp_io \<Rightarrow> bytes \<Rightarrow> u32 \<Rightarrow> ssh_string \<Rightarrow> sftp_session \<Rightarrow> ssh_session \<Rightarrow> (sftp_file option \<times> sftp_session \<times> ssh_session) run" where
  "open_reply io file flags handle sf s =
     (let fl = \<lparr>fl_handle = handle, fl_offset = 0, fl_eof = False, fl_nonblocking = False\<rparr> in
      if \<not> flag_set 1024 flags then Ret (Some fl, sf, s)
      else run_bind (sftp_stat io (Some file) sf s) (\<lambda>(attr, sf1, s1).
        case attr of
          None \<Rightarrow> run_bind (sftp_close io fl sf1 s1) (\<lambda>(rc, sf2, s2). Ret (None, sf2, s2))
        | Some a \<Rightarrow>
            if attr_has (at_flags a) SSH_FILEXFER_ATTR_SIZE then Ret (Some (fl\<lparr>fl_offset := at_size a\<rparr>), sf1, s1)
            else run_bind (sftp_close io fl sf1 s1) (\<lambda>(rc, sf2, s2). Ret (None, sftp_set_error SSH_FX_FAILURE sf2, s2))))"

definition sftp_open ::
  "sftp_io \<Rightarrow> bytes \<Rightarrow> u32 \<Rightarrow> u32 \<Rightarrow> sftp_session \<Rightarrow> ssh_session \<Rightarrow> (sftp_file option \<times> sftp_session \<times> ssh_session) run" where
  "sftp_open io file flags mode sf s =
     (let h = io_heap io in
      run_bind (sftp_ask io False False 3 (\<lambda>f. [FCStr (cstr file), FDword (sftp_open_flags flags)])
                  (\<lambda>b. buffer_add_attributes h b (Some (permissions_attr mode))) sf s) (\<lambda>(r, sf1, s1).
        case r of
          Reply m \<Rightarrow>
            if sm_packet_type m = 102 then
              (case parse_handle_msg h m sf1 of
                 (None, sf2) \<Rightarrow> Ret (None, sf2, s1)
               | (Some handle, sf2) \<Rightarrow> open_reply io file flags handle sf2 s1)
            else Ret (None, refusal h m sf1, s1)
        | _ \<Rightarrow> Ret (None, sf1, s1)))"

definition sftp_file_set_nonblocking :: "sftp_file \<Rightarrow> sftp_file" where
  "sftp_file_set_nonblocking fl = fl\<lparr>fl_nonblocking := True\<rparr>"

definition sftp_file_set_blocking :: "sftp_file \<Rightarrow> sftp_file" where
  "sftp_file_set_blocking fl = fl\<lparr>fl_nonblocking := False\<rparr>"

text \<open>
  The string of a reply with data, if it is no longer than what was asked for. The bytes for the
  caller are returned.
\<close>

definition reply_data :: "heap \<Rightarrow> sftp_message \<Rightarrow> nat \<Rightarrow> bytes option" where
  "reply_data h m count =
     (case ssh_buffer_get_ssh_string h (sm_payload m) of
        (None, b) \<Rightarrow> None
      | (Some d, b) \<Rightarrow>
          if ssh_string_len (Some d) > count then None else Some (take (ssh_string_len (Some d)) (the (ssh_string_data (Some d)))))"

definition read_fields :: "sftp_file \<Rightarrow> u32 \<Rightarrow> nat wfield list" where
  "read_fields fl n = [FString (fl_handle fl), FQword (fl_offset fl), FDword n]"

definition sftp_read ::
  "sftp_io \<Rightarrow> sftp_file \<Rightarrow> nat \<Rightarrow> sftp_session \<Rightarrow> ssh_session \<Rightarrow>
     (int \<times> bytes \<times> sftp_file \<times> sftp_session \<times> ssh_session) run" where
  "sftp_read io fl count sf s =
     (let h = io_heap io in
      if fl_eof fl then Ret (0, [], fl, sf, s)
      else run_bind (sftp_ask io False (fl_nonblocking fl) 5 (\<lambda>f. read_fields fl (of_nat count)) no_tail sf s) (\<lambda>(r, sf1, s1).
        case r of
          Broken \<Rightarrow> Ret (- 1, [], fl, sf1, s1)
        | NothingYet \<Rightarrow> Ret (0, [], fl, sf1, s1)
        | Reply m \<Rightarrow>
            if sm_packet_type m = 101 then
              (case received_status h m sf1 of
                 (st, sf2) \<Rightarrow>
                   if st = Some SSH_FX_EOF then Ret (0, [], fl\<lparr>fl_eof := True\<rparr>, sf2, s1) else Ret (- 1, [], fl, sf2, s1))
            else if sm_packet_type m = 103 then
              (case reply_data h m count of
                 None \<Rightarrow> Ret (- 1, [], fl, sf1, s1)
               | Some d \<Rightarrow> Ret (int (length d), d, fl\<lparr>fl_offset := fl_offset fl + of_nat (length d)\<rparr>, sf1, s1))
            else Ret (- 1, [], fl, sftp_set_error SSH_FX_BAD_MESSAGE sf1, s1)))"

definition sftp_async_read_begin ::
  "sftp_io \<Rightarrow> sftp_file \<Rightarrow> u32 \<Rightarrow> sftp_session \<Rightarrow> ssh_session \<Rightarrow> (int \<times> sftp_file \<times> sftp_session \<times> ssh_session) run" where
  "sftp_async_read_begin io fl len sf s =
     run_bind (sftp_send io True 5 (\<lambda>f. read_fields fl len) no_tail sf s) (\<lambda>(n, sf1, s1).
       case n of
         None \<Rightarrow> Ret (- 1, fl, sf1, s1)
       | Some i \<Rightarrow> Ret (sint i, fl\<lparr>fl_offset := fl_offset fl + ucast len\<rparr>, sf1, s1))"

definition sftp_async_read ::
  "sftp_io \<Rightarrow> sftp_file option \<Rightarrow> u32 \<Rightarrow> u32 \<Rightarrow> sftp_session \<Rightarrow> ssh_session \<Rightarrow>
     (int \<times> bytes \<times> sftp_file option \<times> sftp_session \<times> ssh_session) run" where
  "sftp_async_read io file len n sf s =
     (let h = io_heap io in
      case file of
        None \<Rightarrow> Ret (SSH_ERROR, [], None, sf, s)
      | Some fl \<Rightarrow>
          if fl_eof fl then Ret (0, [], Some fl, sf, s)
          else run_bind (await_reply (io_fuel io) io (fl_nonblocking fl) n sf s) (\<lambda>(r, sf1, s1).
            case r of
              Broken \<Rightarrow> Ret (SSH_ERROR, [], Some fl, sf1, s1)
            | NothingYet \<Rightarrow> Ret (SSH_AGAIN, [], Some fl, sf1, s1)
            | Reply m \<Rightarrow>
                if sm_packet_type m = 101 then
                  (case received_status h m sf1 of
                     (None, sf2) \<Rightarrow> Ret (- 1, [], Some fl, sf2, s1)
                   | (Some st, sf2) \<Rightarrow>
                       if st \<noteq> SSH_FX_EOF then Ret (SSH_ERROR, [], Some fl, sf2, s1)
                       else Ret (SSH_OK, [], Some (fl\<lparr>fl_eof := True\<rparr>), sf2, s1))
                else if sm_packet_type m = 103 then
                  (case reply_data h m (unat len) of
                     None \<Rightarrow> Ret (SSH_ERROR, [], Some fl, sf1, s1)
                   | Some d \<Rightarrow>
                       Ret (int (length d), d, Some (fl\<lparr>fl_offset := fl_offset fl - ucast (len - of_nat (length d))\<rparr>), sf1, s1))
                else Ret (SSH_ERROR, [], Some fl, sftp_set_error SSH_FX_BAD_MESSAGE sf1, s1)))"

text \<open>The offset moves on whatever the status says.\<close>

definition sftp_write ::
  "sftp_io \<Rightarrow> sftp_file \<Rightarrow> bytes \<Rightarrow> sftp_session \<Rightarrow> ssh_session \<Rightarrow> (int \<times> sftp_file \<times> sftp_session \<times> ssh_session) run" where
  "sftp_write io fl d sf s =
     (let h = io_heap io in
      run_bind (sftp_ask io True False 6 (\<lambda>f. read_fields fl (of_nat (length d)) @ [FBytes d]) no_tail sf s) (\<lambda>(r, sf1, s1).
        case r of
          Reply m \<Rightarrow>
            if sm_packet_type m = 101 then
              (case received_status h m sf1 of
                 (None, sf2) \<Rightarrow> Ret (- 1, fl, sf2, s1)
               | (Some st, sf2) \<Rightarrow>
                   Ret (if st = SSH_FX_OK then int (length d) else - 1,
                        fl\<lparr>fl_offset := fl_offset fl + of_nat (length d)\<rparr>, sf2, s1))
            else Ret (- 1, fl, sftp_set_error SSH_FX_BAD_MESSAGE sf1, s1)
        | _ \<Rightarrow> Ret (- 1, fl, sf1, s1)))"

definition sftp_seek :: "sftp_file option \<Rightarrow> u32 \<Rightarrow> int \<times> sftp_file option" where
  "sftp_seek file new_offset =
     (case file of None \<Rightarrow> (- 1, None) | Some fl \<Rightarrow> (0, Some (fl\<lparr>fl_offset := ucast new_offset, fl_eof := False\<rparr>)))"

definition sftp_seek64 :: "sftp_file option \<Rightarrow> u64 \<Rightarrow> int \<times> sftp_file option" where
  "sftp_seek64 file new_offset =
     (case file of None \<Rightarrow> (- 1, None) | Some fl \<Rightarrow> (0, Some (fl\<lparr>fl_offset := new_offset, fl_eof := False\<rparr>)))"

definition sftp_tell :: "sftp_file \<Rightarrow> u64" where
  "sftp_tell fl = fl_offset fl"

definition sftp_tell64 :: "sftp_file \<Rightarrow> u64" where
  "sftp_tell64 fl = fl_offset fl"

definition sftp_rewind :: "sftp_file \<Rightarrow> sftp_file" where
  "sftp_rewind fl = fl\<lparr>fl_offset := 0, fl_eof := False\<rparr>"

subsection \<open>Commands on paths\<close>

definition sftp_unlink where
  "sftp_unlink io file = sftp_command io 13 (\<lambda>f. [FCStr (cstr file)]) no_tail"

definition sftp_rmdir where
  "sftp_rmdir io directory = sftp_command io 15 (\<lambda>f. [FCStr (cstr directory)]) no_tail"

text \<open>A general failure may mean that the path is already there, which a second request asks.\<close>

definition sftp_mkdir ::
  "sftp_io \<Rightarrow> bytes \<Rightarrow> u32 \<Rightarrow> sftp_session \<Rightarrow> ssh_session \<Rightarrow> (int \<times> sftp_session \<times> ssh_session) run" where
  "sftp_mkdir io directory mode sf s =
     (let h = io_heap io in
      run_bind (sftp_ask io True False 14 (\<lambda>f. [FCStr (cstr directory)])
                  (\<lambda>b. buffer_add_attributes h b (Some (permissions_attr mode))) sf s) (\<lambda>(r, sf1, s1).
        case r of
          Reply m \<Rightarrow>
            if sm_packet_type m = 101 then
              (case received_status h m sf1 of
                 (st, sf2) \<Rightarrow>
                   if st = Some SSH_FX_OK then Ret (0, sf2, s1)
                   else if st = Some SSH_FX_FAILURE then
                     run_bind (sftp_lstat io (Some directory) sf2 s1) (\<lambda>(attr, sf3, s2).
                       Ret (- 1, if attr = None then sf3 else sftp_set_error SSH_FX_FILE_ALREADY_EXISTS sf3, s2))
                   else Ret (- 1, sf2, s1))
            else Ret (- 1, sftp_set_error SSH_FX_BAD_MESSAGE sf1, s1)
        | _ \<Rightarrow> Ret (- 1, sf1, s1)))"

text \<open>The flag for the newer versions goes in without the change of byte order.\<close>

definition sftp_rename ::
  "sftp_io \<Rightarrow> bytes \<Rightarrow> bytes \<Rightarrow> sftp_session \<Rightarrow> ssh_session \<Rightarrow> (int \<times> sftp_session \<times> ssh_session) run" where
  "sftp_rename io original newname sf s =
     sftp_command io 18 (\<lambda>f. [FCStr (cstr original), FCStr (cstr newname)])
       (\<lambda>b. if sf_version sf \<ge> 4 then (0, snd (ssh_buffer_add_u32 (io_heap io) b 1)) else (0, b)) sf s"

definition sftp_setstat where
  "sftp_setstat io file attr =
     sftp_command io 9 (\<lambda>f. [FCStr (cstr file)]) (\<lambda>b. buffer_add_attributes (io_heap io) b attr)"

definition sftp_chown where
  "sftp_chown io file uid gid =
     sftp_setstat io file (Some (zero_attr\<lparr>at_uid := uid, at_gid := gid, at_flags := SSH_FILEXFER_ATTR_UIDGID\<rparr>))"

definition sftp_chmod where
  "sftp_chmod io file mode = sftp_setstat io file (Some (permissions_attr mode))"

text \<open>The two times are pairs of seconds and microseconds.\<close>

definition sftp_utimes ::
  "sftp_io \<Rightarrow> bytes \<Rightarrow> (int \<times> int) \<times> (int \<times> int) \<Rightarrow> sftp_session \<Rightarrow> ssh_session \<Rightarrow> (int \<times> sftp_session \<times> ssh_session) run" where
  "sftp_utimes io file stamps =
     (case stamps of
        ((asec, ausec), (msec, musec)) \<Rightarrow>
          sftp_setstat io file (Some (zero_attr
            \<lparr>at_atime := of_int asec, at_atime_nseconds := of_int ausec, at_mtime := of_int msec, at_mtime_nseconds := of_int musec,
             at_flags := SSH_FILEXFER_ATTR_ACMODTIME OR SSH_FILEXFER_ATTR_MODIFYTIME OR SSH_FILEXFER_ATTR_SUBSECOND_TIMES\<rparr>)))"

definition sftp_symlink ::
  "sftp_io \<Rightarrow> bytes option \<Rightarrow> bytes option \<Rightarrow> sftp_session \<Rightarrow> ssh_session \<Rightarrow> (int \<times> sftp_session \<times> ssh_session) run" where
  "sftp_symlink io target dest sf s =
     (case (target, dest) of
        (Some t, Some d) \<Rightarrow>
          sftp_command io 20
            (\<lambda>f. if s_openssh s \<noteq> 0 then [FCStr (cstr t), FCStr (cstr d)] else [FCStr (cstr d), FCStr (cstr t)]) no_tail sf s
      | _ \<Rightarrow> Ret (- 1, sftp_set_error SSH_FX_FAILURE sf, s))"

text \<open>A reply with a name: its count is not looked at.\<close>

definition name_reply :: "heap \<Rightarrow> awaited \<Rightarrow> sftp_session \<Rightarrow> bytes option \<times> sftp_session" where
  "name_reply h r sf =
     (case r of
        Reply m \<Rightarrow>
          if sm_packet_type m = 104 then
            (case unpack_from h (sm_payload m) ''ds'' of
               (rc, outs, b) \<Rightarrow>
                 if rc \<noteq> SSH_OK then (None, sftp_set_error SSH_FX_FAILURE sf)
                 else (case outs of [c, OutCStr name] \<Rightarrow> (name, sf) | _ \<Rightarrow> (None, sf)))
          else (None, refusal h m sf)
      | _ \<Rightarrow> (None, sf))"

definition ask_name ::
  "sftp_io \<Rightarrow> u8 \<Rightarrow> bytes \<Rightarrow> sftp_session \<Rightarrow> ssh_session \<Rightarrow> (bytes option \<times> sftp_session \<times> ssh_session) run" where
  "ask_name io type path sf s =
     run_bind (sftp_ask io True False type (\<lambda>f. [FCStr (cstr path)]) no_tail sf s) (\<lambda>(r, sf1, s1).
       case name_reply (io_heap io) r sf1 of (name, sf2) \<Rightarrow> Ret (name, sf2, s1))"

definition sftp_readlink ::
  "sftp_io \<Rightarrow> bytes option \<Rightarrow> sftp_session \<Rightarrow> ssh_session \<Rightarrow> (bytes option \<times> sftp_session \<times> ssh_session) run" where
  "sftp_readlink io path sf s =
     (case path of
        None \<Rightarrow> Ret (None, sftp_set_error SSH_FX_FAILURE sf, s)
      | Some p \<Rightarrow> if sf_version sf < 3 then Ret (None, sftp_set_error SSH_FX_FAILURE sf, s) else ask_name io 19 p sf s)"

definition sftp_canonicalize_path ::
  "sftp_io \<Rightarrow> bytes option \<Rightarrow> sftp_session \<Rightarrow> ssh_session \<Rightarrow> (bytes option \<times> sftp_session \<times> ssh_session) run" where
  "sftp_canonicalize_path io path sf s =
     (case path of None \<Rightarrow> Ret (None, sftp_set_error SSH_FX_FAILURE sf, s) | Some p \<Rightarrow> ask_name io 16 p sf s)"

text \<open>The eleven numbers of a file system, in the order of the structure.\<close>

record sftp_statvfs =
  f_bsize :: u64
  f_frsize :: u64
  f_blocks :: u64
  f_bfree :: u64
  f_bavail :: u64
  f_files :: u64
  f_ffree :: u64
  f_favail :: u64
  f_fsid :: u64
  f_flag :: u64
  f_namemax :: u64

definition sftp_parse_statvfs :: "heap \<Rightarrow> ssh_buffer \<Rightarrow> sftp_session \<Rightarrow> sftp_statvfs option \<times> sftp_session" where
  "sftp_parse_statvfs h b sf =
     (if \<not> heap_grants h 88 then (None, sftp_set_error SSH_FX_FAILURE sf)
      else case unpack_from h b ''qqqqqqqqqqq'' of
          (rc, outs, b1) \<Rightarrow>
            if rc \<noteq> SSH_OK then (None, sftp_set_error SSH_FX_FAILURE sf)
            else (Some \<lparr>f_bsize = out_u64 outs 0, f_frsize = out_u64 outs 1, f_blocks = out_u64 outs 2, f_bfree = out_u64 outs 3,
                        f_bavail = out_u64 outs 4, f_files = out_u64 outs 5, f_ffree = out_u64 outs 6, f_favail = out_u64 outs 7,
                        f_fsid = out_u64 outs 8, f_flag = out_u64 outs 9, f_namemax = out_u64 outs 10\<rparr>, sf))"

definition statvfs_reply :: "heap \<Rightarrow> awaited \<Rightarrow> sftp_session \<Rightarrow> sftp_statvfs option \<times> sftp_session" where
  "statvfs_reply h r sf =
     (case r of
        Reply m \<Rightarrow> if sm_packet_type m = 201 then sftp_parse_statvfs h (sm_payload m) sf else (None, refusal h m sf)
      | _ \<Rightarrow> (None, sf))"

definition sftp_statvfs ::
  "sftp_io \<Rightarrow> bytes option \<Rightarrow> sftp_session \<Rightarrow> ssh_session \<Rightarrow> (sftp_statvfs option \<times> sftp_session \<times> ssh_session) run" where
  "sftp_statvfs io path sf s =
     (case path of
        None \<Rightarrow> Ret (None, sftp_set_error SSH_FX_FAILURE sf, s)
      | Some p \<Rightarrow>
          if sf_version sf < 3 then Ret (None, sftp_set_error SSH_FX_FAILURE sf, s)
          else run_bind (sftp_ask io True False 200 (\<lambda>f. [FCStr (map of_char ''statvfs@openssh.com''), FCStr (cstr p)]) no_tail sf s)
            (\<lambda>(r, sf1, s1). case statvfs_reply (io_heap io) r sf1 of (v, sf2) \<Rightarrow> Ret (v, sf2, s1)))"

definition sftp_fstatvfs ::
  "sftp_io \<Rightarrow> sftp_file \<Rightarrow> sftp_session \<Rightarrow> ssh_session \<Rightarrow> (sftp_statvfs option \<times> sftp_session \<times> ssh_session) run" where
  "sftp_fstatvfs io fl sf s =
     run_bind (sftp_ask io True False 200 (\<lambda>f. [FCStr (map of_char ''fstatvfs@openssh.com''), FString (fl_handle fl)]) no_tail sf s)
       (\<lambda>(r, sf1, s1). case statvfs_reply (io_heap io) r sf1 of (v, sf2) \<Rightarrow> Ret (v, sf2, s1))"

definition sftp_fsync ::
  "sftp_io \<Rightarrow> sftp_file \<Rightarrow> sftp_session \<Rightarrow> ssh_session \<Rightarrow> (int \<times> sftp_session \<times> ssh_session) run" where
  "sftp_fsync io fl sf s = sftp_command io 200 (\<lambda>f. [FCStr (map of_char ''fsync@openssh.com''), FString (fl_handle fl)]) no_tail sf s"

definition sftp_fstat ::
  "sftp_io \<Rightarrow> sftp_file \<Rightarrow> sftp_session \<Rightarrow> ssh_session \<Rightarrow> (sftp_attributes option \<times> sftp_session \<times> ssh_session) run" where
  "sftp_fstat io fl sf s =
     run_bind (sftp_ask io True False 8 (\<lambda>f. [FString (fl_handle fl)]) no_tail sf s)
       (\<lambda>(r, sf1, s1). attr_reply io r sf1 s1)"

end
