(* ===== verification/Scp.thy ===== *)
theory Scp
  imports Sftp Client Misc
begin

text \<open>
  Copying files over a channel (\<^verbatim>\<open>src/libssh/src/scp.c\<close>): the state of a transfer, sending
  directories and files, and receiving the requests and the files of the other side. The event
  loop, the packet layer and the fuel of the loop that drains the channel are those of the file
  transfer protocol, \<^typ>\<open>sftp_io\<close>. A byte that is used before it was written has no
  result, as with every access outside of memory.
\<close>

datatype ssh_scp_states = SSH_SCP_NEW | SSH_SCP_WRITE_INITED | SSH_SCP_WRITE_WRITING | SSH_SCP_READ_INITED
  | SSH_SCP_READ_REQUESTED | SSH_SCP_READ_READING | SSH_SCP_ERROR | SSH_SCP_TERMINATED

datatype ssh_scp_request_types = SSH_SCP_REQUEST_NONE | SSH_SCP_REQUEST_NEWDIR | SSH_SCP_REQUEST_NEWFILE
  | SSH_SCP_REQUEST_EOF | SSH_SCP_REQUEST_ENDDIR | SSH_SCP_REQUEST_WARNING

fun request_code :: "ssh_scp_request_types \<Rightarrow> int" where
  "request_code SSH_SCP_REQUEST_NONE = 0"
| "request_code SSH_SCP_REQUEST_NEWDIR = 1"
| "request_code SSH_SCP_REQUEST_NEWFILE = 2"
| "request_code SSH_SCP_REQUEST_EOF = 3"
| "request_code SSH_SCP_REQUEST_ENDDIR = 4"
| "request_code SSH_SCP_REQUEST_WARNING = 5"

record ssh_scp =
  scp_write_mode :: bool
  scp_recursive :: bool
  scp_channel :: "nat option"
  scp_location :: "bytes option"
  scp_state :: ssh_scp_states
  scp_filelen :: u64
  scp_processed :: u64
  scp_request_type :: ssh_scp_request_types
  scp_request_name :: "bytes option"
  scp_warning :: "bytes option"
  scp_request_mode :: nat

text \<open>The mode is \<^verbatim>\<open>SSH_SCP_WRITE\<close> 0 or \<^verbatim>\<open>SSH_SCP_READ\<close> 1, and \<^verbatim>\<open>SSH_SCP_RECURSIVE\<close> 16 as a flag.\<close>

definition ssh_scp_new :: "heap \<Rightarrow> u32 \<Rightarrow> bytes \<Rightarrow> ssh_scp option" where
  "ssh_scp_new h mode location =
     (if \<not> heap_grants h 88 then None
      else if mode AND NOT 16 \<noteq> 0 \<and> mode AND NOT 16 \<noteq> 1 then None
      else if strlen location > 32 * 1024 then None
      else case strdup h (cstr location) of
          None \<Rightarrow> None
        | Some l \<Rightarrow> Some \<lparr>scp_write_mode = (mode AND NOT 16 = 0), scp_recursive = (mode AND 16 \<noteq> 0), scp_channel = None,
            scp_location = Some l, scp_state = SSH_SCP_NEW, scp_filelen = 0, scp_processed = 0,
            scp_request_type = SSH_SCP_REQUEST_NONE, scp_request_name = None, scp_warning = None, scp_request_mode = 0\<rparr>)"

text \<open>The channel of a transfer; the tests of the state in front of its uses leave out a transfer that has none.\<close>

definition with_scp :: "ssh_scp \<Rightarrow> (nat \<Rightarrow> 'a run) \<Rightarrow> 'a run" where
  "with_scp scp f = (case scp_channel scp of None \<Rightarrow> Overflow | Some a \<Rightarrow> f a)"

subsection \<open>Numbers\<close>

text \<open>\<^verbatim>\<open>strtoul\<close> and \<^verbatim>\<open>strtoull\<close> in bases up to ten.\<close>

definition base_digit :: "nat \<Rightarrow> u8 \<Rightarrow> bool" where
  "base_digit base c \<longleftrightarrow> 48 \<le> unat c \<and> unat c < 48 + base"

definition base_value :: "nat \<Rightarrow> bytes \<Rightarrow> nat" where
  "base_value base ds = foldl (\<lambda>n d. base * n + (unat d - 48)) 0 ds"

definition strtoull :: "nat \<Rightarrow> bytes \<Rightarrow> nat" where
  "strtoull base s =
     (let t = dropWhile isspace s;
          neg = (t \<noteq> [] \<and> hd t = 45);
          u = (if t \<noteq> [] \<and> (hd t = 45 \<or> hd t = 43) then tl t else t);
          v = base_value base (takeWhile (base_digit base) u)
      in if v \<ge> 18446744073709551616 then 18446744073709551615
         else if neg then wrap64 (18446744073709551616 - v) else v)"

definition ssh_scp_integer_mode :: "bytes \<Rightarrow> nat" where
  "ssh_scp_integer_mode mode = strtoull 8 mode mod 65536"

text \<open>At least four octal digits of the mode as an \<^verbatim>\<open>unsigned int\<close>.\<close>

definition octal_mode :: "u32 \<Rightarrow> bytes" where
  "octal_mode mode = (let ds = in_base 8 (unat mode) in replicate (4 - length ds) 48 @ ds)"

definition ssh_scp_string_mode :: "heap \<Rightarrow> u32 \<Rightarrow> bytes option" where
  "ssh_scp_string_mode h mode = strdup h (octal_mode mode)"

subsection \<open>Reading lines and answers\<close>

text \<open>
  A line of at most so many bytes, up to its newline, into a buffer of zeros. The result when it
  was read is that of the last read.
\<close>

fun ssh_scp_read_string ::
  "nat \<Rightarrow> sftp_io \<Rightarrow> nat \<Rightarrow> int \<Rightarrow> bytes \<Rightarrow> ssh_session \<Rightarrow> (int \<times> bytes \<times> ssh_session) run" where
  "ssh_scp_read_string 0 io a err acc s = Ret (err, acc, s)"
| "ssh_scp_read_string (Suc room) io a err acc s =
     run_bind (ssh_channel_read (io_wait io) (io_env io) a 1 False s) (\<lambda>(rc, d, s1).
       if rc = SSH_ERROR \<or> rc = 0 then Ret (SSH_ERROR, acc, s1)
       else
         let c = (case d of [x] \<Rightarrow> x | _ \<Rightarrow> 0) in
         if c = newline then Ret (rc, acc @ [c], s1) else ssh_scp_read_string room io a rc (acc @ [c]) s1)"

text \<open>The answer of the other side: its code, and the message of a warning or an error.\<close>

definition ssh_scp_response ::
  "sftp_io \<Rightarrow> ssh_scp \<Rightarrow> ssh_session \<Rightarrow> (int \<times> bytes option \<times> ssh_scp \<times> ssh_session) run" where
  "ssh_scp_response io scp s =
     with_scp scp (\<lambda>a.
       run_bind (ssh_channel_read (io_wait io) (io_env io) a 1 False s) (\<lambda>(rc, d, s1).
         if rc = SSH_ERROR then Ret (SSH_ERROR, None, scp, s1)
         else case d of
             [code] \<Rightarrow>
               if code = 0 then Ret (0, None, scp, s1)
               else if code > 2 then Ret (SSH_ERROR, None, scp\<lparr>scp_state := SSH_SCP_ERROR\<rparr>, s1)
               else run_bind (ssh_scp_read_string 127 io a SSH_OK [] s1) (\<lambda>(rc2, msg, s2).
                 if rc2 = SSH_ERROR then Ret (rc2, None, scp, s2)
                 else Ret (int (unat code), strdup (io_heap io) (cstr msg), scp, s2))
           | _ \<Rightarrow> Overflow))"

text \<open>The answer where only its success matters.\<close>

definition scp_answer :: "sftp_io \<Rightarrow> ssh_scp \<Rightarrow> ssh_session \<Rightarrow> (int \<times> ssh_scp \<times> ssh_session) run" where
  "scp_answer io scp s =
     run_bind (ssh_scp_response io scp s) (\<lambda>(rc, msg, scp1, s1). Ret (if rc \<noteq> 0 then SSH_ERROR else SSH_OK, scp1, s1))"

definition scp_send :: "sftp_io \<Rightarrow> nat \<Rightarrow> bytes \<Rightarrow> ssh_session \<Rightarrow> (int \<times> ssh_session) run" where
  "scp_send io a d s = ssh_channel_write (io_wait io) (io_env io) a (Some d) s"

text \<open>A line that is sent and answered.\<close>

definition scp_command :: "sftp_io \<Rightarrow> bytes \<Rightarrow> ssh_scp \<Rightarrow> ssh_session \<Rightarrow> (int \<times> ssh_scp \<times> ssh_session) run" where
  "scp_command io text0 scp s =
     with_scp scp (\<lambda>a.
       run_bind (scp_send io a text0 s) (\<lambda>(rc, s1).
         if rc = SSH_ERROR then Ret (SSH_ERROR, scp\<lparr>scp_state := SSH_SCP_ERROR\<rparr>, s1) else scp_answer io scp s1))"

subsection \<open>Opening and closing\<close>

definition scp_exec_command :: "bool \<Rightarrow> bool \<Rightarrow> bytes \<Rightarrow> bytes" where
  "scp_exec_command writing recursive quoted =
     take 1023 (map of_char (if writing then ''scp -t '' else ''scp -f '') @
       (if recursive then map of_char ''-r'' else []) @ [32] @ quoted)"

definition ssh_scp_init :: "sftp_io \<Rightarrow> ssh_scp \<Rightarrow> ssh_session \<Rightarrow> (int \<times> ssh_scp \<times> ssh_session) run" where
  "ssh_scp_init io scp s =
     (let h = io_heap io; wait = io_wait io; e = io_env io;
          failed = (\<lambda>c t. Ret (SSH_ERROR, c\<lparr>scp_state := SSH_SCP_ERROR\<rparr>, t))
      in if scp_state scp \<noteq> SSH_SCP_NEW then Ret (SSH_ERROR, scp, s)
         else case scp_location scp of
             None \<Rightarrow> Ret (SSH_ERROR, scp, s)
           | Some l \<Rightarrow>
               (case ssh_channel_new h s of
                  (None, s1) \<Rightarrow> failed (scp\<lparr>scp_channel := None\<rparr>) s1
                | (Some a, s1) \<Rightarrow>
                    let scp1 = scp\<lparr>scp_channel := Some a\<rparr>; n = 3 * strlen l + 1 in
                    run_bind (ssh_channel_open_session wait e a s1) (\<lambda>(rc, s2).
                      if rc = SSH_ERROR then failed scp1 s2
                      else case (calloc h n, map_option (\<lambda>q. ssh_quote_file_name (Some l) (Some q) n) (calloc h n)) of
                          (Some _, Some (qrc, Some quoted)) \<Rightarrow>
                            if qrc \<le> 0 then failed scp1 s2
                            else run_bind (ssh_channel_request_exec wait e a
                                   (scp_exec_command (scp_write_mode scp) (scp_recursive scp) (cstr quoted)) s2) (\<lambda>(rc2, s3).
                              if rc2 = SSH_ERROR then failed scp1 s3
                              else if scp_write_mode scp then
                                run_bind (scp_answer io scp1 s3) (\<lambda>(rc3, scp2, s4).
                                  Ret (rc3, if rc3 = SSH_OK then scp2\<lparr>scp_state := SSH_SCP_WRITE_INITED\<rparr> else scp2, s4))
                              else run_bind (scp_send io a [0] s3) (\<lambda>(rc3, s4).
                                Ret (SSH_OK, scp1\<lparr>scp_state := SSH_SCP_READ_INITED\<rparr>, s4)))
                        | _ \<Rightarrow> failed scp1 s2)))"

text \<open>The channel is read until its end; the other side may keep it open.\<close>

fun scp_drain :: "nat \<Rightarrow> sftp_io \<Rightarrow> nat \<Rightarrow> ssh_session \<Rightarrow> ssh_session run" where
  "scp_drain 0 io a s = Overflow"
| "scp_drain (Suc k) io a s =
     with_channel a s (\<lambda>c.
       if ssh_channel_is_eof c then Ret s
       else run_bind (ssh_channel_read (io_wait io) (io_env io) a 128 False s) (\<lambda>(rc, d, s1).
         if rc = SSH_ERROR \<or> rc = 0 then Ret s1 else scp_drain k io a s1))"

definition ssh_scp_close :: "sftp_io \<Rightarrow> ssh_scp \<Rightarrow> ssh_session \<Rightarrow> (int \<times> ssh_scp \<times> ssh_session) run" where
  "ssh_scp_close io scp s =
     (let wait = io_wait io; e = io_env io; failed = (\<lambda>t. Ret (SSH_ERROR, scp\<lparr>scp_state := SSH_SCP_ERROR\<rparr>, t)) in
      case scp_channel scp of
        None \<Rightarrow> Ret (SSH_OK, scp\<lparr>scp_state := SSH_SCP_NEW\<rparr>, s)
      | Some a \<Rightarrow>
          run_bind (ssh_channel_send_eof wait e a s) (\<lambda>(rc, s1).
            if rc = SSH_ERROR then failed s1
            else run_bind (scp_drain (io_fuel io) io a s1) (\<lambda>s2.
              run_bind (ssh_channel_close wait e a s2) (\<lambda>(rc2, s3).
                if rc2 = SSH_ERROR then failed s3
                else run_bind (ssh_channel_free wait e a s3) (\<lambda>s4.
                  Ret (SSH_OK, scp\<lparr>scp_channel := None, scp_state := SSH_SCP_NEW\<rparr>, s4))))))"

definition ssh_scp_free :: "sftp_io \<Rightarrow> ssh_scp \<Rightarrow> ssh_session \<Rightarrow> ssh_session run" where
  "ssh_scp_free io scp s =
     run_bind (if scp_state scp \<noteq> SSH_SCP_NEW then ssh_scp_close io scp s else Ret (SSH_OK, scp, s)) (\<lambda>(rc, scp1, s1).
       case scp_channel scp1 of None \<Rightarrow> Ret s1 | Some a \<Rightarrow> ssh_channel_free (io_wait io) (io_env io) a s1)"

subsection \<open>Sending\<close>

text \<open>The name without its directories, its newlines encoded, and the mode in octal.\<close>

definition scp_name_and_mode :: "heap \<Rightarrow> bytes \<Rightarrow> u32 \<Rightarrow> (bytes \<times> bytes) option" where
  "scp_name_and_mode h name mode =
     (case ssh_basename h (Some name) of
        None \<Rightarrow> None
      | Some b \<Rightarrow>
          let n = 2 * strlen b + 1 in
          (case calloc h n of
             None \<Rightarrow> None
           | Some q \<Rightarrow>
               (case ssh_newline_vis (Some b) (Some q) n of
                  (rc, Some vis) \<Rightarrow>
                    if rc \<le> 0 then None
                    else map_option (\<lambda>perms. (cstr vis, cstr perms)) (ssh_scp_string_mode h mode)
                | _ \<Rightarrow> None)))"

definition scp_directory_line :: "bytes \<Rightarrow> bytes \<Rightarrow> bytes" where
  "scp_directory_line perms name = take 1023 ([68] @ perms @ map of_char '' 0 '' @ name @ [newline])"

definition scp_file_line :: "bytes \<Rightarrow> u64 \<Rightarrow> bytes \<Rightarrow> bytes" where
  "scp_file_line perms n name = take 1023 ([67] @ perms @ [32] @ in_base 10 (unat n) @ [32] @ name @ [newline])"

definition ssh_scp_push_directory ::
  "sftp_io \<Rightarrow> bytes \<Rightarrow> u32 \<Rightarrow> ssh_scp \<Rightarrow> ssh_session \<Rightarrow> (int \<times> ssh_scp \<times> ssh_session) run" where
  "ssh_scp_push_directory io dirname mode scp s =
     (if scp_state scp \<noteq> SSH_SCP_WRITE_INITED then Ret (SSH_ERROR, scp, s)
      else case scp_name_and_mode (io_heap io) dirname mode of
          None \<Rightarrow> Ret (SSH_ERROR, scp, s)
        | Some (name, perms) \<Rightarrow> scp_command io (scp_directory_line perms name) scp s)"

definition ssh_scp_leave_directory :: "sftp_io \<Rightarrow> ssh_scp \<Rightarrow> ssh_session \<Rightarrow> (int \<times> ssh_scp \<times> ssh_session) run" where
  "ssh_scp_leave_directory io scp s =
     (if scp_state scp \<noteq> SSH_SCP_WRITE_INITED then Ret (SSH_ERROR, scp, s) else scp_command io [69, newline] scp s)"

definition ssh_scp_push_file64 ::
  "sftp_io \<Rightarrow> bytes \<Rightarrow> u64 \<Rightarrow> u32 \<Rightarrow> ssh_scp \<Rightarrow> ssh_session \<Rightarrow> (int \<times> ssh_scp \<times> ssh_session) run" where
  "ssh_scp_push_file64 io filename n mode scp s =
     (if scp_state scp \<noteq> SSH_SCP_WRITE_INITED then Ret (SSH_ERROR, scp, s)
      else case scp_name_and_mode (io_heap io) filename mode of
          None \<Rightarrow> Ret (SSH_ERROR, scp, s)
        | Some (name, perms) \<Rightarrow>
            run_bind (scp_command io (scp_file_line perms n name) scp s) (\<lambda>(rc, scp1, s1).
              if rc \<noteq> SSH_OK then Ret (SSH_ERROR, scp1, s1)
              else Ret (SSH_OK, scp1\<lparr>scp_filelen := n, scp_processed := 0, scp_state := SSH_SCP_WRITE_WRITING\<rparr>, s1)))"

definition ssh_scp_push_file where
  "ssh_scp_push_file io filename n mode = ssh_scp_push_file64 io filename (of_nat n) mode"

text \<open>The part of the data that still belongs to the file.\<close>

definition scp_room :: "ssh_scp \<Rightarrow> nat \<Rightarrow> nat" where
  "scp_room scp n = (if scp_processed scp + of_nat n > scp_filelen scp then unat (scp_filelen scp - scp_processed scp) else n)"

definition ssh_scp_write :: "sftp_io \<Rightarrow> bytes \<Rightarrow> ssh_scp \<Rightarrow> ssh_session \<Rightarrow> (int \<times> ssh_scp \<times> ssh_session) run" where
  "ssh_scp_write io d scp s =
     (let failed = (\<lambda>c t. Ret (SSH_ERROR, c\<lparr>scp_state := SSH_SCP_ERROR\<rparr>, t)) in
      if scp_state scp \<noteq> SSH_SCP_WRITE_WRITING then Ret (SSH_ERROR, scp, s)
      else with_scp scp (\<lambda>a.
        run_bind (ssh_channel_poll (io_handle io) a False s) (\<lambda>(rc, s1).
          if rc = SSH_ERROR then failed scp s1
          else run_bind (scp_send io a (take (scp_room scp (length d)) d) s1) (\<lambda>(w, s2).
            if w = SSH_ERROR then failed scp s2
            else
              let scp1 = scp\<lparr>scp_processed := scp_processed scp + of_int w\<rparr> in
              run_bind (ssh_channel_poll (io_handle io) a False s2) (\<lambda>(rc2, s3).
                run_bind (if rc2 > 0 then scp_answer io scp1 s3 else Ret (SSH_OK, scp1, s3)) (\<lambda>(rc3, scp2, s4).
                  if rc3 \<noteq> SSH_OK then Ret (SSH_ERROR, scp2, s4)
                  else if scp_processed scp2 \<noteq> scp_filelen scp2 then Ret (SSH_OK, scp2, s4)
                  else run_bind (scp_send io a [0] s4) (\<lambda>(w2, s5).
                    if w2 = SSH_ERROR then failed scp2 s5
                    else Ret (SSH_OK, scp2\<lparr>scp_processed := 0, scp_filelen := 0, scp_state := SSH_SCP_WRITE_INITED\<rparr>, s5))))))))"

subsection \<open>Receiving\<close>

text \<open>
  What a line of the other side asks for. A line of a file or a directory that breaks off behind its mode has
  already set the mode.
\<close>

datatype scp_line = FileLine bool nat u64 bytes | EndLine | WarningLine bytes | BrokenLine "nat option"

definition scp_parse_line :: "bytes \<Rightarrow> scp_line" where
  "scp_parse_line buf =
     (let l = takeWhile (\<lambda>c. c \<noteq> 0 \<and> c \<noteq> newline) buf in
      case l of
        [] \<Rightarrow> BrokenLine None
      | c # t \<Rightarrow>
          if c = 67 \<or> c = 68 then
            (case find_sep l 32 of
               None \<Rightarrow> BrokenLine None
             | Some i \<Rightarrow>
                 let mode = ssh_scp_integer_mode (take (i - 1) t); p = drop (Suc i) l in
                 (case find_sep p 32 of
                    None \<Rightarrow> BrokenLine (Some mode)
                  | Some j \<Rightarrow> FileLine (c = 67) mode (of_nat (strtoull 10 (take j p))) (drop (Suc j) p)))
          else if c = 69 then EndLine
          else if c = 1 then WarningLine t
          else BrokenLine None)"

definition ssh_scp_pull_request :: "sftp_io \<Rightarrow> ssh_scp \<Rightarrow> ssh_session \<Rightarrow> (int \<times> ssh_scp \<times> ssh_session) run" where
  "ssh_scp_pull_request io scp s =
     (if scp_state scp \<noteq> SSH_SCP_READ_INITED then Ret (SSH_ERROR, scp, s)
      else with_scp scp (\<lambda>a.
        run_bind (ssh_scp_read_string 4095 io a SSH_OK [] s) (\<lambda>(rc, buf, s1).
          if rc = SSH_ERROR then
            with_channel a s1 (\<lambda>c.
              if ssh_channel_is_eof c
              then Ret (request_code SSH_SCP_REQUEST_EOF, scp\<lparr>scp_state := SSH_SCP_TERMINATED\<rparr>, s1)
              else Ret (rc, scp, s1))
          else case scp_parse_line buf of
              BrokenLine mode \<Rightarrow>
                Ret (SSH_ERROR, case mode of None \<Rightarrow> scp | Some m \<Rightarrow> scp\<lparr>scp_request_mode := m\<rparr>, s1)
            | WarningLine w \<Rightarrow>
                Ret (request_code SSH_SCP_REQUEST_WARNING,
                     scp\<lparr>scp_request_type := SSH_SCP_REQUEST_WARNING, scp_warning := strdup (io_heap io) w\<rparr>, s1)
            | EndLine \<Rightarrow>
                run_bind (scp_send io a [0] s1) (\<lambda>(w, s2).
                  Ret (request_code SSH_SCP_REQUEST_ENDDIR, scp\<lparr>scp_request_type := SSH_SCP_REQUEST_ENDDIR\<rparr>, s2))
            | FileLine is_file mode n name \<Rightarrow>
                let type = (if is_file then SSH_SCP_REQUEST_NEWFILE else SSH_SCP_REQUEST_NEWDIR) in
                Ret (request_code type,
                     scp\<lparr>scp_request_mode := mode, scp_request_name := strdup (io_heap io) name,
                         scp_filelen := (if is_file then n else 48), scp_request_type := type,
                         scp_state := SSH_SCP_READ_REQUESTED, scp_processed := 0\<rparr>, s1))))"

definition ssh_scp_deny_request ::
  "sftp_io \<Rightarrow> bytes \<Rightarrow> ssh_scp \<Rightarrow> ssh_session \<Rightarrow> (int \<times> ssh_scp \<times> ssh_session) run" where
  "ssh_scp_deny_request io reason scp s =
     (if scp_state scp \<noteq> SSH_SCP_READ_REQUESTED then Ret (SSH_ERROR, scp, s)
      else with_scp scp (\<lambda>a.
        run_bind (scp_send io a (take 4095 ([2] @ cstr reason @ [newline])) s) (\<lambda>(rc, s1).
          if rc = SSH_ERROR then Ret (SSH_ERROR, scp, s1)
          else Ret (SSH_OK, scp\<lparr>scp_state := SSH_SCP_READ_INITED\<rparr>, s1))))"

definition ssh_scp_accept_request :: "sftp_io \<Rightarrow> ssh_scp \<Rightarrow> ssh_session \<Rightarrow> (int \<times> ssh_scp \<times> ssh_session) run" where
  "ssh_scp_accept_request io scp s =
     (if scp_state scp \<noteq> SSH_SCP_READ_REQUESTED then Ret (SSH_ERROR, scp, s)
      else with_scp scp (\<lambda>a.
        run_bind (scp_send io a [0] s) (\<lambda>(rc, s1).
          if rc = SSH_ERROR then Ret (SSH_ERROR, scp, s1)
          else Ret (SSH_OK, scp\<lparr>scp_state := if scp_request_type scp = SSH_SCP_REQUEST_NEWFILE
                                              then SSH_SCP_READ_READING else SSH_SCP_READ_INITED\<rparr>, s1))))"

text \<open>A file that is complete is answered, and the answer of the other side is waited for.\<close>

definition scp_file_complete ::
  "sftp_io \<Rightarrow> nat \<Rightarrow> int \<Rightarrow> bytes \<Rightarrow> ssh_scp \<Rightarrow> ssh_session \<Rightarrow> (int \<times> bytes \<times> ssh_scp \<times> ssh_session) run" where
  "scp_file_complete io a rc d scp s =
     run_bind (scp_send io a [0] s) (\<lambda>(w, s1).
       run_bind (ssh_scp_response io scp s1) (\<lambda>(code, msg, scp1, s2).
         if code = 0 then Ret (rc, d, scp1\<lparr>scp_state := SSH_SCP_READ_INITED\<rparr>, s2)
         else if code = 1 then Ret (SSH_ERROR, d, scp1\<lparr>scp_state := SSH_SCP_READ_INITED\<rparr>, s2)
         else Ret (SSH_ERROR, d, scp1\<lparr>scp_state := SSH_SCP_ERROR\<rparr>, s2)))"

definition ssh_scp_read ::
  "sftp_io \<Rightarrow> nat \<Rightarrow> ssh_scp \<Rightarrow> ssh_session \<Rightarrow> (int \<times> bytes \<times> ssh_scp \<times> ssh_session) run" where
  "ssh_scp_read io n scp s =
     run_bind (if scp_state scp = SSH_SCP_READ_REQUESTED \<and> scp_request_type scp = SSH_SCP_REQUEST_NEWFILE
               then ssh_scp_accept_request io scp s else Ret (SSH_OK, scp, s)) (\<lambda>(rc0, scp0, s0).
       if rc0 = SSH_ERROR then Ret (rc0, [], scp0, s0)
       else if scp_state scp0 \<noteq> SSH_SCP_READ_READING then Ret (SSH_ERROR, [], scp0, s0)
       else with_scp scp0 (\<lambda>a.
         run_bind (ssh_channel_read (io_wait io) (io_env io) a (min 65536 (scp_room scp0 n)) False s0) (\<lambda>(rc, d, s1).
           if rc = SSH_ERROR then Ret (SSH_ERROR, [], scp0\<lparr>scp_state := SSH_SCP_ERROR\<rparr>, s1)
           else
             let scp1 = scp0\<lparr>scp_processed := scp_processed scp0 + of_int rc\<rparr> in
             if scp_processed scp1 = scp_filelen scp1
             then scp_file_complete io a rc d (scp1\<lparr>scp_processed := 0, scp_filelen := 0\<rparr>) s1
             else Ret (rc, d, scp1, s1))))"

definition ssh_scp_request_get_filename :: "ssh_scp option \<Rightarrow> bytes option" where
  "ssh_scp_request_get_filename scp = (case scp of None \<Rightarrow> None | Some c \<Rightarrow> scp_request_name c)"

definition ssh_scp_request_get_permissions :: "ssh_scp option \<Rightarrow> int" where
  "ssh_scp_request_get_permissions scp = (case scp of None \<Rightarrow> - 1 | Some c \<Rightarrow> int (scp_request_mode c))"

definition ssh_scp_request_get_size :: "ssh_scp option \<Rightarrow> u64" where
  "ssh_scp_request_get_size scp = (case scp of None \<Rightarrow> 0 | Some c \<Rightarrow> scp_filelen c)"

definition ssh_scp_request_get_size64 :: "ssh_scp option \<Rightarrow> u64" where
  "ssh_scp_request_get_size64 scp = (case scp of None \<Rightarrow> 0 | Some c \<Rightarrow> scp_filelen c)"

definition ssh_scp_request_get_warning :: "ssh_scp option \<Rightarrow> bytes option" where
  "ssh_scp_request_get_warning scp = (case scp of None \<Rightarrow> None | Some c \<Rightarrow> scp_warning c)"

end
