(* ===== verification/Channel_Table.thy ===== *)
theory Channel_Table
  imports Channel Login
begin

text \<open>
  What the operations do to the list of channels as a whole. Sending and parsing leave it alone;
  the handlers of the connection protocol neither make nor renumber a channel, and do nothing to
  the login either.
\<close>

subsection \<open>Sending leaves the channels alone\<close>

type_synonym channel_table = "(nat \<times> ssh_channel) list \<times> u32"

definition has_table :: "channel_table \<Rightarrow> ssh_session \<Rightarrow> bool" where
  "has_table T s \<longleftrightarrow> s_channels s = fst T \<and> s_maxchannel s = snd T"

abbreviation tabled :: "channel_table \<Rightarrow> ('a \<times> ssh_session) run \<Rightarrow> bool" where
  "tabled T r \<equiv> ends (\<lambda>y. has_table T (snd y)) r"

lemma tabled_bind: "tabled T r \<Longrightarrow> (\<And>x t. has_table T t \<Longrightarrow> ends P (f (x, t))) \<Longrightarrow> ends P (run_bind r f)"
  by (cases r) (auto simp: ends_def)

lemma table_fields [simp]:
  "has_table T (t\<lparr>s_out_buffer := ob\<rparr>) = has_table T t"
  "has_table T (t\<lparr>s_in_buffer := ib\<rparr>) = has_table T t"
  "has_table T (t\<lparr>s_out_queue := q\<rparr>) = has_table T t"
  "has_table T (t\<lparr>s_current_crypto := c\<rparr>) = has_table T t"
  "has_table T (t\<lparr>s_next_crypto := c\<rparr>) = has_table T t"
  "has_table T (t\<lparr>s_sent := l\<rparr>) = has_table T t"
  "has_table T (t\<lparr>s_send_seq := k\<rparr>) = has_table T t"
  "has_table T (t\<lparr>s_out_hashbuf := ib\<rparr>) = has_table T t"
  "has_table T (t\<lparr>s_last_rekey_time := tm\<rparr>) = has_table T t"
  "has_table T (t\<lparr>s_session_state := st\<rparr>) = has_table T t"
  "has_table T (t\<lparr>s_dh_handshake_state := d\<rparr>) = has_table T t"
  "has_table T (t\<lparr>s_global_req_state := gr\<rparr>) = has_table T t"
  "has_table T (t\<lparr>s_flags := fl\<rparr>) = has_table T t"
  by (simp_all add: has_table_def)

lemma has_table_channels:
  "has_table (s_channels s, s_maxchannel s) t \<Longrightarrow> s_channels t = s_channels s \<and> s_maxchannel t = s_maxchannel s"
  by (simp add: has_table_def)

lemma has_own_table [simp]: "has_table (s_channels s, s_maxchannel s) s"
  by (simp add: has_table_def)

lemma table_put_crypto [simp]: "has_table T (put_crypto w c t) = has_table T t"
  by (cases w) (simp_all add: put_crypto_def)

lemma set_newkeys_table: "ssh_packet_set_newkeys h kx now t d = (rc, u) \<Longrightarrow> has_table T u = has_table T t"
  by (auto simp: ssh_packet_set_newkeys_def newkeys_install_def Let_def split: if_splits option.splits prod.splits)

lemma count_out_table [simp]: "has_table T (count_out n t) = has_table T t"
  by (auto simp: count_out_def split: option.splits prod.splits)

lemma packet_emit_table: "packet_emit e t b y k n = (rc, u) \<Longrightarrow> has_table T u = has_table T t"
  by (auto simp: packet_emit_def Let_def set_newkeys_table split: if_splits prod.splits)

lemma packet_send2_table: "packet_send2 e t = (rc, u) \<Longrightarrow> has_table T u = has_table T t"
  by (auto simp: packet_send2_def Let_def packet_emit_table split: if_splits prod.splits option.splits)

lemma ssh_send_kex_table:
  assumes "\<And>t. has_table T t \<Longrightarrow> tabled T (send t)" and "has_table T t"
  shows "tabled T (ssh_send_kex send e t next k)"
  unfolding ssh_send_kex_def
  by (intro ends_rules tabled_bind [OF assms(1)]) (use assms(2) in auto)

lemma ssh_send_rekex_table:
  assumes "\<And>t. has_table T t \<Longrightarrow> tabled T (send t)" and "has_table T t"
  shows "tabled T (ssh_send_rekex send e t)"
  unfolding ssh_send_rekex_def
  by (intro ends_rules ends_bind [where Q = "\<lambda>_. True"] tabled_bind [OF ssh_send_kex_table [OF assms(1)]])
     (use assms(2) in \<open>auto simp: ends_def\<close>)

lemma flush_queue_table:
  assumes "\<And>t. has_table T t \<Longrightarrow> tabled T (rekex t)"
  shows "has_table T t \<Longrightarrow> tabled T (flush_queue rekex e q t)"
proof (induction q arbitrary: t)
  case (Cons b q)
  show ?case
    using Cons.prems by (auto simp: assms packet_send2_table intro!: ends_rules Cons.IH)
qed simp

lemma packet_send_depth_table: "has_table T t \<Longrightarrow> tabled T (packet_send_depth n e t)"
proof (induction n arbitrary: t)
  case (Suc n)
  note rekex = ssh_send_rekex_table [where send = "packet_send_depth n e", OF Suc.IH]
  show ?case
    unfolding packet_send_depth.simps packet_send_body_def
    using Suc.prems by (auto simp: packet_send2_table intro!: ends_rules rekex flush_queue_table)
qed simp

lemma ssh_packet_send_tabled: "has_table T t \<Longrightarrow> tabled T (ssh_packet_send e t)"
  unfolding ssh_packet_send_def by (rule packet_send_depth_table)

lemma ssh_packet_send_channels:
  assumes "ssh_packet_send e s = Ret (rc, t)"
  shows "s_channels t = s_channels s"
  using endsD [OF ssh_packet_send_tabled [OF has_own_table [of s]] assms] by (simp add: has_table_def)

lemma packet_string_table: "packet_string h t = (x, u) \<Longrightarrow> has_table T u = has_table T t"
  by (auto simp: packet_string_def split: option.splits prod.splits)

lemma unpack_call_table: "unpack_call h t fmt = (rc, outs, u) \<Longrightarrow> has_table T u = has_table T t"
  by (auto simp: unpack_call_def split: option.splits prod.splits pack_result.splits)

lemma channel_from_msg_table: "channel_from_msg h t = (x, u) \<Longrightarrow> has_table T u = has_table T t"
  by (auto simp: channel_from_msg_def unpack_call_table split: prod.splits)

lemma channel_from_msg_keeps: "channel_from_msg h t = (x, u) \<Longrightarrow> keeps s u = keeps s t"
  by (auto simp: channel_from_msg_def unpack_call_keeps split: prod.splits)

lemma channel_from_msg_member:
  assumes "channel_from_msg h t = (Some (a, c), u)"
  shows "(a, c) \<in> set (s_channels u)"
proof -
  obtain n where "find (\<lambda>(a, c). ch_local_channel c = n) (s_channels u) = Some (a, c)"
    using assms by (auto simp: channel_from_msg_def ssh_channel_from_local_def split: prod.splits if_splits list.splits out.splits)
  then show ?thesis
    by (metis find_Some_iff nth_mem)
qed

subsection \<open>What every operation on channels keeps\<close>

lemma member_put:
  assumes "(a, c) \<in> set (s_channels s)"
  shows "(a, d) \<in> set (s_channels (put_channel a d s))"
  using assms by (force simp: put_channel_def)

lemma ends_with_channel:
  "(\<And>c. (a, c) \<in> set (s_channels s) \<Longrightarrow> ends P (f c)) \<Longrightarrow> ends P (with_channel a s f)"
  by (auto simp: with_channel_def channel_at_def dest: map_of_SomeD split: option.split)

text \<open>
  A predicate on sessions that sending, parsing, updates of a channel that leave its number and
  its unread data, and freeing keep is kept by the handlers and the calls of the user, save where
  data moves and where a channel is opened.
\<close>

definition alike :: "ssh_channel \<Rightarrow> ssh_channel \<Rightarrow> bool" where
  "alike c d \<longleftrightarrow> ch_local_channel d = ch_local_channel c \<and> ch_stdout d = ch_stdout c \<and> ch_stderr d = ch_stderr c"

lemma alike_refl [simp]: "alike c c"
  by (simp add: alike_def)

lemma alike_fields [simp]:
  "alike c (d\<lparr>ch_local_window := x0\<rparr>) = alike c d"
  "alike c (d\<lparr>ch_local_eof := x1\<rparr>) = alike c d"
  "alike c (d\<lparr>ch_remote_channel := x2\<rparr>) = alike c d"
  "alike c (d\<lparr>ch_remote_window := x3\<rparr>) = alike c d"
  "alike c (d\<lparr>ch_remote_eof := x4\<rparr>) = alike c d"
  "alike c (d\<lparr>ch_remote_maxpacket := x5\<rparr>) = alike c d"
  "alike c (d\<lparr>ch_state := x6\<rparr>) = alike c d"
  "alike c (d\<lparr>ch_delayed_close := x7\<rparr>) = alike c d"
  "alike c (d\<lparr>ch_flags := x8\<rparr>) = alike c d"
  "alike c (d\<lparr>ch_exit_status := x9\<rparr>) = alike c d"
  "alike c (d\<lparr>ch_request_state := x10\<rparr>) = alike c d"
  "alike c (d\<lparr>ch_counter := x11\<rparr>) = alike c d"
  by (simp_all add: alike_def)

locale channel_frame =
  fixes Q :: "ssh_session \<Rightarrow> bool" and e :: packet_env
  assumes send: "Q t \<Longrightarrow> ends (\<lambda>y. Q (snd y)) (ssh_packet_send e t)"
    and out: "Q t \<Longrightarrow> Q (t\<lparr>s_out_buffer := b\<rparr>)"
    and inb: "Q t \<Longrightarrow> Q (t\<lparr>s_in_buffer := ib\<rparr>)"
    and global: "Q t \<Longrightarrow> Q (t\<lparr>s_global_req_state := g\<rparr>)"
    and put: "Q t \<Longrightarrow> (a, c) \<in> set (s_channels t) \<Longrightarrow> alike c d \<Longrightarrow> Q (put_channel a d t)"
    and free: "Q t \<Longrightarrow> Q (ssh_channel_do_free a t)"
begin

abbreviation keptQ :: "('a \<times> ssh_session) run \<Rightarrow> bool" where
  "keptQ r \<equiv> ends (\<lambda>y. Q (snd y)) r"

lemma bindQ: "keptQ r \<Longrightarrow> (\<And>x t. Q t \<Longrightarrow> ends P (f (x, t))) \<Longrightarrow> ends P (run_bind r f)"
  by (cases r) (auto simp: ends_def)

lemma drop: "Q t \<Longrightarrow> Q (drop_output h t)"
  by (simp add: drop_output_def out)

lemma unpack: "unpack_call h t fmt = (rc, outs, u) \<Longrightarrow> Q t \<Longrightarrow> Q u \<and> s_channels u = s_channels t"
  by (auto simp: unpack_call_def inb split: option.splits prod.splits pack_result.splits)

lemma string: "packet_string h t = (x, u) \<Longrightarrow> Q t \<Longrightarrow> Q u \<and> s_channels u = s_channels t"
  by (auto simp: packet_string_def inb split: option.splits prod.splits)

lemma from_msg:
  assumes "channel_from_msg h t = (x, u)" and "Q t"
  shows "Q u" and "x = Some (a, c) \<Longrightarrow> (a, c) \<in> set (s_channels u)"
  using assms channel_from_msg_member by (auto simp: channel_from_msg_def dest: unpack split: prod.splits)

lemma put_at:
  "(a, c) \<in> set C \<Longrightarrow> Q t \<Longrightarrow> s_channels t = C \<Longrightarrow> alike c d \<Longrightarrow> Q (put_channel a d t)"
  using put by simp

lemmas put_in = put_at [OF _ _ refl]

text \<open>The start of most handlers: the channel a message is for.\<close>

lemma handle_message:
  assumes "Q t" and "\<And>u. Q u \<Longrightarrow> keptQ (f u)"
    and "\<And>a c u. Q u \<Longrightarrow> (a, c) \<in> set (s_channels u) \<Longrightarrow> keptQ (g a c u)"
  shows "keptQ (case channel_from_msg h t of (None, u) \<Rightarrow> f u | (Some (a, c), u) \<Rightarrow> g a c u)"
  using assms from_msg by (auto intro!: ends_rules)

lemma grow_window: "Q t \<Longrightarrow> keptQ (grow_window e t a m)"
  unfolding grow_window_def
  by (intro ends_with_channel ends_rules bindQ [OF send]) (auto intro: out put)

subsection \<open>Handlers\<close>

lemma change_window: "Q t \<Longrightarrow> keptQ (channel_rcv_change_window h t)"
proof -
  assume "Q t"
  obtain x u where u: "channel_from_msg h t = (x, u)"
    by (rule prod.exhaust)
  note u2 = from_msg [OF u \<open>Q t\<close>]
  then show ?thesis
    unfolding channel_rcv_change_window_def u
    by (auto dest!: unpack intro!: ends_rules put_at [of _ _ "s_channels u"] split: option.split list.split out.split)
qed

lemma open_conf: "Q t \<Longrightarrow> keptQ (ssh_packet_channel_open_conf h t)"
  unfolding ssh_packet_channel_open_conf_def
  by (intro handle_message ends_rules) (auto dest!: unpack elim: put_at)

lemma open_fail: "Q t \<Longrightarrow> keptQ (ssh_packet_channel_open_fail h t)"
  unfolding ssh_packet_channel_open_fail_def
  by (intro handle_message ends_rules) (auto dest!: unpack elim: put_at)

lemma rcv_eof: "Q t \<Longrightarrow> keptQ (channel_rcv_eof h t)"
  unfolding channel_rcv_eof_def by (intro handle_message) (auto elim: put_at)

lemma rcv_close: "Q t \<Longrightarrow> keptQ (channel_rcv_close h t)"
  unfolding channel_rcv_close_def
  by (intro handle_message ends_rules) (auto simp: Let_def elim: put_at intro!: free)

lemma answered:
  assumes "Q t"
  shows "keptQ (ssh_packet_channel_success h t)" and "keptQ (ssh_packet_channel_failure h t)"
  unfolding ssh_packet_channel_success_def ssh_packet_channel_failure_def
  by (intro handle_message assms; auto elim: put_at)+

lemma answered_globally:
  assumes "Q t"
  shows "keptQ (ssh_request_success t)" and "keptQ (ssh_request_denied t)"
  unfolding ssh_request_success_def ssh_request_denied_def using assms by (auto intro!: global)

lemma rcv_request: "Q t \<Longrightarrow> keptQ (channel_rcv_request e t)"
  unfolding channel_rcv_request_def Let_def
  by (intro handle_message ends_rules)
     (auto dest!: unpack intro!: put_at ends_rules bindQ [OF send] out split: list.split out.split option.split)

text \<open>The handlers of the table but those of data.\<close>

lemma other_handlers:
  assumes "channel_handler fs e (\<lambda>_. None) n = Some f" and "n \<noteq> 94" and "n \<noteq> 95" and "Q t"
  shows "keptQ (f t)"
  using assms
  by (auto simp: channel_handler_def change_window open_conf open_fail rcv_eof rcv_close answered answered_globally
      rcv_request split: if_splits)

subsection \<open>Calls of the user\<close>

text \<open>The call waits for a condition by handling what arrives, which keeps the predicate too.\<close>

lemma blocking_flush:
  "(\<And>P u. Q u \<Longrightarrow> keptQ (wait P u)) \<Longrightarrow> Q t \<Longrightarrow> keptQ (ssh_channel_flush wait t)"
  unfolding ssh_channel_flush_def ssh_blocking_flush_def by (intro bindQ [where r = "wait P t" for P]) auto

lemma send_eof:
  assumes wait: "\<And>P u. Q u \<Longrightarrow> keptQ (wait P u)" and "Q t"
  shows "keptQ (ssh_channel_send_eof wait e a t)"
  unfolding ssh_channel_send_eof_def Let_def
  by (intro ends_with_channel ends_rules bindQ [OF send] bindQ [OF blocking_flush [OF wait]])
     (auto intro: assms out drop put)

lemma close:
  assumes wait: "\<And>P u. Q u \<Longrightarrow> keptQ (wait P u)" and "Q t"
  shows "keptQ (ssh_channel_close wait e a t)"
  unfolding ssh_channel_close_def Let_def
  by (intro ends_with_channel ends_rules bindQ [OF send] bindQ [OF send_eof [OF wait]] bindQ [OF blocking_flush [OF wait]])
     (auto intro: assms out drop put)

lemma channel_free:
  assumes wait: "\<And>P u. Q u \<Longrightarrow> keptQ (wait P u)" and "Q t"
  shows "ends Q (ssh_channel_free wait e a t)"
  unfolding ssh_channel_free_def Let_def
  by (intro ends_with_channel bindQ [where r = "if b then ssh_channel_close wait e a t else Ret (SSH_OK, t)" for b])
     (auto intro!: close assms put_in free ends_with_channel)

lemma request_pending:
  assumes wait: "\<And>P u. Q u \<Longrightarrow> keptQ (wait P u)" and "Q t"
  shows "keptQ (request_pending wait a t)"
  unfolding request_pending_def Let_def
  using \<open>Q t\<close>
  by (intro bindQ [OF wait] ends_with_channel)
     (auto intro!: put_in ends_with_channel split: ssh_channel_request_state.split)

lemma request:
  assumes wait: "\<And>P u. Q u \<Longrightarrow> keptQ (wait P u)" and "Q t"
  shows "keptQ (channel_request wait e a r b reply t)"
  unfolding channel_request_def Let_def
  by (intro ends_with_channel ends_rules bindQ [OF send] request_pending [OF wait])
     (auto intro!: assms out drop put_in ends_with_channel)

lemma request_with:
  assumes wait: "\<And>P u. Q u \<Longrightarrow> keptQ (wait P u)" and "Q t"
  shows "keptQ (request_with wait e a r fs reply t)"
  unfolding request_with_def
  by (intro ends_with_channel ends_rules request [OF wait]) (auto intro: assms)

lemma global_request:
  assumes wait: "\<And>P u. Q u \<Longrightarrow> keptQ (wait P u)" and "Q t"
  shows "keptQ (ssh_global_request wait e r b reply t)"
proof -
  have pending: "keptQ (global_pending wait u)" if "Q u" for u
    unfolding global_pending_def Let_def
    by (intro bindQ [OF wait]) (auto intro: that global split: ssh_channel_request_state.split)
  show ?thesis
    unfolding ssh_global_request_def Let_def
    by (intro ends_rules bindQ [OF send] pending) (auto intro: assms out drop global)
qed

lemma write_loop:
  assumes wait: "\<And>P u. Q u \<Longrightarrow> keptQ (wait P u)" and "Q t"
  shows "ends (\<lambda>(x, d, u). Q u) (write_loop n wait e a err m data t)"
  using \<open>Q t\<close>
proof (induction n arbitrary: data t)
  case (Suc n)
  show ?case
    unfolding write_loop.simps Let_def
    by (intro ends_with_channel ends_rules bindQ [OF send] bindQ [OF wait])
       (auto intro!: Suc out put_in ends_with_channel simp: count_write_def)
qed simp

lemma write_common:
  assumes wait: "\<And>P u. Q u \<Longrightarrow> keptQ (wait P u)" and "Q t"
  shows "keptQ (channel_write_common n wait e a data err t)"
  unfolding channel_write_common_def
  by (intro ends_with_channel ends_rules bindQ ends_bind [OF write_loop [OF wait]])
     (auto intro!: assms drop bindQ [OF blocking_flush [OF wait]] split: write_end.split)

end

subsection \<open>Where data moves\<close>

lemma data_callbacks_number [simp]: "ch_local_channel (data_callbacks fs b c) = ch_local_channel c"
  by (induction fs b c rule: data_callbacks.induct)
     (auto simp: put_buffer_def count_read_def Let_def split: option.splits)

lemma bufferize_number:
  "channel_default_bufferize h c d n b = (rc, c') \<Longrightarrow> ch_local_channel c' = ch_local_channel c"
  by (auto simp: channel_default_bufferize_def put_buffer_def split: option.splits prod.splits if_splits)

lemma consume_window_number [simp]: "ch_local_channel (consume_window n c) = ch_local_channel c"
  by (simp add: consume_window_def)

lemma take_unread_number: "take_unread err count c = (d, c') \<Longrightarrow> ch_local_channel c' = ch_local_channel c"
  by (auto simp: take_unread_def put_buffer_def count_read_def Let_def split: option.splits)

text \<open>Predicates that do not look at the unread data either are kept by all of them.\<close>

locale channel_data_frame = channel_frame +
  assumes put_data: "Q t \<Longrightarrow> (a, c) \<in> set (s_channels t) \<Longrightarrow> ch_local_channel d = ch_local_channel c \<Longrightarrow> Q (put_channel a d t)"
begin

lemma put_data_at:
  "(a, c) \<in> set C \<Longrightarrow> Q t \<Longrightarrow> s_channels t = C \<Longrightarrow> ch_local_channel d = ch_local_channel c \<Longrightarrow> Q (put_channel a d t)"
  using put_data by simp

lemma data_read:
  assumes "packet_string h (if b then t\<lparr>s_in_buffer := ib\<rparr> else t) = (x, u)" and "Q t"
  shows "Q u" and "s_channels u = s_channels t"
  using string [OF assms(1)] assms(2) inb by (auto split: if_splits)

lemma rcv_data: "Q t \<Longrightarrow> keptQ (channel_rcv_data fs e n t)"
  unfolding channel_rcv_data_def Let_def
  by (intro handle_message ends_rules)
     (auto dest: data_read simp: bufferize_number simp del: if_split intro!: ends_rules bindQ [OF grow_window] put_data_at)

text \<open>All of them, as the table of handlers has them.\<close>

lemma channel_handlers:
  assumes "channel_handler fs e (\<lambda>_. None) n = Some f" and "Q t"
  shows "keptQ (f t)"
  using assms other_handlers [OF assms(1)] rcv_data by (cases "n = 94 \<or> n = 95") (auto simp: channel_handler_def)

lemma read_timeout:
  assumes wait: "\<And>P u. Q u \<Longrightarrow> keptQ (wait P u)" and "Q t"
  shows "ends (\<lambda>(x, d, u). Q u) (ssh_channel_read_timeout wait e a count err t)"
proof -
  have number: "take_unread err count c = (d, c') \<Longrightarrow> ch_local_channel c' = ch_local_channel c" for c d c'
    by (auto simp: take_unread_def put_buffer_def count_read_def Let_def split: option.splits)
  show ?thesis
    unfolding ssh_channel_read_timeout_def Let_def
    by (intro ends_with_channel ends_rules bindQ bindQ [OF wait])
       (auto intro!: assms grow_window put_data_at [OF _ _ refl] dest: number)
qed

text \<open>Opening gives the channel the next number.\<close>

lemma opened:
  assumes wait: "\<And>P u. Q u \<Longrightarrow> keptQ (wait P u)" and "Q t"
    and new: "\<And>c. (a, c) \<in> set (s_channels t) \<Longrightarrow> Q (put_channel a
      (c\<lparr>ch_local_channel := s_maxchannel t + 1, ch_local_maxpacket := maxpacket, ch_local_window := window\<rparr>)
      (t\<lparr>s_maxchannel := s_maxchannel t + 1\<rparr>))"
  shows "keptQ (channel_open wait e a type window maxpacket payload t)"
proof -
  have ending: "keptQ (open_end a err u)" if "Q u" for err u
    unfolding open_end_def by (intro ends_with_channel) (simp add: that)
  have pending: "keptQ (open_pending wait a u)" if "Q u" for u
    unfolding open_pending_def using that by (intro bindQ [OF wait]) (auto intro!: ending)
  show ?thesis
    unfolding channel_open_def ssh_channel_new_id_def Let_def
    by (intro ends_with_channel)
       (auto intro!: ends_rules bindQ [OF send] pending ending \<open>Q t\<close> out put_data_at [OF _ _ refl] member_put new
         split: ssh_channel_state.split)
qed

end

subsection \<open>The channels a client has\<close>

text \<open>
  Channels have addresses and, once they are opened, numbers of their own; 0 is no number yet.
\<close>

definition numbers :: "ssh_session \<Rightarrow> (nat \<times> u32) set" where
  "numbers s = (\<lambda>(a, c). (a, ch_local_channel c)) ` set (s_channels s)"

definition channels_wf :: "ssh_session \<Rightarrow> bool" where
  "channels_wf s \<longleftrightarrow> distinct (map fst (s_channels s)) \<and> (\<forall>(a, n) \<in> numbers s. n \<le> s_maxchannel s) \<and>
     (\<forall>(a, n) \<in> numbers s. \<forall>(b, m) \<in> numbers s. n = m \<and> n \<noteq> 0 \<longrightarrow> a = b)"

lemma channels_wf_fields [simp]:
  "channels_wf (t\<lparr>s_out_buffer := b\<rparr>) = channels_wf t"
  "channels_wf (t\<lparr>s_in_buffer := ib\<rparr>) = channels_wf t"
  "channels_wf (t\<lparr>s_global_req_state := g\<rparr>) = channels_wf t"
  by (simp_all add: channels_wf_def numbers_def)

lemma fst_put: "map fst (s_channels (put_channel a d t)) = map fst (s_channels t)"
  by (auto simp: put_channel_def)

lemma numbers_put:
  assumes "(a, c) \<in> set (s_channels t)" and "ch_local_channel d = ch_local_channel c"
  shows "numbers (put_channel a d t) \<subseteq> numbers t"
proof -
  have "(a, ch_local_channel d) \<in> numbers t"
    using assms by (force simp: numbers_def)
  then show ?thesis
    by (auto simp: numbers_def put_channel_def image_image)
qed

lemma channels_wfD:
  assumes "channels_wf s"
  shows "distinct (map fst (s_channels s))" and "(a, n) \<in> numbers s \<Longrightarrow> n \<le> s_maxchannel s"
    and "(a, n) \<in> numbers s \<Longrightarrow> (b, n) \<in> numbers s \<Longrightarrow> n \<noteq> 0 \<Longrightarrow> a = b"
  using assms by (auto simp: channels_wf_def)

lemma channels_wf_mono:
  assumes "channels_wf s" and "distinct (map fst (s_channels t))" and "numbers t \<subseteq> numbers s"
    and "s_maxchannel t = s_maxchannel s"
  shows "channels_wf t"
proof -
  have "n \<le> s_maxchannel t" if "(a, n) \<in> numbers t" for a n
    using that assms(3,4) channels_wfD(2) [OF assms(1)] by auto
  moreover have "a = b" if "(a, n) \<in> numbers t" "(b, n) \<in> numbers t" "n \<noteq> 0" for a b n
    using that assms(3) channels_wfD(3) [OF assms(1)] by blast
  ultimately show ?thesis
    using assms(2) by (auto simp: channels_wf_def)
qed

lemma put_wf:
  assumes "channels_wf t" and "(a, c) \<in> set (s_channels t)" and "ch_local_channel d = ch_local_channel c"
  shows "channels_wf (put_channel a d t)"
proof (rule channels_wf_mono [OF assms(1)])
  show "distinct (map fst (s_channels (put_channel a d t)))"
    unfolding fst_put by (rule channels_wfD [OF assms(1)])
  show "s_maxchannel (put_channel a d t) = s_maxchannel t"
    by (simp add: put_channel_def)
qed (rule numbers_put [OF assms(2,3)])

lemma free_wf: "channels_wf t \<Longrightarrow> channels_wf (ssh_channel_do_free a t)"
  by (rule channels_wf_mono [of t]) (auto simp: channels_wf_def ssh_channel_do_free_def numbers_def intro: distinct_map_filter)

interpretation wf: channel_data_frame channels_wf e for e
proof (unfold_locales, goal_cases)
  case (1 t)
  then show ?case
    using ssh_packet_send_tabled [OF has_own_table [of t], of e]
    by (auto simp: ends_def has_table_def channels_wf_def numbers_def)
qed (simp_all add: put_wf free_wf alike_def)

text \<open>The login is kept as well, so the handlers are ones \<open>client_run\<close> may have.\<close>

lemma keeps_channel_fields [simp]:
  "keeps s (put_channel a c t) = keeps s t" "keeps s (ssh_channel_do_free a t) = keeps s t"
  by (simp_all add: put_channel_def ssh_channel_do_free_def)

interpretation login: channel_data_frame "keeps s" e for s e
  by unfold_locales (simp_all add: ssh_packet_send_kept)

lemma channel_handlers_keep_login: "keeps_login (channel_handler fs e (\<lambda>_. None))"
  by (auto simp: keeps_login_def intro: login.channel_handlers)

subsection \<open>Making and opening channels\<close>

lemma fresh_address: "a \<in> set as \<Longrightarrow> a < Suc (fold max as (0 :: nat))"
proof -
  have "n \<le> fold max as n \<and> (\<forall>a \<in> set as. a \<le> fold max as n)" for n :: nat
  proof (induction as arbitrary: n)
    case (Cons a as)
    from Cons [of "max a n"] show ?case
      by auto
  qed simp
  then show "a \<in> set as \<Longrightarrow> a < Suc (fold max as (0 :: nat))"
    by (auto simp: less_Suc_eq_le)
qed

lemma new_wf:
  assumes "ssh_channel_new h s = (r, t)" and "channels_wf s"
  shows "channels_wf t"
proof -
  let ?a = "Suc (fold max (map fst (s_channels s)) 0)"
  have fresh: "?a \<notin> fst ` set (s_channels s)"
    using fresh_address [of _ "map fst (s_channels s)"] by fastforce
  have "t = s \<or> (\<exists>b d. t = s\<lparr>s_channels := (?a, calloc_channel b d) # s_channels s\<rparr>)"
    using assms(1) by (auto simp: ssh_channel_new_def Let_def split: if_splits option.splits)
  then have "t = s \<or> numbers t = insert (?a, 0) (numbers s) \<and> s_maxchannel t = s_maxchannel s \<and> distinct (map fst (s_channels t))"
    using fresh channels_wfD(1) [OF assms(2)] by (auto simp: numbers_def calloc_channel_def)
  then show ?thesis
    using assms(2) channels_wfD [OF assms(2)] by (auto simp: channels_wf_def)
qed

lemma numbers_opened:
  "numbers (put_channel a (c\<lparr>ch_local_channel := n, ch_local_maxpacket := m, ch_local_window := w\<rparr>) (t\<lparr>s_maxchannel := k\<rparr>))
     \<subseteq> insert (a, n) {x \<in> numbers t. fst x \<noteq> a}"
  by (force simp: numbers_def put_channel_def)

lemma opened_wf:
  assumes "channels_wf t" and "s_maxchannel t \<noteq> - 1"
  shows "channels_wf (put_channel a (c\<lparr>ch_local_channel := s_maxchannel t + 1, ch_local_maxpacket := m, ch_local_window := w\<rparr>)
    (t\<lparr>s_maxchannel := s_maxchannel t + 1\<rparr>))" (is "channels_wf ?u")
proof -
  note wf = channels_wfD [OF assms(1)]
  have more: "n < s_maxchannel t + 1 \<longleftrightarrow> n \<le> s_maxchannel t" for n
    using assms(2) unatSuc [of "s_maxchannel t"] by (auto simp: word_less_nat_alt word_le_nat_alt add.commute eq_neg_iff_add_eq_0)
  have none: "(b, s_maxchannel t + 1) \<notin> numbers t" for b
    using wf(2) more by fastforce
  have max: "s_maxchannel ?u = s_maxchannel t + 1"
    by (simp add: put_channel_def)
  have "n \<le> s_maxchannel ?u" if "(b, n) \<in> numbers ?u" for b n
    using subsetD [OF numbers_opened that] wf(2) more by (auto simp: max intro: less_imp_le)
  moreover have "b = d" if "(b, n) \<in> numbers ?u" "(d, n) \<in> numbers ?u" "n \<noteq> 0" for b d n
    using subsetD [OF numbers_opened that(1)] subsetD [OF numbers_opened that(2)] that(3) wf(3) none by auto
  moreover have "distinct (map fst (s_channels ?u))"
    unfolding fst_put using wf(1) by simp
  ultimately show ?thesis
    by (auto simp: channels_wf_def)
qed

text \<open>What may happen to the channels of a client: messages, and the calls of the user.\<close>

inductive channel_step :: "event_loop \<Rightarrow> packet_env \<Rightarrow> ssh_session \<Rightarrow> ssh_session \<Rightarrow> bool" for wait e where
  handled: "channel_handler fs e (\<lambda>_. None) n = Some f \<Longrightarrow> f s = Ret (u, t) \<Longrightarrow> channel_step wait e s t"
| made: "ssh_channel_new h s = (r, t) \<Longrightarrow> channel_step wait e s t"
| opened: "s_maxchannel s \<noteq> - 1 \<Longrightarrow> channel_open wait e a type w m payload s = Ret (rc, t) \<Longrightarrow> channel_step wait e s t"
| written: "channel_write_common n wait e a data err s = Ret (rc, t) \<Longrightarrow> channel_step wait e s t"
| was_read: "ssh_channel_read_timeout wait e a count err s = Ret (rc, data, t) \<Longrightarrow> channel_step wait e s t"
| requested: "channel_request wait e a r b reply s = Ret (rc, t) \<Longrightarrow> channel_step wait e s t"
| requested_globally: "ssh_global_request wait e r b reply s = Ret (rc, t) \<Longrightarrow> channel_step wait e s t"
| ended: "ssh_channel_send_eof wait e a s = Ret (rc, t) \<Longrightarrow> channel_step wait e s t"
| closed: "ssh_channel_close wait e a s = Ret (rc, t) \<Longrightarrow> channel_step wait e s t"
| freed: "ssh_channel_free wait e a s = Ret t \<Longrightarrow> channel_step wait e s t"

lemma channel_step_wf:
  assumes step: "channel_step wait e s t" and wait: "\<And>P u. channels_wf u \<Longrightarrow> ends (\<lambda>y. channels_wf (snd y)) (wait P u)"
    and wf: "channels_wf s"
  shows "channels_wf t"
  using step
proof cases
  case handled
  then show ?thesis
    using endsD [OF wf.channel_handlers [OF handled(1) wf]] by simp
next
  case opened
  then show ?thesis
    using endsD [OF wf.opened [OF wait wf opened_wf [OF wf opened(1)]] opened(2)] by simp
next
  case was_read
  then show ?thesis
    using endsD [OF wf.read_timeout [OF wait wf] was_read] by simp
next
  case made
  then show ?thesis
    using new_wf wf by blast
next
  case written
  then show ?thesis
    using endsD [OF wf.write_common [OF wait wf] written] by simp
next
  case requested
  then show ?thesis
    using endsD [OF wf.request [OF wait wf] requested] by simp
next
  case requested_globally
  then show ?thesis
    using endsD [OF wf.global_request [OF wait wf] requested_globally] by simp
next
  case ended
  then show ?thesis
    using endsD [OF wf.send_eof [OF wait wf] ended] by simp
next
  case closed
  then show ?thesis
    using endsD [OF wf.close [OF wait wf] closed] by simp
next
  case freed
  then show ?thesis
    using endsD [OF wf.channel_free [OF wait wf] freed] by simp
qed

lemma from_local_unique:
  assumes "channels_wf s" and "n \<noteq> 0" and "(b, d) \<in> set (s_channels s)" and "ch_local_channel d = n"
  shows "ssh_channel_from_local s n = Some (b, d)"
proof -
  obtain a c where found: "ssh_channel_from_local s n = Some (a, c)"
    using assms(3,4) by (cases "ssh_channel_from_local s n") (auto simp: ssh_channel_from_local_def find_None_iff)
  then have ac: "(a, c) \<in> set (s_channels s)" "ch_local_channel c = n"
    by (auto simp: ssh_channel_from_local_def find_Some_iff in_set_conv_nth)
  have "(a, n) \<in> numbers s" and "(b, n) \<in> numbers s"
    using ac assms(3,4) by (force simp: numbers_def)+
  then have "a = b"
    using channels_wfD(3) [OF assms(1)] assms(2) by blast
  with found ac(1) assms(3) channels_wfD(1) [OF assms(1)] show ?thesis
    by (metis eq_key_imp_eq_value)
qed

subsection \<open>Properties\<close>

text \<open>A client whose socket is never readable, and whose session exchanges keys again.\<close>

definition quiet_env :: packet_env where
  "quiet_env = \<lparr>pe_heap = roomy_heap,
     pe_ops = \<lparr>co_encrypt = (\<lambda>_ bs. bs), co_decrypt = (\<lambda>_ _ bs. bs), co_hmac_init = True,
       co_mac = (\<lambda>_ _. []), co_aead_encrypt = None, co_aead_decrypt_length = None, co_aead_decrypt = None\<rparr>,
     pe_kex = sample_kex, pe_now = time_zero, pe_random = (\<lambda>_. None), pe_deflate = (\<lambda>_ _. []), pe_inflate = (\<lambda>_ _. []),
     pe_write = (\<lambda>_. SSH_OK), pe_fips = False, pe_known_hosts = None, pe_server_set_kex = (\<lambda>c. (SSH_OK, c))\<rparr>"

definition idle_loop :: event_loop where
  "idle_loop P s = Ret (SSH_AGAIN, s)"

text \<open>
  C11. However messages and calls of the user follow each other, every channel that was opened
  keeps a number of its own, as long as fewer than \<open>2 ^ 32\<close> were opened: a message that carries
  the number reaches that channel and no other. Freeing, closing, requests, writing and reading,
  and the messages of the server, whatever they hold, never break this. The event loop may do
  anything that keeps it.
\<close>

theorem channels_have_own_numbers:
  assumes "(channel_step wait e)\<^sup>*\<^sup>* s t" and "channels_wf s"
    and "\<forall>P u. channels_wf u \<longrightarrow> ends (\<lambda>y. channels_wf (snd y)) (wait P u)"
  shows "channels_wf t \<and> (\<forall>(a, c) \<in> set (s_channels t). ch_local_channel c \<noteq> 0 \<longrightarrow>
    ssh_channel_from_local t (ch_local_channel c) = Some (a, c))"
proof -
  have "channels_wf t"
    using assms(1,2) by (induction rule: rtranclp_induct) (auto intro: channel_step_wf assms(3) [rule_format])
  then show ?thesis
    using from_local_unique by blast
qed

theorem channels_have_own_numbers_witness:
  "\<exists>t c. (channel_step idle_loop quiet_env)\<^sup>*\<^sup>* rekey_session t \<and> map fst (s_channels t) = [2, 1] \<and>
     s_channels t ! 1 = (1, c) \<and> ch_state c = SSH_CHANNEL_STATE_OPENING \<and> ssh_channel_from_local t 1 = Some (1, c)"
proof -
  let ?made = "snd (ssh_channel_new roomy_heap (snd (ssh_channel_new roomy_heap rekey_session)))"
  let ?opened = "\<lambda>r. case r of Ret (rc, t) \<Rightarrow> Some (t :: ssh_session) | Overflow \<Rightarrow> None"
  have "(case ?opened (ssh_channel_open_session idle_loop quiet_env 1 ?made) of None \<Rightarrow> False | Some t \<Rightarrow>
      map fst (s_channels t) = [2, 1] \<and> ch_local_channel (snd (s_channels t ! 1)) = 1 \<and>
      ch_state (snd (s_channels t ! 1)) = SSH_CHANNEL_STATE_OPENING)" and max: "s_maxchannel ?made \<noteq> - 1"
    by code_simp+
  then obtain rc t where t: "ssh_channel_open_session idle_loop quiet_env 1 ?made = Ret (rc, t)"
    "map fst (s_channels t) = [2, 1]" "ch_local_channel (snd (s_channels t ! 1)) = 1"
    "ch_state (snd (s_channels t ! 1)) = SSH_CHANNEL_STATE_OPENING"
    by (auto split: option.splits run.splits prod.splits)
  obtain c1 c where channels: "s_channels t = [(2, c1), (1, c)]"
    using t(2) by (cases "s_channels t") auto
  have "(channel_step idle_loop quiet_env)\<^sup>*\<^sup>* rekey_session ?made"
    using made [OF prod.collapse [symmetric]] by (meson converse_rtranclp_into_rtranclp r_into_rtranclp)
  with opened [OF max t(1) [unfolded ssh_channel_open_session_def]]
  have steps: "(channel_step idle_loop quiet_env)\<^sup>*\<^sup>* rekey_session t"
    by (rule rtranclp.rtrancl_into_rtrancl [rotated])
  have "channels_wf rekey_session"
    by (simp add: channels_wf_def numbers_def rekey_session_def sample_session_def)
  with channels_have_own_numbers [OF steps] have "ssh_channel_from_local t 1 = Some (1, c)"
    using t(3) by (auto simp: channels idle_loop_def)
  with steps t channels show ?thesis
    by auto
qed

end
