(* ===== verification/Channel_Flow.thy ===== *)
theory Channel_Flow
  imports Channel_Table
begin

text \<open>
  The flow of data through a channel: what writing hands over and when it comes to an end, the
  windows of the two sides, and the stream of bytes from the messages to the reader.
\<close>

subsection \<open>One message of data\<close>

definition data_message :: "bool \<Rightarrow> u32 \<Rightarrow> bytes \<Rightarrow> bytes" where
  "data_message err n d =
     (if err then 95 else 94) # be_bytes n @ (if err then be_bytes (1 :: u32) else []) @
     be_bytes (of_nat (length d) :: u32) @ d"

lemma pack_data_message:
  assumes "pack_data h err n d b = (SSH_OK, b')" and "buffer_inv b" and "length d < 4294967296"
  shows "buffer_inv b'" and "buf_content b' = buf_content b @ data_message err n d"
proof -
  let ?f1 = "[FByte (if err then 95 else 94), FDword n]" and ?f2 = "[FDword (1 :: u32)]"
    and ?f3 = "[FDword (of_nat (length d)), FBytes d]"
  obtain b1 where b1: "pack_call h b ?f1 = (0, b1)"
    using assms(1) by (auto simp: pack_data_def split: prod.splits if_splits)
  have a1: "appends b (wire_of nat_bignum ?f1) (0, b1)"
    using pack_call_appends [of b ?f1 h] assms(2) b1 by simp
  obtain b2 where b2: "(if err then pack_call h b1 ?f2 else (SSH_OK, b1)) = (0, b2)"
    using assms(1) b1 by (auto simp: pack_data_def split: prod.splits if_splits)
  have a2: "appends b1 (if err then be_bytes (1 :: u32) else []) (0, b2)"
  proof (cases err)
    case True
    then show ?thesis
      using pack_call_appends [of b1 ?f2 h] appends_pair(1) [OF a1] b2 by (simp add: wire_of_def)
  next
    case False
    then show ?thesis
      using b2 appends_pair(1) [OF a1] by (simp add: appends_def)
  qed
  have b3: "pack_call h b2 ?f3 = (0, b')"
    using assms(1) b1 b2 by (simp add: pack_data_def)
  have "appends b2 (wire_of nat_bignum ?f3) (0, b')"
    using pack_call_appends [of b2 ?f3 h] appends_pair(1) [OF a2] assms(3) b3 by simp
  then have "appends b (data_message err n d) (0, b')"
    using appends_trans [OF appends_trans [OF a1 a2]] by (simp add: data_message_def wire_of_def)
  then show "buffer_inv b'" and "buf_content b' = buf_content b @ data_message err n d"
    by (auto dest: appends_pair)
qed

subsection \<open>Writing\<close>

text \<open>
  A run of the loop of \<^verbatim>\<open>channel_write_common\<close>: it waits for the window, or hands over one message of
  at most the window and at most \<open>M\<close> bytes, and the window shrinks by as much.
\<close>

inductive handed_over ::
  "event_loop \<Rightarrow> packet_env \<Rightarrow> nat \<Rightarrow> bool \<Rightarrow> nat \<Rightarrow> ssh_session \<Rightarrow> bytes list \<Rightarrow> ssh_session \<Rightarrow> bool"
  for wait e a err M where
  nothing: "handed_over wait e a err M s [] s"
| waited: "wait (ssh_channel_waitwindow_termination a) s = Ret (rc, s1) \<Longrightarrow> handed_over wait e a err M s1 ds t \<Longrightarrow>
    handed_over wait e a err M s ds t"
| message: "channel_at a s = Some c \<Longrightarrow> d \<noteq> [] \<Longrightarrow> length d \<le> unat (ch_remote_window c) \<Longrightarrow> length d \<le> M \<Longrightarrow>
    (buffer_inv (s_out_buffer s) \<Longrightarrow> buf_content b = buf_content (s_out_buffer s) @ data_message err (ch_remote_channel c) d) \<Longrightarrow>
    ssh_packet_send e (s\<lparr>s_out_buffer := b\<rparr>) = Ret (rc, s1) \<Longrightarrow> rc \<noteq> SSH_ERROR \<Longrightarrow>
    handed_over wait e a err M (put_channel a (count_write (length d) c) s1) ds t \<Longrightarrow>
    handed_over wait e a err M s (d # ds) t"

lemma effective_len_bounds:
  assumes "0 < len" and "0 < M" and "len \<le> unat (ch_remote_window c) \<or> ch_remote_window c \<noteq> 0"
  shows "0 < effective_len c M len" and "effective_len c M len \<le> len"
    and "effective_len c M len \<le> unat (ch_remote_window c)" and "effective_len c M len \<le> M"
  using assms by (auto simp: effective_len_def unat_gt_0)

lemma channel_at_send:
  "ssh_packet_send e (s\<lparr>s_out_buffer := b\<rparr>) = Ret (rc, t) \<Longrightarrow> channel_at a t = channel_at a s"
  by (simp add: channel_at_def ssh_packet_send_channels)

lemma channel_at_put: "channel_at b (put_channel a c s) = (if b = a then map_option (\<lambda>_. c) (channel_at a s) else channel_at b s)"
proof -
  have "map_of (map (\<lambda>(x, d). (x, if x = a then c else d)) cs) b =
      (if b = a then map_option (\<lambda>_. c) (map_of cs a) else map_of cs b)" for cs
    by (induction cs) auto
  then show ?thesis
    by (simp add: channel_at_def put_channel_def)
qed

lemma with_channel_Ret: "with_channel a s f = Ret y \<longleftrightarrow> (\<exists>c. channel_at a s = Some c \<and> f c = Ret y)"
  by (auto simp: with_channel_def split: option.splits)

text \<open>The two kinds of turns, and the end.\<close>

lemma write_loop_done: "write_loop (Suc n) wait e a err M [] s = Ret (AllWritten, [], s)"
  by simp

lemma write_loop_blocked:
  assumes "d \<noteq> []" and "channel_at a s = Some c" and "ch_remote_window c = 0"
  shows "write_loop (Suc n) wait e a err M d s =
     run_bind (wait (ssh_channel_waitwindow_termination a) s) (\<lambda>(rc, s1).
       with_channel a s1 (\<lambda>c1.
         if rc = SSH_ERROR \<or> \<not> ssh_channel_waitwindow_termination a s1 \<or>
            s_session_state s1 = SSH_SESSION_STATE_ERROR \<or> ch_state c1 = SSH_CHANNEL_STATE_CLOSED
         then Ret (GoOut, d, s1)
         else write_loop n wait e a err M d s1))"
  using assms by (simp add: with_channel_def)

lemma write_loop_turn:
  assumes "d \<noteq> []" and "channel_at a s = Some c" and "length d \<le> unat (ch_remote_window c) \<or> ch_remote_window c \<noteq> 0"
  shows "write_loop (Suc n) wait e a err M d s =
     (let k = effective_len c M (length d) in
      case pack_data (pe_heap e) err (ch_remote_channel c) (take k d) (s_out_buffer s) of
        (rc, b) \<Rightarrow>
          if rc \<noteq> SSH_OK then Ret (GoError, d, s\<lparr>s_out_buffer := b\<rparr>)
          else run_bind (ssh_packet_send e (s\<lparr>s_out_buffer := b\<rparr>)) (\<lambda>(rc2, s2).
            if rc2 = SSH_ERROR then Ret (ReturnError, d, s2)
            else write_loop n wait e a err M (drop k d) (put_channel a (count_write k c) s2)))"
proof -
  let ?k = "effective_len c M (length d)"
  obtain rc b where b: "pack_data (pe_heap e) err (ch_remote_channel c) (take ?k d) (s_out_buffer s) = (rc, b)"
    by (rule prod.exhaust)
  have open_window: "\<not> (unat (ch_remote_window c) < length d \<and> ch_remote_window c = 0)"
    using assms(3) by auto
  have "with_channel a s f = f c" for f :: "ssh_channel \<Rightarrow> (write_end \<times> bytes \<times> ssh_session) run"
    using assms(2) by (simp add: with_channel_def)
  with assms(1) b show ?thesis
    using assms(2) channel_at_send [where e = e and s = s and b = b]
    by (cases "ssh_packet_send e (s\<lparr>s_out_buffer := b\<rparr>)")
       (auto simp: if_not_P [OF open_window] Let_def with_channel_def)
qed

declare write_loop.simps(2) [simp del]
declare write_loop_done [simp]

lemma write_loop_hands_over:
  assumes "write_loop n wait e a err M d s = Ret (x, rest, t)" and "0 < M" and "length d < 4294967296"
  shows "\<exists>ds u. handed_over wait e a err M s ds u \<and> concat ds @ rest = d \<and>
    (x = AllWritten \<longrightarrow> rest = [] \<and> t = u) \<and> (x = GoOut \<longrightarrow> t = u)"
  using assms
proof (induction n arbitrary: d s)
  case (Suc n)
  consider "d = []" | c where "d \<noteq> []" "channel_at a s = Some c"
    using Suc.prems(1) by (cases "d = []") (auto simp: with_channel_Ret write_loop.simps(2))
  then show ?case
  proof cases
    case 1
    with Suc.prems(1) show ?thesis
      by (auto intro: handed_over.nothing intro!: exI [of _ "[]"])
  next
    case 2
    show ?thesis
    proof (cases "ch_remote_window c = 0")
      case True
      from Suc.prems(1) [unfolded write_loop_blocked [OF 2 True]]
      obtain rc s1 where s1: "wait (ssh_channel_waitwindow_termination a) s = Ret (rc, s1)"
        and rest: "x = GoOut \<and> rest = d \<and> t = s1 \<or> write_loop n wait e a err M d s1 = Ret (x, rest, t)"
        by (auto simp: with_channel_Ret run_bind_Ret split: if_splits)
      from rest show ?thesis
      proof
        assume "x = GoOut \<and> rest = d \<and> t = s1"
        moreover have "handed_over wait e a err M s [] s1"
          by (rule waited [where wait = wait and a = a, OF s1 handed_over.nothing])
        ultimately show ?thesis
          by (intro exI [of _ "[]"] exI [of _ s1]) auto
      next
        assume "write_loop n wait e a err M d s1 = Ret (x, rest, t)"
        from Suc.IH [OF this Suc.prems(2,3)] waited [where wait = wait and a = a, OF s1] show ?thesis
          by blast
      qed
    next
      case False
      let ?k = "effective_len c M (length d)"
      have k: "0 < ?k" "?k \<le> length d" "?k \<le> unat (ch_remote_window c)" "?k \<le> M"
        using effective_len_bounds [of "length d" M c] 2 False Suc.prems(2) by auto
      obtain rc b where b: "pack_data (pe_heap e) err (ch_remote_channel c) (take ?k d) (s_out_buffer s) = (rc, b)"
        by (rule prod.exhaust)
      from Suc.prems(1) [unfolded write_loop_turn [OF 2 disjI2 [OF False]] Let_def b prod.case]
      consider "rest = d" "x = GoError \<or> x = ReturnError"
        | rc2 s2 where "rc = SSH_OK" "ssh_packet_send e (s\<lparr>s_out_buffer := b\<rparr>) = Ret (rc2, s2)" "rc2 \<noteq> SSH_ERROR"
          "write_loop n wait e a err M (drop ?k d) (put_channel a (count_write ?k c) s2) = Ret (x, rest, t)"
        by (auto simp: run_bind_Ret split: if_splits)
      then show ?thesis
      proof cases
        case 1
        then show ?thesis
          by (intro exI [of _ "[]"] exI [of _ s]) (auto intro: handed_over.nothing)
      next
        case sent: 2
        have "length (drop ?k d) < 4294967296"
          using Suc.prems(3) by simp
        from Suc.IH [OF sent(4) Suc.prems(2) this] obtain ds u where
          ds: "handed_over wait e a err M (put_channel a (count_write ?k c) s2) ds u" "concat ds @ rest = drop ?k d"
          "x = AllWritten \<longrightarrow> rest = [] \<and> t = u" "x = GoOut \<longrightarrow> t = u"
          by blast
        have "buf_content b = buf_content (s_out_buffer s) @ data_message err (ch_remote_channel c) (take ?k d)"
          if "buffer_inv (s_out_buffer s)"
          using pack_data_message(2) [OF _ that] b sent(1) Suc.prems(3) by simp
        then have "handed_over wait e a err M s (take ?k d # ds) u"
          using ds(1) k 2(1) by (intro message [where d = "take ?k d" and b = b, OF 2(2) _ _ _ _ sent(2,3)]) auto
        then show ?thesis
          using ds(2-4) by (metis append_assoc append_take_drop_id concat.simps(2))
      qed
    qed
  qed
qed simp

text \<open>An open channel of a session that exchanges keys again, with a window of three bytes.\<close>

definition open_channel :: ssh_channel where
  "open_channel = (calloc_channel roomy_buffer roomy_buffer)\<lparr>ch_local_channel := 1, ch_remote_channel := 5,
     ch_local_window := 64000, ch_remote_window := 3, ch_remote_maxpacket := 12, ch_state := SSH_CHANNEL_STATE_OPEN\<rparr>"

definition channel_session :: ssh_session where
  "channel_session = rekey_session\<lparr>s_channels := [(1, open_channel)], s_maxchannel := 1,
     s_session_state := SSH_SESSION_STATE_AUTHENTICATED\<rparr>"



subsection \<open>Writing comes to an end\<close>

lemma pack_call_granted:
  assumes "buffer_inv b" and "\<forall>n. heap_grants h n" and "\<forall>f\<in>set fs. field_ok nat_bignum f"
    and "fs \<noteq> []" and "pack_argc fs \<le> 256" and "sum_list (map field_reserve fs) < BUFFER_SIZE_MAX"
    and "length (buf_content b) + length (wire_of nat_bignum fs) + 8 < BUFFER_SIZE_MAX"
  obtains b' where "pack_call h b fs = (0, b')" and "buffer_inv b'"
    and "buf_content b' = buf_content b @ wire_of nat_bignum fs"
proof -
  obtain b' where "ssh_buffer_pack h nat_bignum b (map field_char fs) (pack_argc fs) (pack_argv fs) = (PackRet SSH_OK, b')"
    "buffer_inv b'" "buf_content b' = buf_content b @ wire_of nat_bignum fs"
    by (rule pack_fields [OF assms])
  then show thesis
    by (intro that [of b']) (simp_all add: pack_call_def)
qed

lemma pack_data_granted:
  assumes "buffer_inv b" and heap: "\<forall>n. heap_grants h n" and small: "length (buf_content b) + length d < 268435000"
  obtains b' where "pack_data h err n d b = (SSH_OK, b')" and "buffer_inv b'"
    and "buf_content b' = buf_content b @ data_message err n d"
proof -
  note defs = wire_of_def pack_argc_def BUFFER_SIZE_MAX_def
  obtain b1 where b1: "pack_call h b [FByte (if err then 95 else 94), FDword n] = (0, b1)" "buffer_inv b1"
    "length (buf_content b1) = length (buf_content b) + 5"
    by (rule pack_call_granted [OF assms(1) heap, of "[FByte (if err then 95 else 94), FDword n]"])
       (use small in \<open>auto simp: defs\<close>)
  obtain b2 where b2: "(if err then pack_call h b1 [FDword 1] else (SSH_OK, b1)) = (0, b2)" "buffer_inv b2"
    "length (buf_content b2) \<le> length (buf_content b) + 9"
    using b1 by (cases err; cases rule: pack_call_granted [OF b1(2) heap, of "[FDword 1]"])
       (use small in \<open>auto simp: defs\<close>)
  obtain b3 where b3: "pack_call h b2 [FDword (of_nat (length d)), FBytes d] = (0, b3)"
    by (rule pack_call_granted [OF b2(2) heap, of "[FDword (of_nat (length d)), FBytes d]"])
       (use small b2 in \<open>auto simp: defs\<close>)
  have call: "pack_data h err n d b = (SSH_OK, b3)"
    using b1(1) b2(1) b3(1) by (simp add: pack_data_def)
  then show thesis
    using pack_data_message [OF call assms(1)] small that by auto
qed

text \<open>Twice the length of the data and one more is fuel enough: a turn that waits is followed by one that writes.\<close>

lemma write_loop_fuel:
  assumes "0 < M" and "length d \<le> L" and "2 * L + 1 \<le> n" and "2 * L + 1 \<le> m"
  shows "write_loop n wait e a err M d s = write_loop m wait e a err M d s"
  using assms(2-4)
proof (induction L arbitrary: d s n m)
  case 0
  then show ?case
    by (cases n; cases m) auto
next
  case (Suc L)
  have turn: "write_loop n wait e a err M d s = write_loop m wait e a err M d s"
    if c: "channel_at a s = Some c" "ch_remote_window c \<noteq> 0" and d: "d \<noteq> []" and n: "2 * L + 2 \<le> n" and m: "2 * L + 2 \<le> m"
    for n m s c
  proof -
    obtain n' m' where nm: "n = Suc n'" "m = Suc m'"
      using n m by (cases n; cases m) auto
    let ?k = "effective_len c M (length d)"
    have "0 < ?k"
      using effective_len_bounds(1) [of "length d" M c] c d assms(1) by simp
    then have "write_loop n' wait e a err M (drop ?k d) u = write_loop m' wait e a err M (drop ?k d) u" for u
      by (intro Suc.IH) (use Suc.prems(1) n m nm in auto)
    then show ?thesis
      unfolding nm by (simp only: write_loop_turn [OF d c(1) disjI2 [OF c(2)]] Let_def)
  qed
  obtain n' m' where nm: "n = Suc n'" "m = Suc m'"
    using Suc.prems by (cases n; cases m) auto
  consider "d = []" | "channel_at a s = None" "d \<noteq> []" | c where "channel_at a s = Some c" "d \<noteq> []"
    by (cases "channel_at a s") auto
  then show ?case
  proof cases
    case 3
    show ?thesis
    proof (cases "ch_remote_window c = 0")
      case False
      then show ?thesis
        using turn [OF 3(1) False 3(2)] Suc.prems by simp
    next
      case True
      have "with_channel a u (\<lambda>c1. if rc = SSH_ERROR \<or> \<not> ssh_channel_waitwindow_termination a u \<or>
              s_session_state u = SSH_SESSION_STATE_ERROR \<or> ch_state c1 = SSH_CHANNEL_STATE_CLOSED
            then Ret (GoOut, d, u) else write_loop n' wait e a err M d u) =
          with_channel a u (\<lambda>c1. if rc = SSH_ERROR \<or> \<not> ssh_channel_waitwindow_termination a u \<or>
              s_session_state u = SSH_SESSION_STATE_ERROR \<or> ch_state c1 = SSH_CHANNEL_STATE_CLOSED
            then Ret (GoOut, d, u) else write_loop m' wait e a err M d u)" for rc u
      proof (cases "channel_at a u")
        case (Some c1)
        then have "\<lbrakk>ssh_channel_waitwindow_termination a u; s_session_state u \<noteq> SSH_SESSION_STATE_ERROR;
            ch_state c1 \<noteq> SSH_CHANNEL_STATE_CLOSED\<rbrakk> \<Longrightarrow> ch_remote_window c1 \<noteq> 0"
          by (auto simp: ssh_channel_waitwindow_termination_def)
        with turn [OF Some _ 3(2), of n' m'] Suc.prems nm
        have "ssh_channel_waitwindow_termination a u \<Longrightarrow> s_session_state u \<noteq> SSH_SESSION_STATE_ERROR \<Longrightarrow>
            ch_state c1 \<noteq> SSH_CHANNEL_STATE_CLOSED \<Longrightarrow> write_loop n' wait e a err M d u = write_loop m' wait e a err M d u"
          by simp
        with Some show ?thesis
          by (simp add: with_channel_def)
      qed (simp add: with_channel_def)
      then show ?thesis
        unfolding nm by (simp only: write_loop_blocked [OF 3(2,1) True])
    qed
  qed (simp_all add: nm with_channel_def write_loop.simps(2))
qed

text \<open>A loop whose waits are answered and whose messages are taken writes everything.\<close>

lemma write_loop_completes:
  assumes M: "0 < M" and heap: "\<forall>n. heap_grants (pe_heap e) n"
    and state: "\<And>t. I t \<Longrightarrow> (\<exists>c. channel_at a t = Some c) \<and> buffer_inv (s_out_buffer t) \<and> buf_content (s_out_buffer t) = []"
    and answered: "\<And>t. I t \<Longrightarrow> \<exists>rc u c. wait (ssh_channel_waitwindow_termination a) t = Ret (rc, u) \<and> rc \<noteq> SSH_ERROR \<and> I u \<and>
      s_session_state u \<noteq> SSH_SESSION_STATE_ERROR \<and> channel_at a u = Some c \<and> ch_state c \<noteq> SSH_CHANNEL_STATE_CLOSED \<and>
      ch_remote_window c \<noteq> 0"
    and taken: "\<And>t c d b. I t \<Longrightarrow> channel_at a t = Some c \<Longrightarrow> buffer_inv b \<Longrightarrow>
      buf_content b = data_message err (ch_remote_channel c) d \<Longrightarrow>
      \<exists>rc u. ssh_packet_send e (t\<lparr>s_out_buffer := b\<rparr>) = Ret (rc, u) \<and> rc \<noteq> SSH_ERROR \<and>
        I (put_channel a (count_write (length d) c) u)"
    and "I s" and "length d \<le> L" and "L \<le> 268000000"
  shows "\<exists>t. write_loop (2 * L + 1) wait e a err M d s = Ret (AllWritten, [], t) \<and> I t"
  using assms(6-8)
proof (induction L arbitrary: d s)
  case 0
  then show ?case
    by auto
next
  case (Suc L)
  have turn: "\<exists>u. write_loop (Suc n) wait e a err M d t = Ret (AllWritten, [], u) \<and> I u"
    if t: "I t" and c: "channel_at a t = Some c" "ch_remote_window c \<noteq> 0" and d: "d \<noteq> []" and n: "2 * L + 1 \<le> n" for t c n
  proof -
    let ?k = "effective_len c M (length d)"
    have k: "0 < ?k"
      using effective_len_bounds(1) [of "length d" M c] c d M by simp
    from state [OF t] have out: "buffer_inv (s_out_buffer t)" "buf_content (s_out_buffer t) = []"
      by auto
    with Suc.prems(2,3) have small: "length (buf_content (s_out_buffer t)) + length (take ?k d) < 268435000"
      by simp
    obtain b where b: "pack_data (pe_heap e) err (ch_remote_channel c) (take ?k d) (s_out_buffer t) = (SSH_OK, b)" "buffer_inv b"
      "buf_content b = data_message err (ch_remote_channel c) (take ?k d)"
      using pack_data_granted [OF out(1) heap small] out(2) by (metis append_Nil)
    from taken [OF t c(1) b(2,3)] obtain rc u where u: "ssh_packet_send e (t\<lparr>s_out_buffer := b\<rparr>) = Ret (rc, u)"
      "rc \<noteq> SSH_ERROR" "I (put_channel a (count_write (length (take ?k d)) c) u)"
      by blast
    have "count_write (length (take ?k d)) c = count_write ?k c"
      using effective_len_bounds(2) [of "length d" M c] c d M by (simp add: min_absorb2)
    with u(3) have I: "I (put_channel a (count_write ?k c) u)"
      by simp
    have short: "length (drop ?k d) \<le> L" "L \<le> 268000000"
      using k Suc.prems by auto
    have "write_loop (2 * L + 1) wait e a err M (drop ?k d) (put_channel a (count_write ?k c) u) =
        write_loop n wait e a err M (drop ?k d) (put_channel a (count_write ?k c) u)"
      using n by (intro write_loop_fuel [OF M short(1)]) simp_all
    with Suc.IH [OF I short] show ?thesis
      unfolding write_loop_turn [OF d c(1) disjI2 [OF c(2)]] Let_def b using u(2) by (simp add: u(1))
  qed
  show ?case
  proof (cases "d = []")
    case True
    with Suc.prems show ?thesis
      by simp
  next
    case False
    from state [OF Suc.prems(1)] obtain c where c: "channel_at a s = Some c"
      by blast
    have fuel: "2 * Suc L + 1 = Suc (Suc (2 * L + 1))"
      by simp
    show ?thesis
    proof (cases "ch_remote_window c = 0")
      case False
      then show ?thesis
        using turn [OF Suc.prems(1) c False \<open>d \<noteq> []\<close>] unfolding fuel by simp
    next
      case True
      from answered [OF Suc.prems(1)] obtain rc u c' where u: "wait (ssh_channel_waitwindow_termination a) s = Ret (rc, u)"
        "rc \<noteq> SSH_ERROR" "I u" "s_session_state u \<noteq> SSH_SESSION_STATE_ERROR" "channel_at a u = Some c'"
        "ch_state c' \<noteq> SSH_CHANNEL_STATE_CLOSED" "ch_remote_window c' \<noteq> 0"
        by blast
      then have "ssh_channel_waitwindow_termination a u"
        by (simp add: ssh_channel_waitwindow_termination_def word_neq_0_conv)
      with u turn [OF u(3,5,7) False, of "2 * L + 1"] show ?thesis
        unfolding fuel by (simp add: write_loop_blocked [OF False c True] with_channel_def)
    qed
  qed
qed


text \<open>An event loop that brings a window of two bytes whenever it is asked to wait.\<close>

definition granting_loop :: event_loop where
  "granting_loop P s =
     Ret (SSH_OK, s\<lparr>s_channels := map (\<lambda>(a, c). (a, c\<lparr>ch_remote_window := 2\<rparr>)) (s_channels s)\<rparr>)"


subsection \<open>The windows of the two sides\<close>

text \<open>
  One direction of a channel: the side that writes, the side that reads, the lengths of the
  messages of data on their way and the adjustments of the window on theirs. The steps are what
  the loop of \<^verbatim>\<open>channel_write_common\<close>, \<^verbatim>\<open>channel_rcv_data\<close>, \<^verbatim>\<open>grow_window\<close> and
  \<^verbatim>\<open>channel_rcv_change_window\<close> do to the windows.
\<close>

type_synonym two_sides = "ssh_channel \<times> ssh_channel \<times> nat list \<times> u32 list"

inductive window_step :: "two_sides \<Rightarrow> two_sides \<Rightarrow> bool" where
  writes: "0 < len \<Longrightarrow> len \<le> unat (ch_remote_window w) \<or> ch_remote_window w \<noteq> 0 \<Longrightarrow>
    k = effective_len w M len \<Longrightarrow> window_step (w, r, ds, gs) (count_write k w, r, ds @ [k], gs)"
| receives: "window_step (w, r, k # ds, gs) (w, consume_window k r, ds, gs)"
| grants: "ch_local_window r < window_goal m \<Longrightarrow>
    window_step (w, r, ds, gs)
      (w, r\<lparr>ch_local_window := window_goal m\<rparr>, ds, gs @ [window_goal m - ch_local_window r])"
| adjusts: "window_step (w, r, ds, g # gs) (w\<lparr>ch_remote_window := ch_remote_window w + g\<rparr>, r, ds, gs)"

inductive_cases window_stepE: "window_step (w, r, ds, gs) y"

definition balanced :: "two_sides \<Rightarrow> bool" where
  "balanced x = (case x of (w, r, ds, gs) \<Rightarrow>
     unat (ch_remote_window w) + sum_list ds + sum_list (map unat gs) = unat (ch_local_window r))"

lemma effective_len_window:
  assumes "len \<le> unat (ch_remote_window w) \<or> ch_remote_window w \<noteq> 0"
  shows "effective_len w M len \<le> unat (ch_remote_window w)"
  using assms by (auto simp: effective_len_def)

lemma unat_u32: "unat (x :: u32) < 4294967296"
  using unsigned_less [of x] by simp

lemma unat_minus_nat:
  assumes "k \<le> unat (x :: u32)"
  shows "unat (x - of_nat k) = unat x - k"
proof -
  have "k < 4294967296"
    using assms unat_u32 [of x] by simp
  then have "unat (of_nat k :: u32) = k"
    by (simp add: unat_of_nat)
  with assms show ?thesis
    by (simp add: unat_sub word_le_nat_alt)
qed

lemma window_step_balanced: "window_step x y \<Longrightarrow> balanced x \<Longrightarrow> balanced y"
proof (induction rule: window_step.induct)
  case (writes len w k M r ds gs)
  then show ?case
    using effective_len_window [of len w M] by (simp add: balanced_def count_write_def unat_minus_nat)
next
  case (receives w r k ds gs)
  then show ?case
    by (auto simp: balanced_def consume_window_def unat_minus_nat)
next
  case (grants r m w ds gs)
  then show ?case
    by (simp add: balanced_def unat_sub word_less_nat_alt word_le_nat_alt)
next
  case (adjusts w r ds g gs)
  then have "unat (ch_remote_window w) + unat g < 4294967296"
    using unat_u32 [of "ch_local_window r"] by (simp add: balanced_def)
  with adjusts show ?case
    by (simp add: balanced_def unat_add_lem [THEN iffD1])
qed



end
