(* ===== verification/Channel_Stream.thy ===== *)
theory Channel_Stream
  imports Channel_Flow
begin

text \<open>
  The stream of a channel: the bytes the other side's messages bring come out of the reads of the
  user, in order, each once.
\<close>

subsection \<open>Messages of data, parsed\<close>

lemma unpack_dword:
  assumes "s_in_buffer s = Some b" and "buffer_inv b" and "buf_content b = be_bytes (n :: u32) @ rest"
    and "\<forall>n. heap_grants h n"
  obtains b' where "unpack_call h s ''d'' = (SSH_OK, [OutU32 n], s\<lparr>s_in_buffer := Some b'\<rparr>)" and "buffer_inv b'"
    and "buf_content b' = rest"
proof -
  let ?f = "FDword n :: nat wfield"
  have "buf_content b = concat (map (field_wire nat_bignum) [?f]) @ rest"
    and "\<forall>f\<in>set [?f]. field_ok nat_bignum f \<and> field_readable nat_bignum (length (buf_content b)) f"
    using assms(3) by auto
  from unpack_loop_fields [OF assms(2) this(1) assms(4) this(2) order_refl, of 0 1 SSH_ERROR "[UpCanary SSH_BUFFER_PACK_END]" "[]"]
  obtain outs b' where l: "unpack_loop h nat_bignum (length (buf_content b)) ''d'' 1 0 SSH_ERROR b
      [UpPtr, UpCanary SSH_BUFFER_PACK_END] [] = LoopEnd (0, 1, [UpCanary SSH_BUFFER_PACK_END], outs, [], b')"
    "list_all2 out_holds [?f] outs" "buffer_inv b'" "buf_content b' = rest"
    by auto
  from l(2) have "outs = [OutU32 n]"
    by (auto simp: list_all2_Cons1 elim: out_holds.elims)
  with l(1) have "ssh_buffer_unpack_va h nat_bignum b ''d'' 1 [UpPtr, UpCanary SSH_BUFFER_PACK_END] =
      (PackRet SSH_OK, [OutU32 n], b')"
    by (simp add: ssh_buffer_unpack_va_def get_len_content [OF assms(2)] del: unpack_loop.simps)
  with assms(1) have "unpack_call h s ''d'' = (SSH_OK, [OutU32 n], s\<lparr>s_in_buffer := Some b'\<rparr>)"
    by (simp add: unpack_call_def)
  from that [OF this l(3,4)] show thesis .
qed

lemma message_channel:
  assumes "s_in_buffer s = Some b" and "buffer_inv b" and "buf_content b = be_bytes (n :: u32) @ rest"
    and "\<forall>n. heap_grants h n"
  obtains b' where "channel_from_msg h s = (ssh_channel_from_local s n, s\<lparr>s_in_buffer := Some b'\<rparr>)" and "buffer_inv b'"
    and "buf_content b' = rest"
proof -
  obtain b' where b': "unpack_call h s ''d'' = (SSH_OK, [OutU32 n], s\<lparr>s_in_buffer := Some b'\<rparr>)" "buffer_inv b'"
    "buf_content b' = rest"
    by (rule unpack_dword [OF assms])
  have "channel_from_msg h s = (ssh_channel_from_local s n, s\<lparr>s_in_buffer := Some b'\<rparr>)"
    by (simp add: channel_from_msg_def b'(1) ssh_channel_from_local_def)
  from that [OF this b'(2,3)] show thesis .
qed

subsection \<open>The unread data of a channel\<close>

text \<open>The channel at an address, as long as it is there, holds these unread bytes.\<close>

definition holds :: "nat \<Rightarrow> bool \<Rightarrow> bytes \<Rightarrow> ssh_session \<Rightarrow> bool" where
  "holds a err x s \<longleftrightarrow> distinct (map fst (s_channels s)) \<and>
     (\<forall>c. channel_at a s = Some c \<longrightarrow> (\<exists>b. channel_buffer err c = Some b \<and> buffer_inv b \<and> buf_content b = x))"

lemma holds_fields [simp]:
  "holds a err x (t\<lparr>s_out_buffer := b\<rparr>) = holds a err x t"
  "holds a err x (t\<lparr>s_in_buffer := ib\<rparr>) = holds a err x t"
  "holds a err x (t\<lparr>s_global_req_state := g\<rparr>) = holds a err x t"
  by (simp_all add: holds_def channel_at_def)

lemma channel_at_fields [simp]:
  "channel_at a (t\<lparr>s_out_buffer := b\<rparr>) = channel_at a t"
  "channel_at a (t\<lparr>s_in_buffer := ib\<rparr>) = channel_at a t"
  by (simp_all add: channel_at_def)

lemma holds_cong: "s_channels t = s_channels s \<Longrightarrow> holds a err x t = holds a err x s"
  by (simp add: holds_def channel_at_def)

lemma holds_put:
  assumes "holds a err x t" and "channel_at b t = Some c" and "b = a \<longrightarrow> channel_buffer err d = channel_buffer err c"
  shows "holds a err x (put_channel b d t)"
  using assms by (auto simp: holds_def fst_put channel_at_put split: if_splits)

lemma member_at: "distinct (map fst (s_channels t)) \<Longrightarrow> (a, c) \<in> set (s_channels t) \<Longrightarrow> channel_at a t = Some c"
  by (simp add: channel_at_def)

lemma holds_free: "holds a err x t \<Longrightarrow> holds a err x (ssh_channel_do_free b t)"
proof -
  have "map_of (filter (\<lambda>(y, c). y \<noteq> b) cs) a = (if a = b then None else map_of cs a)" for cs :: "(nat \<times> ssh_channel) list"
    by (induction cs) auto
  then show "holds a err x t \<Longrightarrow> holds a err x (ssh_channel_do_free b t)"
    by (auto simp: holds_def ssh_channel_do_free_def channel_at_def intro: distinct_map_filter)
qed

interpretation stream: channel_frame "holds a err x" e for a err x e
proof (unfold_locales, goal_cases)
  case (1 t)
  then show ?case
    by (auto simp: ends_def dest: ssh_packet_send_channels holds_cong)
next
  case (5 t b c d)
  then show ?case
    by (intro holds_put [of a err x t b c]) (auto simp: holds_def alike_def channel_buffer_def member_at)
qed (simp_all add: holds_free)

subsection \<open>Data that arrives\<close>

lemma bufferize_other:
  assumes "channel_default_bufferize h c d n err = (rc, c')"
  shows "err' \<noteq> err \<Longrightarrow> channel_buffer err' c' = channel_buffer err' c"
  using assms
  by (auto simp: channel_default_bufferize_def put_buffer_def channel_buffer_def split: option.splits prod.splits if_splits)

lemma bufferize_appends:
  assumes "channel_buffer err c = Some b" and "buffer_inv b" and "\<forall>n. heap_grants h n"
    and "n \<le> length d" and "length (buf_content b) + n < BUFFER_SIZE_MAX"
  obtains c' b' where "channel_default_bufferize h c d n err = (0, c')" and "channel_buffer err c' = Some b'"
    and "buffer_inv b'" and "buf_content b' = buf_content b @ take n d"
proof -
  obtain b' where b': "ssh_buffer_add_data h b (Some d) n = (0, b')" "buffer_inv b'" "buf_content b' = buf_content b @ take n d"
    by (rule add_data_granted [OF assms(2-5)])
  have "channel_default_bufferize h c d n err = (0, put_buffer err (Some b') c)"
    by (simp add: channel_default_bufferize_def assms(1) b'(1))
  then show thesis
    by (rule that [OF _ _ b'(2,3)]) (simp add: channel_buffer_def put_buffer_def)
qed

lemma channel_buffer_consume [simp]: "channel_buffer err (consume_window n c) = channel_buffer err c"
  by (simp add: channel_buffer_def consume_window_def)

lemma grown_holds: "grow_window e t a m = Ret (rc, u) \<Longrightarrow> holds b err x t \<Longrightarrow> holds b err x u"
  using endsD [OF stream.grow_window] by fastforce

text \<open>Data for another channel, or for the other stream, leaves the unread bytes alone.\<close>

lemma rcv_data_elsewhere:
  assumes call: "channel_rcv_data [] e ty s = Ret (u, v)" and found: "channel_from_msg (pe_heap e) s = (Some (b, c), s1)"
    and "channel_at b s1 = Some c" and "b \<noteq> a \<or> (ty \<noteq> 94) \<noteq> err" and "holds a err x s1"
  shows "holds a err x v"
proof -
  let ?s2 = "if ty \<noteq> 94 then s1\<lparr>s_in_buffer := map_option (\<lambda>b. snd (snd (ssh_buffer_get_u32 b))) (s_in_buffer s1)\<rparr> else s1"
  obtain str s3 where s3: "packet_string (pe_heap e) ?s2 = (str, s3)"
    by (rule prod.exhaust)
  have same: "s_channels s3 = s_channels s1"
    using s3 by (auto simp: packet_string_def split: option.splits prod.splits if_splits)
  have x: "holds a err x s3" and at: "channel_at b s3 = Some c"
    using assms(3,5) same holds_cong [OF same] by (simp_all add: channel_at_def)
  show ?thesis
  proof (cases str)
    case None
    have "channel_rcv_data [] e ty s = Ret (True, s3)"
      unfolding channel_rcv_data_def Let_def found prod.case option.case s3 None ..
    with call x show ?thesis
      by simp
  next
    case (Some w)
    let ?n = "ssh_string_len (Some w)"
    obtain rc c1 where c1: "channel_default_bufferize (pe_heap e) c (ss_data w) ?n (ty \<noteq> 94) = (rc, c1)"
      by (rule prod.exhaust)
    have keep: "b = a \<longrightarrow> channel_buffer err c1 = channel_buffer err c"
      using bufferize_other [OF c1] assms(4) by auto
    have "holds a err x (put_channel b c1 s3)" "holds a err x (put_channel b (consume_window ?n c1) s3)"
      using keep by (auto intro!: holds_put [OF x at])
    moreover from call have "v = put_channel b c1 s3 \<or> v = put_channel b (consume_window ?n c1) s3 \<or>
        (\<exists>rc. grow_window e (put_channel b (consume_window ?n c1) s3) b 0 = Ret (rc, v))"
      unfolding channel_rcv_data_def Let_def found prod.case option.case s3 Some c1
      by (auto simp: run_bind_Ret split: if_splits)
    ultimately show ?thesis
      by (auto dest: grown_holds)
  qed
qed

lemma rcv_data_appends:
  assumes call: "channel_rcv_data [] e ty (s\<lparr>s_in_buffer := Some ib\<rparr>) = Ret (u, v)"
    and ib: "buffer_inv ib" "buf_content ib = be_bytes n @ (if ty \<noteq> 94 then be_bytes (code :: u32) else []) @
      be_bytes (of_nat (length d) :: u32) @ d @ tail"
    and found: "ssh_channel_from_local s n = Some (a, c)" and x: "holds a (ty \<noteq> 94) x s"
    and heap: "\<forall>n. heap_grants (pe_heap e) n" and room: "length x + length d < BUFFER_SIZE_MAX"
  shows "holds a (ty \<noteq> 94) (x @ d) v"
proof -
  let ?err = "ty \<noteq> 94" and ?s = "s\<lparr>s_in_buffer := Some ib\<rparr>"
  have found': "ssh_channel_from_local ?s n = Some (a, c)"
    using found by (simp add: ssh_channel_from_local_def)
  obtain b1 where b1: "channel_from_msg (pe_heap e) ?s = (Some (a, c), s\<lparr>s_in_buffer := Some b1\<rparr>)" "buffer_inv b1"
    "buf_content b1 = (if ?err then be_bytes code else []) @ be_bytes (of_nat (length d) :: u32) @ d @ tail"
    using message_channel [of ?s ib n _ "pe_heap e", OF _ ib heap] found' by (auto simp del: append_assoc)
  have at: "channel_at a s = Some c"
    using channel_from_msg_member [OF b1(1)] x by (simp add: holds_def member_at)
  obtain b2 where b2: "(if ?err then map_option (\<lambda>b. snd (snd (ssh_buffer_get_u32 b))) (Some b1) else Some b1) = Some b2"
    "buffer_inv b2" "buf_content b2 = be_bytes (of_nat (length d) :: u32) @ d @ tail"
    using get_data_enough(2,3) [of b1 4] get_u32_enough [of b1] b1(2,3) by (cases ?err) auto
  have small: "length d \<le> STRING_SIZE_MAX" "heap_grants (pe_heap e) (5 + length d)"
    using room heap by (simp_all add: BUFFER_SIZE_MAX_def STRING_SIZE_MAX_def)
  obtain w b3 where w: "ssh_buffer_get_ssh_string (pe_heap e) b2 = (Some w, b3)" "ssh_string_ok w" "ss_contents w = d"
    using get_ssh_string_enough [OF b2(2,3) small] by blast
  let ?s3 = "s\<lparr>s_in_buffer := Some b3\<rparr>" and ?n = "ssh_string_len (Some w)"
  have string: "packet_string (pe_heap e) (if ?err then (s\<lparr>s_in_buffer := Some b1\<rparr>)\<lparr>s_in_buffer :=
      map_option (\<lambda>b. snd (snd (ssh_buffer_get_u32 b))) (s_in_buffer (s\<lparr>s_in_buffer := Some b1\<rparr>))\<rparr>
      else s\<lparr>s_in_buffer := Some b1\<rparr>) = (Some w, ?s3)"
    using b2(1) w(1) by (auto simp: packet_string_def split: if_splits)
  have len: "?n = length d" "?n \<le> length (ss_data w)" "take ?n (ss_data w) = d"
    using w(2,3) by (auto simp: ss_contents_def ssh_string_ok_def)
  obtain b where b: "channel_buffer ?err c = Some b" "buffer_inv b" "buf_content b = x"
    using x at by (auto simp: holds_def)
  obtain c1 b' where c1: "channel_default_bufferize (pe_heap e) c (ss_data w) ?n ?err = (0, c1)"
    "channel_buffer ?err c1 = Some b'" "buffer_inv b'" "buf_content b' = x @ d"
    using bufferize_appends [OF b(1,2) heap len(2)] room len b(3) by metis
  have "holds a ?err (x @ d) (put_channel a (consume_window ?n c1) ?s3)"
    using x at c1 by (auto simp: holds_def channel_at_put fst_put)
  with call b1(1) string c1(1) show ?thesis
    by (auto simp: channel_rcv_data_def Let_def run_bind_Ret dest: grown_holds split: if_splits)
qed

subsection \<open>Reading\<close>

lemma take_unread_takes:
  assumes "channel_buffer err c = Some b" and "buffer_inv b" and "take_unread err count c = (d, c')"
  shows "d = take count (buf_content b)"
    and "\<exists>b'. channel_buffer err c' = Some b' \<and> buffer_inv b' \<and> buf_content b' = drop count (buf_content b)"
proof -
  let ?n = "min count (length (buf_content b))"
  obtain k b' where b': "ssh_buffer_pass_bytes b ?n = (k, b')"
    by (rule prod.exhaust)
  have eq: "(if ssh_buffer_get_len b > count then count else ssh_buffer_get_len b) = ?n"
    using get_len_content [OF assms(2)] by auto
  have "d = take ?n (buf_content b)" and c': "c' = count_read ?n (put_buffer err (Some b') c)"
    using assms(1,3) b' by (simp_all add: take_unread_def eq Let_def)
  then show "d = take count (buf_content b)"
    by (simp add: min_def)
  have "channel_buffer err c' = Some b'"
    by (simp add: c' channel_buffer_def count_read_def put_buffer_def)
  moreover have "buffer_inv b'" "buf_content b' = drop ?n (buf_content b)"
    using pass_bytes_enough [OF assms(2) _ b'] by auto
  ultimately show "\<exists>b'. channel_buffer err c' = Some b' \<and> buffer_inv b' \<and> buf_content b' = drop count (buf_content b)"
    by (auto simp: min_def)
qed

lemma read_takes_some:
  assumes call: "ssh_channel_read_timeout wait e a count err t = Ret (r, got, v)" and "0 < count" and "0 \<le> r"
    and x: "holds a err x t"
    and arrive: "\<And>u rc w. holds a err x u \<Longrightarrow> u = t \<or> (\<exists>m rc. grow_window e t a m = Ret (rc, u)) \<Longrightarrow>
      wait (ssh_channel_read_termination a err 1) u = Ret (rc, w) \<Longrightarrow> \<exists>y. Q y \<and> holds a err y w"
  shows "\<exists>rest. Q (got @ rest) \<and> holds a err rest v \<and> r = int (length got) \<and> length got \<le> count \<and>
    (length got < count \<longrightarrow> rest = [] \<or> got = [])"
proof -
  obtain c where c: "channel_at a t = Some c"
    using call by (auto simp: ssh_channel_read_timeout_def with_channel_Ret)
  let ?first = "if count > unat (of_nat (unread_len err c) + ch_local_window c)
    then grow_window e t a (of_nat count - of_nat (unread_len err c)) else Ret (SSH_OK, t)"
  let ?take = "\<lambda>s2. with_channel a s2 (\<lambda>c2.
      if ch_remote_eof c2 \<and> unread_len err c2 = 0 then Ret (0, [], s2)
      else if ch_state c2 = SSH_CHANNEL_STATE_CLOSED then Ret (SSH_ERROR, [], s2)
      else case take_unread err count c2 of
          (dest, c3) \<Rightarrow>
            let s3 = put_channel a c3 s2 in
            run_bind (if ch_local_window c3 < WINDOWLIMIT then grow_window e s3 a 0 else Ret (SSH_OK, s3))
              (\<lambda>(rc3, s4). Ret (if rc3 < 0 then - 1 else int (length dest), dest, s4)))"
  let ?arrived = "\<lambda>(rc2, s2).
      if rc2 = SSH_AGAIN \<and> ssh_is_blocking s2 then Ret (rc2, [], s2)
      else if rc2 = SSH_ERROR then Ret (rc2, [], s2)
      else if s_session_state s2 = SSH_SESSION_STATE_ERROR then Ret (SSH_ERROR, [], s2)
      else ?take s2"
  have "ssh_channel_read_timeout wait e a count err t = run_bind ?first (\<lambda>(rc, s1).
      if rc < 0 then Ret (- 1, [], s1) else run_bind (wait (ssh_channel_read_termination a err 1) s1) ?arrived)"
    using c \<open>0 < count\<close> unfolding ssh_channel_read_timeout_def by (simp add: with_channel_def [of a t])
  from call [unfolded this run_bind_Ret] \<open>0 \<le> r\<close> obtain rc u where u: "?first = Ret (rc, u)"
    and "run_bind (wait (ssh_channel_read_termination a err 1) u) ?arrived = Ret (r, got, v)"
    by (auto split: if_splits)
  then obtain rc2 s2 where s2: "wait (ssh_channel_read_termination a err 1) u = Ret (rc2, s2)"
    and "?arrived (rc2, s2) = Ret (r, got, v)"
    by (auto simp: run_bind_Ret)
  with \<open>0 \<le> r\<close> have taken: "?take s2 = Ret (r, got, v)"
    by (auto split: if_splits)
  have u': "holds a err x u" "u = t \<or> (\<exists>m rc. grow_window e t a m = Ret (rc, u))"
    using u x by (auto dest: grown_holds split: if_splits)
  from arrive [OF u' s2] obtain y where "Q y" and y: "holds a err y s2"
    by blast
  obtain c2 where c2: "channel_at a s2 = Some c2"
    using taken by (auto simp: with_channel_Ret)
  obtain dest c3 where c3: "take_unread err count c2 = (dest, c3)"
    by (rule prod.exhaust)
  obtain b where b: "channel_buffer err c2 = Some b" "buffer_inv b" "buf_content b = y"
    using y c2 by (auto simp: holds_def)
  note took = take_unread_takes [OF b(1,2) c3]
  from taken c2 c3 \<open>0 \<le> r\<close> consider "r = 0" "got = []" "v = s2"
    | rc3 where "(if ch_local_window c3 < WINDOWLIMIT then grow_window e (put_channel a c3 s2) a 0
        else Ret (SSH_OK, put_channel a c3 s2)) = Ret (rc3, v)" "got = dest" "r = int (length dest)"
    by (auto simp: with_channel_def run_bind_Ret Let_def split: if_splits)
  then show ?thesis
  proof cases
    case 1
    with y \<open>Q y\<close> show ?thesis
      by (intro exI [of _ y]) simp
  next
    case 2
    have "holds a err (drop count y) (put_channel a c3 s2)"
      using took(2) y c2 b(3) by (auto simp: holds_def fst_put channel_at_put)
    with 2(1) have "holds a err (drop count y) v"
      by (auto dest: grown_holds split: if_splits)
    with 2(2,3) took(1) b(3) \<open>Q y\<close> show ?thesis
      by (intro exI [of _ "drop count y"]) auto
  qed
qed

lemma read_takes:
  assumes "ssh_channel_read_timeout wait e a count err t = Ret (r, got, v)" and "0 < count" and "0 \<le> r"
    and "holds a err x t"
    and "\<And>u rc w. holds a err x u \<Longrightarrow> u = t \<or> (\<exists>m rc. grow_window e t a m = Ret (rc, u)) \<Longrightarrow>
      wait (ssh_channel_read_termination a err 1) u = Ret (rc, w) \<Longrightarrow> holds a err y w"
  shows "\<exists>rest. y = got @ rest \<and> holds a err rest v \<and> r = int (length got) \<and> length got \<le> count"
  using read_takes_some [OF assms(1-4), of "(=) y"] assms(5) by blast

subsection \<open>Properties\<close>

text \<open>
  A history of one stream of a channel: what its messages brought and what its reads returned.
  Messages of data may be for other channels or the other stream; any other message of the
  connection protocol may arrive; the user may write, request, end and close. While a read
  waits, its event loop may bring more.
\<close>

inductive stream_run :: "packet_env \<Rightarrow> nat \<Rightarrow> bool \<Rightarrow> ssh_session \<Rightarrow> bytes \<Rightarrow> bytes \<Rightarrow> ssh_session \<Rightarrow> bool" for e a err where
  start: "stream_run e a err s [] [] s"
| data: "stream_run e a err s inp out t \<Longrightarrow> ty \<in> {94, 95} \<Longrightarrow> buffer_inv ib \<Longrightarrow>
    buf_content ib = be_bytes n @ (if ty \<noteq> 94 then be_bytes (code :: u32) else []) @
      be_bytes (of_nat (length d) :: u32) @ d @ tail \<Longrightarrow>
    ssh_channel_from_local t n = Some (b, c) \<Longrightarrow>
    (\<forall>x. channel_buffer (ty \<noteq> 94) c = Some x \<longrightarrow> length (buf_content x) + length d < BUFFER_SIZE_MAX) \<Longrightarrow>
    channel_rcv_data [] e ty (t\<lparr>s_in_buffer := Some ib\<rparr>) = Ret (u, v) \<Longrightarrow>
    stream_run e a err s (inp @ (if b = a \<and> (ty \<noteq> 94) = err then d else [])) out v"
| other: "stream_run e a err s inp out t \<Longrightarrow> channel_handler [] e (\<lambda>_. None) n = Some f \<Longrightarrow> n \<notin> {94, 95} \<Longrightarrow>
    f (t\<lparr>s_in_buffer := Some ib\<rparr>) = Ret (u, v) \<Longrightarrow> stream_run e a err s inp out v"
| call: "stream_run e a err s inp out t \<Longrightarrow> (\<forall>P u rc w. wait P u = Ret (rc, w) \<longrightarrow> stream_run e a err u [] [] w) \<Longrightarrow>
    channel_write_common n wait e b data err' t = Ret (rc, v) \<or> channel_request wait e b r buf reply t = Ret (rc, v) \<or>
    ssh_channel_send_eof wait e b t = Ret (rc, v) \<or> ssh_channel_close wait e b t = Ret (rc, v) \<Longrightarrow>
    stream_run e a err s inp out v"
| reads: "stream_run e a err s inp out t \<Longrightarrow> 0 < count \<Longrightarrow> 0 \<le> r \<Longrightarrow>
    (\<forall>u rc w. (u = t \<or> (\<exists>m rc. grow_window e t a m = Ret (rc, u))) \<longrightarrow>
      wait (ssh_channel_read_termination a err 1) u = Ret (rc, w) \<longrightarrow> stream_run e a err u meanwhile [] w) \<Longrightarrow>
    ssh_channel_read_timeout wait e a count err t = Ret (r, got, v) \<Longrightarrow>
    stream_run e a err s (inp @ meanwhile) (out @ got) v"



end
