(* ===== verification/Sftp_Protocol.thy ===== *)
theory Sftp_Protocol
  imports Sftp Channel_Stream
begin

text \<open>
  The attributes and the packets of the file transfer client of \<open>Sftp\<close>: the attributes of files
  survive the wire, and a packet is cut out of the channel's stream exactly and completely.
\<close>

subsection \<open>Reading a format\<close>

lemma unpack_from_fields:
  assumes "buffer_inv b" and "buf_content b = wire_of nat_bignum fs @ rest" and "\<forall>n. heap_grants h n"
    and "\<forall>f\<in>set fs. field_ok nat_bignum f \<and> field_readable nat_bignum (length (buf_content b)) f"
    and one: "\<forall>f\<in>set fs. up_args f = [UpPtr] \<and> length (field_args f) = 1" and fs: "fs \<noteq> []" "length fs \<le> 256"
  obtains outs b' where "unpack_from h b (map field_char fs) = (SSH_OK, outs, b')" and "list_all2 out_holds fs outs"
    and "buffer_inv b'" and "buf_content b' = rest"
proof -
  let ?n = "length fs"
  have args: "concat (map up_args fs) = replicate ?n UpPtr" "length (concat (map field_args fs)) = ?n"
    using one by (induction fs) auto
  obtain outs b' where l: "unpack_loop h nat_bignum (length (buf_content b)) (map field_char fs) ?n 0 SSH_ERROR b
      (concat (map up_args fs) @ [UpCanary SSH_BUFFER_PACK_END]) [] =
      LoopEnd (0, ?n, [UpCanary SSH_BUFFER_PACK_END], outs, [], b')"
    "list_all2 out_holds fs outs" "buffer_inv b'" "buf_content b' = rest"
    using unpack_loop_fields [OF assms(1) assms(2) [unfolded wire_of_def] assms(3,4) order_refl,
        of 0 ?n SSH_ERROR "[UpCanary SSH_BUFFER_PACK_END]" "[]"] args(2) fs(1) by auto
  have "unpack_from h b (map field_char fs) = (SSH_OK, outs, b')"
    using l(1) fs(2)
    by (simp add: unpack_from_def ssh_buffer_unpack_va_def get_len_content [OF assms(1)] args(1) Let_def)
  then show thesis
    using l(2,3,4) by (rule that)
qed

lemma read_dwords:
  assumes "buffer_inv b" and "buf_content b = concat (map be_bytes (ns :: u32 list)) @ rest" and "\<forall>n. heap_grants h n"
    and "ns \<noteq> []" and "length ns \<le> 256"
  obtains b' where "read_format h (replicate (length ns) CHR ''d'') b = Ret (Some (map OutU32 ns), b')"
    and "buffer_inv b'" and "buf_content b' = rest"
proof -
  let ?fs = "map FDword ns :: nat wfield list"
  have "wire_of nat_bignum ?fs = concat (map be_bytes ns)"
    by (simp add: wire_of_def o_def)
  with assms(2) have c: "buf_content b = wire_of nat_bignum ?fs @ rest"
    by simp
  obtain outs b' where u: "unpack_from h b (map field_char ?fs) = (SSH_OK, outs, b')" "list_all2 out_holds ?fs outs"
    "buffer_inv b'" "buf_content b' = rest"
    by (rule unpack_from_fields [OF assms(1) c assms(3)]) (use assms(4,5) in auto)
  have "outs = map OutU32 ns"
    using u(2) by (auto simp: list_all2_conv_all_nth intro: nth_equalityI)
  moreover have "map field_char ?fs = replicate (length ns) CHR ''d''"
    by (induction ns) auto
  ultimately show thesis
    using u that by (simp add: read_format_def)
qed

lemma read_qword:
  assumes "buffer_inv b" and "buf_content b = be_bytes (n :: u64) @ rest" and "\<forall>n. heap_grants h n"
  obtains b' where "read_format h ''q'' b = Ret (Some [OutU64 n], b')" and "buffer_inv b'" and "buf_content b' = rest"
proof -
  have c: "buf_content b = wire_of nat_bignum [FQword n] @ rest"
    using assms(2) by (simp add: wire_of_def)
  obtain outs b' where u: "unpack_from h b (map field_char [FQword n :: nat wfield]) = (SSH_OK, outs, b')"
    "list_all2 out_holds [FQword n] outs" "buffer_inv b'" "buf_content b' = rest"
    by (rule unpack_from_fields [OF assms(1) c assms(3)]) auto
  then show thesis
    using that by (auto simp: read_format_def list_all2_Cons1 elim: out_holds.elims)
qed

subsection \<open>Attributes on the wire\<close>

text \<open>A reader that takes these bytes from the front of any buffer and gives this value.\<close>

definition yields :: "'a reader \<Rightarrow> bytes \<Rightarrow> 'a \<Rightarrow> bool" where
  "yields r x v \<longleftrightarrow> (\<forall>b rest. buffer_inv b \<longrightarrow> buf_content b = x @ rest \<longrightarrow>
     (\<exists>b'. r b = Ret (Some v, b') \<and> buffer_inv b' \<and> buf_content b' = rest))"

lemma yields_return: "yields (read_return v) [] v"
  by (simp add: yields_def read_return_def)

lemma yields_bind:
  assumes "yields r x v" and "yields (f v) y w"
  shows "yields (read_bind r f) (x @ y) w"
  unfolding yields_def
proof (intro allI impI)
  fix b rest
  assume "buffer_inv b" and "buf_content b = (x @ y) @ rest"
  with assms(1) obtain b1 where b1: "r b = Ret (Some v, b1)" "buffer_inv b1" "buf_content b1 = y @ rest"
    by (auto simp: yields_def)
  with assms(2) obtain b2 where "f v b1 = Ret (Some w, b2)" "buffer_inv b2" "buf_content b2 = rest"
    by (auto simp: yields_def)
  with b1(1) show "\<exists>b'. read_bind r f b = Ret (Some w, b') \<and> buffer_inv b' \<and> buf_content b' = rest"
    by (auto simp: read_bind_def)
qed

text \<open>A part that is only there under a condition.\<close>

lemma yields_part:
  assumes "c \<Longrightarrow> yields (r v) x w" and "yields (f (if c then w else v)) y z"
  shows "yields (read_bind (read_if c r v) f) ((if c then x else []) @ y) z"
proof (cases c)
  case True
  with yields_bind [of "r v" x w f y z] assms show ?thesis
    by (simp add: read_if_def)
next
  case False
  with yields_bind [OF yields_return, of f v y z] assms(2) show ?thesis
    by (simp add: read_if_def)
qed

lemma yields_return_bind: "yields r x v \<Longrightarrow> f v = w \<Longrightarrow> yields (read_bind r (\<lambda>o1. read_return (f o1))) x w"
  using yields_bind [of r x v "\<lambda>o1. read_return (f o1)" "[]" w] yields_return [of w] by simp

lemma yields_dwords:
  assumes "\<forall>n. heap_grants h n" and "ns \<noteq> []" and "length ns \<le> 256"
  shows "yields (read_format h (replicate (length ns) CHR ''d'')) (concat (map be_bytes ns)) (map OutU32 ns)"
  unfolding yields_def by (blast elim: read_dwords [OF _ _ assms])

lemma yields_dword: "\<forall>n. heap_grants h n \<Longrightarrow> yields (read_format h ''d'') (be_bytes n) [OutU32 n]"
  using yields_dwords [of h "[n]"] by simp

lemma yields_two_dwords: "\<forall>n. heap_grants h n \<Longrightarrow> yields (read_format h ''dd'') (be_bytes m @ be_bytes n) [OutU32 m, OutU32 n]"
  using yields_dwords [of h "[m, n]"] by (simp add: eval_nat_numeral)

lemma yields_qword: "\<forall>n. heap_grants h n \<Longrightarrow> yields (read_format h ''q'') (be_bytes n) [OutU64 n]"
  unfolding yields_def by (blast elim: read_qword)

text \<open>What of the attributes is sent, as it is received.\<close>

definition sent_attr :: "sftp_attributes \<Rightarrow> sftp_attributes" where
  "sent_attr a =
     (let on = attr_has (at_flags a) in
      zero_attr\<lparr>at_flags := written_flags (Some a),
        at_size := (if on SSH_FILEXFER_ATTR_SIZE then at_size a else 0),
        at_uid := (if on SSH_FILEXFER_ATTR_UIDGID then at_uid a else 0),
        at_gid := (if on SSH_FILEXFER_ATTR_UIDGID then at_gid a else 0),
        at_permissions := (if on SSH_FILEXFER_ATTR_PERMISSIONS then at_permissions a else 0),
        at_type := (if on SSH_FILEXFER_ATTR_PERMISSIONS then file_type (at_permissions a) else 0),
        at_atime := (if on SSH_FILEXFER_ATTR_ACMODTIME then at_atime a else 0),
        at_mtime := (if on SSH_FILEXFER_ATTR_ACMODTIME then at_mtime a else 0)\<rparr>)"

definition attr_wire :: "sftp_attributes \<Rightarrow> bytes" where
  "attr_wire a = concat (map (wire_of nat_bignum) ([FDword (written_flags (Some a))] # attribute_fields a (written_flags (Some a))))"

lemma written_has:
  "attr_has (written_flags (Some a)) SSH_FILEXFER_ATTR_SIZE = attr_has (at_flags a) SSH_FILEXFER_ATTR_SIZE"
  "attr_has (written_flags (Some a)) SSH_FILEXFER_ATTR_UIDGID = attr_has (at_flags a) SSH_FILEXFER_ATTR_UIDGID"
  "attr_has (written_flags (Some a)) SSH_FILEXFER_ATTR_PERMISSIONS = attr_has (at_flags a) SSH_FILEXFER_ATTR_PERMISSIONS"
  "attr_has (written_flags (Some a)) SSH_FILEXFER_ATTR_ACMODTIME = attr_has (at_flags a) SSH_FILEXFER_ATTR_ACMODTIME"
  "\<not> attr_has (written_flags (Some a)) SSH_FILEXFER_ATTR_EXTENDED"
  by (simp_all add: written_flags_def attr_has_def and.assoc)

lemma yields_attributes:
  assumes "\<forall>n. heap_grants h n"
  shows "yields (attr_3_fields h zero_attr) (attr_wire a) (sent_attr a)"
proof -
  let ?f = "written_flags (Some a)"
  have "yields (attr_3_fields h zero_attr)
     (be_bytes ?f @ (if attr_has ?f SSH_FILEXFER_ATTR_SIZE then be_bytes (at_size a) else []) @
      (if attr_has ?f SSH_FILEXFER_ATTR_UIDGID then be_bytes (at_uid a) @ be_bytes (at_gid a) else []) @
      (if attr_has ?f SSH_FILEXFER_ATTR_PERMISSIONS then be_bytes (at_permissions a) else []) @
      (if attr_has ?f SSH_FILEXFER_ATTR_ACMODTIME then be_bytes (at_atime a) @ be_bytes (at_mtime a) else []) @ [])
     (sent_attr a)"
    unfolding attr_3_fields_def Let_def
    apply (rule yields_bind [OF yields_dword [OF assms]])
    apply (unfold out_u32_def, simp only: list.size nth_Cons_0 out.case simp_thms if_True zero_less_Suc plus_nat.add_0)
    apply (rule yields_part yields_return_bind yields_dword [OF assms] yields_two_dwords [OF assms] yields_qword [OF assms] refl)+
    apply (simp add: read_if_def out_u32_def out_u64_def written_has sent_attr_def zero_attr_def yields_return)
    done
  moreover have "attr_wire a = be_bytes ?f @ (if attr_has ?f SSH_FILEXFER_ATTR_SIZE then be_bytes (at_size a) else []) @
      (if attr_has ?f SSH_FILEXFER_ATTR_UIDGID then be_bytes (at_uid a) @ be_bytes (at_gid a) else []) @
      (if attr_has ?f SSH_FILEXFER_ATTR_PERMISSIONS then be_bytes (at_permissions a) else []) @
      (if attr_has ?f SSH_FILEXFER_ATTR_ACMODTIME then be_bytes (at_atime a) @ be_bytes (at_mtime a) else [])"
    by (simp add: attr_wire_def attribute_fields_def wire_of_def del: be_bytes_def)
  ultimately show ?thesis
    by (simp only: append_Nil2)
qed

lemma pack_calls_granted:
  assumes "\<forall>n. heap_grants h n" and "buffer_inv b" and "\<forall>fs\<in>set fss. \<forall>f\<in>set fs. field_ok nat_bignum f"
    and "\<forall>fs\<in>set fss. pack_argc fs \<le> 256 \<and> sum_list (map field_reserve fs) < BUFFER_SIZE_MAX"
    and "length (buf_content b) + length (concat (map (wire_of nat_bignum) fss)) + 8 < BUFFER_SIZE_MAX"
  obtains b' where "pack_calls h b fss = (0, b')" and "buffer_inv b'"
    and "buf_content b' = buf_content b @ concat (map (wire_of nat_bignum) fss)"
  using assms(2-)
proof (induction fss arbitrary: b thesis)
  case (Cons fs fss)
  show ?case
  proof (cases "fs = []")
    case True
    with Cons.IH [OF Cons.prems(1) Cons.prems(2)] Cons.prems(3-) show ?thesis
      by (simp add: wire_of_def)
  next
    case False
    obtain b1 where b1: "pack_call h b fs = (0, b1)" "buffer_inv b1" "buf_content b1 = buf_content b @ wire_of nat_bignum fs"
      by (rule pack_call_granted [OF Cons.prems(2) assms(1) _ False]) (use Cons.prems(3-) in auto)
    have "length (buf_content b1) + length (concat (map (wire_of nat_bignum) fss)) + 8 < BUFFER_SIZE_MAX"
      using Cons.prems(5) b1(3) by simp
    from Cons.IH [OF _ b1(2) _ _ this] Cons.prems(3,4) obtain b2 where "pack_calls h b1 fss = (0, b2)" "buffer_inv b2"
      "buf_content b2 = buf_content b1 @ concat (map (wire_of nat_bignum) fss)"
      by auto
    with b1 False Cons.prems(1) show ?thesis
      by simp
  qed
qed simp

text \<open>
  C25. Attributes survive the wire: what \<^verbatim>\<open>buffer_add_attributes\<close> appends,
  \<^verbatim>\<open>sftp_parse_attr\<close> of a session of version 3 or older takes off again and nothing more. The
  size, the owner, the permissions with the type they tell, and the times come back when
  their flag was set; all other fields are zero, and flags the code does not send are gone.
\<close>

theorem attributes_roundtrip:
  assumes "buffer_inv b" and "length (buf_content b) < 100000000" and "\<forall>n. heap_grants h n" and "sf_version sf \<in> {0..3}"
  shows "\<exists>b1 x. buffer_add_attributes h b (Some a) = (0, b1) \<and> buffer_inv b1 \<and> buf_content b1 = buf_content b @ x \<and>
    (\<forall>c rest. buffer_inv c \<longrightarrow> buf_content c = x @ rest \<longrightarrow>
      (\<exists>c1. sftp_parse_attr h openssh sf c False = Ret (Some (sent_attr a), c1, sf) \<and> buffer_inv c1 \<and> buf_content c1 = rest))"
proof -
  let ?fss = "[FDword (written_flags (Some a))] # attribute_fields a (written_flags (Some a)) :: nat wfield list list"
  obtain b1 where b1: "pack_calls h b ?fss = (0, b1)" "buffer_inv b1" "buf_content b1 = buf_content b @ attr_wire a"
    unfolding attr_wire_def
    by (rule pack_calls_granted [OF assms(3,1), of ?fss])
       (use assms(2) in \<open>auto simp: attribute_fields_def wire_of_def pack_argc_def BUFFER_SIZE_MAX_def\<close>)
  have "\<exists>c1. sftp_parse_attr h openssh sf c False = Ret (Some (sent_attr a), c1, sf) \<and> buffer_inv c1 \<and> buf_content c1 = rest"
    if c: "buffer_inv c" "buf_content c = attr_wire a @ rest" for c rest
  proof -
    obtain c1 where "attr_3_fields h zero_attr c = Ret (Some (sent_attr a), c1)" "buffer_inv c1" "buf_content c1 = rest"
      using yields_attributes [OF assms(3), of a, unfolded yields_def, rule_format, OF c] by blast
    moreover have "sf_version sf \<in> {0, 1, 2, 3}"
      using assms(4) by auto
    ultimately show ?thesis
      using assms(3)
      by (auto simp: sftp_parse_attr_def sftp_parse_attr_3_def read_if_def read_bind_def read_return_def)
  qed
  with b1 show ?thesis
    unfolding buffer_add_attributes_def option.case by blast
qed

theorem attributes_roundtrip_witness:
  "\<exists>b1 x. buffer_add_attributes roomy_heap roomy_buffer (Some (permissions_attr 33188)) = (0, b1) \<and> buf_content b1 = x \<and>
    x = [0, 0, 0, 4, 0, 0, 129, 164] \<and>
    (\<exists>c1. sftp_parse_attr roomy_heap False (empty_sftp 1 None) (holding (x @ [7])) False =
      Ret (Some ((permissions_attr 33188)\<lparr>at_type := 1\<rparr>), c1, empty_sftp 1 None) \<and> buf_content c1 = [7])"
proof -
  let ?a = "permissions_attr 33188" and ?sf = "empty_sftp 1 None"
  have heap: "\<forall>n. heap_grants roomy_heap n"
    by simp
  have sent: "sent_attr ?a = ?a\<lparr>at_type := 1\<rparr>" "buf_content (snd (buffer_add_attributes roomy_heap roomy_buffer (Some ?a))) =
      [0, 0, 0, 4, 0, 0, 129, 164]"
    by code_simp+
  obtain b1 x where b1: "buffer_add_attributes roomy_heap roomy_buffer (Some ?a) = (0, b1)" "buf_content b1 = [] @ x"
    and parse: "\<And>c rest. buffer_inv c \<Longrightarrow> buf_content c = x @ rest \<Longrightarrow>
      (\<exists>c1. sftp_parse_attr roomy_heap False ?sf c False = Ret (Some (sent_attr ?a), c1, ?sf) \<and> buffer_inv c1 \<and> buf_content c1 = rest)"
    using attributes_roundtrip [OF roomy_buffer_inv _ heap, of ?sf ?a False] by (auto simp: empty_sftp_def)
  from b1 sent(2) have x: "x = [0, 0, 0, 4, 0, 0, 129, 164]"
    by simp
  with parse [of "holding (x @ [7])" "[7]"] b1 sent(1) show ?thesis
    by (auto simp: holding_props BUFFER_SIZE_MAX_def)
qed

subsection \<open>Packets out of the stream\<close>

definition sftp_frame :: "u8 \<Rightarrow> bytes \<Rightarrow> bytes" where
  "sftp_frame type p = sftp_header type (length p) @ p"

text \<open>The event loop may bring more of the stream; it takes nothing away.\<close>

definition only_brings :: "nat \<Rightarrow> event_loop \<Rightarrow> bool" where
  "only_brings a wait \<longleftrightarrow> (\<forall>P u y rc w. holds a False y u \<longrightarrow> wait P u = Ret (rc, w) \<longrightarrow> (\<exists>m. holds a False (y @ m) w))"

lemma channel_read_takes:
  assumes "ssh_channel_read wait e a count False t = Ret (r, got, v)" and "0 < count" and "0 \<le> r"
    and "holds a False x t" and "only_brings a wait"
  obtains inp rest where "x @ inp = got @ rest" and "holds a False rest v" and "r = int (length got)" and "length got \<le> count"
proof -
  have "\<exists>rest. (\<exists>inp. x @ inp = got @ rest) \<and> holds a False rest v \<and> r = int (length got) \<and> length got \<le> count \<and>
      (length got < count \<longrightarrow> rest = [] \<or> got = [])"
  proof (rule read_takes_some [OF assms(1) [unfolded ssh_channel_read_def] assms(2-4), of "\<lambda>y. \<exists>inp. x @ inp = y"])
    fix u rc w
    assume "holds a False x u" and "wait (ssh_channel_read_termination a False 1) u = Ret (rc, w)"
    with assms(5) have "\<exists>m. holds a False (x @ m) w"
      by (simp add: only_brings_def)
    then show "\<exists>y. (\<exists>inp. x @ inp = y) \<and> holds a False y w"
      by blast
  qed
  with that show thesis
    by blast
qed

lemma read_exact_takes:
  assumes "only_brings (sf_channel sf) (io_wait io)" and "read_exact k io n acc sf s = Ret (Some d, sf', s')"
    and "holds (sf_channel sf) False x s" and "length acc < n"
  shows "\<exists>got inp rest. d = acc @ got \<and> length d = n \<and> x @ inp = got @ rest \<and> holds (sf_channel sf) False rest s' \<and> sf' = sf"
  using assms(2-)
proof (induction k arbitrary: acc x s)
  case (Suc k)
  from Suc.prems(1) obtain rc got s1 where
    r: "ssh_channel_read (io_wait io) (io_env io) (sf_channel sf) (n - length acc) False s = Ret (rc, got, s1)" "0 \<le> rc"
    by (auto simp: run_bind_Ret split: if_splits)
  obtain inp rest where t: "x @ inp = got @ rest" "holds (sf_channel sf) False rest s1" "rc = int (length got)"
    "length got \<le> n - length acc"
    by (rule channel_read_takes [OF r(1) _ r(2) Suc.prems(2) assms(1)]) (use Suc.prems(3) in auto)
  consider "length (acc @ got) < n" "read_exact k io n (acc @ got) sf s1 = Ret (Some d, sf', s')"
    | "length (acc @ got) = n" "d = acc @ got" "sf' = sf" "s' = s1"
    using Suc.prems(1,3) r t(3,4)
    by (cases "got = []") (auto simp: run_bind_Ret with_channel_Ret split: if_splits)
  then show ?case
  proof cases
    case 1
    from Suc.IH [OF 1(2) t(2) 1(1)] obtain got' inp' rest' where "d = (acc @ got) @ got'" "length d = n"
      "rest @ inp' = got' @ rest'" "holds (sf_channel sf) False rest' s'" "sf' = sf"
      by blast
    moreover from this(3) t(1) have "x @ (inp @ inp') = (got @ got') @ rest'"
      by (metis append.assoc)
    ultimately show ?thesis
      by (intro exI [of _ "got @ got'"] exI [of _ "inp @ inp'"] exI [of _ rest']) simp
  next
    case 2
    with t show ?thesis
      by blast
  qed
qed simp

lemma read_rest_takes:
  assumes "only_brings (sf_channel sf) (io_wait io)" and "read_rest k io n b sf s = Ret (True, b', sf', s')"
    and "holds (sf_channel sf) False x s" and "buffer_inv b" and "n < SFTP_PACKET_SIZE_MAX"
  shows "\<exists>got inp rest. buf_content b' = buf_content b @ got \<and> length got = n \<and> x @ inp = got @ rest \<and>
    holds (sf_channel sf) False rest s' \<and> sf' = sf \<and> buffer_inv b'"
  using assms(2-)
proof (induction k arbitrary: n b x s)
  case (Suc k)
  show ?case
  proof (cases "n = 0")
    case True
    with Suc.prems show ?thesis
      by (auto intro: exI [of _ "[]"])
  next
    case False
    let ?c = "if SFTP_BUFFER_SIZE_MAX > n then n else SFTP_BUFFER_SIZE_MAX"
    from Suc.prems(1,4) False obtain rc got s1 where
      r: "ssh_channel_read (io_wait io) (io_env io) (sf_channel sf) ?c False s = Ret (rc, got, s1)" "0 \<le> rc"
      by (auto simp: run_bind_Ret split: if_splits)
    obtain inp rest where t: "x @ inp = got @ rest" "holds (sf_channel sf) False rest s1" "rc = int (length got)" "length got \<le> ?c"
      by (rule channel_read_takes [OF r(1) _ r(2) Suc.prems(2) assms(1)]) (use False in \<open>auto simp: SFTP_BUFFER_SIZE_MAX_def\<close>)
    have c: "?c \<le> n" "?c < 4294967296"
      by (auto simp: SFTP_BUFFER_SIZE_MAX_def)
    obtain b1 where b1: "buffer_inv b1" "buf_content b1 = buf_content b @ got"
      and more: "read_rest k io (n - length got) b1 sf s1 = Ret (True, b', sf', s')"
    proof (cases "got = []")
      case True
      with Suc.prems r t(3) False that show ?thesis
        by (auto simp: run_bind_Ret with_channel_Ret split: if_splits)
    next
      case False
      obtain rc2 b1 where b1: "ssh_buffer_add_data (io_heap io) b (Some got) (length got) = (rc2, b1)"
        by (rule prod.exhaust)
      have "appends b got (rc2, b1)"
        using add_data_appends [OF Suc.prems(3), of "length got" got "io_heap io"] t(4) c b1 by simp
      moreover have "rc2 = 0 \<and> read_rest k io (n - length got) b1 sf s1 = Ret (True, b', sf', s')"
        using Suc.prems(1,4) \<open>n \<noteq> 0\<close> r t(3) b1 False by (auto simp: run_bind_Ret split: if_splits)
      ultimately show ?thesis
        using that by (auto simp: appends_def)
    qed
    have "n - length got < SFTP_PACKET_SIZE_MAX"
      using Suc.prems(4) by simp
    from Suc.IH [OF more t(2) b1(1) this] obtain got' inp' rest' where i: "buf_content b' = buf_content b1 @ got'"
      "length got' = n - length got" "rest @ inp' = got' @ rest'" "holds (sf_channel sf) False rest' s'" "sf' = sf" "buffer_inv b'"
      by blast
    moreover from i(3) t(1) have "x @ (inp @ inp') = (got @ got') @ rest'"
      by (metis append.assoc)
    moreover have "length (got @ got') = n"
      using i(2) t(4) c(1) by simp
    ultimately show ?thesis
      using b1(2) by (intro exI [of _ "got @ got'"] exI [of _ "inp @ inp'"] exI [of _ rest']) simp
  qed
qed simp

lemma read_header:
  assumes "length d = 4" and "unat (bswap (load_bytes d) :: u32) = Suc n"
  shows "d @ [type] = sftp_header type n"
proof -
  let ?w = "bswap (load_bytes d) :: u32"
  have "of_nat (unat ?w) = (of_nat n + 1 :: u32)"
    by (simp add: assms(2) del: of_nat_unat)
  then have "?w = of_nat n + 1"
    by simp
  moreover have "be_bytes ?w = d"
    using assms(1) by (simp add: mem_load_bytes flip: mem_bytes_bswap)
  ultimately show ?thesis
    by (simp add: sftp_header_def)
qed

text \<open>
  C17. A packet is cut out of the stream exactly. When \<^verbatim>\<open>sftp_packet_read\<close> returns a packet, the
  bytes it took from the channel are the packet's frame, the length, the type and the payload
  it returns, and not one more, however the bytes came in: what was unread before and what the event loop
  brought in the meantime is this frame and then what is unread now.
\<close>

theorem packet_read_cuts_frame:
  assumes "only_brings (sf_channel sf) (io_wait io)" and "sftp_packet_read io sf s = Ret (True, sf', s')"
    and "holds (sf_channel sf) False x s" and "\<And>t b. sf_read_packet sf = Some (t, Some b) \<Longrightarrow> buffer_inv b"
  shows "\<exists>type p b inp rest. x @ inp = sftp_frame type p @ rest \<and> holds (sf_channel sf) False rest s' \<and>
    sf' = sf\<lparr>sf_read_packet := Some (type, Some b)\<rparr> \<and> buffer_inv b \<and> buf_content b = p \<and> length p < SFTP_PACKET_SIZE_MAX"
proof -
  let ?h = "io_heap io" and ?k = "io_fuel io"
  obtain type0 payload b0 where p0: "sf_read_packet sf = Some (type0, payload)"
    and start: "(case payload of Some b \<Rightarrow> (case ssh_buffer_reinit ?h b of (rc, b1) \<Rightarrow> if rc \<noteq> 0 then None else Some b1)
      | None \<Rightarrow> ssh_buffer_new ?h) = Some b0"
    using assms(2) by (auto simp: sftp_packet_read_def Let_def split: option.splits)
  have b0: "buffer_inv b0" "buf_content b0 = []"
    using start assms(4) p0 reinit_props(1,2) buffer_new_Some(1,2) by (fastforce split: option.splits prod.splits if_splits)+
  let ?sf = "sf\<lparr>sf_read_packet := Some (type0, Some b0)\<rparr>"
  have on: "only_brings (sf_channel ?sf) (io_wait io)" and x': "holds (sf_channel ?sf) False x s"
    using assms(1,3) by simp_all
  from assms(2) p0 start obtain d sf1 s1 t sf2 s2 b2 sf3 where
    d: "read_exact ?k io 4 [] ?sf s = Ret (Some d, sf1, s1)"
    and size: "unat (bswap (load_bytes d) :: u32) \<noteq> 0" "unat (bswap (load_bytes d) :: u32) \<le> SFTP_PACKET_SIZE_MAX"
    and t: "read_exact ?k io 1 [] sf1 s1 = Ret (Some t, sf2, s2)"
    and b2: "read_rest ?k io (unat (bswap (load_bytes d) :: u32) - 1)
      (snd (ssh_buffer_allocate_size ?h b0 (unat (bswap (load_bytes d) :: u32) - 1))) sf2 s2 = Ret (True, b2, sf3, s')"
    and sf': "sf' = sf3\<lparr>sf_read_packet := Some (hd t, Some b2)\<rparr>"
    unfolding sftp_packet_read_def Let_def case_prod_unfold
    by (auto simp: run_bind_Ret split: option.splits if_splits)
  let ?n = "unat (bswap (load_bytes d) :: u32) - 1"
  obtain inp1 r1 where r1: "length d = 4" "x @ inp1 = d @ r1" "holds (sf_channel ?sf) False r1 s1" "sf1 = ?sf"
    using read_exact_takes [OF on d x'] by auto
  obtain inp2 r2 where r2: "length t = 1" "r1 @ inp2 = t @ r2" "holds (sf_channel ?sf) False r2 s2" "sf2 = ?sf"
    using read_exact_takes [OF on t [unfolded r1(4)] r1(3)] by auto
  have n: "?n < SFTP_PACKET_SIZE_MAX"
    using size by simp
  obtain rc b1 where b1: "ssh_buffer_allocate_size ?h b0 ?n = (rc, b1)"
    by (rule prod.exhaust)
  obtain p inp3 r3 where r3: "buf_content b2 = p" "length p = ?n" "r2 @ inp3 = p @ r3"
    "holds (sf_channel ?sf) False r3 s'" "sf3 = ?sf" "buffer_inv b2"
    using read_rest_takes [OF on b2 [unfolded r2(4) b1 snd_conv] r2(3) _ n] allocate_size_props(1,2) [OF b0(1) b1] b0(2) by auto
  have "d @ [hd t] = sftp_header (hd t) ?n"
    by (rule read_header [OF r1(1)]) (use size(1) in simp)
  moreover have "t = [hd t]"
    using r2(1) by (cases t) auto
  ultimately have "x @ (inp1 @ inp2 @ inp3) = sftp_frame (hd t) p @ r3"
    using r1(2) r2(2) r3(2,3) by (metis append.assoc sftp_frame_def)
  with r3 sf' n show ?thesis
    by (intro exI [of _ "hd t"] exI [of _ p] exI [of _ b2] exI [of _ "inp1 @ inp2 @ inp3"] exI [of _ r3]) simp
qed

subsection \<open>A packet that is there is read\<close>

text \<open>
  The channel holds these bytes and its window is large enough that reading them grants none:
  nothing needs to be sent.
\<close>

definition ready :: "nat \<Rightarrow> bytes \<Rightarrow> ssh_session \<Rightarrow> bool" where
  "ready a x s \<longleftrightarrow> s_session_state s \<noteq> SSH_SESSION_STATE_ERROR \<and>
     (\<exists>c b. channel_at a s = Some c \<and> ch_state c \<noteq> SSH_CHANNEL_STATE_CLOSED \<and> WINDOWLIMIT \<le> ch_local_window c \<and>
       unat (ch_local_window c) + length x < 4294967296 \<and> ch_stdout c = Some b \<and> buffer_inv b \<and> buf_content b = x)"

text \<open>The event loop returns at once when its condition holds.\<close>

definition prompt_loop :: "event_loop \<Rightarrow> bool" where
  "prompt_loop wait \<longleftrightarrow> (\<forall>P u. P u \<longrightarrow> wait P u = Ret (SSH_OK, u))"

lemma ready_read:
  assumes "ready a x s" and "prompt_loop wait" and "0 < count" and "count \<le> length x"
  obtains s' where "ssh_channel_read wait e a count False s = Ret (int count, take count x, s')" and "ready a (drop count x) s'"
proof -
  obtain c b where c: "channel_at a s = Some c" "ch_state c \<noteq> SSH_CHANNEL_STATE_CLOSED" "WINDOWLIMIT \<le> ch_local_window c"
    "unat (ch_local_window c) + length x < 4294967296" "ch_stdout c = Some b" "buffer_inv b" "buf_content b = x"
    and s: "s_session_state s \<noteq> SSH_SESSION_STATE_ERROR"
    using assms(1) by (auto simp: ready_def)
  have unread: "unread_len False c = length x"
    using c by (simp add: unread_len_def channel_buffer_def get_len_content)
  obtain d c' where c': "take_unread False count c = (d, c')"
    by (rule prod.exhaust)
  have buf: "channel_buffer False c = Some b"
    using c by (simp add: channel_buffer_def)
  note took = take_unread_takes [OF buf c(6) c']
  have d: "d = take count x" "length d = count"
    using took(1) c(7) assms(4) by auto
  obtain b' where b': "ch_stdout c' = Some b'" "buffer_inv b'" "buf_content b' = drop count x"
    using took(2) c(7) by (auto simp: channel_buffer_def)
  have same: "ch_local_window c' = ch_local_window c" "ch_state c' = ch_state c"
    using c' by (auto simp: take_unread_def buf Let_def count_read_def put_buffer_def)
  let ?s = "put_channel a c' s"
  have nogrow: "\<not> unat (of_nat (length x) + ch_local_window c) < count"
  proof -
    have "unat (of_nat (length x) + ch_local_window c) = length x + unat (ch_local_window c)"
      using c(4) by (subst unat_plus_simple [THEN iffD1]) (auto simp: unat_of_nat word_le_nat_alt unat_word_ariths)
    with assms(4) show ?thesis
      by simp
  qed
  have cond: "ssh_channel_read_termination a False 1 s"
    using c(1) unread assms(3,4) by (simp add: ssh_channel_read_termination_def)
  have wait: "wait (ssh_channel_read_termination a False 1) s = Ret (SSH_OK, s)"
    using assms(2) cond by (simp add: prompt_loop_def)
  have "ssh_channel_read wait e a count False s = Ret (int count, take count x, ?s)"
    using assms(3,4) c(1,2,3) s unread c' d same nogrow wait
    by (auto simp: ssh_channel_read_def ssh_channel_read_timeout_def with_channel_def Let_def not_less)
  moreover have "s_session_state ?s = s_session_state s"
    by (simp add: put_channel_def)
  then have "ready a (drop count x) ?s"
    using s c b' same by (auto simp: ready_def channel_at_put)
  ultimately show thesis
    by (rule that)
qed

lemma ready_exact:
  assumes "ready (sf_channel sf) (d @ rest) s" and "prompt_loop (io_wait io)" and "d \<noteq> []" and "0 < k"
  obtains s' where "read_exact k io (length d) [] sf s = Ret (Some d, sf, s')" and "ready (sf_channel sf) rest s'"
proof -
  obtain j where k: "k = Suc j"
    using assms(4) by (cases k) auto
  obtain s' where "ssh_channel_read (io_wait io) (io_env io) (sf_channel sf) (length d) False s = Ret (int (length d), d, s')"
    and "ready (sf_channel sf) rest s'"
    using ready_read [OF assms(1,2), of "length d" "io_env io"] assms(3) by auto
  with that assms(3) k show thesis
    by simp
qed

lemma ready_rest:
  assumes "ready (sf_channel sf) (p @ rest) s" and "prompt_loop (io_wait io)" and "\<forall>n. heap_grants (io_heap io) n"
    and "buffer_inv b" and "length (buf_content b) + length p < 200000000"
    and "if p = [] then 0 < k else length p div 16384 + 2 \<le> k"
  shows "\<exists>b' s'. read_rest k io (length p) b sf s = Ret (True, b', sf, s') \<and> ready (sf_channel sf) rest s' \<and>
    buffer_inv b' \<and> buf_content b' = buf_content b @ p"
  using assms(1,4-)
proof (induction k arbitrary: p b s)
  case (Suc k)
  show ?case
  proof (cases "p = []")
    case True
    with Suc.prems show ?thesis
      by auto
  next
    case False
    let ?c = "if SFTP_BUFFER_SIZE_MAX > length p then length p else SFTP_BUFFER_SIZE_MAX"
    have c: "0 < ?c" "?c \<le> length p" "?c < BUFFER_SIZE_MAX"
      using False by (auto simp: SFTP_BUFFER_SIZE_MAX_def BUFFER_SIZE_MAX_def)
    obtain s1 where s1: "ssh_channel_read (io_wait io) (io_env io) (sf_channel sf) ?c False s = Ret (int ?c, take ?c p, s1)"
      "ready (sf_channel sf) (drop ?c p @ rest) s1"
      using ready_read [OF Suc.prems(1) assms(2) c(1), of "io_env io"] c(2) by auto
    obtain b1 where b1: "ssh_buffer_add_data (io_heap io) b (Some (take ?c p)) ?c = (0, b1)" "buffer_inv b1"
      "buf_content b1 = buf_content b @ take ?c p"
      by (rule add_data_granted [OF Suc.prems(2) assms(3), of ?c "take ?c p"])
         (use c Suc.prems(3) in \<open>auto simp: BUFFER_SIZE_MAX_def\<close>)
    have "length (buf_content b1) + length (drop ?c p) < 200000000"
      using Suc.prems(3) b1(3) c(2) by simp
    moreover have "if drop ?c p = [] then 0 < k else length (drop ?c p) div 16384 + 2 \<le> k"
      using Suc.prems(4) False by (auto simp: SFTP_BUFFER_SIZE_MAX_def le_div_geq split: if_splits)
    ultimately obtain b' s' where "read_rest k io (length (drop ?c p)) b1 sf s1 = Ret (True, b', sf, s')"
      "ready (sf_channel sf) rest s'" "buffer_inv b'" "buf_content b' = buf_content b1 @ drop ?c p"
      using Suc.IH [OF s1(2) b1(2)] by blast
    moreover have "0 < length p \<and> length p < SFTP_PACKET_SIZE_MAX"
      using False Suc.prems(3) by (simp add: SFTP_PACKET_SIZE_MAX_def)
    ultimately show ?thesis
      using s1(1) b1(1,3) c(1) by (simp del: length_greater_0_conv)
  qed
qed (auto split: if_splits)

text \<open>
  C27. A packet that is there is read. When the channel holds a packet's frame, the event loop
  returns at once where there is nothing to wait for, and memory does not run out,
  \<^verbatim>\<open>sftp_packet_read\<close> comes to an end and returns this packet; its loops go round no more often
  than the packet has blocks of 16384 bytes, and one more.
\<close>

theorem packet_read_completes:
  assumes "ready (sf_channel sf) (sftp_frame type p @ rest) s" and "prompt_loop (io_wait io)"
    and "\<forall>n. heap_grants (io_heap io) n" and "length p < 100000000" and "length p div 16384 + 2 \<le> io_fuel io"
    and "sf_read_packet sf = Some (t, b)" and "\<And>b0. b = Some b0 \<Longrightarrow> buffer_inv b0"
  shows "\<exists>b' s'. sftp_packet_read io sf s = Ret (True, sf\<lparr>sf_read_packet := Some (type, Some b')\<rparr>, s') \<and>
    buffer_inv b' \<and> buf_content b' = p \<and> ready (sf_channel sf) rest s'"
proof -
  let ?h = "io_heap io" and ?k = "io_fuel io" and ?d = "be_bytes (of_nat (length p) + 1 :: u32)"
  obtain b0 where b0: "(case b of Some b \<Rightarrow> (case ssh_buffer_reinit ?h b of (rc, b1) \<Rightarrow> if rc \<noteq> 0 then None else Some b1)
      | None \<Rightarrow> ssh_buffer_new ?h) = Some b0" "buffer_inv b0" "buf_content b0 = []"
  proof (cases b)
    case None
    with buffer_new_granted [OF assms(3)] buffer_new_Some that show ?thesis
      by auto
  next
    case (Some b0)
    with assms(7) obtain b1 where "ssh_buffer_reinit ?h b0 = (0, b1)" "buffer_inv b1" "buf_content b1 = []"
      using reinit_granted [OF _ assms(3)] by metis
    with Some that show ?thesis
      by auto
  qed
  let ?sf = "sf\<lparr>sf_read_packet := Some (t, Some b0)\<rparr>"
  have frame: "sftp_frame type p @ rest = ?d @ [type] @ p @ rest"
    by (simp add: sftp_frame_def sftp_header_def)
  have r0: "ready (sf_channel ?sf) (?d @ [type] @ p @ rest) s"
    using assms(1) unfolding frame by simp
  obtain s1 where s1: "read_exact ?k io 4 [] ?sf s = Ret (Some ?d, ?sf, s1)" "ready (sf_channel ?sf) ([type] @ p @ rest) s1"
    by (rule ready_exact [OF r0 assms(2), of ?k]) (use assms(5) in \<open>auto simp flip: length_greater_0_conv\<close>)
  obtain s2 where s2: "read_exact ?k io 1 [] ?sf s1 = Ret (Some [type], ?sf, s2)" "ready (sf_channel ?sf) (p @ rest) s2"
    by (rule ready_exact [OF s1(2) assms(2), of ?k]) (use assms(5) in auto)
  have n: "unat (bswap (load_bytes ?d) :: u32) = Suc (length p)"
  proof -
    have "bswap (load_bytes ?d) = (of_nat (Suc (length p)) :: u32)"
      by (simp add: bswap_load_be)
    moreover have "unat (of_nat (Suc (length p)) :: u32) = Suc (length p)"
      by (subst unat_of_nat) (use assms(4) in simp)
    ultimately show ?thesis
      by simp
  qed
  obtain b1 where b1: "ssh_buffer_allocate_size ?h b0 (length p) = (0, b1)"
    using allocate_size_succeeds [OF assms(3), of "length p" b0] assms(4)
    by (cases "ssh_buffer_allocate_size ?h b0 (length p)") (auto simp: BUFFER_SIZE_MAX_def)
  note al = allocate_size_props(1,2) [OF b0(2) b1]
  have k: "if p = [] then 0 < ?k else length p div 16384 + 2 \<le> ?k"
    using assms(5) by auto
  obtain b2 s3 where b2: "read_rest ?k io (length p) b1 ?sf s2 = Ret (True, b2, ?sf, s3)"
    "ready (sf_channel ?sf) rest s3" "buffer_inv b2" "buf_content b2 = p"
    using ready_rest [OF s2(2) assms(2,3) al(1) _ k] al(2) b0(3) assms(4) by auto
  have "sftp_packet_read io sf s = Ret (True, ?sf\<lparr>sf_read_packet := Some (type, Some b2)\<rparr>, s3)"
    using assms(4) b0(1) s1(1) s2(1) b1 b2(1)
    by (simp add: sftp_packet_read_def Let_def assms(6) n SFTP_PACKET_SIZE_MAX_def)
  with b2 show ?thesis
    by (intro exI [of _ b2] exI [of _ s3]) simp
qed

text \<open>A channel that holds bytes, and a loop with nothing to bring.\<close>

definition filled_session :: "bytes \<Rightarrow> ssh_session" where
  "filled_session x = channel_session\<lparr>s_channels := [(1, open_channel\<lparr>ch_stdout := Some (holding x), ch_local_window := 1280000\<rparr>)]\<rparr>"

definition still_loop :: event_loop where
  "still_loop P s = Ret (SSH_OK, s)"

definition sample_io :: sftp_io where
  "sample_io = \<lparr>io_wait = still_loop, io_handle = (\<lambda>s. Ret (SSH_OK, s)), io_env = quiet_env, io_fuel = 3\<rparr>"

definition sample_sftp :: sftp_session where
  "sample_sftp = empty_sftp 1 (Some (0, Some roomy_buffer))"

lemma sample_props:
  "only_brings a (io_wait sample_io)" "prompt_loop (io_wait sample_io)" "\<forall>n. heap_grants (io_heap sample_io) n"
  "io_fuel sample_io = 3" "sf_channel sample_sftp = 1" "sf_read_packet sample_sftp = Some (0, Some roomy_buffer)"
  by (auto simp: only_brings_def prompt_loop_def sample_io_def still_loop_def io_heap_def quiet_env_def sample_sftp_def
      empty_sftp_def intro: exI [of _ "[]"])

lemma filled_ready:
  assumes "length x < 60"
  shows "ready 1 x (filled_session x)" and "holds 1 False x (filled_session x)"
proof -
  have c: "s_session_state channel_session \<noteq> SSH_SESSION_STATE_ERROR" "ch_state open_channel = SSH_CHANNEL_STATE_OPEN"
    by code_simp+
  show "ready 1 x (filled_session x)"
    using assms holding_props [of x] c
    by (simp add: ready_def filled_session_def channel_at_def WINDOWLIMIT_def BUFFER_SIZE_MAX_def)
  show "holds 1 False x (filled_session x)"
    using assms holding_props [of x]
    by (simp add: holds_def filled_session_def channel_at_def channel_buffer_def BUFFER_SIZE_MAX_def)
qed

theorem packet_read_completes_witness:
  "\<exists>b' s'. sftp_packet_read sample_io sample_sftp (filled_session [0, 0, 0, 3, 102, 9, 8, 7]) =
    Ret (True, sample_sftp\<lparr>sf_read_packet := Some (102, Some b')\<rparr>, s') \<and> buf_content b' = [9, 8] \<and> ready 1 [7] s'"
proof -
  have "sftp_frame 102 [9, 8] @ [7] = [0, 0, 0, 3, 102, 9, 8, 7]"
    by code_simp
  with filled_ready(1) [of "[0, 0, 0, 3, 102, 9, 8, 7]"]
  have "ready (sf_channel sample_sftp) (sftp_frame 102 [9, 8] @ [7]) (filled_session [0, 0, 0, 3, 102, 9, 8, 7])"
    by (simp add: sample_props)
  from packet_read_completes [OF this sample_props(2,3) _ _ sample_props(6)] show ?thesis
    by (auto simp: sample_props)
qed

theorem packet_read_cuts_frame_witness:
  "\<exists>sf' s'. sftp_packet_read sample_io sample_sftp (filled_session [0, 0, 0, 3, 102, 9, 8, 7]) = Ret (True, sf', s') \<and>
    (\<exists>type p b inp rest. [0, 0, 0, 3, 102, 9, 8, 7] @ inp = sftp_frame type p @ rest \<and> holds 1 False rest s' \<and>
      sf_read_packet sf' = Some (type, Some b) \<and> buf_content b = p)"
proof -
  let ?x = "[0, 0, 0, 3, 102, 9, 8, 7]"
  have "(case sftp_packet_read sample_io sample_sftp (filled_session ?x) of Ret (ok, _) \<Rightarrow> ok | Overflow \<Rightarrow> False)"
    by code_simp
  then obtain sf' s' where read: "sftp_packet_read sample_io sample_sftp (filled_session ?x) = Ret (True, sf', s')"
    by (auto split: run.splits)
  have "holds (sf_channel sample_sftp) False ?x (filled_session ?x)"
    using filled_ready(2) [of ?x] by (simp add: sample_props)
  from packet_read_cuts_frame [OF sample_props(1) read this] sample_props(5,6) read show ?thesis
    by fastforce
qed

end
