(* ===== verification/Sftp_Requests.thy ===== *)
theory Sftp_Requests
  imports Sftp_Protocol
begin

text \<open>
  Requests of the file transfer client and their replies: what is sent, which reply a request
  takes, and what a sequence of reads of a file returns.
\<close>

subsection \<open>Requests and their replies\<close>

text \<open>The reading of packets changes the error number and the packet read into, nothing else of the session.\<close>

definition same_session :: "sftp_session \<Rightarrow> sftp_session \<Rightarrow> bool" where
  "same_session sf f \<longleftrightarrow> sf_queue f = sf_queue sf \<and> sf_id_counter f = sf_id_counter sf \<and> sf_channel f = sf_channel sf \<and>
     sf_version f = sf_version sf \<and> sf_ext f = sf_ext sf"

lemma same_session_simps [simp]:
  "same_session sf sf"
  "same_session sf (f\<lparr>sf_errnum := e\<rparr>) = same_session sf f"
  "same_session sf (f\<lparr>sf_read_packet := q\<rparr>) = same_session sf f"
  "same_session (f\<lparr>sf_read_packet := q\<rparr>) sf = same_session f sf"
  "same_session sf (sftp_set_error e f) = same_session sf f"
  by (simp_all add: same_session_def sftp_set_error_def)

lemma same_session_trans: "same_session f g \<Longrightarrow> same_session sf f \<Longrightarrow> same_session sf g"
  by (simp add: same_session_def)

abbreviation keeps_session :: "sftp_session \<Rightarrow> ('a \<times> sftp_session \<times> 'b) run \<Rightarrow> bool" where
  "keeps_session sf r \<equiv> ends (\<lambda>y. same_session sf (fst (snd y))) r"

lemma ends_any: "(\<And>x. ends P (f x)) \<Longrightarrow> ends P (run_bind r f)"
  by (rule ends_bind [where Q = "\<lambda>_. True"]) (simp_all add: ends_def)

lemma read_exact_session: "same_session sf f \<Longrightarrow> keeps_session sf (read_exact k io n acc f s)"
  by (induction k arbitrary: acc s) (auto intro!: ends_any ends_rules ends_with_channel)

lemma read_rest_session:
  "same_session sf f \<Longrightarrow> ends (\<lambda>y. same_session sf (fst (snd (snd y)))) (read_rest k io n b f s)"
  by (induction k arbitrary: n b s) (auto intro!: ends_any ends_rules ends_with_channel)

lemma packet_read_session: "keeps_session sf (sftp_packet_read io sf s)"
  unfolding sftp_packet_read_def Let_def
  by (intro ends_rules ends_bind [OF read_exact_session] ends_bind [OF read_rest_session]) auto

lemma get_message_session:
  "sftp_get_message h sf = Ret (m, sf') \<Longrightarrow> same_session sf sf'"
  by (auto simp: sftp_get_message_def Let_def case_prod_unfold split: option.splits if_splits)

lemma dispatch_queues:
  assumes "sftp_read_and_dispatch io sf s = Ret (rc, sf', s')"
  obtains ms where "sf_queue sf' = sf_queue sf @ ms" and "rc < 0 \<longrightarrow> ms = []" and "\<not> rc < 0 \<longrightarrow> (\<exists>m. ms = [m])"
    and "sf_id_counter sf' = sf_id_counter sf" and "sf_channel sf' = sf_channel sf"
proof -
  from assms obtain ok sf1 s1 where p: "sftp_packet_read io sf s = Ret (ok, sf1, s1)"
    and r: "(if \<not> ok then Ret (- 1, sf1, s1)
       else run_bind (sftp_get_message (io_heap io) sf1) (\<lambda>(msg, sf2).
         case msg of
           None \<Rightarrow> Ret (- 1, sf2, s1)
         | Some m \<Rightarrow> (case sftp_enqueue (io_heap io) m sf2 of (rc, sf3) \<Rightarrow> Ret (if rc < 0 then - 1 else 0, sf3, s1)))) = Ret (rc, sf', s')"
    by (auto simp: sftp_read_and_dispatch_def run_bind_Ret)
  have sf1: "same_session sf sf1"
    using endsD [OF packet_read_session p] by simp
  show thesis
  proof (cases ok)
    case False
    with r sf1 show ?thesis
      by (intro that [of "[]"]) (auto simp: same_session_def)
  next
    case True
    with r obtain msg sf2 where g: "sftp_get_message (io_heap io) sf1 = Ret (msg, sf2)"
      and r2: "(case msg of
           None \<Rightarrow> Ret (- 1, sf2, s1)
         | Some m \<Rightarrow> (case sftp_enqueue (io_heap io) m sf2 of (rc, sf3) \<Rightarrow> Ret (if rc < 0 then - 1 else 0, sf3, s1))) = Ret (rc, sf', s')"
      by (auto simp: run_bind_Ret)
    note sf2 = get_message_session [OF g]
    from r2 have "(rc < 0 \<and> sf_queue sf' = sf_queue sf2 \<or> \<not> rc < 0 \<and> (\<exists>m. sf_queue sf' = sf_queue sf2 @ [m])) \<and>
        sf_id_counter sf' = sf_id_counter sf2 \<and> sf_channel sf' = sf_channel sf2"
      by (auto simp: sftp_enqueue_def sftp_set_error_def split: option.splits if_splits)
    with sf1 sf2 have "sf_id_counter sf' = sf_id_counter sf" "sf_channel sf' = sf_channel sf"
      and "rc < 0 \<and> sf_queue sf' = sf_queue sf @ [] \<or> \<not> rc < 0 \<and> (\<exists>m. sf_queue sf' = sf_queue sf @ [m])"
      by (simp_all add: same_session_def)
    with that show ?thesis
      by blast
  qed
qed

definition by_number :: "u32 \<Rightarrow> sftp_message list \<Rightarrow> sftp_message list" where
  "by_number n ms = filter (\<lambda>m. sm_id m = n) ms"

lemma by_number_append [simp]: "by_number n (xs @ ys) = by_number n xs @ by_number n ys"
  by (simp add: by_number_def)

lemma dequeue_from_numbers:
  "fst (dequeue_from n q) = None \<Longrightarrow> snd (dequeue_from n q) = q \<and> by_number n q = []"
  "fst (dequeue_from n q) = Some m \<Longrightarrow> by_number n q = m # by_number n (snd (dequeue_from n q))"
  "j \<noteq> n \<Longrightarrow> by_number j (snd (dequeue_from n q)) = by_number j q"
  by (induction q) (auto simp: by_number_def case_prod_unfold)

lemma dequeue_numbers:
  assumes "sftp_dequeue n sf = (r, sf')"
  shows "r = None \<Longrightarrow> sf' = sf \<and> by_number n (sf_queue sf) = []"
    and "r = Some m \<Longrightarrow> by_number n (sf_queue sf) = m # by_number n (sf_queue sf')"
    and "j \<noteq> n \<Longrightarrow> by_number j (sf_queue sf') = by_number j (sf_queue sf)"
proof -
  have d: "r = fst (dequeue_from n (sf_queue sf))" "sf' = sf\<lparr>sf_queue := snd (dequeue_from n (sf_queue sf))\<rparr>"
    using assms by (simp_all add: sftp_dequeue_def case_prod_unfold)
  show "r = None \<Longrightarrow> sf' = sf \<and> by_number n (sf_queue sf) = []"
    using dequeue_from_numbers(1) [of n "sf_queue sf"] by (simp add: d)
  show "r = Some m \<Longrightarrow> by_number n (sf_queue sf) = m # by_number n (sf_queue sf')"
    using dequeue_from_numbers(2) [of n "sf_queue sf" m] by (simp add: d)
  show "j \<noteq> n \<Longrightarrow> by_number j (sf_queue sf') = by_number j (sf_queue sf)"
    using dequeue_from_numbers(3) [of j n "sf_queue sf"] by (simp add: d)
qed

text \<open>The replies that came in while the session went from one state to the other.\<close>

inductive arrivals :: "sftp_io \<Rightarrow> sftp_session \<Rightarrow> ssh_session \<Rightarrow> sftp_message list \<Rightarrow> sftp_session \<Rightarrow> ssh_session \<Rightarrow> bool" for io where
  none: "arrivals io sf s [] sf s"
| poll: "arrivals io sf s ms sf1 s1 \<Longrightarrow> ssh_channel_poll (io_handle io) (sf_channel sf1) False s1 = Ret (rc, s2) \<Longrightarrow>
    arrivals io sf s ms sf1 s2"
| packet: "arrivals io sf s ms sf1 s1 \<Longrightarrow> sftp_read_and_dispatch io sf1 s1 = Ret (rc, sf2, s2) \<Longrightarrow>
    sf_queue sf2 = sf_queue sf1 @ ms' \<Longrightarrow> arrivals io sf s (ms @ ms') sf2 s2"

lemma arrivals_queue: "arrivals io sf s ms sf' s' \<Longrightarrow> sf_queue sf' = sf_queue sf @ ms \<and> sf_id_counter sf' = sf_id_counter sf"
  by (induction rule: arrivals.induct) (auto elim: dispatch_queues)

lemma arrivals_trans:
  assumes "arrivals io sf1 s1 ms2 sf2 s2" and "arrivals io sf s ms1 sf1 s1"
  shows "arrivals io sf s (ms1 @ ms2) sf2 s2"
  using assms
proof (induction rule: arrivals.induct)
  case (packet sf1 s1 ms2 sf2 s2 rc sf3 s3 ms')
  then show ?case
    using arrivals.packet [of io sf s "ms1 @ ms2" sf2 s2 rc sf3 s3 ms'] by simp
qed (auto intro: arrivals.poll)

lemma await_arrivals:
  assumes "await_reply k io nb n sf s = Ret (r, sf', s')"
  shows "\<exists>ms sf1. arrivals io sf s ms sf1 s' \<and> (case r of Reply m \<Rightarrow> sftp_dequeue n sf1 = (Some m, sf') | _ \<Rightarrow> sf' = sf1)"
  using assms
proof (induction k arbitrary: sf s)
  case (Suc k)
  from Suc.prems obtain got s0 where got: "(if nb then ssh_channel_poll (io_handle io) (sf_channel sf) False s else Ret (1, s)) = Ret (got, s0)"
    and r0: "(if got = 0 then Ret (NothingYet, sf, s0)
       else run_bind (sftp_read_and_dispatch io sf s0) (\<lambda>(rc, sf1, s1).
         if rc < 0 then Ret (Broken, sf1, s1)
         else case sftp_dequeue n sf1 of
             (Some m, sf2) \<Rightarrow> Ret (Reply m, sf2, s1)
           | (None, sf2) \<Rightarrow> await_reply k io nb n sf2 s1)) = Ret (r, sf', s')"
    by (auto simp: run_bind_Ret)
  have a0: "arrivals io sf s [] sf s0"
    using got arrivals.poll [OF arrivals.none] arrivals.none by (auto split: if_splits)
  show ?case
  proof (cases "got = 0")
    case True
    with r0 a0 show ?thesis
      by auto
  next
    case False
    with r0 obtain rc sf1 s1 where d: "sftp_read_and_dispatch io sf s0 = Ret (rc, sf1, s1)"
      and r1: "(if rc < 0 then Ret (Broken, sf1, s1)
         else case sftp_dequeue n sf1 of
             (Some m, sf2) \<Rightarrow> Ret (Reply m, sf2, s1)
           | (None, sf2) \<Rightarrow> await_reply k io nb n sf2 s1) = Ret (r, sf', s')"
      by (auto simp: run_bind_Ret)
    obtain ms where "sf_queue sf1 = sf_queue sf @ ms"
      by (rule dispatch_queues [OF d])
    with arrivals.packet [OF a0 d] have a1: "arrivals io sf s ms sf1 s1"
      by simp
    obtain w sf2 where dq: "sftp_dequeue n sf1 = (w, sf2)"
      by (rule prod.exhaust)
    consider "rc < 0" "r = Broken" "sf' = sf1" "s' = s1" | m where "w = Some m" "r = Reply m" "sf' = sf2" "s' = s1"
      | "w = None" "await_reply k io nb n sf2 s1 = Ret (r, sf', s')"
      using r1 dq by (auto split: if_splits option.splits)
    then show ?thesis
    proof cases
      case 3
      then have "sf2 = sf1"
        using dequeue_numbers(1) [OF dq] by simp
      with Suc.IH [OF 3(2)] arrivals_trans [OF _ a1] show ?thesis
        by blast
    qed (use a1 dq in auto)
  qed
qed simp

lemma dequeued_number: "sftp_dequeue n sf = (Some m, sf') \<Longrightarrow> sm_id m = n"
proof -
  assume "sftp_dequeue n sf = (Some m, sf')"
  then have "m \<in> set (by_number n (sf_queue sf))"
    by (simp add: dequeue_numbers(2))
  then show "sm_id m = n"
    by (simp add: by_number_def)
qed

lemma await_number: "await_reply k io nb n sf s = Ret (Reply m, sf', s') \<Longrightarrow> sm_id m = n"
  by (auto dest!: await_arrivals dequeued_number)


subsection \<open>What a request sends\<close>

lemma plain_reserve: "field_plain f \<Longrightarrow> field_reserve f = length (field_wire nat_bignum f)"
  by (cases f) (auto simp: sized_def ss_contents_def ssh_string_ok_def)

lemma packet_write_frame:
  assumes "sftp_packet_write io type b sf s = Ret (r, sf', s')" and "buffer_inv b" and "0 \<le> r"
  shows "ssh_channel_write (io_wait io) (io_env io) (sf_channel sf) (Some (sftp_frame type (buf_content b))) s = Ret (r, s')"
    and "sf' = sf"
proof -
  have len: "length (sftp_header type (length (buf_content b))) = 5"
    by (simp add: sftp_header_def)
  obtain rc b1 where b1: "ssh_buffer_prepend_data (io_heap io) b (sftp_header type (length (buf_content b))) 5 = (rc, b1)"
    by (rule prod.exhaust)
  with assms(1,3) have "\<not> rc < 0"
    by (auto simp: sftp_packet_write_def get_len_content [OF assms(2)])
  with b1 have "buf_content b1 = sftp_frame type (buf_content b)"
    by (cases rule: prepend_data_cases [OF assms(2), where h = "io_heap io" and len = 5 and
          d = "sftp_header type (length (buf_content b))"]) (simp_all add: len sftp_frame_def)
  with assms(1,3) b1 \<open>\<not> rc < 0\<close>
  have "ssh_channel_write (io_wait io) (io_env io) (sf_channel sf) (Some (sftp_frame type (buf_content b))) s = Ret (r, s') \<and>
      sf' = sf"
    by (auto simp: sftp_packet_write_def get_len_content [OF assms(2)] run_bind_Ret split: if_splits)
  then show "ssh_channel_write (io_wait io) (io_env io) (sf_channel sf) (Some (sftp_frame type (buf_content b))) s = Ret (r, s')"
    and "sf' = sf"
    by simp_all
qed

lemma send_frame:
  assumes "sftp_send io oom type parts tail sf s = Ret (Some n, sf', s')"
    and "\<forall>f\<in>set (parts (sf\<lparr>sf_id_counter := n\<rparr>)). field_plain f" and "\<And>b. buffer_inv b \<Longrightarrow> appends b x (tail b)"
    and "length (wire_of nat_bignum (parts (sf\<lparr>sf_id_counter := n\<rparr>))) < 4294967296"
  shows "n = sf_id_counter sf + 1" and "sf' = sf\<lparr>sf_id_counter := n\<rparr>"
    and "\<exists>r. 0 \<le> r \<and> ssh_channel_write (io_wait io) (io_env io) (sf_channel sf)
      (Some (sftp_frame type (be_bytes n @ wire_of nat_bignum (parts (sf\<lparr>sf_id_counter := n\<rparr>)) @ x))) s = Ret (r, s')"
proof -
  let ?n = "sf_id_counter sf + 1" and ?sf = "sf\<lparr>sf_id_counter := sf_id_counter sf + 1\<rparr>"
  let ?fs = "FDword ?n # parts ?sf"
  obtain b b1 b2 rc2 r sf2 where b: "ssh_buffer_new (io_heap io) = Some b"
    and b1: "pack_call (io_heap io) b ?fs = (SSH_OK, b1)" and b2: "tail b1 = (rc2, b2)" "\<not> rc2 < 0"
    and w: "sftp_packet_write io type b2 ?sf s = Ret (r, sf2, s')" "0 \<le> r" and n: "n = ?n" "sf' = sf2"
    using assms(1)
    by (auto simp: sftp_send_def sftp_get_new_id_def run_bind_Ret split: option.splits prod.splits if_splits)
  note inv = buffer_new_Some [OF b]
  have "sum_list (map field_reserve (parts ?sf)) = length (wire_of nat_bignum (parts ?sf))"
    using assms(2) plain_reserve by (simp add: n wire_of_def length_concat o_def cong: map_cong)
  then have "appends b (wire_of nat_bignum ?fs) (SSH_OK, b1)"
    using pack_call_appends [OF inv(1), of ?fs "io_heap io"] assms(2,4) n b1 by simp
  then have b1': "buffer_inv b1" "buf_content b1 = wire_of nat_bignum ?fs"
    using inv(2) by (auto simp: appends_def)
  have "appends b1 x (rc2, b2)"
    using assms(3) [OF b1'(1)] b2(1) by simp
  with b2(2) b1' have b2': "buffer_inv b2" "buf_content b2 = wire_of nat_bignum ?fs @ x"
    by (auto simp: appends_def)
  note frame = packet_write_frame [OF w(1) b2'(1) w(2)]
  show "n = sf_id_counter sf + 1"
    by (rule n)
  show "sf' = sf\<lparr>sf_id_counter := n\<rparr>"
    using frame(2) n by simp
  show "\<exists>r. 0 \<le> r \<and> ssh_channel_write (io_wait io) (io_env io) (sf_channel sf)
      (Some (sftp_frame type (be_bytes n @ wire_of nat_bignum (parts (sf\<lparr>sf_id_counter := n\<rparr>)) @ x))) s = Ret (r, s')"
    using frame(1) w(2) b2'(2) n by (auto simp: wire_of_def)
qed

lemma reply_data_short: "reply_data h m count = Some d \<Longrightarrow> length d \<le> count"
  by (auto simp: reply_data_def split: prod.splits option.splits if_splits)

lemma sftp_read_cases:
  assumes "sftp_read io fl count sf s = Ret (r, d, fl', sf', s')"
  obtains (quiet) "d = []" and "fl_offset fl' = fl_offset fl" and "fl_handle fl' = fl_handle fl"
  | (data) m where "sftp_ask io False (fl_nonblocking fl) 5 (\<lambda>f. read_fields fl (of_nat count)) no_tail sf s = Ret (Reply m, sf', s')"
      and "sm_packet_type m = 103" and "reply_data (io_heap io) m count = Some d" and "r = int (length d)" and "\<not> fl_eof fl"
      and "fl' = fl\<lparr>fl_offset := fl_offset fl + of_nat (length d)\<rparr>"
proof (cases "fl_eof fl")
  case True
  with assms quiet show thesis
    by (simp add: sftp_read_def)
next
  case False
  with assms obtain q sf1 s1 where ask: "sftp_ask io False (fl_nonblocking fl) 5 (\<lambda>f. read_fields fl (of_nat count)) no_tail sf s =
      Ret (q, sf1, s1)"
    and c: "(case q of
          Broken \<Rightarrow> Ret (- 1, [], fl, sf1, s1)
        | NothingYet \<Rightarrow> Ret (0, [], fl, sf1, s1)
        | Reply m \<Rightarrow>
            if sm_packet_type m = 101 then
              (case received_status (io_heap io) m sf1 of
                 (st, sf2) \<Rightarrow>
                   if st = Some SSH_FX_EOF then Ret (0, [], fl\<lparr>fl_eof := True\<rparr>, sf2, s1) else Ret (- 1, [], fl, sf2, s1))
            else if sm_packet_type m = 103 then
              (case reply_data (io_heap io) m count of
                 None \<Rightarrow> Ret (- 1, [], fl, sf1, s1)
               | Some d \<Rightarrow> Ret (int (length d), d, fl\<lparr>fl_offset := fl_offset fl + of_nat (length d)\<rparr>, sf1, s1))
            else Ret (- 1, [], fl, sftp_set_error SSH_FX_BAD_MESSAGE sf1, s1)) = Ret (r, d, fl', sf', s')"
    by (auto simp: sftp_read_def Let_def run_bind_Ret)
  show thesis
  proof (cases q)
    case (Reply m)
    with c ask False quiet data [of m] show thesis
      by (cases "reply_data (io_heap io) m count"; cases "received_status (io_heap io) m sf1"; auto split: if_splits)
  qed (use c quiet in auto)
qed

text \<open>
  C24. What a read asks for. A call of \<^verbatim>\<open>sftp_read\<close> that returns data took it out of a reply of
  data whose number is the one of the request it has just sent, and the request it sent, as one
  frame, asks the file's handle for the bytes from the offset of the file on, no more than the
  caller has room for. The data is no longer than that, and the offset moves behind it. Without
  data the offset stays.
\<close>

theorem read_asks_at_the_offset:
  assumes "sftp_read io fl count sf s = Ret (r, d, fl', sf', s')" and "ssh_string_ok (fl_handle fl)"
  shows "fl_offset fl' = fl_offset fl + of_nat (length d) \<and> fl_handle fl' = fl_handle fl \<and> length d \<le> count \<and>
    (d \<noteq> [] \<longrightarrow> r = int (length d) \<and> \<not> fl_eof fl \<and>
      (\<exists>m w s1. sm_id m = sf_id_counter sf + 1 \<and> sm_packet_type m = 103 \<and> reply_data (io_heap io) m count = Some d \<and>
        0 \<le> w \<and> ssh_channel_write (io_wait io) (io_env io) (sf_channel sf)
          (Some (sftp_frame 5 (be_bytes (sf_id_counter sf + 1) @ sized (ss_contents (fl_handle fl)) @ be_bytes (fl_offset fl) @
            be_bytes (of_nat count :: u32)))) s = Ret (w, s1)))"
proof -
  let ?parts = "\<lambda>f :: sftp_session. read_fields fl (of_nat count)"
  from assms(1) show ?thesis
  proof (cases rule: sftp_read_cases)
    case quiet
    then show ?thesis
      by simp
  next
    case (data m)
    then obtain n sf2 s2 where send: "sftp_send io False 5 ?parts no_tail sf s = Ret (Some n, sf2, s2)"
      and await: "await_reply (io_fuel io) io (fl_nonblocking fl) n sf2 s2 = Ret (Reply m, sf', s')"
      by (auto simp: sftp_ask_def run_bind_Ret split: option.splits)
    have plain: "\<forall>f\<in>set (read_fields fl (of_nat count)). field_plain f"
      "length (wire_of nat_bignum (read_fields fl (of_nat count))) < 4294967296"
      using assms(2) by (auto simp: read_fields_def wire_of_def sized_def ss_contents_def ssh_string_ok_def STRING_SIZE_MAX_def)
    have none: "appends b [] (no_tail b)" if "buffer_inv b" for b
      using that by (simp add: no_tail_def appends_def)
    note frame = send_frame [OF send plain(1) none plain(2)]
    have "sm_id m = n"
      by (rule await_number [OF await])
    with frame data reply_data_short show ?thesis
      by (auto simp: read_fields_def wire_of_def)
  qed
qed

subsection \<open>Reading a file\<close>

text \<open>
  The reads of one file, without a seek in between: for each, the offset it started from, the room
  the caller had and the data it returned. What else happens to the sessions between two reads is
  open.
\<close>

inductive read_run :: "sftp_io \<Rightarrow> sftp_file \<Rightarrow> (u64 \<times> nat \<times> bytes) list \<Rightarrow> sftp_file \<Rightarrow> bool" for io where
  start: "read_run io fl [] fl"
| step: "read_run io fl rs fl1 \<Longrightarrow> sftp_read io fl1 count sf s = Ret (r, d, fl2, sf', s') \<Longrightarrow>
    read_run io fl (rs @ [(fl_offset fl1, count, d)]) fl2"

definition run_data :: "(u64 \<times> nat \<times> bytes) list \<Rightarrow> bytes" where
  "run_data rs = concat (map (\<lambda>(off, count, d). d) rs)"

lemma read_moves_offset:
  assumes "sftp_read io fl count sf s = Ret (r, d, fl', sf', s')"
  shows "fl_offset fl' = fl_offset fl + of_nat (length d)"
  using assms by (cases rule: sftp_read_cases) auto


subsection \<open>A server that answers\<close>

text \<open>A session whose channel takes requests and already holds the frames that answer them.\<close>

definition served_session :: "bytes \<Rightarrow> ssh_session" where
  "served_session x = channel_session\<lparr>s_channels := [(1, open_channel\<lparr>ch_stdout := Some (holding x),
     ch_local_window := 1280000, ch_remote_window := 1000, ch_remote_maxpacket := 32768\<rparr>)]\<rparr>"

definition sample_string :: ssh_string where
  "sample_string = \<lparr>ss_size = bswap 1, ss_data = [9, 0]\<rparr>"

definition sample_file :: sftp_file where
  "sample_file = \<lparr>fl_handle = sample_string, fl_offset = 3, fl_eof = False, fl_nonblocking = False\<rparr>"

text \<open>A reply to another request, then the data 5, 6 for the request 1.\<close>

definition sample_replies :: bytes where
  "sample_replies = [0, 0, 0, 5, 102, 0, 0, 0, 7, 0, 0, 0, 11, 103, 0, 0, 0, 1, 0, 0, 0, 2, 5, 6]"

lemma sample_string_ok: "ssh_string_ok sample_string"
  by code_simp

lemma sample_read:
  obtains fl' sf' s' where "sftp_read sample_io sample_file 10 sample_sftp (served_session sample_replies) = Ret (2, [5, 6], fl', sf', s')"
proof -
  have "(case sftp_read sample_io sample_file 10 sample_sftp (served_session sample_replies) of
      Ret (r, d, _) \<Rightarrow> r = 2 \<and> d = [5, 6] | Overflow \<Rightarrow> False)"
    by code_simp
  with that show thesis
    by (auto split: run.splits)
qed

lemma awaited_reply: "(case r of Reply m \<Rightarrow> P | _ \<Rightarrow> False) \<Longrightarrow> (\<And>m. r = Reply m \<Longrightarrow> P \<Longrightarrow> thesis) \<Longrightarrow> thesis"
  by (cases r) auto


theorem read_asks_at_the_offset_witness:
  "\<exists>fl' sf' s'. sftp_read sample_io sample_file 10 sample_sftp (served_session sample_replies) = Ret (2, [5, 6], fl', sf', s') \<and>
    fl_offset fl' = 5"
proof -
  obtain fl' sf' s' where r: "sftp_read sample_io sample_file 10 sample_sftp (served_session sample_replies) = Ret (2, [5, 6], fl', sf', s')"
    by (rule sample_read)
  have "ssh_string_ok (fl_handle sample_file)"
    by (simp add: sample_file_def sample_string_ok)
  from read_asks_at_the_offset [OF r this] r show ?thesis
    by (simp add: sample_file_def)
qed


end
