(* ===== verification/Scp_Transfer.thy ===== *)
theory Scp_Transfer
  imports Scp Sftp_Requests
begin

text \<open>
  What the copying of files of \<open>Scp\<close> keeps to: the line that announces a file is read back as it
  was meant, and the bytes of a file that are sent or taken are counted against the size that was
  announced.
\<close>

subsection \<open>Numbers as text\<close>

lemma in_base_less: "2 \<le> base \<Longrightarrow> n < base \<Longrightarrow> in_base base n = [of_nat (48 + n)]"
  by (simp add: in_base.simps)

lemma in_base_step: "2 \<le> base \<Longrightarrow> base \<le> n \<Longrightarrow> in_base base n = in_base base (n div base) @ [of_nat (48 + n mod base)]"
  by (subst in_base.simps) auto

lemma unat_digit: "k < 10 \<Longrightarrow> unat (of_nat (48 + k) :: u8) = 48 + k"
  by (subst unat_of_nat) simp

lemma in_base_all:
  assumes "2 \<le> base" and "base \<le> 10"
  shows "(\<forall>c\<in>set (in_base base n). base_digit base c) \<and> base_value base (in_base base n) = n"
proof (induction n rule: less_induct)
  case (less n)
  have digit: "base_digit base (of_nat (48 + k))" "unat (of_nat (48 + k) :: u8) - 48 = k" if "k < base" for k
    using unat_digit [of k] that assms by (simp_all add: base_digit_def)
  show ?case
  proof (cases "n < base")
    case True
    with assms digit [OF True] show ?thesis
      by (simp add: in_base_less base_value_def)
  next
    case False
    then have le: "base \<le> n" and smaller: "n div base < n" and mod: "n mod base < base"
      using assms by simp_all
    have "base_value base (in_base base (n div base) @ [c]) = base * (n div base) + (unat c - 48)" for c
      using less [OF smaller] by (simp add: base_value_def)
    with less [OF smaller] digit [OF mod] show ?thesis
      unfolding in_base_step [OF assms(1) le] by auto
  qed
qed

lemmas in_base_digits = in_base_all [THEN conjunct1] in_base_all [THEN conjunct2]

lemma length_in_base: "2 \<le> base \<Longrightarrow> n < base ^ Suc k \<Longrightarrow> length (in_base base n) \<le> Suc k"
proof (induction k arbitrary: n)
  case 0
  then show ?case
    by (simp add: in_base_less)
next
  case (Suc k)
  show ?case
  proof (cases "n < base")
    case True
    with Suc.prems show ?thesis
      by (simp add: in_base_less)
  next
    case False
    have "n div base < base ^ Suc k"
      using Suc.prems by (simp add: less_mult_imp_div_less mult.commute)
    with Suc.IH [OF Suc.prems(1)] Suc.prems(1) False show ?thesis
      by (simp add: in_base_step)
  qed
qed

lemma base_value_zeros: "base_value base (replicate k 48 @ ds) = base_value base ds"
  by (induction k) (simp_all add: base_value_def)

lemma digit_facts: "base_digit base c \<Longrightarrow> base \<le> 10 \<Longrightarrow> \<not> isspace c \<and> c \<noteq> 45 \<and> c \<noteq> 43 \<and> c \<noteq> 32 \<and> c \<noteq> 0 \<and> c \<noteq> newline"
  by (auto simp: base_digit_def isspace_def word_le_nat_alt)

lemma strtoull_digits:
  assumes "\<forall>c\<in>set ds. base_digit base c" and "base \<le> 10" and "base_value base ds < 18446744073709551616"
  shows "strtoull base ds = base_value base ds"
proof (cases ds)
  case (Cons c t)
  then have "dropWhile isspace ds = ds" "hd ds \<noteq> 45" "hd ds \<noteq> 43"
    using assms digit_facts [of base c] by auto
  moreover have tw: "takeWhile (base_digit base) ds = ds"
    using assms(1) by (simp add: takeWhile_eq_all_conv)
  ultimately show ?thesis
    using assms(3) by (simp add: strtoull_def tw)
qed (simp add: strtoull_def base_value_def)

lemma find_sep_append: "c \<notin> set xs \<Longrightarrow> 0 \<notin> set xs \<Longrightarrow> find_sep (xs @ c # ys) c = Some (length xs)"
  by (induction xs) auto

subsection \<open>The line of a file\<close>

lemma octal_mode_facts:
  assumes "unat mode < 65536"
  shows "\<forall>c\<in>set (octal_mode mode). base_digit 8 c" and "ssh_scp_integer_mode (octal_mode mode) = unat mode"
    and "length (octal_mode mode) \<le> 6"
proof -
  have digits: "\<forall>c\<in>set (octal_mode mode). base_digit 8 c"
    using in_base_digits(1) [of 8 "unat mode"] by (auto simp: octal_mode_def Let_def base_digit_def)
  have v: "base_value 8 (octal_mode mode) = unat mode"
    using in_base_digits(2) [of 8 "unat mode"] by (simp add: octal_mode_def Let_def base_value_zeros)
  show "\<forall>c\<in>set (octal_mode mode). base_digit 8 c"
    by (rule digits)
  show "ssh_scp_integer_mode (octal_mode mode) = unat mode"
    using strtoull_digits [OF digits] assms by (simp add: ssh_scp_integer_mode_def v)
  show "length (octal_mode mode) \<le> 6"
    using length_in_base [of 8 "unat mode" 5] assms by (simp add: octal_mode_def Let_def)
qed

lemma parse_line:
  assumes c: "c = 67 \<or> c = 68" and perms: "\<forall>x\<in>set perms. base_digit 8 x" and n: "\<forall>x\<in>set ds. base_digit 10 x"
    and name: "0 \<notin> set name" "newline \<notin> set name"
  shows "scp_parse_line ([c] @ perms @ [32] @ ds @ [32] @ name @ [newline]) =
    FileLine (c = 67) (ssh_scp_integer_mode perms) (of_nat (strtoull 10 ds)) name"
proof -
  let ?l = "[c] @ perms @ [32] @ ds @ [32] @ name"
  have plain: "x \<noteq> 0 \<and> x \<noteq> newline" if "x \<in> set ?l" for x
    using that c name digit_facts [of 8 x] digit_facts [of 10 x] perms n by auto
  have l: "takeWhile (\<lambda>x. x \<noteq> 0 \<and> x \<noteq> newline) (?l @ [newline]) = ?l"
    using plain by (subst takeWhile_append2) (simp_all del: append.simps)
  have "find_sep ?l 32 = Some (Suc (length perms))"
    using find_sep_append [of 32 "[c] @ perms" "ds @ [32] @ name"] c perms digit_facts [of 8] by force
  moreover have "find_sep (ds @ 32 # name) 32 = Some (length ds)"
    using n digit_facts [of 10] by (intro find_sep_append) force+
  ultimately show ?thesis
    using c l by (auto simp: scp_parse_line_def Let_def simp del: find_sep.simps)
qed

lemma newline_loop_plain: "0 \<notin> set x \<Longrightarrow> 0 \<notin> set (newline_loop x) \<and> newline \<notin> set (newline_loop x)"
  by (induction x) auto

lemma name_and_mode_plain:
  assumes "scp_name_and_mode h filename mode = Some (name, perms)"
  shows "0 \<notin> set name" and "newline \<notin> set name"
proof -
  obtain b q vis rc where "ssh_newline_vis (Some b) (Some q) (2 * strlen b + 1) = (rc, Some vis)" "rc > 0" "name = cstr vis"
    using assms by (auto simp: scp_name_and_mode_def Let_def split: option.splits prod.splits if_splits)
  then have name: "name = cstr (mem_write q 0 (newline_loop (cstr b) @ [0]))"
    by (auto simp: ssh_newline_vis_def Let_def split: if_splits)
  have "mem_write q 0 (newline_loop (cstr b) @ [0]) = newline_loop (cstr b) @ 0 # drop (Suc (length (newline_loop (cstr b)))) q"
    by (simp add: mem_write_def)
  moreover have "0 \<notin> set (cstr b)"
    by simp
  ultimately show "0 \<notin> set name" and "newline \<notin> set name"
    using newline_loop_plain [of "cstr b"] by (simp_all add: name)
qed

text \<open>
  C26. The line that announces a file is read back as it was meant. For every size, every mode a
  file can have and every name without a newline that fits, the receiving side of the protocol takes the
  same mode, size and name out of the line the sending side makes, and the line is one line: its
  only newline is its end, so no name can smuggle in a second request.
\<close>

theorem scp_line_roundtrip:
  assumes "scp_name_and_mode h filename mode = Some (name, perms)" and "unat mode < 65536" and "length name \<le> 900"
  shows "scp_parse_line (scp_file_line perms n name) = FileLine True (unat mode) n name \<and>
    scp_parse_line (scp_directory_line perms name) = FileLine False (unat mode) 0 name \<and>
    (\<exists>l. scp_file_line perms n name = l @ [newline] \<and> newline \<notin> set l) \<and>
    (\<exists>l. scp_directory_line perms name = l @ [newline] \<and> newline \<notin> set l)"
proof -
  note mode = octal_mode_facts [OF assms(2)]
  have "cstr (octal_mode mode @ [0]) = octal_mode mode"
    using mode(1) digit_facts [of 8] by (intro cstr_terminated) force
  then have p: "perms = octal_mode mode"
    using assms(1)
    by (auto simp: scp_name_and_mode_def Let_def ssh_scp_string_mode_def strdup_def split: option.splits prod.splits if_splits)
  have name: "0 \<notin> set name" "newline \<notin> set name"
    using name_and_mode_plain [OF assms(1)] by simp_all
  let ?n = "in_base 10 (unat n)"
  have bound: "unat n < 18446744073709551616"
    using unat_less_pow [of n] by simp
  have "length ?n \<le> Suc 19"
    by (rule length_in_base) (use bound in simp_all)
  then have n: "\<forall>x\<in>set ?n. base_digit 10 x" "strtoull 10 ?n = unat n" "length ?n \<le> 20"
    using in_base_digits(1,2) [of 10 "unat n"] strtoull_digits [of ?n 10] bound by simp_all
  let ?f = "[67] @ perms @ [32] @ ?n @ [32] @ name" and ?d = "[68] @ perms @ [32] @ [48] @ [32] @ name"
  have f: "scp_file_line perms n name = ?f @ [newline]"
    using mode(3) n(3) assms(3) p by (simp add: scp_file_line_def)
  have d: "scp_directory_line perms name = ?d @ [newline]"
    using mode(3) assms(3) p by (simp add: scp_directory_line_def)
  have "newline \<notin> set ?f" "newline \<notin> set ?d"
    using p name mode(1) n(1) digit_facts [of 8] digit_facts [of 10] by auto
  moreover have "\<forall>x\<in>set [48 :: u8]. base_digit 10 x" "strtoull 10 [48] = 0"
    by code_simp+
  ultimately show ?thesis
    using parse_line [of 67 perms ?n name] parse_line [of 68 perms "[48]" name] mode(1,2) n(1,2) name p f d by simp
qed

lemma scp_line_roundtrip_witness:
  "scp_parse_line (scp_file_line (map of_char ''0644'') 1234 (map of_char ''b'')) = FileLine True 420 1234 (map of_char ''b'')"
proof -
  have "scp_name_and_mode roomy_heap (map of_char ''a/b'' @ [0]) 420 = Some (map of_char ''b'', map of_char ''0644'')"
    by code_simp
  from scp_line_roundtrip [OF this, of 1234] show ?thesis
    by simp
qed

subsection \<open>The bytes of a file\<close>

lemma channel_write_bounds:
  assumes "ssh_channel_write wait e a (Some d) s = Ret (w, t)" and "w \<noteq> SSH_ERROR"
  shows "0 \<le> w \<and> w \<le> int (length d)"
proof -
  have "ends (\<lambda>y. fst y \<noteq> SSH_ERROR \<longrightarrow> 0 \<le> fst y \<and> fst y \<le> int (length d)) (channel_write_common n wait e a (Some d) err s)"
    for n err
    unfolding channel_write_common_def
    by (intro ends_with_channel ends_rules ends_any) (auto split: write_end.split intro!: ends_any ends_rules)
  from endsD [OF this assms(1) [unfolded ssh_channel_write_def]] assms(2) show ?thesis
    by simp
qed

lemma channel_read_bounds:
  assumes "ssh_channel_read wait e a count err s = Ret (r, d, t)" and "0 \<le> r"
  shows "r = int (length d) \<and> length d \<le> count"
proof -
  have taken: "length x \<le> count" if "take_unread err count c = (x, c')" for c x c'
    using that by (auto simp: take_unread_def Let_def split: option.splits)
  have "ends (\<lambda>y. 0 \<le> fst y \<longrightarrow> fst y = int (length (fst (snd y))) \<and> length (fst (snd y)) \<le> count)
    (ssh_channel_read wait e a count err s)"
    unfolding ssh_channel_read_def ssh_channel_read_timeout_def
    by (intro ends_with_channel ends_rules ends_any) (auto dest: taken)
  from endsD [OF this assms(1)] assms(2) show ?thesis
    by simp
qed

lemma ends_step: "(\<And>x. r = Ret x \<Longrightarrow> ends P (f x)) \<Longrightarrow> ends P (run_bind r f)"
  by (cases r) simp_all

lemma scp_response_ok: "ssh_scp_response io c s = Ret (0, msg, c', s') \<Longrightarrow> c' = c"
proof -
  have "ends (\<lambda>y. fst y = 0 \<longrightarrow> fst (snd (snd y)) = c) (ssh_scp_response io c s)"
    unfolding ssh_scp_response_def with_scp_def
    by (intro ends_option ends_any ends_prod) (auto simp: ends_def unat_eq_0 run_bind_Ret split: list.split if_splits)
  then show "ssh_scp_response io c s = Ret (0, msg, c', s') \<Longrightarrow> c' = c"
    by (auto dest: endsD)
qed

lemma scp_answer_ok: "scp_answer io c s = Ret (SSH_OK, c', s') \<Longrightarrow> c' = c"
  by (auto simp: scp_answer_def run_bind_Ret dest: scp_response_ok split: if_splits)

lemma poll_answered:
  "(if 0 < (p :: int) then scp_answer io c s else Ret (SSH_OK, c, s)) = Ret (SSH_OK, c', t) \<Longrightarrow> c' = c"
  by (auto dest: scp_answer_ok split: if_splits)

lemma send_bounds:
  "scp_send io a (take n d) s = Ret (w, t) \<Longrightarrow> w \<noteq> SSH_ERROR \<Longrightarrow> 0 \<le> w \<and> w \<le> int (length d) \<and> w \<le> int n"
  using channel_write_bounds [of "io_wait io" "io_env io" a "take n d" s w t] by (auto simp: scp_send_def)

text \<open>What the count of a file is after so many more bytes.\<close>

definition scp_counted :: "ssh_scp_states \<Rightarrow> nat \<Rightarrow> ssh_scp \<Rightarrow> ssh_scp" where
  "scp_counted done n c =
     (if scp_processed c + of_nat n = scp_filelen c then c\<lparr>scp_processed := 0, scp_filelen := 0, scp_state := done\<rparr>
      else c\<lparr>scp_processed := scp_processed c + of_nat n\<rparr>)"

lemma scp_write_counts:
  assumes "ssh_scp_write io d c s = Ret (SSH_OK, c', s')"
  obtains a p s1 w s2 where "scp_state c = SSH_SCP_WRITE_WRITING" and "scp_channel c = Some a"
    and "ssh_channel_poll (io_handle io) a False s = Ret (p, s1)"
    and "scp_send io a (take (scp_room c (length d)) d) s1 = Ret (int w, s2)" and "w \<le> length d" and "w \<le> scp_room c (length d)"
    and "c' = scp_counted SSH_SCP_WRITE_INITED w c"
proof -
  have "ends (\<lambda>y. fst y = SSH_OK \<longrightarrow> (\<exists>a p s1 w s2. scp_state c = SSH_SCP_WRITE_WRITING \<and> scp_channel c = Some a \<and>
      ssh_channel_poll (io_handle io) a False s = Ret (p, s1) \<and>
      scp_send io a (take (scp_room c (length d)) d) s1 = Ret (w, s2) \<and> w \<noteq> SSH_ERROR \<and>
      fst (snd y) = scp_counted SSH_SCP_WRITE_INITED (nat w) c)) (ssh_scp_write io d c s)"
    unfolding ssh_scp_write_def with_scp_def Let_def
    by (intro ends_if ends_option ends_step ends_prod)
       (auto simp: scp_counted_def dest!: poll_answered dest: send_bounds)
  from endsD [OF this assms] obtain a p s1 w s2 where
    st: "scp_state c = SSH_SCP_WRITE_WRITING" "scp_channel c = Some a"
      "ssh_channel_poll (io_handle io) a False s = Ret (p, s1)"
      "scp_send io a (take (scp_room c (length d)) d) s1 = Ret (w, s2)" "w \<noteq> SSH_ERROR"
      "c' = scp_counted SSH_SCP_WRITE_INITED (nat w) c"
    by auto
  with send_bounds [OF st(4,5)] show thesis
    by (intro that [of a p s1 "nat w" s2]) auto
qed

lemma accepted:
  assumes "(if q then ssh_scp_accept_request io c s else Ret (SSH_OK, c, s)) = Ret (rc, c0, t)" and "rc \<noteq> SSH_ERROR"
    and "scp_state c0 = SSH_SCP_READ_READING"
  shows "c0 = c\<lparr>scp_state := SSH_SCP_READ_READING\<rparr> \<and> scp_state c \<in> {SSH_SCP_READ_REQUESTED, SSH_SCP_READ_READING}"
  using assms by (auto simp: ssh_scp_accept_request_def with_scp_def run_bind_Ret split: option.splits if_splits)

lemma room_state [simp]: "scp_room (c\<lparr>scp_state := x\<rparr>) n = scp_room c n"
  by (simp add: scp_room_def)

lemma scp_read_counts:
  assumes "ssh_scp_read io n c s = Ret (r, d, c', s')" and "0 \<le> r"
  shows "r = int (length d)" and "length d \<le> scp_room c n"
    and "c' = scp_counted SSH_SCP_READ_INITED (length d) (c\<lparr>scp_state := SSH_SCP_READ_READING\<rparr>)"
    and "scp_state c \<in> {SSH_SCP_READ_REQUESTED, SSH_SCP_READ_READING}"
proof -
  have "ends (\<lambda>y. 0 \<le> fst y \<longrightarrow> fst y = int (length (fst (snd y))) \<and> length (fst (snd y)) \<le> scp_room c n \<and>
      fst (snd (snd y)) = scp_counted SSH_SCP_READ_INITED (length (fst (snd y))) (c\<lparr>scp_state := SSH_SCP_READ_READING\<rparr>) \<and>
      scp_state c \<in> {SSH_SCP_READ_REQUESTED, SSH_SCP_READ_READING}) (ssh_scp_read io n c s)"
    unfolding ssh_scp_read_def scp_file_complete_def with_scp_def Let_def
    by (intro ends_if ends_option ends_step ends_prod)
       (auto simp: scp_counted_def dest!: accepted scp_response_ok dest: channel_read_bounds)
  from endsD [OF this assms(1)] assms(2)
  show "r = int (length d)" "length d \<le> scp_room c n"
    "c' = scp_counted SSH_SCP_READ_INITED (length d) (c\<lparr>scp_state := SSH_SCP_READ_READING\<rparr>)"
    "scp_state c \<in> {SSH_SCP_READ_REQUESTED, SSH_SCP_READ_READING}"
    by simp_all
qed

text \<open>
  A file that is being copied, after so many of its bytes: while it goes on they are counted and
  are no more than its size, and when it is over they were exactly its size.
\<close>

definition copied :: "ssh_scp_states set \<Rightarrow> ssh_scp_states \<Rightarrow> u64 \<Rightarrow> nat \<Rightarrow> ssh_scp \<Rightarrow> bool" where
  "copied going done n k c \<longleftrightarrow>
     scp_state c \<in> going \<and> scp_filelen c = n \<and> unat (scp_processed c) = k \<and> k \<le> unat n \<or>
     scp_state c = done \<and> k = unat n"

lemma scp_room_fits:
  assumes "unat (scp_processed c) \<le> unat (scp_filelen c)" and "unat (scp_filelen c) \<le> 2 ^ 63" and "m < 2 ^ 63"
  shows "scp_room c m \<le> unat (scp_filelen c) - unat (scp_processed c)"
proof -
  have "unat (scp_processed c + of_nat m) = unat (scp_processed c) + m"
    using assms by (simp add: unat_word_ariths unat_of_nat)
  moreover have "unat (scp_filelen c - scp_processed c) = unat (scp_filelen c) - unat (scp_processed c)"
    using assms(1) by (simp add: unat_sub word_le_nat_alt)
  ultimately show ?thesis
    by (auto simp: scp_room_def word_less_nat_alt)
qed

lemma copied_counted:
  assumes "copied going done n k c" and "scp_state c \<in> going" and "done \<notin> going" and "unat n \<le> 2 ^ 63"
    and "w \<le> scp_room c m" and "m < 2 ^ 63" and "g \<in> going"
  shows "copied going done n (k + w) (scp_counted done w (c\<lparr>scp_state := g\<rparr>))"
proof -
  have c: "scp_filelen c = n" "unat (scp_processed c) = k" "k \<le> unat n"
    using assms(1-3) by (auto simp: copied_def)
  with scp_room_fits [of c m] assms(4-6) have w: "k + w \<le> unat n"
    by simp
  have "unat (scp_processed c + of_nat w) = k + w"
    using c w assms(4) by (simp add: unat_word_ariths unat_of_nat)
  then show ?thesis
    using c w assms(7) by (auto simp: copied_def scp_counted_def)
qed

text \<open>
  The bytes of a file that were handed to the channel, from the call that announced the file on. The
  session may change in any way between two calls.
\<close>

inductive scp_upload :: "sftp_io \<Rightarrow> u64 \<Rightarrow> bytes \<Rightarrow> ssh_scp \<Rightarrow> bool" for io and n where
  announced: "ssh_scp_push_file64 io name n mode c s = Ret (SSH_OK, c', s') \<Longrightarrow> scp_upload io n [] c'"
| written: "scp_upload io n out c \<Longrightarrow> length d < 2 ^ 63 \<Longrightarrow> ssh_scp_write io d c s = Ret (SSH_OK, c', s') \<Longrightarrow>
    scp_channel c = Some a \<Longrightarrow> ssh_channel_poll (io_handle io) a False s = Ret (p, s1) \<Longrightarrow>
    scp_send io a (take (scp_room c (length d)) d) s1 = Ret (w, s2) \<Longrightarrow> scp_upload io n (out @ take (nat w) d) c'"

text \<open>
  C22. A file is sent with the size it was announced with. Whatever is given to
  \<^verbatim>\<open>ssh_scp_write\<close> and however much of it the channel takes at a time, the bytes handed over
  after the line of a file of \<open>n\<close> bytes are never more than \<open>n\<close>; they are counted
  while the transfer writes, and it goes back to taking files only when they are exactly \<open>n\<close>.
\<close>

theorem scp_upload_counts:
  assumes "scp_upload io n out c" and "unat n \<le> 2 ^ 63"
  shows "scp_state c = SSH_SCP_WRITE_WRITING \<and> scp_filelen c = n \<and> unat (scp_processed c) = length out \<and> length out \<le> unat n \<or>
    scp_state c = SSH_SCP_WRITE_INITED \<and> length out = unat n"
proof -
  have "copied {SSH_SCP_WRITE_WRITING} SSH_SCP_WRITE_INITED n (length out) c"
    using assms
  proof (induction rule: scp_upload.induct)
    case (announced name mode c s c' s')
    then show ?case
      by (auto simp: ssh_scp_push_file64_def copied_def run_bind_Ret split: if_splits option.splits)
  next
    case (written out c d s c' s' a p s1 w s2)
    from scp_write_counts [OF written.hyps(3)] written.hyps(4-6) obtain k
      where k: "scp_state c = SSH_SCP_WRITE_WRITING" "w = int k" "k \<le> length d" "k \<le> scp_room c (length d)"
        "c' = scp_counted SSH_SCP_WRITE_INITED k c"
      by (metis option.inject prod.inject run.inject)
    have same: "c\<lparr>scp_state := SSH_SCP_WRITE_WRITING\<rparr> = c"
      using k(1) by simp
    show ?case
      using copied_counted [OF written.IH [OF written.prems] _ _ written.prems k(4) written.hyps(2), of SSH_SCP_WRITE_WRITING,
          unfolded same] k
      by simp
  qed
  then show ?thesis
    by (auto simp: copied_def)
qed

text \<open>The bytes of a file that were read, from the request that announced it on.\<close>

inductive scp_download :: "sftp_io \<Rightarrow> u64 \<Rightarrow> bytes \<Rightarrow> ssh_scp \<Rightarrow> bool" for io where
  requested: "ssh_scp_pull_request io c s = Ret (request_code SSH_SCP_REQUEST_NEWFILE, c', s') \<Longrightarrow>
    scp_download io (ssh_scp_request_get_size64 (Some c')) [] c'"
| accepts: "scp_download io n got c \<Longrightarrow> ssh_scp_accept_request io c s = Ret (SSH_OK, c', s') \<Longrightarrow> scp_download io n got c'"
| reads: "scp_download io n got c \<Longrightarrow> m < 2 ^ 63 \<Longrightarrow> ssh_scp_read io m c s = Ret (r, d, c', s') \<Longrightarrow> 0 \<le> r \<Longrightarrow>
    scp_download io n (got @ d) c'"


text \<open>A file of two bytes, sent to a side that agrees and read from one that offers it.\<close>

definition sample_scp :: "ssh_scp_states \<Rightarrow> ssh_scp" where
  "sample_scp st = \<lparr>scp_write_mode = True, scp_recursive = False, scp_channel = Some 1, scp_location = None, scp_state = st,
     scp_filelen = 0, scp_processed = 0, scp_request_type = SSH_SCP_REQUEST_NONE, scp_request_name = None,
     scp_warning = None, scp_request_mode = 0\<rparr>"

lemma ret_holds: "(case r of Ret x \<Rightarrow> P x | Overflow \<Rightarrow> False) \<Longrightarrow> (\<And>x. r = Ret x \<Longrightarrow> P x \<Longrightarrow> thesis) \<Longrightarrow> thesis"
  by (cases r) auto

theorem scp_upload_counts_witness:
  "\<exists>c. scp_upload sample_io 2 [7, 8] c \<and> scp_state c = SSH_SCP_WRITE_INITED"
proof -
  let ?s = "served_session [0, 0]"
  let ?push = "ssh_scp_push_file64 sample_io [97, 0] 2 420 (sample_scp SSH_SCP_WRITE_INITED) ?s"
  have "(case run_bind ?push (\<lambda>(rc, c, t). run_bind (ssh_scp_write sample_io [7, 8, 9] c t) (\<lambda>(rc2, c2, t2).
      run_bind (ssh_channel_poll (io_handle sample_io) 1 False t) (\<lambda>(p, u).
      run_bind (scp_send sample_io 1 (take (scp_room c 3) [7, 8, 9]) u) (\<lambda>(w, v).
        Ret (rc, rc2, w, scp_channel c, scp_state c2))))) of
      Ret x \<Rightarrow> x = (SSH_OK, SSH_OK, 2, Some 1, SSH_SCP_WRITE_INITED) | Overflow \<Rightarrow> False)"
    by code_simp
  then obtain c t c2 t2 p u v where run: "?push = Ret (SSH_OK, c, t)" "ssh_scp_write sample_io [7, 8, 9] c t = Ret (SSH_OK, c2, t2)"
    "ssh_channel_poll (io_handle sample_io) 1 False t = Ret (p, u)" "scp_channel c = Some 1"
    "scp_send sample_io 1 (take (scp_room c 3) [7, 8, 9]) u = Ret (2, v)" "scp_state c2 = SSH_SCP_WRITE_INITED"
    by (elim ret_holds) (auto simp: run_bind_Ret)
  have three: "3 = length [7 :: u8, 8, 9]"
    by simp
  from written [OF announced [OF run(1)] _ run(2) run(4,3) run(5) [unfolded three]]
  have "scp_upload sample_io 2 ([] @ take (nat 2) [7, 8, 9]) c2"
    by simp
  with scp_upload_counts [OF this] run(6) show ?thesis
    by auto
qed


end
