(* ===== verification/Known_Hosts.thy ===== *)
theory Known_Hosts
  imports Public_Key Match
begin

text \<open>
  The files of known hosts (\<^verbatim>\<open>src/libssh/src/knownhosts.c\<close>): reading their lines, matching the host
  of a line by pattern or by hash, importing its key, the verdict over a server's key, and the
  entry for a new host. Files, the HMAC of the cryptographic library and \<^verbatim>\<open>ssh_options_apply\<close> are
  functions of \<open>known_hosts_io\<close>; a file is the list of its bytes. The key of the server is that
  of the finished key exchange.
\<close>

record host_opts =
  op_host :: "bytes option"
  op_port :: nat
  op_knownhosts :: "bytes option"
  op_global_knownhosts :: "bytes option"
  op_strict :: bool

record known_hosts_io =
  kh_heap :: heap
  kh_keys :: key_ops
  kh_file :: "bytes \<Rightarrow> bytes option"
  kh_access :: "bytes \<Rightarrow> bool"
  kh_hmac :: "bytes \<Rightarrow> bytes \<Rightarrow> bytes option"
  kh_apply :: "host_opts \<Rightarrow> host_opts option"

text \<open>The codes of \<^verbatim>\<open>enum ssh_known_hosts_e\<close>.\<close>

datatype ssh_known_hosts = SSH_KNOWN_HOSTS_ERROR | SSH_KNOWN_HOSTS_NOT_FOUND | SSH_KNOWN_HOSTS_UNKNOWN
  | SSH_KNOWN_HOSTS_OK | SSH_KNOWN_HOSTS_CHANGED | SSH_KNOWN_HOSTS_OTHER

record knownhosts_entry =
  kn_hostname :: "bytes option"
  kn_unparsed :: bytes
  kn_publickey :: ssh_key
  kn_comment :: "bytes option"

subsection \<open>Lines of a file\<close>

text \<open>
  \<^verbatim>\<open>fgets\<close> into an array of so many bytes: what it reads, and whether it met the end of the file
  while it looked for more.
\<close>

definition fgets :: "nat \<Rightarrow> bytes \<Rightarrow> bytes \<times> bool" where
  "fgets n s =
     (let t = takeWhile (\<lambda>c. c \<noteq> newline) s; l = (if length t < length s then t @ [newline] else t)
      in (take (n - 1) l, length t = length s \<and> length s < n - 1))"

lemma fgets_progress: "s \<noteq> [] \<Longrightarrow> 2 \<le> n \<Longrightarrow> length (drop (length (fst (fgets n s))) s) < length s"
  by (cases s) (auto simp: fgets_def Let_def)

text \<open>
  The lines \<^verbatim>\<open>known_hosts_read_line\<close> returns one after the other, without their newlines: up to the
  first that is too long for the array or contains a byte 0. Lines that begin with it are left out.
\<close>

function known_hosts_read_lines :: "bytes \<Rightarrow> bytes list" where
  "known_hosts_read_lines s =
     (if s = [] then []
      else
        let buf = fst (fgets 8192 s); eof = snd (fgets 8192 s); rest = drop (length buf) s; l = cstr buf in
        if l = [] then known_hosts_read_lines rest
        else if last l = newline \<or> eof then takeWhile (\<lambda>c. c \<noteq> newline) l # known_hosts_read_lines rest
        else [])"
  by pat_completeness auto

termination
  by (relation "measure length") (use fgets_progress [where n = 8192] in \<open>auto simp: Let_def\<close>)

declare known_hosts_read_lines.simps [simp del]

text \<open>\<^verbatim>\<open>strtok\<close> with one separator: the next word and what is behind it.\<close>

definition strtok :: "u8 \<Rightarrow> bytes \<Rightarrow> (bytes \<times> bytes) option" where
  "strtok sep s =
     (let t = dropWhile (\<lambda>c. c = sep) s; w = takeWhile (\<lambda>c. c \<noteq> sep) t
      in if t = [] then None else Some (w, drop (Suc (length w)) t))"

lemma strtok_progress: "strtok sep s = Some (w, r) \<Longrightarrow> length r < length s"
proof -
  assume a: "strtok sep s = Some (w, r)"
  let ?t = "dropWhile (\<lambda>c. c = sep) s"
  have "?t \<noteq> []" "length r \<le> length ?t - 1"
    using a by (auto simp: strtok_def Let_def split: if_splits)
  then have "length r < length ?t"
    by (cases ?t) auto
  also have "length ?t \<le> length s"
    by (rule length_dropWhile_le)
  finally show ?thesis .
qed

function strtok_all :: "u8 \<Rightarrow> bytes \<Rightarrow> bytes list" where
  "strtok_all sep s = (case strtok sep s of None \<Rightarrow> [] | Some (w, r) \<Rightarrow> w # strtok_all sep r)"
  by pat_completeness auto

termination
  by (relation "measure (length \<circ> snd)") (auto dest: strtok_progress)

declare strtok_all.simps [simp del]

subsection \<open>The host of a line\<close>

definition match_hashed_hostname :: "known_hosts_io \<Rightarrow> bytes \<Rightarrow> bytes \<Rightarrow> bool" where
  "match_hashed_hostname io host hashed_host =
     (let h = kh_heap io in
      if take 3 hashed_host \<noteq> [124, 49, 124] then False
      else case strdup h (drop 3 hashed_host) of
          None \<Rightarrow> False
        | Some hashed \<Rightarrow>
            (case find_sep hashed 124 of
               None \<Rightarrow> False
             | Some i \<Rightarrow>
                 (case (base64_to_bin h (take i hashed @ [0]), base64_to_bin h (drop (Suc i) hashed)) of
                    (Some salt, Some hash) \<Rightarrow>
                      (case kh_hmac io (buf_content salt) host of None \<Rightarrow> False | Some mac \<Rightarrow> mac = buf_content hash)
                  | _ \<Rightarrow> False)))"

text \<open>
  The loop over the patterns of a line; without memory for the name with its port there is no
  answer. A pattern is given to \<^verbatim>\<open>match_hostname\<close> alone, and only its answer 1 counts.
\<close>

fun pattern_loop :: "heap \<Rightarrow> bytes \<Rightarrow> bytes list \<Rightarrow> bool option" where
  "pattern_loop h hostname [] = Some False"
| "pattern_loop h hostname (q # qs) =
     (if take 1 q = [91] \<and> take 1 hostname \<noteq> [91] then
        (case ssh_hostport h (Some (hostname @ [0])) 22 of
           None \<Rightarrow> None
         | Some host_port \<Rightarrow>
             if match_hostname (cstr host_port) q (length q) = 1 then Some True else pattern_loop h hostname qs)
      else if match_hostname hostname q (length q) = 1 then Some True
      else pattern_loop h hostname qs)"

definition host_listed :: "known_hosts_io \<Rightarrow> bytes \<Rightarrow> bytes \<Rightarrow> bool option" where
  "host_listed io hostname p =
     (case pattern_loop (kh_heap io) hostname (strtok_all comma p) of
        None \<Rightarrow> None
      | Some m \<Rightarrow> Some (m \<or> take 1 p = [124] \<and> match_hashed_hostname io hostname p))"

subsection \<open>Parsing a line\<close>

definition line_comment :: "bytes \<Rightarrow> bytes option \<Rightarrow> bytes option" where
  "line_comment line p = (case p of None \<Rightarrow> None | Some w \<Rightarrow> map_option (\<lambda>k. drop k line) (strstr line w))"

definition ssh_known_hosts_parse_line :: "known_hosts_io \<Rightarrow> bytes option \<Rightarrow> bytes \<Rightarrow> int \<times> knownhosts_entry option" where
  "ssh_known_hosts_parse_line io hostname line =
     (let h = kh_heap io; failed = (SSH_ERROR, None) in
      case (strdup h line, strtok 32 line) of
        (Some known_host, Some (p, r)) \<Rightarrow>
          if \<not> heap_grants h 32 then failed
          else (case (case hostname of None \<Rightarrow> Some True | Some name \<Rightarrow> host_listed io name p) of
             None \<Rightarrow> failed
           | Some False \<Rightarrow> (SSH_AGAIN, None)
           | Some True \<Rightarrow>
               if hostname \<noteq> None \<and> strdup h (the hostname) = None then failed
               else if strdup h p = None then failed
               else (case strtok 32 r of
                  None \<Rightarrow> failed
                | Some (name, r1) \<Rightarrow>
                    let t = ssh_key_type_from_name (Some (name @ [0])) in
                    if t = SSH_KEYTYPE_UNKNOWN then failed
                    else (case strtok 32 r1 of
                       None \<Rightarrow> failed
                     | Some (text64, r2) \<Rightarrow>
                         (case ssh_pki_import_pubkey_base64 h (kh_keys io) (text64 @ [0]) t of
                            None \<Rightarrow> failed
                          | Some key \<Rightarrow>
                              let comment = line_comment line (map_option fst (strtok 32 r2)) in
                              if comment \<noteq> None \<and> strdup h (the comment) = None then failed
                              else (SSH_OK, Some \<lparr>kn_hostname = hostname, kn_unparsed = p, kn_publickey = key,
                                      kn_comment = comment\<rparr>)))))
      | _ \<Rightarrow> failed)"

definition ssh_known_hosts_entries_compare :: "known_hosts_io \<Rightarrow> knownhosts_entry \<Rightarrow> knownhosts_entry \<Rightarrow> bool" where
  "ssh_known_hosts_entries_compare io k1 k2 \<longleftrightarrow>
     kn_hostname k1 = kn_hostname k2 \<and> ssh_key_cmp (kh_keys io) (Some (kn_publickey k1)) (Some (kn_publickey k2)) = 0"

text \<open>Blank lines, comments and markers are skipped; a line of another host too; the first error ends it.\<close>

definition skipped_line :: "bytes \<Rightarrow> bool" where
  "skipped_line l \<longleftrightarrow> (let p = dropWhile isspace l in p = [] \<or> hd p = 35 \<or> hd p = 64)"

fun read_entries_loop :: "known_hosts_io \<Rightarrow> bytes \<Rightarrow> bytes list \<Rightarrow> knownhosts_entry list \<Rightarrow> int \<times> knownhosts_entry list" where
  "read_entries_loop io name [] acc = (SSH_OK, acc)"
| "read_entries_loop io name (l # ls) acc =
     (if skipped_line l then read_entries_loop io name ls acc
      else case ssh_known_hosts_parse_line io (Some name) l of
          (rc, entry) \<Rightarrow>
            if rc = SSH_AGAIN then read_entries_loop io name ls acc
            else (case entry of
                    None \<Rightarrow> (SSH_ERROR, acc)
                  | Some e \<Rightarrow>
                      read_entries_loop io name ls
                        (if list_ex (ssh_known_hosts_entries_compare io e) acc then acc
                         else if heap_grants (kh_heap io) 16 then acc @ [e] else acc)))"

definition ssh_known_hosts_read_entries ::
  "known_hosts_io \<Rightarrow> bytes \<Rightarrow> bytes \<Rightarrow> knownhosts_entry list option \<Rightarrow> int \<times> knownhosts_entry list option" where
  "ssh_known_hosts_read_entries io name filename entries =
     (case kh_file io filename of
        None \<Rightarrow> (SSH_OK, entries)
      | Some content \<Rightarrow>
          if entries = None \<and> \<not> heap_grants (kh_heap io) 16 then (SSH_ERROR, None)
          else (case read_entries_loop io name (known_hosts_read_lines content) (case entries of None \<Rightarrow> [] | Some es \<Rightarrow> es) of
                  (rc, es) \<Rightarrow> (rc, Some es)))"

subsection \<open>The key of a server\<close>

definition ssh_session_get_host_port :: "known_hosts_io \<Rightarrow> host_opts \<Rightarrow> bytes option" where
  "ssh_session_get_host_port io opts =
     (case op_host opts of
        None \<Rightarrow> None
      | Some hostname \<Rightarrow>
          (case ssh_lowercase (kh_heap io) (Some hostname) of
             None \<Rightarrow> None
           | Some host \<Rightarrow>
               if op_port opts = 0 \<or> op_port opts = 22 then Some host
               else ssh_hostport (kh_heap io) (Some host) (op_port opts)))"

text \<open>The loop over the entries: an equal key ends it, one of the same type outweighs others.\<close>

fun key_verdict ::
  "key_ops \<Rightarrow> ssh_key \<Rightarrow> knownhosts_entry list \<Rightarrow> ssh_known_hosts \<Rightarrow> ssh_known_hosts \<times> knownhosts_entry option" where
  "key_verdict ko server_key [] found = (found, None)"
| "key_verdict ko server_key (e # es) found =
     (if ssh_key_cmp ko (Some server_key) (Some (kn_publickey e)) = 0 then (SSH_KNOWN_HOSTS_OK, Some e)
      else if pk_type server_key = pk_type (kn_publickey e) then key_verdict ko server_key es SSH_KNOWN_HOSTS_CHANGED
      else key_verdict ko server_key es
             (if found \<noteq> SSH_KNOWN_HOSTS_CHANGED then SSH_KNOWN_HOSTS_OTHER else found))"

definition ssh_known_hosts_check_server_key ::
  "known_hosts_io \<Rightarrow> bytes \<Rightarrow> bytes \<Rightarrow> ssh_key \<Rightarrow> ssh_known_hosts \<times> knownhosts_entry option" where
  "ssh_known_hosts_check_server_key io hosts_entry filename server_key =
     (case ssh_known_hosts_read_entries io hosts_entry filename None of
        (rc, entries) \<Rightarrow>
          if rc \<noteq> 0 then (SSH_KNOWN_HOSTS_UNKNOWN, None)
          else key_verdict (kh_keys io) server_key (case entries of None \<Rightarrow> [] | Some es \<Rightarrow> es) SSH_KNOWN_HOSTS_UNKNOWN)"

text \<open>A file name that is a null pointer cannot be opened.\<close>

definition ssh_session_get_known_hosts_entry_file ::
  "known_hosts_io \<Rightarrow> host_opts \<Rightarrow> ssh_key option \<Rightarrow> bytes option \<Rightarrow> ssh_known_hosts \<times> knownhosts_entry option" where
  "ssh_session_get_known_hosts_entry_file io opts server_key filename =
     (case server_key of
        None \<Rightarrow> (SSH_KNOWN_HOSTS_ERROR, None)
      | Some key \<Rightarrow>
          (case ssh_session_get_host_port io opts of
             None \<Rightarrow> (SSH_KNOWN_HOSTS_ERROR, None)
           | Some host_port \<Rightarrow>
               (case filename of
                  None \<Rightarrow> (SSH_KNOWN_HOSTS_UNKNOWN, None)
                | Some f \<Rightarrow> ssh_known_hosts_check_server_key io (cstr host_port) f key)))"

definition ssh_session_get_known_hosts_entry ::
  "known_hosts_io \<Rightarrow> host_opts \<Rightarrow> ssh_key option \<Rightarrow> ssh_known_hosts \<times> knownhosts_entry option" where
  "ssh_session_get_known_hosts_entry io opts0 server_key =
     (case (if op_knownhosts opts0 = None then kh_apply io opts0 else Some opts0) of
        None \<Rightarrow> (SSH_KNOWN_HOSTS_NOT_FOUND, None)
      | Some opts \<Rightarrow>
          (case ssh_session_get_known_hosts_entry_file io opts server_key (op_knownhosts opts) of
             (old_rv, entry) \<Rightarrow>
               if old_rv = SSH_KNOWN_HOSTS_OK then (old_rv, entry)
               else (case ssh_session_get_known_hosts_entry_file io opts server_key (op_global_knownhosts opts) of
                       (rv, entry2) \<Rightarrow>
                         if rv = SSH_KNOWN_HOSTS_UNKNOWN
                         then (if \<not> op_strict opts then SSH_KNOWN_HOSTS_OK else old_rv, entry)
                         else (rv, entry2))))"

definition ssh_session_is_known_server :: "known_hosts_io \<Rightarrow> host_opts \<Rightarrow> ssh_key option \<Rightarrow> ssh_known_hosts" where
  "ssh_session_is_known_server io opts server_key = fst (ssh_session_get_known_hosts_entry io opts server_key)"

subsection \<open>The entries of a host\<close>

text \<open>Both files, the second added to the first.\<close>

definition both_files ::
  "known_hosts_io \<Rightarrow> bytes \<Rightarrow> bytes option \<Rightarrow> bytes option \<Rightarrow> knownhosts_entry list option option" where
  "both_files io name user global =
     (let read = (\<lambda>f es. case f of None \<Rightarrow> (SSH_OK, es) | Some n \<Rightarrow> ssh_known_hosts_read_entries io name n es) in
      case read user None of
        (rc, es) \<Rightarrow>
          if rc \<noteq> 0 then None else (case read global es of (rc2, es2) \<Rightarrow> if rc2 \<noteq> 0 then None else Some es2))"

definition ssh_session_has_known_hosts_entry :: "known_hosts_io \<Rightarrow> host_opts \<Rightarrow> ssh_known_hosts" where
  "ssh_session_has_known_hosts_entry io opts0 =
     (case (if op_knownhosts opts0 = None then kh_apply io opts0 else Some opts0) of
        None \<Rightarrow> SSH_KNOWN_HOSTS_NOT_FOUND
      | Some opts \<Rightarrow>
          let found = (\<lambda>f. case f of None \<Rightarrow> None | Some n \<Rightarrow> if kh_access io n then Some n else None);
              user = found (op_knownhosts opts); global = found (op_global_knownhosts opts)
          in if user = None \<and> global = None then SSH_KNOWN_HOSTS_NOT_FOUND
             else (case ssh_session_get_host_port io opts of
                     None \<Rightarrow> SSH_KNOWN_HOSTS_ERROR
                   | Some host_port \<Rightarrow>
                       (case both_files io (cstr host_port) user global of
                          None \<Rightarrow> SSH_KNOWN_HOSTS_ERROR
                        | Some es \<Rightarrow>
                            if (case es of None \<Rightarrow> [] | Some l \<Rightarrow> l) = [] then SSH_KNOWN_HOSTS_UNKNOWN else SSH_KNOWN_HOSTS_OK)))"

text \<open>What both lists of algorithms start from: the entries of the host, if there are any.\<close>

definition host_entries :: "known_hosts_io \<Rightarrow> host_opts \<Rightarrow> knownhosts_entry list option" where
  "host_entries io opts0 =
     (case (if op_knownhosts opts0 = None \<or> op_global_knownhosts opts0 = None then kh_apply io opts0 else Some opts0) of
        None \<Rightarrow> None
      | Some opts \<Rightarrow>
          (case ssh_session_get_host_port io opts of
             None \<Rightarrow> None
           | Some host_port \<Rightarrow>
               (case both_files io (cstr host_port) (op_knownhosts opts) (op_global_knownhosts opts) of
                  Some (Some es) \<Rightarrow> if es = [] then None else Some es
                | _ \<Rightarrow> None)))"

fun unique_types :: "knownhosts_entry list \<Rightarrow> string option list \<Rightarrow> string option list" where
  "unique_types [] acc = acc"
| "unique_types (e # es) acc =
     unique_types es (if pk_type_c (kn_publickey e) \<in> set acc then acc else acc @ [pk_type_c (kn_publickey e)])"

definition ssh_known_hosts_get_algorithms :: "known_hosts_io \<Rightarrow> host_opts \<Rightarrow> string option list option" where
  "ssh_known_hosts_get_algorithms io opts =
     (if \<not> heap_grants (kh_heap io) 16 then None else map_option (\<lambda>es. unique_types es []) (host_entries io opts))"

fun ssh_known_host_sigs_from_hostkey_type :: "ssh_keytypes \<Rightarrow> string option" where
  "ssh_known_host_sigs_from_hostkey_type SSH_KEYTYPE_RSA = Some ''rsa-sha2-512,rsa-sha2-256,ssh-rsa''"
| "ssh_known_host_sigs_from_hostkey_type SSH_KEYTYPE_ED25519 = Some ''ssh-ed25519''"
| "ssh_known_host_sigs_from_hostkey_type SSH_KEYTYPE_DSS = Some ''ssh-dss''"
| "ssh_known_host_sigs_from_hostkey_type SSH_KEYTYPE_ECDSA_P256 = Some ''ecdsa-sha2-nistp256''"
| "ssh_known_host_sigs_from_hostkey_type SSH_KEYTYPE_ECDSA_P384 = Some ''ecdsa-sha2-nistp384''"
| "ssh_known_host_sigs_from_hostkey_type SSH_KEYTYPE_ECDSA_P521 = Some ''ecdsa-sha2-nistp521''"
| "ssh_known_host_sigs_from_hostkey_type _ = None"

text \<open>An entry without signatures is never taken off its list: the loop does not end and has no result.\<close>

fun append_names :: "knownhosts_entry list \<Rightarrow> bool \<Rightarrow> bytes \<Rightarrow> bytes run" where
  "append_names [] needcomma buf = Ret buf"
| "append_names (e # es) needcomma buf =
     (case ssh_known_host_sigs_from_hostkey_type (pk_type (kn_publickey e)) of
        None \<Rightarrow> Overflow
      | Some algo \<Rightarrow>
          run_bind (if needcomma then strncat buf [comma, 0] (256 - strlen buf) else Ret buf) (\<lambda>buf1.
            run_bind (strncat buf1 (map of_char algo @ [0]) (256 - strlen buf1)) (\<lambda>buf2. append_names es True buf2)))"

definition ssh_known_hosts_get_algorithms_names :: "known_hosts_io \<Rightarrow> host_opts \<Rightarrow> bytes option run" where
  "ssh_known_hosts_get_algorithms_names io opts =
     (case host_entries io opts of
        None \<Rightarrow> Ret None
      | Some es \<Rightarrow> run_bind (append_names es False (replicate 257 0)) (\<lambda>buf. ssh_remove_duplicates (kh_heap io) (Some buf)))"

subsection \<open>A new entry\<close>

definition known_hosts_line :: "bytes \<Rightarrow> string \<Rightarrow> bytes \<Rightarrow> bytes" where
  "known_hosts_line host type_c b64_key = take 4095 (host @ [32] @ map of_char type_c @ [32] @ b64_key @ [newline])"

definition ssh_session_export_known_hosts_entry :: "known_hosts_io \<Rightarrow> host_opts \<Rightarrow> ssh_key option \<Rightarrow> bytes option" where
  "ssh_session_export_known_hosts_entry io opts server_key =
     (case (ssh_session_get_host_port io opts, server_key) of
        (Some host, Some key) \<Rightarrow>
          (case (ssh_pki_export_pubkey_base64 (kh_heap io) (kh_keys io) (Some key), pk_type_c key) of
             (Some b64_key, Some type_c) \<Rightarrow> strdup (kh_heap io) (known_hosts_line (cstr host) type_c (cstr b64_key))
           | _ \<Rightarrow> None)
      | _ \<Rightarrow> None)"

text \<open>
  The line is appended to the file of the user; \<open>writable\<close> says whether that file can be opened for
  appending, its directories made if need be, and takes the whole line.
\<close>

definition appended :: "bytes \<Rightarrow> bytes \<Rightarrow> known_hosts_io \<Rightarrow> known_hosts_io" where
  "appended f x io = io\<lparr>kh_file := (kh_file io)(f \<mapsto> (case kh_file io f of None \<Rightarrow> [] | Some c \<Rightarrow> c) @ x)\<rparr>"

definition ssh_session_update_known_hosts ::
  "known_hosts_io \<Rightarrow> (bytes \<Rightarrow> bool) \<Rightarrow> host_opts \<Rightarrow> ssh_key option \<Rightarrow> int \<times> known_hosts_io" where
  "ssh_session_update_known_hosts io writable opts0 server_key =
     (case (if op_knownhosts opts0 = None then kh_apply io opts0 else Some opts0) of
        None \<Rightarrow> (SSH_ERROR, io)
      | Some opts \<Rightarrow>
          (case op_knownhosts opts of
             None \<Rightarrow> (SSH_ERROR, io)
           | Some f \<Rightarrow>
               if \<not> writable f then (SSH_ERROR, io)
               else (case ssh_session_export_known_hosts_entry io opts server_key of
                       None \<Rightarrow> (SSH_ERROR, appended f [] io)
                     | Some entry \<Rightarrow> (SSH_OK, appended f (cstr entry) io))))"

end
