(* ===== verification/Known_Hosts_Check.thy ===== *)
theory Known_Hosts_Check
  imports Known_Hosts
begin

text \<open>
  What the check of a server's key against the files of known hosts promises: a server is known
  only by a line that names its host and holds its key, the verdict is that of the lines of the host,
  and a host that was added is known from then on.
\<close>

subsection \<open>What a parsed line says\<close>

lemma strtok_all_Cons: "strtok_all sep s = w # ws \<longleftrightarrow> (\<exists>r. strtok sep s = Some (w, r) \<and> strtok_all sep r = ws)"
  by (subst strtok_all.simps) (auto split: option.splits)

text \<open>The key of a line that counts and names the host, and a line vouching for a key.\<close>

definition listed_key :: "known_hosts_io \<Rightarrow> bytes \<Rightarrow> bytes \<Rightarrow> ssh_key option" where
  "listed_key io host l =
     (if skipped_line l then None
      else case strtok_all 32 l of
          p # n # k # ws \<Rightarrow>
            if host_listed io host p = Some True
            then ssh_pki_import_pubkey_base64 (kh_heap io) (kh_keys io) (k @ [0]) (ssh_key_type_from_name (Some (n @ [0])))
            else None
        | _ \<Rightarrow> None)"

definition vouches :: "known_hosts_io \<Rightarrow> bytes \<Rightarrow> ssh_key \<Rightarrow> bytes \<Rightarrow> bool" where
  "vouches io host key l \<longleftrightarrow>
     (\<exists>k. listed_key io host l = Some k \<and> ssh_key_cmp (kh_keys io) (Some key) (Some k) = 0)"

lemma parse_line_success:
  assumes "ssh_known_hosts_parse_line io (Some host) l = (rc, Some e)"
  shows "rc = SSH_OK" and "kn_hostname e = Some host"
    and "\<not> skipped_line l \<Longrightarrow> listed_key io host l = Some (kn_publickey e)"
proof -
  show "rc = SSH_OK" "kn_hostname e = Some host"
    using assms
    by (auto simp: ssh_known_hosts_parse_line_def Let_def split: option.splits prod.splits if_splits bool.splits)
  have "\<exists>p n k ws. strtok_all 32 l = p # n # k # ws \<and> host_listed io host p = Some True \<and>
      ssh_pki_import_pubkey_base64 (kh_heap io) (kh_keys io) (k @ [0]) (ssh_key_type_from_name (Some (n @ [0]))) =
        Some (kn_publickey e)"
    using assms
    by (auto simp: ssh_known_hosts_parse_line_def Let_def strtok_all_Cons split: option.splits prod.splits if_splits bool.splits)
  then show "\<not> skipped_line l \<Longrightarrow> listed_key io host l = Some (kn_publickey e)"
    by (auto simp: listed_key_def)
qed

lemma import_unknown [simp]: "ssh_pki_import_pubkey_base64 h ko t SSH_KEYTYPE_UNKNOWN = None"
  by (auto simp: ssh_pki_import_pubkey_base64_def import_by_type_def is_cert_type_def pki_import_pubkey_buffer_def Let_def
      split: option.splits prod.splits)

lemma parse_line_other:
  assumes "\<forall>n. heap_grants (kh_heap io) n" and "strtok_all 32 l = p # ws" and "host_listed io host p = Some False"
  shows "ssh_known_hosts_parse_line io (Some host) l = (SSH_AGAIN, None)"
  using assms by (auto simp: ssh_known_hosts_parse_line_def strdup_def strtok_all_Cons)

lemma parse_line_listed:
  assumes "\<forall>n. heap_grants (kh_heap io) n" and "listed_key io host l = Some k"
  obtains e where "ssh_known_hosts_parse_line io (Some host) l = (SSH_OK, Some e)" and "kn_hostname e = Some host"
    and "kn_publickey e = k"
proof -
  from assms(2) obtain p n t ws where l: "strtok_all 32 l = p # n # t # ws" "host_listed io host p = Some True"
    "ssh_pki_import_pubkey_base64 (kh_heap io) (kh_keys io) (t @ [0]) (ssh_key_type_from_name (Some (n @ [0]))) = Some k"
    by (auto simp: listed_key_def split: if_splits list.splits)
  then have "ssh_key_type_from_name (Some (n @ [0])) \<noteq> SSH_KEYTYPE_UNKNOWN"
    by auto
  with l assms(1) have "\<exists>e. ssh_known_hosts_parse_line io (Some host) l = (SSH_OK, Some e) \<and> kn_hostname e = Some host \<and>
      kn_publickey e = k"
    by (auto simp: ssh_known_hosts_parse_line_def Let_def strdup_def strtok_all_Cons)
  with that show thesis
    by blast
qed

lemma read_entries_loop_source:
  assumes "read_entries_loop io host ls acc = (rc, es)" and "e \<in> set es"
  shows "e \<in> set acc \<or> (\<exists>l\<in>set ls. \<not> skipped_line l \<and> ssh_known_hosts_parse_line io (Some host) l = (SSH_OK, Some e))"
  using assms
proof (induction ls arbitrary: acc)
  case (Cons l ls)
  obtain rc1 entry where p: "ssh_known_hosts_parse_line io (Some host) l = (rc1, entry)"
    by (rule prod.exhaust)
  show ?case
  proof (cases "skipped_line l \<or> rc1 = SSH_AGAIN \<or> entry = None")
    case True
    with Cons p show ?thesis
      by (auto split: if_splits)
  next
    case False
    then obtain e1 where e1: "entry = Some e1" and go: "\<not> skipped_line l" "rc1 \<noteq> SSH_AGAIN"
      by auto
    then have rest: "read_entries_loop io host ls (if list_ex (ssh_known_hosts_entries_compare io e1) acc then acc
        else if heap_grants (kh_heap io) 16 then acc @ [e1] else acc) = (rc, es)"
      using Cons.prems(1) p by simp
    from Cons.IH [OF rest Cons.prems(2)] parse_line_success(1) [OF p [unfolded e1]] go(1) p e1 show ?thesis
      by (auto split: if_splits)
  qed
qed simp

lemma key_verdict_value:
  "fst (key_verdict ko key es found) =
    (if \<exists>e\<in>set es. ssh_key_cmp ko (Some key) (Some (kn_publickey e)) = 0 then SSH_KNOWN_HOSTS_OK
     else if \<exists>e\<in>set es. pk_type key = pk_type (kn_publickey e) then SSH_KNOWN_HOSTS_CHANGED
     else if es \<noteq> [] \<and> found \<noteq> SSH_KNOWN_HOSTS_CHANGED then SSH_KNOWN_HOSTS_OTHER else found)"
  by (induction es arbitrary: found) auto

lemma check_server_key_source:
  assumes "fst (ssh_known_hosts_check_server_key io host f key) = SSH_KNOWN_HOSTS_OK"
  shows "\<exists>content. kh_file io f = Some content \<and> (\<exists>l\<in>set (known_hosts_read_lines content). vouches io host key l)"
proof -
  obtain rc entries where r: "ssh_known_hosts_read_entries io host f None = (rc, entries)"
    by (rule prod.exhaust)
  with assms have "fst (key_verdict (kh_keys io) key (case entries of None \<Rightarrow> [] | Some es \<Rightarrow> es) SSH_KNOWN_HOSTS_UNKNOWN) = SSH_KNOWN_HOSTS_OK"
    by (auto simp: ssh_known_hosts_check_server_key_def split: if_splits)
  then obtain es e where e: "entries = Some es" "e \<in> set es" "ssh_key_cmp (kh_keys io) (Some key) (Some (kn_publickey e)) = 0"
    by (auto simp: key_verdict_value split: option.splits if_splits)
  with r obtain content where c: "kh_file io f = Some content"
    "read_entries_loop io host (known_hosts_read_lines content) [] = (rc, es)"
    by (auto simp: ssh_known_hosts_read_entries_def split: option.splits prod.splits if_splits)
  from read_entries_loop_source [OF c(2) e(2)] obtain l where l: "l \<in> set (known_hosts_read_lines content)" "\<not> skipped_line l"
    "ssh_known_hosts_parse_line io (Some host) l = (SSH_OK, Some e)"
    by auto
  with parse_line_success(3) [OF l(3) l(2)] e(3) have "vouches io host key l"
    by (simp add: vouches_def)
  with c(1) l(1) show ?thesis
    by blast
qed

text \<open>
  C3. A server is known only by a line. When the check is strict and says that the server is known, one
  of the two files has a line that is no comment and no marker, whose patterns or whose hash name
  the host the user asked for, with its port, and whose key is the key of the server. No file that
  is missing, cut off, or about other hosts or other keys makes a server known.
\<close>

theorem known_only_by_a_line:
  assumes "ssh_session_is_known_server io opts (Some key) = SSH_KNOWN_HOSTS_OK" and "op_strict opts"
    and "op_knownhosts opts \<noteq> None"
  shows "\<exists>host f content l. ssh_session_get_host_port io opts = Some host \<and>
    (op_knownhosts opts = Some f \<or> op_global_knownhosts opts = Some f) \<and> kh_file io f = Some content \<and>
    l \<in> set (known_hosts_read_lines content) \<and> vouches io (cstr host) key l"
proof -
  have "\<exists>f. (op_knownhosts opts = Some f \<or> op_global_knownhosts opts = Some f) \<and>
      fst (ssh_session_get_known_hosts_entry_file io opts (Some key) (Some f)) = SSH_KNOWN_HOSTS_OK"
    using assms
    by (auto simp: ssh_session_is_known_server_def ssh_session_get_known_hosts_entry_def ssh_session_get_known_hosts_entry_file_def
        split: option.splits prod.splits if_splits)
  then obtain f where f: "op_knownhosts opts = Some f \<or> op_global_knownhosts opts = Some f"
    "fst (ssh_session_get_known_hosts_entry_file io opts (Some key) (Some f)) = SSH_KNOWN_HOSTS_OK"
    by blast
  then obtain host where host: "ssh_session_get_host_port io opts = Some host"
    "fst (ssh_known_hosts_check_server_key io (cstr host) f key) = SSH_KNOWN_HOSTS_OK"
    by (auto simp: ssh_session_get_known_hosts_entry_file_def split: option.splits)
  from check_server_key_source [OF host(2)] f(1) host(1) show ?thesis
    by blast
qed

subsection \<open>The verdict\<close>

text \<open>A line that does not end the reading: skipped, about another host, or with a key.\<close>

definition readable_line :: "known_hosts_io \<Rightarrow> bytes \<Rightarrow> bytes \<Rightarrow> bool" where
  "readable_line io host l \<longleftrightarrow> skipped_line l \<or> listed_key io host l \<noteq> None \<or>
     (\<exists>p ws. strtok_all 32 l = p # ws \<and> host_listed io host p = Some False)"

lemma read_entries_loop_readable:
  assumes "\<forall>n. heap_grants (kh_heap io) n" and "\<forall>l\<in>set ls. readable_line io host l"
    and "\<forall>e\<in>set acc. kn_hostname e = Some host"
    and "\<forall>a b. ssh_key_cmp (kh_keys io) (Some a) (Some b) = 0 \<longrightarrow> P a = P b"
  shows "\<exists>es. read_entries_loop io host ls acc = (SSH_OK, es) \<and>
    ((\<exists>e\<in>set es. P (kn_publickey e)) \<longleftrightarrow>
      (\<exists>e\<in>set acc. P (kn_publickey e)) \<or> (\<exists>l\<in>set ls. \<exists>k. listed_key io host l = Some k \<and> P k))"
  using assms(2,3)
proof (induction ls arbitrary: acc)
  case (Cons l ls)
  note IH = Cons.IH [OF _ Cons.prems(2)]
  show ?case
  proof (cases "skipped_line l")
    case True
    with IH Cons.prems(1) show ?thesis
      by (auto simp: listed_key_def)
  next
    case counts: False
    show ?thesis
    proof (cases "listed_key io host l")
      case None
      with counts Cons.prems(1) obtain p ws where "strtok_all 32 l = p # ws" "host_listed io host p = Some False"
        by (auto simp: readable_line_def)
      with parse_line_other [OF assms(1)] IH Cons.prems(1) counts None show ?thesis
        by auto
    next
      case (Some k)
      obtain e where e: "ssh_known_hosts_parse_line io (Some host) l = (SSH_OK, Some e)" "kn_hostname e = Some host"
        "kn_publickey e = k"
        by (rule parse_line_listed [OF assms(1) Some])
      define acc1 where "acc1 = (if list_ex (ssh_known_hosts_entries_compare io e) acc then acc else acc @ [e])"
      have "\<forall>x\<in>set acc1. kn_hostname x = Some host"
        using Cons.prems(2) e(2) by (simp add: acc1_def)
      from Cons.IH [OF _ this] Cons.prems(1) obtain es where es: "read_entries_loop io host ls acc1 = (SSH_OK, es)"
        "(\<exists>e\<in>set es. P (kn_publickey e)) \<longleftrightarrow>
          (\<exists>e\<in>set acc1. P (kn_publickey e)) \<or> (\<exists>l\<in>set ls. \<exists>k. listed_key io host l = Some k \<and> P k)"
        by auto
      have "(\<exists>x\<in>set acc1. P (kn_publickey x)) \<longleftrightarrow> (\<exists>x\<in>set acc. P (kn_publickey x)) \<or> P k"
        using assms(4) e(3) by (auto simp: acc1_def list_ex_iff ssh_known_hosts_entries_compare_def)
      with es e Some counts assms(1) show ?thesis
        by (auto simp: acc1_def)
    qed
  qed
qed simp

lemma check_server_key_readable:
  assumes "\<forall>n. heap_grants (kh_heap io) n" and "kh_file io f = Some content"
    and "\<forall>l\<in>set (known_hosts_read_lines content). readable_line io host l"
  shows "\<exists>es. fst (ssh_known_hosts_check_server_key io host f key) = fst (key_verdict (kh_keys io) key es SSH_KNOWN_HOSTS_UNKNOWN) \<and>
    (\<forall>P. (\<forall>a b. ssh_key_cmp (kh_keys io) (Some a) (Some b) = 0 \<longrightarrow> P a = P b) \<longrightarrow>
      (\<exists>e\<in>set es. P (kn_publickey e)) = (\<exists>l\<in>set (known_hosts_read_lines content). \<exists>k. listed_key io host l = Some k \<and> P k))"
proof -
  let ?run = "read_entries_loop io host (known_hosts_read_lines content) []"
  have run: "fst ?run = SSH_OK" "(\<exists>e\<in>set (snd ?run). P (kn_publickey e)) \<longleftrightarrow>
      (\<exists>l\<in>set (known_hosts_read_lines content). \<exists>k. listed_key io host l = Some k \<and> P k)"
    if "\<forall>a b. ssh_key_cmp (kh_keys io) (Some a) (Some b) = 0 \<longrightarrow> P a = P b" for P
    using read_entries_loop_readable [OF assms(1,3), of "[]" P] that by auto
  have "fst (ssh_known_hosts_check_server_key io host f key) =
      fst (key_verdict (kh_keys io) key (snd ?run) SSH_KNOWN_HOSTS_UNKNOWN)"
    using run(1) [of "\<lambda>k. True"] assms(1,2)
    by (cases ?run) (simp add: ssh_known_hosts_check_server_key_def ssh_known_hosts_read_entries_def)
  with run(2) show ?thesis
    by (intro exI [of _ "snd ?run"]) blast
qed

lemma key_cmp_type: "ssh_key_cmp ko (Some a) (Some b) = 0 \<Longrightarrow> pk_type a = pk_type b"
  by (auto simp: ssh_key_cmp_def split: if_splits)

lemma key_cmp_trans:
  assumes "\<forall>t a b. ko_compare ko t a b = 0 \<longleftrightarrow> a = b" and "ssh_key_cmp ko (Some a) (Some b) = 0"
  shows "ssh_key_cmp ko (Some k) (Some a) = 0 \<longleftrightarrow> ssh_key_cmp ko (Some k) (Some b) = 0"
  using assms(2)
  by (auto simp: ssh_key_cmp_def pki_ed25519_key_cmp_def assms(1) split: if_splits option.splits)


subsection \<open>A host that was added is known\<close>

text \<open>The blob of an Ed25519 key (RFC 8709): two strings, the name of the type and the 32 bytes.\<close>

definition ed25519_blob :: "bytes \<Rightarrow> bytes" where
  "ed25519_blob p = be_bytes (11 :: u32) @ map of_char ''ssh-ed25519'' @ be_bytes (32 :: u32) @ p"

lemma ed25519_blob_facts: "length (ed25519_blob p) = 19 + length p" "ed25519_blob p \<noteq> []"
  by (simp_all add: ed25519_blob_def be_bytes_def mem_bytes_def)

lemma alphabet_visible: "unat (w :: u8) < 64 \<Longrightarrow> 32 < alphabet ! unat w"
proof -
  have "\<forall>c\<in>set (take 64 alphabet). 32 < c" "64 \<le> length alphabet"
    by code_simp+
  moreover assume "unat w < 64"
  ultimately show ?thesis
    by (metis (no_types, lifting) in_set_conv_nth length_take min.absorb2 nth_take)
qed

lemma b64_visible: "\<forall>c\<in>set (b64 src). 32 < c"
proof -
  have "\<forall>c\<in>set (sx_chars src). 32 < c"
    by (induction src rule: sx_chars.induct) (auto simp: alphabet_visible)
  then show ?thesis
    by (auto simp: b64_def)
qed

lemma import_ed25519_text:
  assumes grants: "\<forall>n. heap_grants h n" and "length p = 32" and "cstr text64 = b64 (ed25519_blob p)"
  shows "ssh_pki_import_pubkey_base64 h ko text64 SSH_KEYTYPE_ED25519 = Some ((key_of_type SSH_KEYTYPE_ED25519)\<lparr>pk_ed25519 := Some p\<rparr>)"
proof -
  have "length (ed25519_blob p) < BUFFER_SIZE_MAX"
    using assms(2) by (simp add: ed25519_blob_facts BUFFER_SIZE_MAX_def)
  then obtain b where b: "base64_to_bin h text64 = Some b" "buffer_inv b" "buf_content b = ed25519_blob p"
    using base64_to_bin_b64 [OF grants ed25519_blob_facts(2) _ assms(3)] by blast
  have "buf_content b = be_bytes (of_nat (length (map of_char ''ssh-ed25519'' :: bytes)) :: u32) @ map of_char ''ssh-ed25519'' @
      be_bytes (32 :: u32) @ p"
    using b(3) by (simp add: ed25519_blob_def)
  from get_ssh_string_enough [OF b(2) this, of h] grants obtain s b1 where s: "ssh_buffer_get_ssh_string h b = (Some s, b1)"
    "buffer_inv b1" "buf_content b1 = be_bytes (32 :: u32) @ p"
    by (auto simp: STRING_SIZE_MAX_def)
  then have "buf_content b1 = be_bytes (of_nat (length p) :: u32) @ p @ []"
    using assms(2) by simp
  from get_ssh_string_enough [OF s(2) this, of h] grants assms(2) obtain s2 b2 where s2:
    "ssh_buffer_get_ssh_string h b1 = (Some s2, b2)" "ssh_string_ok s2" "ss_contents s2 = p"
    by (auto simp: STRING_SIZE_MAX_def)
  have len: "ssh_string_len (Some s2) = 32"
    using s2(2,3) assms(2) by (auto simp: ss_contents_def ssh_string_ok_def)
  have "take 32 (ss_data s2) = p"
    using s2(3) len by (simp add: ss_contents_def)
  with b(1) s(1) s2(1) len grants show ?thesis
    by (simp add: ssh_pki_import_pubkey_base64_def import_by_type_def is_cert_type_def pki_import_pubkey_buffer_def
        import_ed25519_def ssh_string_data_def Let_def)
qed

text \<open>A name that stands for itself in a line: one word, no pattern, in lower case.\<close>

definition plain_host :: "bytes \<Rightarrow> bool" where
  "plain_host s \<longleftrightarrow> s \<noteq> [] \<and> length s \<le> 1000 \<and> hd s \<noteq> 35 \<and> hd s \<noteq> 64 \<and>
     (\<forall>c\<in>set s. 32 < c \<and> c \<noteq> comma \<and> c \<noteq> bang \<and> c \<noteq> asterisk \<and> c \<noteq> question \<and> c \<noteq> 124 \<and> \<not> (65 \<le> c \<and> c \<le> 90))"

lemma glob_self: "\<forall>c\<in>set s. c \<noteq> asterisk \<Longrightarrow> glob s s \<and> star_runs s = 0"
  by (induction s) (auto simp: star_runs.simps [of "_ # _"] star_runs.simps [of "[]"])

lemma plain_host_chars:
  assumes "plain_host s" and "c \<in> set s"
  shows "32 < c" and "c \<noteq> comma" and "c \<noteq> bang" and "c \<noteq> asterisk" and "c \<noteq> question" and "tolower c = c"
  using assms by (simp_all add: plain_host_def tolower_def)

lemma plain_host_facts:
  assumes "plain_host s"
  shows "comma \<notin> set s" and "0 \<notin> set s" and "32 \<notin> set s" and "newline \<notin> set s" and "\<not> sub_negated s"
    and "map tolower s = s" and "s \<noteq> []" and "length s \<le> 1000"
proof -
  have ne: "s \<noteq> []" "length s \<le> 1000"
    using assms by (simp_all add: plain_host_def)
  show "comma \<notin> set s"
    using plain_host_chars(2) [OF assms] by blast
  show "0 \<notin> set s" "32 \<notin> set s" "newline \<notin> set s"
    using plain_host_chars(1) [OF assms, of 0] plain_host_chars(1) [OF assms, of 32] plain_host_chars(1) [OF assms, of newline]
    by auto
  show "\<not> sub_negated s"
    using plain_host_chars(3) [OF assms, of "hd s"] ne by (simp add: sub_negated_def)
  show "map tolower s = s"
    using plain_host_chars(6) [OF assms] by (simp add: map_idI)
  show "s \<noteq> []" "length s \<le> 1000"
    using ne by simp_all
qed

lemma plain_host_matches: "plain_host s \<Longrightarrow> match_hostname s s (length s) = 1"
proof -
  assume p: "plain_host s"
  note facts = plain_host_facts [OF p]
  have t: "tokens_of comma s = [s]"
    using facts(1) by (rule tokens_of_plain)
  have "glob s s" "star_runs s = 0"
    using glob_self [of s] plain_host_chars(4) [OF p] by blast+
  then have "sub_matches True s s"
    using match_pattern_complete [of s s MAX_MATCH_RECURSION] facts(5,6)
    by (simp add: sub_matches_def sub_body_def MAX_MATCH_RECURSION_def)
  with match_list_loop_verdict [OF facts(2,7), of s True 0] facts t show ?thesis
    by (simp add: match_hostname_def match_pattern_list_def verdict_def)
qed

lemma strtok_word:
  assumes "w \<noteq> []" and "sep \<notin> set w"
  shows "strtok sep (w @ sep # r) = Some (w, r)" and "strtok sep w = Some (w, [])"
proof -
  have d: "dropWhile (\<lambda>c. c = sep) (w @ x) = w @ x" for x
    using assms by (cases w) auto
  have t: "takeWhile (\<lambda>c. c \<noteq> sep) (w @ x) = w @ takeWhile (\<lambda>c. c \<noteq> sep) x" for x
    using assms(2) by (intro takeWhile_append2) auto
  have "takeWhile (\<lambda>c. c \<noteq> sep) w = w"
    using assms(2) by (auto simp: takeWhile_eq_all_conv)
  with d [of "sep # r"] t [of "sep # r"] d [of "[]"] assms(1)
  show "strtok sep (w @ sep # r) = Some (w, r)" "strtok sep w = Some (w, [])"
    by (simp_all add: strtok_def Let_def del: takeWhile_eq_all_conv)
qed

lemma strtok_all_word:
  "w \<noteq> [] \<Longrightarrow> sep \<notin> set w \<Longrightarrow> strtok_all sep (w @ sep # r) = w # strtok_all sep r"
  "w \<noteq> [] \<Longrightarrow> sep \<notin> set w \<Longrightarrow> strtok_all sep w = [w]"
proof -
  have nil: "strtok_all sep [] = []"
    by (simp add: strtok_all.simps strtok_def)
  show "strtok_all sep (w @ sep # r) = w # strtok_all sep r" if "w \<noteq> []" "sep \<notin> set w"
    using strtok_word(1) [OF that] by (simp add: strtok_all_Cons)
  show "strtok_all sep w = [w]" if "w \<noteq> []" "sep \<notin> set w"
    using strtok_word(2) [OF that] nil by (simp add: strtok_all_Cons)
qed

lemma plain_host_listed:
  assumes "plain_host s"
  shows "host_listed io s s = Some True"
proof -
  have "strtok_all comma s = [s]"
    using plain_host_facts [OF assms] by (intro strtok_all_word)
  with plain_host_matches [OF assms] show ?thesis
    by (simp add: host_listed_def)
qed

text \<open>The encoder reads no byte behind the length it is given.\<close>

lemma bin_to_base64_block_take: "k \<le> n \<Longrightarrow> bin_to_base64_block (take n src) k = bin_to_base64_block src k"
  by (simp add: bin_to_base64_block_def)

lemma bin_to_base64_loop_take:
  "bin_to_base64_loop mem ptr (take n src) n = bin_to_base64_loop mem ptr src n"
proof (induction n arbitrary: mem ptr src rule: less_induct)
  case (less n)
  let ?k = "if n > 3 then 3 else n"
  have block: "bin_to_base64_block (take n src) ?k = bin_to_base64_block src ?k"
    by (rule bin_to_base64_block_take) simp
  show ?case
  proof (cases "3 \<le> n")
    case True
    with less.IH [of "n - 3" _ _ "drop 3 src"] block show ?thesis
      by (simp add: bin_to_base64_loop.simps [of _ _ _ n] Let_def drop_take)
  next
    case False
    with block show ?thesis
      by (simp add: bin_to_base64_loop.simps [of _ _ _ n] Let_def)
  qed
qed

lemma bin_to_base64_take: "bin_to_base64 h (take n src) n = bin_to_base64 h src n"
  by (simp add: bin_to_base64_def bin_to_base64_loop_take cong: option.case_cong)

lemma export_text:
  assumes "ko_blob ko key = Some s" and "ssh_string_ok s" and "ss_contents s \<noteq> []"
    and "ssh_pki_export_pubkey_base64 h ko (Some key) = Some out"
  shows "cstr out = b64 (ss_contents s)"
proof -
  let ?n = "ssh_string_len (Some s)"
  have len: "length (ss_contents s) = ?n" "?n < 2 ^ 60"
    using assms(2) by (auto simp: ss_contents_def ssh_string_ok_def STRING_SIZE_MAX_def)
  have "bin_to_base64 h (ss_contents s) ?n = Some out"
    using assms(1,4)
    by (simp add: ssh_pki_export_pubkey_base64_def ssh_string_data_def ss_contents_def bin_to_base64_take del: ssh_string_len_ok)
  with bin_to_base64_Some(2) [of h "ss_contents s" out] len show ?thesis
    by simp
qed

text \<open>Lines that fit the reader come back as they were appended.\<close>

definition good_line :: "bytes \<Rightarrow> bool" where
  "good_line l \<longleftrightarrow> newline \<notin> set l \<and> 0 \<notin> set l \<and> length l < 8190"

definition file_of :: "bytes list \<Rightarrow> bytes" where
  "file_of ls = concat (map (\<lambda>l. l @ [newline]) ls)"

lemma read_lines_line:
  assumes "good_line l"
  shows "known_hosts_read_lines (l @ newline # rest) = l # known_hosts_read_lines rest"
proof -
  have line: "newline \<notin> set l" "0 \<notin> set l" "length l < 8190"
    using assms by (simp_all add: good_line_def)
  have t: "takeWhile (\<lambda>c. c \<noteq> newline) (l @ x) = l @ takeWhile (\<lambda>c. c \<noteq> newline) x" for x
    using line(1) by (intro takeWhile_append2) auto
  have f: "fst (fgets 8192 (l @ newline # rest)) = l @ [newline]"
    using line(3) t [of "newline # rest"] by (simp add: fgets_def Let_def)
  have c: "cstr (l @ [newline]) = l @ [newline]"
    using line(2) by (simp add: cstr_def takeWhile_eq_all_conv) auto
  show ?thesis
    using t [of "[newline]"] by (subst known_hosts_read_lines.simps) (simp add: f c Let_def del: takeWhile_eq_all_conv)
qed

lemma read_lines_file: "\<forall>l\<in>set ls. good_line l \<Longrightarrow> known_hosts_read_lines (file_of ls) = ls"
proof (induction ls)
  case Nil
  show ?case
    by (simp add: file_of_def known_hosts_read_lines.simps)
next
  case (Cons l ls)
  then show ?case
    using read_lines_line [of l "file_of ls"] by (simp add: file_of_def)
qed

lemma appended_keeps [simp]:
  "kh_heap (appended f x io) = kh_heap io" "kh_keys (appended f x io) = kh_keys io" "kh_hmac (appended f x io) = kh_hmac io"
  "kh_file (appended f x io) f = Some ((case kh_file io f of None \<Rightarrow> [] | Some c \<Rightarrow> c) @ x)"
  by (simp_all add: appended_def)

lemma appended_same_lines [simp]:
  "host_listed (appended f x io) host p = host_listed io host p"
  "listed_key (appended f x io) host l = listed_key io host l"
  "readable_line (appended f x io) host l = readable_line io host l"
  "ssh_session_get_host_port (appended f x io) opts = ssh_session_get_host_port io opts"
proof -
  show host: "host_listed (appended f x io) host p = host_listed io host p" for p
    by (simp add: host_listed_def match_hashed_hostname_def cong: option.case_cong)
  show key: "listed_key (appended f x io) host l = listed_key io host l"
    by (simp add: listed_key_def host split: list.splits)
  show "readable_line (appended f x io) host l = readable_line io host l"
    by (simp add: readable_line_def host key)
  show "ssh_session_get_host_port (appended f x io) opts = ssh_session_get_host_port io opts"
    by (simp add: ssh_session_get_host_port_def split: option.splits)
qed

text \<open>The line of an Ed25519 key, as it is exported, holds the key.\<close>

definition ed25519_key :: "bytes \<Rightarrow> ssh_key" where
  "ed25519_key p = (key_of_type SSH_KEYTYPE_ED25519)\<lparr>pk_ed25519 := Some p\<rparr>"

definition ed25519_word :: bytes where
  "ed25519_word = map of_char ''ssh-ed25519''"

definition ed25519_line :: "bytes \<Rightarrow> bytes \<Rightarrow> bytes" where
  "ed25519_line host p = host @ 32 # ed25519_word @ 32 # b64 (ed25519_blob p)"

lemma ed25519_word_facts: "ssh_key_type_from_name (Some (ed25519_word @ [0])) = SSH_KEYTYPE_ED25519"
  "32 \<notin> set ed25519_word" "newline \<notin> set ed25519_word" "0 \<notin> set ed25519_word" "ed25519_word \<noteq> []" "length ed25519_word = 11"
  by code_simp+

lemma b64_chars: "32 \<notin> set (b64 src)" "newline \<notin> set (b64 src)" "0 \<notin> set (b64 src)"
  using b64_visible [of src] by fastforce+

lemma ed25519_line_listed:
  assumes "\<forall>n. heap_grants (kh_heap io) n" and "plain_host host" and "length p = 32"
  shows "listed_key io host (ed25519_line host p) = Some (ed25519_key p)"
proof -
  note facts = plain_host_facts [OF assms(2)]
  let ?b = "b64 (ed25519_blob p)"
  have "length ?b \<noteq> 0"
    using assms(3) by (simp add: length_b64 ed25519_blob_facts)
  then have "?b \<noteq> []"
    by simp
  then have words: "strtok_all 32 (ed25519_line host p) = [host, ed25519_word, ?b]"
    using facts(3,7) ed25519_word_facts b64_chars(1) by (simp add: ed25519_line_def strtok_all_word)
  obtain c r where host: "host = c # r"
    using facts(7) by (cases host) auto
  have "32 < c" "c \<noteq> 35" "c \<noteq> 64"
    using assms(2) host by (simp_all add: plain_host_def)
  moreover from this(1) have "\<not> isspace c"
    by (auto simp: isspace_def word_less_nat_alt word_le_nat_alt)
  ultimately have "\<not> skipped_line (ed25519_line host p)"
    by (simp add: skipped_line_def ed25519_line_def host)
  moreover have "ssh_pki_import_pubkey_base64 (kh_heap io) (kh_keys io) (?b @ [0]) SSH_KEYTYPE_ED25519 = Some (ed25519_key p)"
    unfolding ed25519_key_def using b64_chars(3) [of "ed25519_blob p"] by (intro import_ed25519_text assms(1,3)) simp
  ultimately show ?thesis
    using words plain_host_listed [OF assms(2)] by (simp add: listed_key_def ed25519_word_facts(1))
qed

lemma ed25519_line_good: "plain_host host \<Longrightarrow> length p = 32 \<Longrightarrow> good_line (ed25519_line host p) \<and> length (ed25519_line host p) < 1100"
  using plain_host_facts [of host] ed25519_word_facts b64_chars [of "ed25519_blob p"]
  by (simp add: good_line_def ed25519_line_def length_b64 ed25519_blob_facts)

lemma key_cmp_ed25519: "length p = 32 \<Longrightarrow> ssh_key_cmp ko (Some (ed25519_key p)) (Some (ed25519_key p)) = 0"
  by (simp add: ssh_key_cmp_def ed25519_key_def key_of_type_def pki_ed25519_key_cmp_def)

lemma key_cmp_ed25519_trans:
  "ssh_key_cmp ko (Some a) (Some b) = 0 \<Longrightarrow>
    ssh_key_cmp ko (Some (ed25519_key p)) (Some a) = 0 \<longleftrightarrow> ssh_key_cmp ko (Some (ed25519_key p)) (Some b) = 0"
  by (auto simp: ssh_key_cmp_def ed25519_key_def key_of_type_def pki_ed25519_key_cmp_def split: if_splits option.splits)

lemma exported_line:
  assumes "ko_blob (kh_keys io) (ed25519_key p) = Some s" and "ssh_string_ok s" and "ss_contents s = ed25519_blob p"
    and "ssh_session_get_host_port io opts = Some hp" and "plain_host (cstr hp)" and "length p = 32"
    and "ssh_session_export_known_hosts_entry io opts (Some (ed25519_key p)) = Some entry"
  shows "cstr entry = ed25519_line (cstr hp) p @ [newline]"
proof -
  obtain out where out: "ssh_pki_export_pubkey_base64 (kh_heap io) (kh_keys io) (Some (ed25519_key p)) = Some out"
    "strdup (kh_heap io) (known_hosts_line (cstr hp) ''ssh-ed25519'' (cstr out)) = Some entry"
    using assms(4,7)
    by (auto simp: ssh_session_export_known_hosts_entry_def ed25519_key_def key_of_type_def split: option.splits)
  have "cstr out = b64 (ed25519_blob p)"
    using export_text [OF assms(1,2) _ out(1)] assms(3) ed25519_blob_facts(2) by simp
  moreover have good: "good_line (ed25519_line (cstr hp) p)" "length (ed25519_line (cstr hp) p) < 1100"
    using ed25519_line_good [OF assms(5,6)] by simp_all
  ultimately have "known_hosts_line (cstr hp) ''ssh-ed25519'' (cstr out) = ed25519_line (cstr hp) p @ [newline]"
    unfolding known_hosts_line_def ed25519_word_def [symmetric] by (simp add: ed25519_line_def)
  moreover have "0 \<notin> set (ed25519_line (cstr hp) p @ [newline])"
    using good(1) by (simp add: good_line_def)
  ultimately show ?thesis
    using out(2) cstr_terminated [of "ed25519_line (cstr hp) p @ [newline]" "[]"] by (auto simp: strdup_def split: if_splits)
qed

text \<open>In a readable file, a line with an Ed25519 key is enough for the verdict.\<close>

lemma listed_is_known:
  assumes "\<forall>n. heap_grants (kh_heap io) n" and "ssh_session_get_host_port io opts = Some hp" and "op_knownhosts opts = Some f"
    and "kh_file io f = Some content" and "length p = 32"
    and "\<forall>l\<in>set (known_hosts_read_lines content). readable_line io (cstr hp) l"
    and "\<exists>l\<in>set (known_hosts_read_lines content). listed_key io (cstr hp) l = Some (ed25519_key p)"
  shows "ssh_session_is_known_server io opts (Some (ed25519_key p)) = SSH_KNOWN_HOSTS_OK"
proof -
  let ?key = "ed25519_key p"
  obtain es where es:
    "fst (ssh_known_hosts_check_server_key io (cstr hp) f ?key) = fst (key_verdict (kh_keys io) ?key es SSH_KNOWN_HOSTS_UNKNOWN)"
    "\<And>P. \<forall>a b. ssh_key_cmp (kh_keys io) (Some a) (Some b) = 0 \<longrightarrow> P a = P b \<Longrightarrow>
      (\<exists>e\<in>set es. P (kn_publickey e)) =
      (\<exists>l\<in>set (known_hosts_read_lines content). \<exists>k. listed_key io (cstr hp) l = Some k \<and> P k)"
    using check_server_key_readable [OF assms(1,4,6), of ?key] by blast
  have "(\<exists>e\<in>set es. ssh_key_cmp (kh_keys io) (Some ?key) (Some (kn_publickey e)) = 0) =
      (\<exists>l\<in>set (known_hosts_read_lines content).
        \<exists>k. listed_key io (cstr hp) l = Some k \<and> ssh_key_cmp (kh_keys io) (Some ?key) (Some k) = 0)"
    using key_cmp_ed25519_trans by (intro es(2)) blast
  with assms(7) have "\<exists>e\<in>set es. ssh_key_cmp (kh_keys io) (Some ?key) (Some (kn_publickey e)) = 0"
    using key_cmp_ed25519 [OF assms(5), of "kh_keys io"] by blast
  with es(1) obtain e where "ssh_known_hosts_check_server_key io (cstr hp) f ?key = (SSH_KNOWN_HOSTS_OK, e)"
    by (cases "ssh_known_hosts_check_server_key io (cstr hp) f ?key") (simp add: key_verdict_value)
  with assms(2,3) show ?thesis
    by (simp add: ssh_session_is_known_server_def ssh_session_get_known_hosts_entry_def
        ssh_session_get_known_hosts_entry_file_def)
qed

text \<open>
  C21. A host that was added is known. After \<^verbatim>\<open>ssh_session_update_known_hosts\<close> has appended
  the Ed25519 key of a server to a file of readable lines, the lines of the file are the old ones and the
  new one, and the check of that key finds the server known, whatever the old lines say of it.
\<close>

theorem update_then_known:
  assumes "ssh_session_update_known_hosts io writable opts (Some (ed25519_key p)) = (SSH_OK, io')"
    and "\<forall>n. heap_grants (kh_heap io) n" and "length p = 32"
    and "ko_blob (kh_keys io) (ed25519_key p) = Some s" and "ssh_string_ok s" and "ss_contents s = ed25519_blob p"
    and "ssh_session_get_host_port io opts = Some hp" and "plain_host (cstr hp)" and "op_knownhosts opts = Some f"
    and "(case kh_file io f of None \<Rightarrow> [] | Some c \<Rightarrow> c) = file_of ls"
    and "\<forall>l\<in>set ls. good_line l \<and> readable_line io (cstr hp) l"
  shows "ssh_session_is_known_server io' opts (Some (ed25519_key p)) = SSH_KNOWN_HOSTS_OK \<and>
    (\<exists>c. kh_file io' f = Some c \<and> known_hosts_read_lines c = ls @ [ed25519_line (cstr hp) p])"
proof -
  let ?l = "ed25519_line (cstr hp) p" and ?key = "ed25519_key p"
  obtain entry where "ssh_session_export_known_hosts_entry io opts (Some ?key) = Some entry" "io' = appended f (cstr entry) io"
    using assms(1,9) by (auto simp: ssh_session_update_known_hosts_def split: option.splits if_splits)
  with exported_line [OF assms(4-8,3)] have io': "io' = appended f (?l @ [newline]) io"
    by simp
  have now: "kh_file io' f = Some (file_of (ls @ [?l]))"
    using assms(10) by (simp add: io' file_of_def)
  have good: "good_line ?l"
    using ed25519_line_good [OF assms(8,3)] by simp
  with assms(11) have lines: "known_hosts_read_lines (file_of (ls @ [?l])) = ls @ [?l]"
    by (intro read_lines_file) auto
  have listed: "listed_key io' (cstr hp) ?l = Some ?key"
    using ed25519_line_listed [OF assms(2,8,3)] by (simp add: io')
  then have "\<forall>l\<in>set (ls @ [?l]). readable_line io' (cstr hp) l"
    using assms(11) by (auto simp: io' readable_line_def)
  with listed have "ssh_session_is_known_server io' opts (Some ?key) = SSH_KNOWN_HOSTS_OK"
    using assms(2,7) by (intro listed_is_known [where hp = hp, OF _ _ assms(9) now assms(3)]) (auto simp: lines io')
  with now lines show ?thesis
    by blast
qed

subsection \<open>A file with one line\<close>

text \<open>
  A library that has Ed25519 keys only, and no file yet; the key is added for the host \<open>h\<close>. The blob is
  built in the way the code builds strings.
\<close>

definition blob_string :: "bytes \<Rightarrow> ssh_string option" where
  "blob_string d = map_option (\<lambda>s. s\<lparr>ss_data := mem_write (ss_data s) 0 d\<rparr>) (ssh_string_new roomy_heap (length d))"

lemma blob_string_Some: "length d \<le> STRING_SIZE_MAX \<Longrightarrow> \<exists>s. blob_string d = Some s \<and> ssh_string_ok s \<and> ss_contents s = d"
  using ssh_string_new_None [of roomy_heap "length d"] ssh_string_new_filled [of roomy_heap d]
  by (auto simp: blob_string_def roomy_heap_def)

definition ed25519_only :: key_ops where
  "ed25519_only = \<lparr>ko_build_dss = (\<lambda>p q g y. None), ko_build_rsa = (\<lambda>e n. None), ko_ecdsa_nid = (\<lambda>c. - 1),
     ko_build_ecdsa = (\<lambda>n e. None), ko_ecdsa_name = (\<lambda>m. []), ko_compare = (\<lambda>t a b. if a = b then 0 else 1),
     ko_blob = (\<lambda>k. case pk_ed25519 k of None \<Rightarrow> None | Some p \<Rightarrow> blob_string (ed25519_blob p))\<rparr>"

definition no_file :: known_hosts_io where
  "no_file = \<lparr>kh_heap = roomy_heap, kh_keys = ed25519_only, kh_file = (\<lambda>f. None), kh_access = (\<lambda>f. False),
     kh_hmac = (\<lambda>s m. None), kh_apply = Some\<rparr>"

definition sample_opts :: host_opts where
  "sample_opts = \<lparr>op_host = Some [104, 0], op_port = 22, op_knownhosts = Some [102, 0], op_global_knownhosts = None, op_strict = True\<rparr>"

abbreviation one_file :: known_hosts_io where
  "one_file \<equiv> appended [102, 0] (ed25519_line [104] (replicate 32 7) @ [newline]) no_file"

lemma sample_facts:
  "\<forall>n. heap_grants (kh_heap no_file) n" "\<forall>t a b. ko_compare (kh_keys no_file) t a b = 0 \<longleftrightarrow> a = b"
  "ssh_session_get_host_port no_file sample_opts = Some [104, 0]" "plain_host [104]" "cstr [104, 0] = [104]"
  "kh_file no_file [102, 0] = None"
  by (simp_all add: no_file_def roomy_heap_def ed25519_only_def) code_simp+

lemma one_file_lines:
  "kh_file one_file [102, 0] = Some (ed25519_line [104] (replicate 32 7) @ [newline])"
  "known_hosts_read_lines (ed25519_line [104] (replicate 32 7) @ [newline]) = [ed25519_line [104] (replicate 32 7)]"
  "listed_key one_file [104] (ed25519_line [104] (replicate 32 7)) = Some (ed25519_key (replicate 32 7))"
  using ed25519_line_good [OF sample_facts(4), of "replicate 32 7"] ed25519_line_listed [OF sample_facts(1,4), of "replicate 32 7"]
    read_lines_file [of "[ed25519_line [104] (replicate 32 7)]"] sample_facts(6)
  by (simp_all add: file_of_def)


theorem known_only_by_a_line_witness:
  "\<exists>content l. kh_file one_file [102, 0] = Some content \<and> l \<in> set (known_hosts_read_lines content) \<and>
     vouches one_file [104] (ed25519_key (replicate 32 7)) l"
proof -
  have host: "ssh_session_get_host_port one_file sample_opts = Some [104, 0]"
    by (simp add: sample_facts(3))
  have "readable_line one_file [104] (ed25519_line [104] (replicate 32 7))"
    by (simp add: readable_line_def one_file_lines(3) del: appended_same_lines)
  then have "ssh_session_is_known_server one_file sample_opts (Some (ed25519_key (replicate 32 7))) = SSH_KNOWN_HOSTS_OK"
    using sample_facts(1,5) host one_file_lines(3)
    by (intro listed_is_known [OF _ host _ one_file_lines(1)])
       (simp_all add: one_file_lines(2) sample_opts_def del: appended_same_lines)
  from known_only_by_a_line [OF this] host show ?thesis
    by (auto simp: sample_opts_def sample_facts(5) simp del: appended_same_lines)
qed

theorem update_then_known_witness:
  "\<exists>io'. ssh_session_update_known_hosts no_file (\<lambda>f. True) sample_opts (Some (ed25519_key (replicate 32 7))) = (SSH_OK, io') \<and>
     ssh_session_is_known_server io' sample_opts (Some (ed25519_key (replicate 32 7))) = SSH_KNOWN_HOSTS_OK"
proof -
  let ?key = "ed25519_key (replicate 32 7)"
  obtain s where s: "ko_blob (kh_keys no_file) ?key = Some s" "ssh_string_ok s" "ss_contents s = ed25519_blob (replicate 32 7)"
    using blob_string_Some [of "ed25519_blob (replicate 32 7)"]
    by (auto simp: no_file_def ed25519_only_def ed25519_key_def ed25519_blob_facts STRING_SIZE_MAX_def)
  then have "\<exists>entry. ssh_session_export_known_hosts_entry no_file sample_opts (Some ?key) = Some entry"
    using sample_facts(1,3)
    by (simp add: ssh_session_export_known_hosts_entry_def ssh_pki_export_pubkey_base64_def bin_to_base64_def malloc_def
        strdup_def ed25519_key_def key_of_type_def split: prod.splits)
  then obtain io' where u: "ssh_session_update_known_hosts no_file (\<lambda>f. True) sample_opts (Some ?key) = (SSH_OK, io')"
    by (auto simp: ssh_session_update_known_hosts_def sample_opts_def)
  have "(case kh_file no_file [102, 0] of None \<Rightarrow> [] | Some c \<Rightarrow> c) = file_of []"
    by (simp add: sample_facts(6) file_of_def)
  with update_then_known [OF u sample_facts(1) _ s sample_facts(3), of "[102, 0]" "[]"] u show ?thesis
    unfolding sample_facts(5) using sample_facts(4) by (auto simp: sample_opts_def)
qed

end
