(* ===== verification/Publickey_Signature.thy ===== *)
theory Publickey_Signature
  imports Auth_Publickey
begin

text \<open>
  What is signed when the user authenticates with a key: the identifier of the session and the very request
  that is sent, so that a signature is good for this request in this session only (RFC 4252,
  section 7).
\<close>

subsection \<open>Strings and signatures\<close>

lemma filled_string:
  assumes "ssh_string_new h len = Some p" and "take len d = x" and "length x = len" and "0 < len"
    and "snd (ssh_string_fill (Some p) (Some d) len) = Some str"
  shows "ssh_string_ok str" and "ss_contents str = x"
proof -
  have p: "ssh_string_new h (length x) = Some p"
    using assms(1,3) by simp
  have "str = p\<lparr>ss_data := mem_write (ss_data p) 0 x\<rparr>"
    using assms(2-5) ssh_string_new_Some(2) [OF assms(1)] by (simp add: ssh_string_fill_def)
  with ssh_string_new_filled(1,2) [OF p] show "ssh_string_ok str" "ss_contents str = x"
    by simp_all
qed

lemma buffer_get_content:
  assumes "buffer_inv b" and "buf_content b \<noteq> []"
  obtains d where "ssh_buffer_get b = Some d" and "take (ssh_buffer_get_len b) d = buf_content b"
proof -
  have "b_alloc b \<noteq> 0"
    using assms by (auto simp: buffer_inv_def buf_content_def)
  moreover have "take (ssh_buffer_get_len b) (drop (b_pos b) (b_data b)) = buf_content b"
    using assms(1) by (simp add: get_len_content length_buf_content) (simp add: buf_content_def take_drop buffer_inv_def)
  ultimately show thesis
    by (intro that) (simp_all add: ssh_buffer_get_def)
qed

lemma sized_nonempty [simp]: "sized d \<noteq> []"
proof -
  have "0 < length (sized d)"
    by (simp add: sized_def be_bytes_def mem_bytes_def)
  then show ?thesis
    by (simp only: length_greater_0_conv not_False_eq_True)
qed

lemma exported_signature:
  assumes "ssh_pki_export_signature_blob h sig = Some str" and "\<forall>bl. sg_blob sig = Some bl \<longrightarrow> ssh_string_ok bl"
  obtains bl where "sg_blob sig = Some bl" and "ssh_string_ok str"
    and "ss_contents str = sized (cstr (sg_type_c sig)) @ sized (ss_contents bl)"
proof -
  from assms(1) obtain b0 name rc1 b1 bl rc2 b2 p where s: "ssh_buffer_new h = Some b0"
    "ssh_string_from_char h (Some (sg_type_c sig)) = Some name"
    "ssh_buffer_add_ssh_string h b0 (Some name) = (rc1, b1)" "\<not> rc1 < 0" "sg_blob sig = Some bl"
    "ssh_buffer_add_ssh_string h b1 (Some bl) = (rc2, b2)" "\<not> rc2 < 0" "ssh_string_new h (ssh_buffer_get_len b2) = Some p"
    "snd (ssh_string_fill (Some p) (ssh_buffer_get b2) (ssh_buffer_get_len b2)) = Some str"
    by (auto simp: ssh_pki_export_signature_blob_def split: option.splits prod.splits if_splits)
  note name = ssh_string_from_char_Some [OF s(2)] and new = buffer_new_Some [OF s(1)]
  have a1: "appends b0 (sized (cstr (sg_type_c sig))) (rc1, b1)"
    using add_ssh_string_appends [OF new(1) name(1), of h] s(3) name(2) by simp
  have a2: "appends b1 (sized (ss_contents bl)) (rc2, b2)"
    using add_ssh_string_appends [OF appends_pair(1) [OF a1], of bl h] assms(2) s(5,6) by simp
  have content: "buffer_inv b2" "buf_content b2 = sized (cstr (sg_type_c sig)) @ sized (ss_contents bl)"
    using appends_pair [OF a1] appends_pair [OF a2] s(4,7) new(2) by auto
  obtain d where d: "ssh_buffer_get b2 = Some d" "take (ssh_buffer_get_len b2) d = buf_content b2"
    using buffer_get_content [OF content(1)] content(2) by auto
  have len: "length (buf_content b2) = ssh_buffer_get_len b2" "0 < ssh_buffer_get_len b2"
    using get_len_content [OF content(1)] content(2) by auto
  from filled_string [OF s(8) d(2) len] s(9) d(1) content(2) s(5) show thesis
    by (intro that) simp_all
qed

lemma session_id_contents:
  assumes "session_id_string h s = Some str" and "ssh_packet_get_current_crypto s SSH_DIRECTION_BOTH = Some (w, c)"
    and "length (cr_session_id c) = cr_digest_len c" and "0 < cr_digest_len c"
  shows "ssh_string_ok str" and "ss_contents str = cr_session_id c"
proof -
  obtain p where p: "ssh_string_new h (cr_digest_len c) = Some p"
    "snd (ssh_string_fill (Some p) (Some (cr_session_id c)) (cr_digest_len c)) = Some str"
    using assms(1,2) by (auto simp: session_id_string_def split: option.splits)
  from filled_string [OF p(1) _ assms(3,4) p(2)] assms(3) show "ssh_string_ok str" "ss_contents str = cr_session_id c"
    by simp_all
qed

text \<open>What the library does with a key is only assumed to give blobs that are strings.\<close>

definition signs_with_strings :: "pubkey_env \<Rightarrow> bool" where
  "signs_with_strings pk \<longleftrightarrow> (\<forall>key d x sig bl. pu_sign pk key d x = Some sig \<longrightarrow> sg_blob sig = Some bl \<longrightarrow> ssh_string_ok bl)"

lemma signature_over:
  assumes sig: "ssh_pki_do_sign e pk s b key d = Some str" and strings: "signs_with_strings pk" and inv: "buffer_inv b"
    and id: "ssh_packet_get_current_crypto s SSH_DIRECTION_BOTH = Some (w, c)"
    "length (cr_session_id c) = cr_digest_len c" "0 < cr_digest_len c"
  obtains sg bl where "pu_sign pk key d (sized (cr_session_id c) @ buf_content b) = Some sg" and "sg_blob sg = Some bl"
    and "ssh_string_ok str" and "ss_contents str = sized (cstr (sg_type_c sg)) @ sized (ss_contents bl)"
proof -
  from sig obtain sid b0 b1 sg where s: "session_id_string (pe_heap e) s = Some sid" "ssh_buffer_new (pe_heap e) = Some b0"
    "pack_call (pe_heap e) (ssh_buffer_set_secure b0) [FString sid, FBytes (buf_content b)] = (SSH_OK, b1)"
    "pki_do_sign e pk key (buf_content b1) d = Some sg" "ssh_pki_export_signature_blob (pe_heap e) sg = Some str"
    by (auto simp: ssh_pki_do_sign_def split: option.splits prod.splits if_splits)
  note sid = session_id_contents [OF s(1) id]
  have new: "buffer_inv (ssh_buffer_set_secure b0)" "buf_content (ssh_buffer_set_secure b0) = []"
    using buffer_new_Some [OF s(2)] by (simp_all add: ssh_buffer_set_secure_def buffer_inv_def buf_content_def)
  have len: "length (buf_content b) < 4294967296"
    using buffer_inv_bounds [OF inv] length_buf_content [OF inv] by simp
  have "sum_list (map field_reserve [FString sid, FBytes (buf_content b)]) < 18446744073709551616"
    using len ssh_string_len_bound [of "Some sid"] by (simp add: STRING_SIZE_MAX_def del: ssh_string_len_ok ssh_string_len_bound)
  from pack_call_appends [OF new(1) _ _ this, of "pe_heap e"] sid(1) len s(3)
  have "appends (ssh_buffer_set_secure b0) (sized (cr_session_id c) @ buf_content b) (SSH_OK, b1)"
    by (simp add: wire_of_def sid(2))
  from appends_pair(3) [OF this] new(2) have b1: "buf_content b1 = sized (cr_session_id c) @ buf_content b"
    by simp
  have sign: "pu_sign pk key d (sized (cr_session_id c) @ buf_content b) = Some sg"
    using s(4) b1 by (simp add: pki_do_sign_def split: if_splits)
  obtain bl where "sg_blob sg = Some bl" "ssh_string_ok str" "ss_contents str = sized (cstr (sg_type_c sg)) @ sized (ss_contents bl)"
    using exported_signature [OF s(5)] strings sign by (auto simp: signs_with_strings_def)
  with sign show thesis
    by (rule that)
qed

subsection \<open>The request\<close>

text \<open>The request without its signature.\<close>

definition publickey_request :: "bytes \<Rightarrow> string \<Rightarrow> bytes \<Rightarrow> bytes" where
  "publickey_request user alg blob =
     [50] @ sized user @ sized (map of_char ''ssh-connection'') @ sized (map of_char ''publickey'') @ [1] @
     sized (map of_char alg) @ sized blob"

definition plain_name :: "string \<Rightarrow> bool" where
  "plain_name n \<longleftrightarrow> CHR 0x00 \<notin> set n \<and> n \<noteq> [] \<and> length n < 100"

lemma of_char_nonzero:
  assumes "c \<noteq> CHR 0x00"
  shows "of_char c \<noteq> (0 :: u8)"
proof
  assume "of_char c = (0 :: u8)"
  then have "of_nat (of_char c) = (0 :: u8)"
    by (simp only: of_nat_of_char)
  then have "(of_char c :: nat) = 0"
    using nat_of_char_less_256 [of c] nat_dvd_not_less [of "of_char c" 256] by (cases "(of_char c :: nat) = 0") (auto simp: word_of_nat_eq_0_iff simp del: nat_of_char_less_256)
  then have "of_char c = (of_char (CHR 0x00) :: nat)"
    by simp
  with assms show False
    by (simp only: of_char_eq_iff)
qed

lemma names_plain:
  "plain_name ''ssh-dss''" "plain_name ''ssh-rsa''" "plain_name ''ssh-ecdsa''"
  "plain_name ''ecdsa-sha2-nistp256''" "plain_name ''ecdsa-sha2-nistp384''" "plain_name ''ecdsa-sha2-nistp521''"
  "plain_name ''ssh-ed25519''" "plain_name ''ssh-dss-cert-v01@openssh.com''" "plain_name ''ssh-rsa-cert-v01@openssh.com''"
  "plain_name ''ecdsa-sha2-nistp256-cert-v01@openssh.com''" "plain_name ''ecdsa-sha2-nistp384-cert-v01@openssh.com''" "plain_name ''ecdsa-sha2-nistp521-cert-v01@openssh.com''"
  "plain_name ''ssh-ed25519-cert-v01@openssh.com''" "plain_name ''rsa-sha2-256''" "plain_name ''rsa-sha2-512''"
  "plain_name ''rsa-sha2-256-cert-v01@openssh.com''" "plain_name ''rsa-sha2-512-cert-v01@openssh.com''"
  by (simp_all add: plain_name_def)

lemma type_name_plain: "ssh_key_type_to_char t = Some alg \<Longrightarrow> plain_name alg"
  by (cases t) (auto simp: names_plain)

lemma signature_name_plain: "ssh_key_signature_to_char t d = Some alg \<Longrightarrow> plain_name alg"
  using type_name_plain [of t alg]
  by (cases "(t, d)" rule: ssh_key_signature_to_char.cases) (auto simp: names_plain split: ssh_digest.splits)

lemma algorithm_plain: "ssh_key_get_signature_algorithm e pk s type = Some alg \<Longrightarrow> plain_name alg"
  using signature_name_plain by (auto simp: ssh_key_get_signature_algorithm_def names_plain split: if_splits)

text \<open>The fields of a request that fit, and the packet that begins with them.\<close>

definition request_fields :: "nat wfield list \<Rightarrow> bytes \<Rightarrow> bool" where
  "request_fields fs x \<longleftrightarrow> wire_of nat_bignum fs = x \<and> (\<forall>f\<in>set fs. field_plain f) \<and> fs \<noteq> [] \<and>
     sum_list (map field_reserve fs) < 18446744073709551616"

lemma plain_name_bytes: "plain_name n \<Longrightarrow> (0 :: u8) \<notin> set (map of_char n)"
  unfolding plain_name_def set_map image_iff by (metis of_char_nonzero)

lemma request_fields_strings:
  assumes m: "\<forall>m\<in>{u, m1, m2, a}. 0 \<notin> set m \<and> length m < 4294967296" and "ssh_string_ok blob"
  shows "request_fields [FByte x, FCStr u, FCStr m1, FCStr m2, FByte y, FCStr a, FString blob]
    ([x] @ sized u @ sized m1 @ sized m2 @ [y] @ sized a @ sized (ss_contents blob))"
proof -
  have "ssh_string_len (Some blob) < 4294967296"
    using ssh_string_len_bound [of "Some blob"] by (simp only: STRING_SIZE_MAX_def)
  then show ?thesis
    using m assms(2) by (simp add: request_fields_def wire_of_def del: ssh_string_len_ok)
qed

lemma publickey_fields_wire:
  assumes "request_user username s = Some u" and "length u < 4294967296" and "plain_name alg" and "ssh_string_ok blob"
  shows "\<exists>fs. publickey_fields pk s username 1 alg blob = Some fs \<and> request_fields fs (publickey_request u alg (ss_contents blob))"
proof -
  have plain: "0 \<notin> set (map of_char n :: bytes) \<and> length (map of_char n :: bytes) < 4294967296" if "plain_name n" for n
    using that plain_name_bytes [OF that] by (simp add: plain_name_def del: set_map)
  have "plain_name ''ssh-connection''" "plain_name ''publickey''"
    by (simp_all add: plain_name_def)
  with plain assms(3) have "\<forall>m\<in>{u, map of_char ''ssh-connection'', map of_char ''publickey'', map of_char alg}.
      (0 :: u8) \<notin> set m \<and> length m < 4294967296"
    using assms(1,2) cstr_no_nul by (simp only: ball_simps) (auto simp only: request_user_def option.map split: option.splits)
  from request_fields_strings [OF this assms(4)] assms(1) show ?thesis
    unfolding publickey_fields_def publickey_request_def by (simp only: option.map option.inject ex_simps) blast
qed

lemma signed_packet_content:
  assumes inv: "buffer_inv out" and empty: "buf_content out = []" and fs: "request_fields fs x"
    and packet: "signed_packet e out fs sign = (True, b)"
  shows "\<exists>b0 str. buf_content b0 = x \<and> buffer_inv b0 \<and> sign b0 = Some str \<and>
    (ssh_string_ok str \<longrightarrow> buf_content b = x @ sized (ss_contents str))"
proof -
  from packet obtain rc b0 str rc2 where s: "pack_call (pe_heap e) out fs = (rc, b0)" "\<not> rc < 0" "sign b0 = Some str"
    "ssh_buffer_add_ssh_string (pe_heap e) b0 (Some str) = (rc2, b)" "\<not> rc2 < 0"
    by (auto simp: signed_packet_def split: prod.splits option.splits if_splits)
  have a: "appends out x (rc, b0)"
    using pack_call_appends [OF inv, of fs "pe_heap e"] fs s(1) by (simp add: request_fields_def)
  have b0: "buf_content b0 = x" "buffer_inv b0"
    using appends_pair [OF a] s(2) empty by auto
  moreover have "buf_content b = x @ sized (ss_contents str)" if "ssh_string_ok str"
  proof -
    have a2: "appends b0 (sized (ss_contents str)) (rc2, b)"
      using add_ssh_string_appends [OF b0(2) that, of "pe_heap e"] s(4) by simp
    with appends_pair(2,3) [OF a2] s(5) b0(1) show ?thesis
      by auto
  qed
  ultimately show ?thesis
    using s(3) by blast
qed

text \<open>
  C4. What is signed is what is sent. Once the service is granted, a call with a private key that
  does not end without a packet hands over exactly the request for the user with the key,
  followed by the signature; and the bytes that were signed are the identifier of the session and this
  request, up to the last byte.
\<close>

theorem signature_covers_session_and_request:
  assumes call: "s_pending_call s = SSH_PENDING_CALL_NONE" "ssh_userauth_request_service wait e s = Ret (SSH_OK, s1)"
    and user: "request_user username s1 = Some u" "length u < 4294967296"
    and buf: "buffer_inv (s_out_buffer s1)" "buf_content (s_out_buffer s1) = []"
    and id: "ssh_packet_get_current_crypto s1 SSH_DIRECTION_BOTH = Some (w, c)"
    "length (cr_session_id c) = cr_digest_len c" "0 < cr_digest_len c"
    and blob: "ko_blob (pu_keys pk) (pv_public key) = Some blob" "ssh_string_ok blob" and strings: "signs_with_strings pk"
  shows "ssh_userauth_publickey wait e pk s username (Some key) = Ret (SSH_AUTH_DENIED, s) \<or>
    (\<exists>b. ssh_userauth_publickey wait e pk s username (Some key) = publickey_failed e s1 b) \<or>
    (\<exists>b alg d sg bl request.
      ssh_userauth_publickey wait e pk s username (Some key) =
        publickey_sent wait e s1 b SSH_AUTH_STATE_PUBKEY_AUTH_SENT SSH_PENDING_CALL_AUTH_PUBKEY \<and>
      request = publickey_request u alg (ss_contents blob) \<and>
      pu_sign pk key d (sized (cr_session_id c) @ request) = Some sg \<and> sg_blob sg = Some bl \<and>
      buf_content b = request @ sized (sized (cstr (sg_type_c sg)) @ sized (ss_contents bl)))"
proof (cases "allowed_algorithm e pk s
    (if pk_cert (pv_public key) \<noteq> None then pv_cert_type key else pk_type (pv_public key))")
  case None
  with call(1) show ?thesis
    by (auto simp: ssh_userauth_publickey_def)
next
  case (Some alg)
  let ?d = "ssh_key_type_to_hash e pk s1 (pk_type (pv_public key))" and ?request = "publickey_request u alg (ss_contents blob)"
  let ?sign = "\<lambda>b. ssh_pki_do_sign e pk (s1\<lparr>s_out_buffer := b\<rparr>) b key ?d"
  have alg: "plain_name alg"
    using Some algorithm_plain by (auto simp: allowed_algorithm_def split: option.splits if_splits)
  obtain fs where fs: "publickey_fields pk s1 username 1 alg blob = Some fs" "request_fields fs ?request"
    using publickey_fields_wire [OF user alg blob(2)] by blast
  obtain ok b where packet: "signed_packet e (s_out_buffer s1) fs ?sign = (ok, b)"
    by (rule prod.exhaust)
  have run: "ssh_userauth_publickey wait e pk s username (Some key) =
      (if \<not> ok then publickey_failed e s1 b
       else publickey_sent wait e s1 b SSH_AUTH_STATE_PUBKEY_AUTH_SENT SSH_PENDING_CALL_AUTH_PUBKEY)"
    using call Some blob(1) fs(1) packet by (simp add: ssh_userauth_publickey_def run_bind_Ret)
  show ?thesis
  proof (cases ok)
    case True
    with packet have "signed_packet e (s_out_buffer s1) fs ?sign = (True, b)"
      by simp
    from signed_packet_content [OF buf fs(2) this] obtain b0 str where b0: "buf_content b0 = ?request" "buffer_inv b0" "?sign b0 = Some str"
      "ssh_string_ok str \<Longrightarrow> buf_content b = ?request @ sized (ss_contents str)"
      by blast
    have id0: "ssh_packet_get_current_crypto (s1\<lparr>s_out_buffer := b0\<rparr>) SSH_DIRECTION_BOTH = Some (w, c)"
      using id(1) by (simp add: ssh_packet_get_current_crypto_def)
    obtain sg bl where "pu_sign pk key ?d (sized (cr_session_id c) @ ?request) = Some sg" "sg_blob sg = Some bl"
      "ssh_string_ok str" "ss_contents str = sized (cstr (sg_type_c sg)) @ sized (ss_contents bl)"
      using signature_over [OF b0(3) strings b0(2) id0 id(2,3)] b0(1) by auto
    with run True b0(4) show ?thesis
      by fastforce
  qed (use run in auto)
qed

subsection \<open>A signed request\<close>

text \<open>
  A session with an identifier of three bytes, and a library that signs with a constant; keys are just being
  exchanged, so the packet waits in the queue.
\<close>

definition signing_env :: pubkey_env where
  "signing_env = \<lparr>pu_keys = \<lparr>ko_build_dss = (\<lambda>p q g y. None), ko_build_rsa = (\<lambda>e n. None), ko_ecdsa_nid = (\<lambda>c. - 1),
       ko_build_ecdsa = (\<lambda>n e. None), ko_ecdsa_name = (\<lambda>m. []), ko_compare = (\<lambda>t a b. 1),
       ko_blob = (\<lambda>k. ssh_string_from_char roomy_heap (Some [7, 0]))\<rparr>,
     pu_accepted = Some (lit ''ssh-ed25519''), pu_enabled = True, pu_identities = [], pu_pubkey_file = (\<lambda>f. FileEof),
     pu_privkey_file = (\<lambda>f. FileEof), pu_public_of = (\<lambda>k. None),
     pu_sign = (\<lambda>k d x. Some \<lparr>sg_type_c = lit ''ssh-ed25519'', sg_blob = ssh_string_from_char roomy_heap (Some [9, 0])\<rparr>),
     pu_agent_running = False, pu_agent = (\<lambda>m. None)\<rparr>"

definition signing_key :: ssh_privkey where
  "signing_key = \<lparr>pv_public = key_of_type SSH_KEYTYPE_ED25519, pv_cert_type = SSH_KEYTYPE_UNKNOWN, pv_secret = [5]\<rparr>"

definition signing_session :: ssh_session where
  "signing_session = sample_session\<lparr>s_flags := SSH_SESSION_FLAG_AUTHENTICATED, s_dh_handshake_state := DH_STATE_INIT_SENT,
     s_current_crypto := Some (sample_crypto\<lparr>cr_used := SSH_DIRECTION_BOTH, cr_in_cipher := Some sample_cipher,
       cr_out_cipher := Some sample_cipher, cr_session_id := [1, 2, 3], cr_digest_len := 3\<rparr>)\<rparr>"

lemma signing_call:
  "(case ssh_userauth_publickey (\<lambda>c s. Ret (SSH_OK, s)) sample_env signing_env signing_session None (Some signing_key) of
      Ret (rc, t) \<Rightarrow> rc = SSH_AUTH_AGAIN | Overflow \<Rightarrow> False)"
  by code_simp

theorem signature_covers_session_and_request_witness:
  "\<exists>b sg bl alg d. let request = publickey_request [117] alg [7] in
    ssh_userauth_publickey (\<lambda>c s. Ret (SSH_OK, s)) sample_env signing_env signing_session None (Some signing_key) =
      publickey_sent (\<lambda>c s. Ret (SSH_OK, s)) sample_env signing_session b SSH_AUTH_STATE_PUBKEY_AUTH_SENT
        SSH_PENDING_CALL_AUTH_PUBKEY \<and>
    pu_sign signing_env signing_key d (sized [1, 2, 3] @ request) = Some sg \<and> sg_blob sg = Some bl \<and>
    buf_content b = request @ sized (sized (cstr (sg_type_c sg)) @ sized (ss_contents bl))"
proof -
  let ?wait = "\<lambda>c s. Ret (SSH_OK, s)" and ?s = signing_session
  let ?call = "ssh_userauth_publickey ?wait sample_env signing_env ?s None (Some signing_key)"
  let ?c = "sample_crypto\<lparr>cr_used := SSH_DIRECTION_BOTH, cr_in_cipher := Some sample_cipher,
    cr_out_cipher := Some sample_cipher, cr_session_id := [1, 2, 3], cr_digest_len := 3\<rparr>"
  obtain blob where blob: "ssh_string_from_char roomy_heap (Some [7, 0]) = Some blob"
    using ssh_string_new_None [of roomy_heap 1]
    by (auto simp: ssh_string_from_char_def strlen_def STRING_SIZE_MAX_def Let_def split: option.splits)
  have blob_ok: "ko_blob (pu_keys signing_env) (pv_public signing_key) = Some blob" "ssh_string_ok blob" "ss_contents blob = [7]"
    using blob ssh_string_from_char_Some [OF blob] by (simp_all add: signing_env_def cstr_def)
  have strings: "signs_with_strings signing_env"
    using ssh_string_from_char_Some(1) by (auto simp: signs_with_strings_def signing_env_def)
  have "s_pending_call ?s = SSH_PENDING_CALL_NONE" "buffer_inv (s_out_buffer ?s)" "buf_content (s_out_buffer ?s) = []"
    "request_user None ?s = Some [117]" "ssh_userauth_request_service ?wait sample_env ?s = Ret (SSH_OK, ?s)"
    "ssh_packet_get_current_crypto ?s SSH_DIRECTION_BOTH = Some (CurrentCrypto, ?c)"
    by (simp_all add: signing_session_def sample_session_def request_user_def cstr_def ssh_userauth_request_service_def
        ssh_service_request_def service_pending_def run_bind_Ret ssh_packet_get_current_crypto_def roomy_buffer_def
        buffer_inv_def buf_content_def BUFFER_SIZE_MAX_def direction_defs)
  from signature_covers_session_and_request [OF this(1,5,4) _ this(2,3,6) _ _ blob_ok(1,2) strings] blob_ok(3)
  have "?call = Ret (SSH_AUTH_DENIED, ?s) \<or> (\<exists>b. ?call = publickey_failed sample_env ?s b) \<or> ?thesis"
    by (simp add: Let_def) blast
  with signing_call show ?thesis
    by (auto simp: publickey_failed_def)
qed

end
