(* ===== verification/Agent_Search.thy ===== *)
theory Agent_Search
  imports Publickey_Signature
begin

text \<open>
  The search through the keys of an agent ends: every key that is taken off the list the agent has sent
  makes the list shorter, although the count is never decreased. A fuel above the length of
  the longest answer is enough.
\<close>

subsection \<open>Reading takes bytes off\<close>

lemma get_data_shrinks:
  assumes "buffer_inv b" and "ssh_buffer_get_data b n = (k, d, b1)"
  shows "buffer_inv b1" and "length (buf_content b1) \<le> length (buf_content b)"
    and "0 < k \<Longrightarrow> length (buf_content b1) < length (buf_content b)"
proof -
  have "ssh_buffer_get_data b n = ssh_buffer_get_data b (wrap32 n)"
    by (simp add: ssh_buffer_get_data_def)
  then have run: "ssh_buffer_get_data b (wrap32 n) = (k, d, b1)"
    using assms(2) by simp
  have small: "wrap32 n < 4294967296"
    by simp
  show "buffer_inv b1" and "length (buf_content b1) \<le> length (buf_content b)"
    and "0 < k \<Longrightarrow> length (buf_content b1) < length (buf_content b)"
    using run get_data_short [OF assms(1) small] get_data_enough [OF assms(1), of "wrap32 n"] assms(1)
    by (cases "wrap32 n \<le> length (buf_content b)"; auto)+
qed

lemma get_ssh_string_shrinks:
  assumes inv: "buffer_inv b" and run: "ssh_buffer_get_ssh_string h b = (x, b1)"
  shows "buffer_inv b1 \<and> length (buf_content b1) \<le> length (buf_content b) \<and>
    (x \<noteq> None \<longrightarrow> length (buf_content b1) < length (buf_content b))"
proof -
  obtain n d b2 where d: "ssh_buffer_get_data b 4 = (n, d, b2)"
    by (rule prod_cases3)
  note s = get_data_shrinks [OF inv d]
  have u: "ssh_buffer_get_u32 b = (n, if n = 0 then None else Some (load_bytes d), b2)"
    by (simp add: ssh_buffer_get_u32_def d)
  show ?thesis
  proof (cases "n = 0")
    case True
    then show ?thesis
      using run s u by (simp add: ssh_buffer_get_ssh_string_def)
  next
    case False
    define hostlen where "hostlen = unat (bswap (load_bytes d :: u32))"
    obtain k d1 b3 where d1: "ssh_buffer_get_data b2 hostlen = (k, d1, b3)"
      by (rule prod_cases3)
    have "b1 = b2 \<or> b1 = b3"
      using run False u
      by (simp add: ssh_buffer_get_ssh_string_def hostlen_def [symmetric] d1 split: if_splits option.splits)
    then show ?thesis
      using s(1) s(3) False get_data_shrinks(1,2) [OF s(1) d1] by auto
  qed
qed

lemma get_u8_parts:
  assumes "buffer_inv b" and "ssh_buffer_get_u8 b = (n, t, b1)"
  shows "buffer_inv b1" and "length (buf_content b1) \<le> length (buf_content b)"
  using assms(2) get_data_shrinks [OF assms(1)]
  by (auto simp: ssh_buffer_get_u8_def split: prod.splits)

lemma get_u32_parts:
  assumes "buffer_inv b" and "ssh_buffer_get_u32 b = (n, t, b1)"
  shows "buffer_inv b1" and "length (buf_content b1) \<le> length (buf_content b)"
  using assms(2) get_data_shrinks [OF assms(1)]
  by (auto simp: ssh_buffer_get_u32_def split: prod.splits)

subsection \<open>The list the agent sends\<close>

definition agent_list_ok :: "ssh_agent \<Rightarrow> bool" where
  "agent_list_ok ag \<longleftrightarrow>
     (\<exists>b. ag_ident ag = Some b \<and> buffer_inv b \<and> length (buf_content b) \<le> AGENT_MSG_MAXLEN)"

definition keys_left :: "ssh_agent \<Rightarrow> nat" where
  "keys_left ag = (case ag_ident ag of None \<Rightarrow> 0 | Some b \<Rightarrow> length (buf_content b))"

lemma read_loop_bounded:
  assumes "agent_read_loop h stream len reply = (rc, reply1)" and "buffer_inv reply"
  shows "buffer_inv reply1 \<and> length (buf_content reply1) \<le> length (buf_content reply) + len"
  using assms
proof (induction h stream len reply rule: agent_read_loop.induct)
  case (1 h stream len reply)
  define n where "n = min len 1024"
  have step: "agent_read_loop h stream len reply =
      (if len = 0 then (0, reply) else if length stream < n then (- 1, reply)
       else case ssh_buffer_add_data h reply (Some (take n stream)) n of
           (rc, reply1) \<Rightarrow> if rc < 0 then (- 1, reply1) else agent_read_loop h (drop n stream) (len - n) reply1)"
    by (subst agent_read_loop.simps) (simp only: n_def Let_def)
  show ?case
  proof (cases "len = 0 \<or> length stream < n")
    case True
    then show ?thesis
      using 1(2,3) step by (auto split: if_splits)
  next
    case False
    have n: "n \<le> len" "n < 4294967296"
      by (simp_all add: n_def)
    have enough: "n \<le> length (take n stream)"
      using False by simp
    from 1(3) n(2) enough show ?thesis
    proof (cases rule: add_data_cases [where h = h])
      case (added b')
      have run: "agent_read_loop h (drop n stream) (len - n) b' = (rc, reply1)"
        using 1(2) False added(1) step by simp
      have "\<not> (length stream < min len 1024)"
        using False by (simp add: n_def)
      then have "buffer_inv reply1 \<and> length (buf_content reply1) \<le> length (buf_content b') + (len - n)"
        using 1(1) [of n] False added(1,2) run by (simp add: n_def)
      then show ?thesis
        using added(3) False n(1) by simp
    next
      case (failed b')
      have "reply1 = b'"
        using 1(2) False failed(1) step by simp
      then show ?thesis
        using failed by simp
    qed
  qed
qed

lemma agent_talk_bounded:
  assumes "agent_talk h peer request reply = (rc, reply1)" and "buffer_inv reply" and "buf_content reply = []"
  shows "buffer_inv reply1 \<and> length (buf_content reply1) \<le> AGENT_MSG_MAXLEN"
  using assms
  by (auto simp: agent_talk_def Let_def split: option.splits if_splits dest!: read_loop_bounded)

lemma agent_answer_bounded:
  assumes "agent_answer h peer request expected = Some reply"
  shows "buffer_inv reply \<and> length (buf_content reply) \<le> AGENT_MSG_MAXLEN"
proof -
  obtain reply0 where r0: "ssh_buffer_new h = Some reply0"
    using assms by (cases "ssh_buffer_new h") (simp_all add: agent_answer_def)
  obtain rc reply1 where t: "agent_talk h peer request reply0 = (rc, reply1)"
    by (rule prod.exhaust)
  obtain n x reply2 where u: "ssh_buffer_get_u8 reply1 = (n, x, reply2)"
    by (rule prod_cases3)
  have "reply = reply2"
    using assms by (simp add: agent_answer_def r0 t u split: if_splits)
  then show ?thesis
    using agent_talk_bounded [OF t buffer_new_Some(1,2) [OF r0]] get_u8_parts [OF _ u] by fastforce
qed

lemma ident_count_list:
  assumes "ssh_agent_get_ident_count h peer ag = (n, ag1)" and "n > 0"
  shows "agent_list_ok ag1"
proof -
  obtain r0 where r0: "ssh_buffer_new h = Some r0"
    using assms by (cases "ssh_buffer_new h") (auto simp: ssh_agent_get_ident_count_def)
  obtain rc request where a: "ssh_buffer_add_u8 h r0 11 = (rc, request)"
    by (rule prod.exhaust)
  obtain reply where r: "agent_answer h peer request 12 = Some reply"
    using assms by (cases "agent_answer h peer request 12")
      (auto simp: ssh_agent_get_ident_count_def r0 a split: if_splits)
  obtain m count reply1 where u: "ssh_buffer_get_u32 reply = (m, count, reply1)"
    by (rule prod_cases3)
  have "ag_ident ag1 = Some reply1"
    using assms by (auto simp: ssh_agent_get_ident_count_def r0 a r u Let_def split: if_splits)
  then show ?thesis
    using agent_answer_bounded [OF r] get_u32_parts [OF _ u] by (fastforce simp: agent_list_ok_def)
qed

text \<open>Taking a key never reads through a null list, and a key that was taken is no longer in the list.\<close>

lemma next_ident_shrinks:
  assumes ok: "agent_list_ok ag"
  obtains k c ag1 where "ssh_agent_get_next_ident h ko ag = Ret (k, c, ag1)" and "agent_list_ok ag1"
    and "k \<noteq> None \<Longrightarrow> keys_left ag1 < keys_left ag"
proof -
  obtain b where b: "ag_ident ag = Some b" "buffer_inv b" "length (buf_content b) \<le> AGENT_MSG_MAXLEN"
    using ok by (auto simp: agent_list_ok_def)
  obtain x b1 where x: "ssh_buffer_get_ssh_string h b = (x, b1)"
    by (rule prod.exhaust)
  obtain y b2 where y: "ssh_buffer_get_ssh_string h b1 = (y, b2)"
    by (rule prod.exhaust)
  note s1 = get_ssh_string_shrinks [OF b(2) x]
  note s2 = get_ssh_string_shrinks [OF conjunct1 [OF s1] y]
  consider "ag_count ag = 0" | "ag_count ag \<noteq> 0" "x = None"
    | "ag_count ag \<noteq> 0" "x \<noteq> None" "y = None" | "ag_count ag \<noteq> 0" "x \<noteq> None" "y \<noteq> None"
    by blast
  then show ?thesis
  proof cases
    case 1
    then show ?thesis
      using that ok by (simp add: ssh_agent_get_next_ident_def)
  next
    case 2
    then show ?thesis
      using that [of None None "ag\<lparr>ag_ident := Some b1\<rparr>"] b s1
      by (simp add: ssh_agent_get_next_ident_def x agent_list_ok_def)
  next
    case 3
    then show ?thesis
      using that [of None None "ag\<lparr>ag_ident := Some b2\<rparr>"] b s1 s2
      by (auto simp: ssh_agent_get_next_ident_def x y agent_list_ok_def)
  next
    case 4
    then show ?thesis
      using that [of "ssh_pki_import_pubkey_blob h ko x" "ssh_string_to_char h y" "ag\<lparr>ag_ident := Some b2\<rparr>"] b s1 s2
      by (auto simp: ssh_agent_get_next_ident_def x y agent_list_ok_def keys_left_def)
  qed
qed

subsection \<open>The search\<close>

text \<open>What is kept between two calls: a key that waits for its answer came from a list.\<close>

definition search_ok :: "pubkey_auth \<Rightarrow> bool" where
  "search_ok pa \<longleftrightarrow>
     (case pa_agent_state pa of None \<Rightarrow> True | Some st \<Rightarrow> ast_pubkey st = None \<or> agent_list_ok (pa_agent pa))"

text \<open>A call, and a search, that returns with a session of a given kind.\<close>

definition returns_in :: "(ssh_session \<Rightarrow> bool) \<Rightarrow> (int \<times> ssh_session) run \<Rightarrow> bool" where
  "returns_in sound r \<longleftrightarrow> (case r of Ret (rc, s) \<Rightarrow> sound s | Overflow \<Rightarrow> False)"

definition search_returns :: "(ssh_session \<Rightarrow> bool) \<Rightarrow> auth_result run \<Rightarrow> bool" where
  "search_returns sound r \<longleftrightarrow> (case r of Ret (rc, pa, s) \<Rightarrow> search_ok pa \<and> sound s | Overflow \<Rightarrow> False)"

lemma search_returns_Ret [simp]: "search_returns sound (Ret (rc, pa, s)) \<longleftrightarrow> search_ok pa \<and> sound s"
  by (simp add: search_returns_def)

lemma returns_inE:
  assumes "returns_in sound r"
  obtains rc s where "r = Ret (rc, s)" and "sound s"
  using assms by (cases r) (auto simp: returns_in_def)

lemma agent_loop_ends:
  assumes calls: "\<And>s key. sound s \<Longrightarrow>
      returns_in sound (ssh_userauth_try_publickey wait e pk s username (Some key)) \<and>
      returns_in sound (ssh_userauth_agent_publickey wait e pk s username key)"
    and "agent_list_ok (pa_agent pa)" and "sound s"
    and "(if ast_pubkey st = None then 0 else Suc (keys_left (pa_agent pa))) < n"
  shows "search_returns sound (agent_loop n wait e pk username rc st pa s)"
  using assms(2-4)
proof (induction n arbitrary: rc st pa s)
  case 0
  then show ?case
    by simp
next
  case (Suc n)
  show ?case
  proof (cases "ast_pubkey st")
    case None
    then show ?thesis
      using Suc.prems(2) by (simp add: search_ok_def)
  next
    case (Some key)
    obtain k c ag where taken: "ssh_agent_get_next_ident (pe_heap e) (pu_keys pk) (pa_agent pa) = Ret (k, c, ag)"
        and ag: "agent_list_ok ag" and less: "k \<noteq> None \<Longrightarrow> keys_left ag < keys_left (pa_agent pa)"
      using next_ident_shrinks [OF Suc.prems(1)] by blast
    have "(if k = None then 0 else Suc (keys_left ag)) < n"
      using less Suc.prems(3) Some by (cases k) auto
    then have following: "search_returns sound (agent_loop n wait e pk username rc1
        \<lparr>ast_state = SSH_AGENT_STATE_NONE, ast_pubkey = k, ast_comment = c\<rparr> (pa\<lparr>pa_agent := ag\<rparr>) s0)" if "sound s0" for rc1 s0
      using that by (intro Suc.IH; cases k) (simp_all add: ag)
    have kept: "search_ok (pa\<lparr>pa_agent_state := Some st1\<rparr>)" "search_ok (pa\<lparr>pa_agent_state := None\<rparr>)" for st1
      using Suc.prems(1) by (simp_all add: search_ok_def)
    obtain rc1 s1 where o1: "ssh_userauth_try_publickey wait e pk s username (Some key) = Ret (rc1, s1)" "sound s1"
      using calls [OF Suc.prems(2), of key] returns_inE by blast
    obtain rc2 s2 where a2: "ssh_userauth_agent_publickey wait e pk s username key = Ret (rc2, s2)" "sound s2"
      using calls [OF Suc.prems(2), of key] returns_inE by blast
    obtain rc3 s3 where a3: "ssh_userauth_agent_publickey wait e pk s1 username key = Ret (rc3, s3)" "sound s3"
      using calls [OF o1(2), of key] returns_inE by blast
    show ?thesis
      by (simp add: Some taken o1 a2 a3 following kept)
  qed
qed

text \<open>The length of the list, one more for the key in hand and one more for the end.\<close>

definition agent_fuel :: nat where
  "agent_fuel = AGENT_MSG_MAXLEN + 2"

lemma keys_left_bound: "agent_list_ok ag \<Longrightarrow> Suc (keys_left ag) < agent_fuel"
  by (auto simp: agent_list_ok_def keys_left_def agent_fuel_def)

text \<open>
  C29. Termination: the search through the keys of an agent ends. If the single calls that offer a key
  and that have the agent sign return, with a session for which they return again, then so does the
  whole search, with any fuel from \<open>agent_fuel\<close> on. Whatever the agent answers, its list is
  shorter after each key, although the loop stops only at a key that is not there; and what the search
  keeps for the next call is a key of such a list again.
\<close>
theorem agent_search_ends:
  assumes calls: "\<And>s key. sound s \<Longrightarrow>
      returns_in sound (ssh_userauth_try_publickey wait e pk s username (Some key)) \<and>
      returns_in sound (ssh_userauth_agent_publickey wait e pk s username key)"
    and start: "search_ok pa" "sound s" and fuel: "agent_fuel \<le> n"
  shows "\<exists>rc pa1 s1. ssh_userauth_agent n wait e pk username pa s = Ret (rc, pa1, s1) \<and> search_ok pa1 \<and> sound s1"
proof -
  have loop: "search_returns sound (agent_loop n wait e pk username SSH_AUTH_ERROR st p s)"
    if "agent_list_ok (pa_agent p)" for st p
    using agent_loop_ends [OF calls that start(2), where n = n and st = st] keys_left_bound [OF that] fuel by simp
  have "search_returns sound (ssh_userauth_agent n wait e pk username pa s)"
  proof (cases "\<exists>st key. pa_agent_state pa = Some st \<and> ast_pubkey st = Some key")
    case True
    then obtain st key where st: "pa_agent_state pa = Some st" "ast_pubkey st = Some key"
      by blast
    have "agent_list_ok (pa_agent pa)"
      using start(1) st by (simp add: search_ok_def)
    then have "agent_list_ok (pa_agent (pa\<lparr>pa_agent := pa_agent pa, pa_agent_state := Some (st\<lparr>ast_pubkey := Some key, ast_comment := ast_comment st\<rparr>)\<rparr>))"
      by simp
    note found = loop [OF this]
    show ?thesis
      unfolding ssh_userauth_agent_def using found start by (simp add: st Let_def)
  next
    case False
    obtain m ag1 where c: "ssh_agent_get_ident_count (pe_heap e) (pu_agent pk) (pa_agent pa) = (m, ag1)"
      by (rule prod.exhaust)
    obtain k x ag where first: "ssh_agent_get_first_ident (pe_heap e) (pu_agent pk) (pu_keys pk) (pa_agent pa) = Ret (k, x, ag)"
        and list: "k \<noteq> None \<Longrightarrow> agent_list_ok ag"
    proof (cases "m > 0")
      case True
      obtain k x ag where "ssh_agent_get_next_ident (pe_heap e) (pu_keys pk) ag1 = Ret (k, x, ag)" and "agent_list_ok ag"
        by (rule next_ident_shrinks [OF ident_count_list [OF c True], where h = "pe_heap e" and ko = "pu_keys pk"])
      then show ?thesis
        using that [of k x ag] True by (simp add: ssh_agent_get_first_ident_def c)
    next
      case False
      then show ?thesis
        using that by (simp add: ssh_agent_get_first_ident_def c)
    qed
    define st where "st = (case pa_agent_state pa of Some st \<Rightarrow> st
      | None \<Rightarrow> \<lparr>ast_state = SSH_AGENT_STATE_NONE, ast_pubkey = None, ast_comment = None\<rparr>)"
    have st: "ast_pubkey st = None"
      using False by (auto simp: st_def split: option.splits)
    show ?thesis
    proof (cases k)
      case None
      then show ?thesis
        unfolding ssh_userauth_agent_def st_def [symmetric] using start by (simp add: first st search_ok_def Let_def)
    next
      case (Some key)
      then have "agent_list_ok (pa_agent (pa\<lparr>pa_agent := ag, pa_agent_state := Some (st\<lparr>ast_pubkey := Some key, ast_comment := x\<rparr>)\<rparr>))"
        using list by simp
      note found = loop [OF this]
      show ?thesis
        unfolding ssh_userauth_agent_def st_def [symmetric] using found start by (simp add: first st Some Let_def)
    qed
  qed
  then show ?thesis
    by (auto simp: search_returns_def split: run.splits prod.splits)
qed

text \<open>
  An agent with one key of the type Ed25519, a client that accepts no algorithm, and the service already granted.
\<close>

definition searching_env :: pubkey_env where
  "searching_env = \<lparr>pu_keys = \<lparr>ko_build_dss = (\<lambda>p q g y. None), ko_build_rsa = (\<lambda>e n. None), ko_ecdsa_nid = (\<lambda>c. - 1),
       ko_build_ecdsa = (\<lambda>n e. None), ko_ecdsa_name = (\<lambda>m. []), ko_compare = (\<lambda>t a b. 1), ko_blob = (\<lambda>k. None)\<rparr>,
     pu_accepted = Some [0], pu_enabled = True, pu_identities = [], pu_pubkey_file = (\<lambda>f. FileEof),
     pu_privkey_file = (\<lambda>f. FileEof), pu_public_of = (\<lambda>k. None), pu_sign = (\<lambda>k d x. None), pu_agent_running = True,
     pu_agent = (\<lambda>m. let key = sized (sized (map of_char ''ssh-ed25519'') @ sized (replicate 32 7));
                         answer = [12, 0, 0, 0, 1] @ key @ sized [104, 111, 109, 101] in Some (sized answer))\<rparr>"

definition served :: "ssh_session \<Rightarrow> bool" where
  "served s \<longleftrightarrow> s_client s \<and> s_pending_call s = SSH_PENDING_CALL_NONE \<and> s_service_state s = SSH_AUTH_SERVICE_ACCEPTED"

lemma empty_group_allows_nothing:
  assumes "plain_name n"
  shows "ssh_match_group [0] (map of_char n @ [0]) = 0"
proof -
  have "cstr (map of_char n @ [0] :: bytes) = map of_char n"
    unfolding cstr_def using plain_name_bytes [OF assms] by (subst takeWhile_append2) auto
  moreover have "map of_char n \<noteq> ([] :: bytes)"
    using assms by (simp add: plain_name_def)
  ultimately show ?thesis
    by (simp add: ssh_match_group_def match_group_loop.simps [of "[]"] cstr_def)
qed

lemma allowed_nothing: "s_client s \<Longrightarrow> allowed_algorithm e searching_env s t = None"
  by (auto simp: allowed_algorithm_def ssh_key_algorithm_allowed_def empty_group_allows_nothing [OF algorithm_plain]
      searching_env_def [THEN arg_cong, of pu_accepted, simplified] split: option.splits)

lemma offers_refused:
  "served s \<Longrightarrow> returns_in served (ssh_userauth_try_publickey wait sample_env searching_env s username (Some key))"
  by (simp add: ssh_userauth_try_publickey_def allowed_nothing served_def returns_in_def)

lemma signs_nothing:
  "served s \<Longrightarrow>
    returns_in served (ssh_userauth_agent_publickey (\<lambda>c s. Ret (SSH_OK, s)) sample_env searching_env s username key)"
  by (simp add: ssh_userauth_agent_publickey_def served_def returns_in_def ssh_userauth_request_service_def
      ssh_service_request_def service_pending_def run_bind_Ret publickey_failed_def searching_env_def)

theorem agent_search_ends_witness:
  "let pa = \<lparr>pa_agent = \<lparr>ag_ident = None, ag_count = 0\<rparr>, pa_agent_state = None, pa_auto = None\<rparr>;
       s = sample_session\<lparr>s_client := True, s_pending_call := SSH_PENDING_CALL_NONE, s_service_state := SSH_AUTH_SERVICE_ACCEPTED\<rparr>
   in \<exists>rc pa1 s1. ssh_userauth_agent agent_fuel (\<lambda>c s. Ret (SSH_OK, s)) sample_env searching_env None pa s = Ret (rc, pa1, s1) \<and>
        search_ok pa1 \<and> served s1"
  unfolding Let_def
  by (rule agent_search_ends)
    (simp_all add: offers_refused signs_nothing search_ok_def served_def [of "r\<lparr>s_service_state := x\<rparr>" for r x])

end
