(* ===== verification/Spec2Isabelle.thy ===== *)
theory Spec2Isabelle
  imports Base64 Match Misc Packet_Filter Packet_Wire Login_Trace Scp_Transfer Known_Hosts_Check Agent_Search
begin

text \<open>
  A model of the client side of the SSH library of the terminal (\<^verbatim>\<open>src/libssh\<close> of the repository), from
  its byte strings up to the copying of files, with the theorems that make it correct. This theory
  only joins the others and describes them.

  \<^bold>\<open>How the code is read.\<close> Machine integers are words, arithmetic of \<^verbatim>\<open>size_t\<close> is written out modulo
  \<open>2 ^ 64\<close>. A block of memory is the list of its bytes and a null pointer is \<^const>\<open>None\<close>; an access
  outside of a block, or through a pointer to something that was freed, has no result: the type
  \<open>run\<close> of \<^verbatim>\<open>Tokens\<close> is \<open>Ret x\<close> or \<open>Overflow\<close>, and \<open>run_bind\<close> of \<^verbatim>\<open>Kex\<close> composes such runs. The
  allocator is a parameter that grants or refuses every request, so the paths without memory are
  part of every statement. Structures are records with the fields of the C structures; a
  function that changes a structure returns the changed one. Messages for the log and for the
  user (\<^verbatim>\<open>ssh_set_error\<close>) are left out, return codes and states are not. What the library calls in
  other libraries, ciphers, MACs, compression, big numbers, curves, signatures, enters through
  records of functions (\<open>crypt_ops\<close>, \<open>kex_ops\<close>, \<open>exchange_ops\<close>, \<open>bignum_ops\<close>; \<open>packet_env\<close> gathers those of
  the packet layer), and what a theorem needs of them is a named hypothesis, with a witness.

  \<^bold>\<open>Parts and theories.\<close>

  \<^item> \<open>Prelude\<close>: integers and their bytes in memory and on the wire, the allocator, writing into blocks,
    lemmas on lists and words. \<open>Interfaces\<close>: the locales \<open>byte_queue\<close> (what was put in comes out in any
    other chunking) and \<open>safe_machine\<close> (steps that keep an invariant), interpreted in \<open>SSH_Buffer\<close>.
  \<^item> \<open>SSH_String\<close> (\<^verbatim>\<open>string.c\<close>), \<open>SSH_Buffer\<close> (\<^verbatim>\<open>buffer.c\<close>), \<open>SSH_Pack\<close> (the variadic
    \<^verbatim>\<open>ssh_buffer_pack\<close> and \<^verbatim>\<open>ssh_buffer_unpack\<close> with their format language and rollback, \<^verbatim>\<open>bignum.c\<close>),
    \<open>Pack_Call\<close> (the fixed formats the protocol uses). The buffer keeps its invariant under every
    operation but one, is a queue of bytes, and is zero when a secure one is freed; what is packed
    is unpacked again, and an error in unpacking gives back everything.
  \<^item> \<open>Base64\<close> (\<^verbatim>\<open>base64.c\<close>), \<open>Tokens\<close> (\<^verbatim>\<open>token.c\<close>), \<open>Match\<close> (\<^verbatim>\<open>match.c\<close>, equal to a reference definition of
    wildcard patterns as long as its recursion limit is not reached), \<open>Misc\<close> (\<^verbatim>\<open>misc.c\<close>).
  \<^item> \<open>Session\<close>: \<^verbatim>\<open>struct ssh_session_struct\<close> with the parts of \<^verbatim>\<open>crypto.h\<close>, \<^verbatim>\<open>auth.h\<close>, \<^verbatim>\<open>kex.h\<close>, \<^verbatim>\<open>channels.h\<close> it
    holds. The channels are an association list from addresses.
  \<^item> \<open>Packet_Filter\<close>, \<open>Packet_Crypto\<close>, \<open>Packet_Send\<close>, \<open>Packet_Receive\<close> (\<^verbatim>\<open>packet.c\<close>, \<^verbatim>\<open>packet_crypt.c\<close>, \<^verbatim>\<open>gzip.c\<close>):
    the filter of incoming packets, the keys of each direction and when they are renewed, framing,
    padding, compression and encryption, the queue of packets that wait for new keys, the reader
    with its states. \<open>Packet_Queue\<close> shows what sending keeps, that nothing but the key exchange leaves
    while keys are exchanged and that the rest leaves in order; \<open>Packet_Wire\<close> that what one side
    sends the other takes apart to the same payload.
  \<^item> \<open>Kex\<close> (\<^verbatim>\<open>kex.c\<close>), \<open>Key_Exchange\<close> (\<^verbatim>\<open>dh.c\<close>, \<^verbatim>\<open>dh_crypto.c\<close>, \<^verbatim>\<open>dh-gex.c\<close>, \<^verbatim>\<open>ecdh.c\<close>, \<^verbatim>\<open>ecdh_crypto.c\<close>,
    \<^verbatim>\<open>curve25519.c\<close>), \<open>Client\<close> (\<^verbatim>\<open>client.c\<close>, \<^verbatim>\<open>packet_cb.c\<close>), \<open>Auth\<close> (\<^verbatim>\<open>auth.c\<close>): negotiation, the exchanges of the
    client, the state machine of the connection, and the login with none, password and
    keyboard-interactive.
  \<^item> \<open>Agent\<close> (\<^verbatim>\<open>agent.c\<close> as built for Unix; the agent is a function from what is written to it to what it writes
    back) and \<open>Auth_Publickey\<close> (\<^verbatim>\<open>auth.c\<close>, and of \<^verbatim>\<open>pki.c\<close> the choice of algorithms and signing): offering a key,
    the signed request, the keys of the agent, the automatic search over agent and files.
    \<open>Publickey_Signature\<close>: what is signed is the identifier of the session and the request that is sent,
    to the last byte. \<open>Agent_Search\<close>: the search over the keys of an agent ends, whatever it answers.
    What is done with private keys and the files of the user are functions of \<open>pubkey_env\<close>.
  \<^item> \<open>Login\<close> and \<open>Login_Trace\<close>: one relation (\<open>keeps\<close>) says what the operations may do to the login;
    an inductive definition collects the sessions a client reaches by feeding what the socket
    delivers to \<^verbatim>\<open>ssh_packet_socket_callback\<close> and by its own calls, those with keys included, in any order. Nobody is
    authenticated without a message of success the filter let pass, and there is no connection without
    a host key that was accepted.
  \<^item> \<open>Channel\<close> (\<^verbatim>\<open>channels.c\<close>): opening, closing, requests, windows and data. \<open>Channel_Table\<close> has the locale
    \<open>channel_frame\<close>, the predicates on sessions that sending and updates of a channel keep, and its extension
    \<open>channel_data_frame\<close> for those that data keep too; their lemmas about every handler and call are
    interpreted for the table of channels, for the login and (\<open>Channel_Stream\<close>) for the unread bytes of a
    channel. \<open>Channel_Flow\<close> is about writing and the windows of both sides.
  \<^item> \<open>Sftp\<close> (\<^verbatim>\<open>sftp.c\<close>, the client): packets on a channel, the queue of replies, attributes, every request.
    \<open>Sftp_Protocol\<close>: attributes survive the wire, and the reader of packets cuts one frame off the
    stream of the channel, which rests on the interpretation of \<open>channel_frame\<close> there. \<open>Sftp_Requests\<close>: a
    request takes the first reply with its number and leaves the others; reads ask at the offset
    and, against a peer that answers with the bytes of a file, return the file.
  \<^item> \<open>Public_Key\<close> (\<^verbatim>\<open>pki.c\<close>, the public halves of keys: names, import, export, comparison), \<open>Known_Hosts\<close>
    (\<^verbatim>\<open>knownhosts.c\<close>) and \<open>Known_Hosts_Check\<close>: a server counts as known only by a line that names it and
    holds its key, the verdict is that of the lines, and a host that was added is known. What a
    cryptographic library does with keys is the record \<open>key_ops\<close>; files are functions of \<open>known_hosts_io\<close>.
    Whether the user accepts a key is not part of the library: \<open>host_key_accepted\<close> of \<open>Client\<close> is its
    check of the signature of the exchange.
  \<^item> \<open>Scp\<close> (\<^verbatim>\<open>scp.c\<close>) and \<open>Scp_Transfer\<close>: the other protocol for files; its lines are read back as they
    were meant and no more bytes are sent or read than were announced.

  \<^bold>\<open>Bounds and fuel.\<close> \<^verbatim>\<open>ssh_packet_send\<close> starts a key exchange, which sends: its depth is 2, and a theorem
  shows that more changes nothing. \<^verbatim>\<open>ssh_packet_socket_callback\<close> goes over at most as many packets as
  there are bytes, so its fuel is one more than their number. Writing to a channel has the fuel
  \<open>2 * n + 1\<close> for \<open>n\<close> bytes: a turn of the loop either sends a byte or waits for the window and is followed by one
  that sends. The loops that wait for the other side (the reader of packets of \<open>Sftp\<close>, the wait
  for a reply, the end of a channel in \<open>Scp\<close>) may go on for ever when nothing comes; they have a fuel
  that is a parameter, and \<open>packet_read_completes\<close> says how much is enough when the bytes are
  there. The search over the keys of an agent has the fuel \<open>agent_fuel\<close>, the greatest length of the
  agent's answer and two more: every key takes bytes off it. The event loop \<^verbatim>\<open>ssh_handle_packets_termination\<close> is a parameter: a function that may change the
  session in any way a theorem does not exclude.

  \<^bold>\<open>Not modelled.\<close> Sockets, \<^verbatim>\<open>poll.c\<close> and \<^verbatim>\<open>connect.c\<close>: input and output of the operating system. The
  backends of \<^verbatim>\<open>libcrypto.c\<close>, \<^verbatim>\<open>libgcrypt.c\<close>, \<^verbatim>\<open>libmbedcrypto.c\<close>, private keys, key files
  and the arithmetic of signatures in the \<^verbatim>\<open>pki*.c\<close> files: they call cryptographic libraries.
  The server side (\<^verbatim>\<open>server.c\<close>, \<^verbatim>\<open>bind.c\<close>, \<^verbatim>\<open>messages.c\<close>,
  \<^verbatim>\<open>sftpserver.c\<close>, the parts under \<^verbatim>\<open>WITH_SERVER\<close>), which the terminal does not run. Authentication
  with GSSAPI; the agent of Windows; forwarding, X11 and \<^verbatim>\<open>ssh_channel_select\<close>. Options and
  configuration files of the user: \<^verbatim>\<open>ssh_options_apply\<close> is a parameter of \<open>Known_Hosts\<close>. Outside of the library: the regular expressions of
  Onigmo, the vendored ciphers, and the C++ code of the terminal.
\<close>

end
